(* ===== verification/Prelude.thy ===== *)
theory Prelude
  imports Main "HOL-Library.Multiset"
begin

text \<open>
  Shared vocabulary of the development.

  Every service of the platform is a set of \<^verbatim>\<open>async\<close> methods over external systems
  (PostgreSQL through TypeORM, Redis, Kafka, gRPC peers, the payment provider, the clock).
  None of these systems is part of the repository, so each is a parameter: a record of
  actions over a world type \<open>'w\<close> about which nothing is known but the laws of the locales
  in theory \<open>Storage\<close>.  An action takes the world to an outcome (\<open>Inl\<close>: the exception that
  was thrown, \<open>Inr\<close>: the value of the promise) and the world afterwards.

  This theory holds the exceptions, the combinators that mirror the TypeScript control flow
  (\<open>await\<close>, \<open>throw\<close>, \<open>try_catch\<close>, \<open>try_finally\<close>, the two loops), weakest preconditions for
  them, and \<open>obeys\<close>, the satisfaction relation between an action and a relation on what an
  observer sees of the world.
\<close>

section \<open>Exceptions\<close>

text \<open>
  The exception classes of NestJS that the sources throw, the errors of the Stripe client (with
  their \<^verbatim>\<open>type\<close> and \<^verbatim>\<open>statusCode\<close>), and \<^verbatim>\<open>Error\<close> for the rest.  \<open>TooManyRequests\<close> is an
  \<^verbatim>\<open>HttpException\<close> with status 429 whose body has a \<^verbatim>\<open>retryAfter\<close> (\<open>None\<close> is \<^verbatim>\<open>NaN\<close>).
\<close>

datatype exn =
    BadRequest string
  | NotFound string
  | Unauthorized string
  | Conflict string
  | InternalServerError string
  | HttpException nat string
  | JsError string
  | StripeError string "nat option" string
  | TooManyRequests string "int option"

fun message :: "exn \<Rightarrow> string" where
  "message (BadRequest s) = s"
| "message (NotFound s) = s"
| "message (Unauthorized s) = s"
| "message (Conflict s) = s"
| "message (InternalServerError s) = s"
| "message (HttpException c s) = s"
| "message (JsError s) = s"
| "message (StripeError t c s) = s"
| "message (TooManyRequests s retryAfter) = s"

section \<open>Actions\<close>

type_synonym ('w, 'a) act = "'w \<Rightarrow> (exn + 'a) \<times> 'w"

definition return :: "'a \<Rightarrow> ('w, 'a) act" where
  "return a = (\<lambda>w. (Inr a, w))"

definition throw :: "exn \<Rightarrow> ('w, 'a) act" where
  "throw e = (\<lambda>w. (Inl e, w))"

text \<open>The two outcomes, as tests.\<close>

definition returns :: "('w, 'a) act \<Rightarrow> 'w \<Rightarrow> bool" where
  "returns m w = (case fst (m w) of Inl e \<Rightarrow> False | Inr a \<Rightarrow> True)"

definition throws :: "('w, 'a) act \<Rightarrow> 'w \<Rightarrow> bool" where
  "throws m w = (case fst (m w) of Inl e \<Rightarrow> True | Inr a \<Rightarrow> False)"

lemma returnsE: "returns m w \<Longrightarrow> (\<And>a w'. m w = (Inr a, w') \<Longrightarrow> P) \<Longrightarrow> P"
  by (cases "m w") (auto simp: returns_def split: sum.splits)

lemma throwsE: "throws m w \<Longrightarrow> (\<And>e w'. m w = (Inl e, w') \<Longrightarrow> P) \<Longrightarrow> P"
  by (cases "m w") (auto simp: throws_def split: sum.splits)

text \<open>\<^verbatim>\<open>const x = await m; k(x)\<close>: an exception of \<open>m\<close> skips \<open>k\<close>.\<close>

definition await :: "('w, 'a) act \<Rightarrow> ('a \<Rightarrow> ('w, 'b) act) \<Rightarrow> ('w, 'b) act" where
  "await m k = (\<lambda>w. case m w of (Inl e, w') \<Rightarrow> (Inl e, w') | (Inr a, w') \<Rightarrow> k a w')"

text \<open>\<^verbatim>\<open>try { m } catch (error) { h(error) }\<close>.\<close>

definition try_catch :: "('w, 'a) act \<Rightarrow> (exn \<Rightarrow> ('w, 'a) act) \<Rightarrow> ('w, 'a) act" where
  "try_catch m h = (\<lambda>w. case m w of (Inl e, w') \<Rightarrow> h e w' | (Inr a, w') \<Rightarrow> (Inr a, w'))"

text \<open>\<^verbatim>\<open>try { m } finally { f }\<close>: \<open>f\<close> runs on both outcomes and overrides them when it throws.\<close>

definition try_finally :: "('w, 'a) act \<Rightarrow> ('w, unit) act \<Rightarrow> ('w, 'a) act" where
  "try_finally m f = (\<lambda>w. case m w of (r, w') \<Rightarrow>
     (case f w' of (Inl e, w'') \<Rightarrow> (Inl e, w'') | (Inr _, w'') \<Rightarrow> (r, w'')))"

text \<open>\<^verbatim>\<open>for (const x of xs) { ... }\<close> over an accumulator of the loop's local variables.\<close>

primrec for_fold :: "'x list \<Rightarrow> ('acc \<Rightarrow> 'x \<Rightarrow> ('w, 'acc) act) \<Rightarrow> 'acc \<Rightarrow> ('w, 'acc) act" where
  "for_fold [] body acc = return acc"
| "for_fold (x # xs) body acc = await (body acc x) (\<lambda>acc'. for_fold xs body acc')"

text \<open>The same loop without local variables.\<close>

primrec for_each :: "'x list \<Rightarrow> ('x \<Rightarrow> ('w, unit) act) \<Rightarrow> ('w, unit) act" where
  "for_each [] body = return ()"
| "for_each (x # xs) body = await (body x) (\<lambda>_. for_each xs body)"

text \<open>
  Code that mutates an object acts on the world and that object: a worker with its re-entrancy
  flag (\<^verbatim>\<open>private isProcessing = false\<close>), or a method that assigns to the fields of an entity it
  has loaded.  What it has assigned when an exception is thrown is still there in the handler.
  \<open>with_object\<close> runs such code on an object that nobody else sees afterwards.
\<close>

definition on_world :: "('w, 'a) act \<Rightarrow> ('w \<times> 's, 'a) act" where
  "on_world m = (\<lambda>(w, b). case m w of (r, w') \<Rightarrow> (r, (w', b)))"

definition get_object :: "('w \<times> 's, 's) act" where
  "get_object = (\<lambda>(w, b). (Inr b, (w, b)))"

definition assign :: "('s \<Rightarrow> 's) \<Rightarrow> ('w \<times> 's, unit) act" where
  "assign f = (\<lambda>(w, b). (Inr (), (w, f b)))"

definition with_object :: "'s \<Rightarrow> ('w \<times> 's, 'a) act \<Rightarrow> ('w, 'a) act" where
  "with_object b m = (\<lambda>w. case m (w, b) of (r, (w', b')) \<Rightarrow> (r, w'))"

abbreviation get_flag :: "('w \<times> bool, bool) act" where
  "get_flag \<equiv> get_object"

abbreviation set_flag :: "bool \<Rightarrow> ('w \<times> bool, unit) act" where
  "set_flag b \<equiv> assign (\<lambda>_. b)"

section \<open>Weakest preconditions\<close>

named_theorems wp_simps "weakest preconditions of the control-flow combinators"

definition wp :: "('w, 'a) act \<Rightarrow> (exn + 'a \<Rightarrow> 'w \<Rightarrow> bool) \<Rightarrow> 'w \<Rightarrow> bool" where
  "wp m Q w \<longleftrightarrow> (case m w of (r, w') \<Rightarrow> Q r w')"

lemma wp_return [wp_simps]: "wp (return a) Q w = Q (Inr a) w"
  by (simp add: wp_def return_def)

lemma wp_throw [wp_simps]: "wp (throw e) Q w = Q (Inl e) w"
  by (simp add: wp_def throw_def)

lemma wp_await [wp_simps]:
  "wp (await m k) Q w =
     wp m (\<lambda>r w'. case r of Inl e \<Rightarrow> Q (Inl e) w' | Inr a \<Rightarrow> wp (k a) Q w') w"
  by (simp add: wp_def await_def split: prod.splits sum.splits)

lemma wp_try_catch [wp_simps]:
  "wp (try_catch m h) Q w =
     wp m (\<lambda>r w'. case r of Inl e \<Rightarrow> wp (h e) Q w' | Inr a \<Rightarrow> Q (Inr a) w') w"
  by (simp add: wp_def try_catch_def split: prod.splits sum.splits)

lemma wp_try_finally [wp_simps]:
  "wp (try_finally m f) Q w =
     wp m (\<lambda>r w'. wp f (\<lambda>r' w''. case r' of Inl e \<Rightarrow> Q (Inl e) w'' | Inr _ \<Rightarrow> Q r w'') w') w"
  by (simp add: wp_def try_finally_def split: prod.splits sum.splits)

lemma wp_if [wp_simps]: "wp (if b then m else n) Q w = (if b then wp m Q w else wp n Q w)"
  by simp

lemma wp_on_world [wp_simps]: "wp (on_world m) Q (w, b) = wp m (\<lambda>r w'. Q r (w', b)) w"
  by (simp add: wp_def on_world_def split: prod.splits)

lemma wp_get_object [wp_simps]: "wp get_object Q (w, b) = Q (Inr b) (w, b)"
  by (simp add: wp_def get_object_def)

lemma wp_assign [wp_simps]: "wp (assign f) Q (w, b) = Q (Inr ()) (w, f b)"
  by (simp add: wp_def assign_def)

lemma wp_with_object [wp_simps]: "wp (with_object b m) Q w = wp m (\<lambda>r (w', b'). Q r w') (w, b)"
  by (simp add: wp_def with_object_def split: prod.splits)

lemma wp_for_each_Nil [wp_simps]: "wp (for_each [] body) Q w = Q (Inr ()) w"
  by (simp add: wp_simps)

lemma wp_mono: "wp m P w \<Longrightarrow> (\<And>r w'. m w = (r, w') \<Longrightarrow> P r w' \<Longrightarrow> Q r w') \<Longrightarrow> wp m Q w"
  by (auto simp: wp_def split: prod.splits)

lemma wpI: "(\<And>r w'. m w = (r, w') \<Longrightarrow> Q r w') \<Longrightarrow> wp m Q w"
  by (auto simp: wp_def split: prod.splits)

lemma wpD: "wp m Q w \<Longrightarrow> m w = (r, w') \<Longrightarrow> Q r w'"
  by (simp add: wp_def)

text \<open>
  Loop rules.  \<open>I done acc w\<close> holds after the elements \<open>done\<close> with the local variables \<open>acc\<close>,
  and \<open>X e w\<close> when the body has thrown.
\<close>

lemma wp_for_fold:
  assumes "\<And>ys x zs acc w. xs = ys @ x # zs \<Longrightarrow> I ys acc w \<Longrightarrow>
      wp (body acc x) (\<lambda>r w'. case r of Inl e \<Rightarrow> X e w' | Inr acc' \<Rightarrow> I (ys @ [x]) acc' w') w"
    and "I [] acc w"
    and "\<And>e w'. X e w' \<Longrightarrow> Q (Inl e) w'"
    and "\<And>acc' w'. I xs acc' w' \<Longrightarrow> Q (Inr acc') w'"
  shows "wp (for_fold xs body acc) Q w"
proof -
  have "wp (for_fold zs body acc) Q w" if "xs = ys @ zs" "I ys acc w" for ys zs acc w
    using that
  proof (induction zs arbitrary: ys acc w)
    case Nil
    then show ?case using assms(4) by (simp add: wp_simps)
  next
    case (Cons x zs)
    have "wp (body acc x) (\<lambda>r w'. case r of Inl e \<Rightarrow> X e w' | Inr acc' \<Rightarrow> I (ys @ [x]) acc' w') w"
      by (rule assms(1)) (use Cons.prems in simp_all)
    then show ?case
      by (auto simp: wp_simps Cons.prems(1) intro!: assms(3) Cons.IH [of "ys @ [x]"]
          split: sum.splits elim!: wp_mono)
  qed
  then show ?thesis using assms(2) by simp
qed

lemma wp_for_each:
  assumes "\<And>ys x zs w. xs = ys @ x # zs \<Longrightarrow> I ys w \<Longrightarrow>
      wp (body x) (\<lambda>r w'. case r of Inl e \<Rightarrow> X e w' | Inr _ \<Rightarrow> I (ys @ [x]) w') w"
    and "I [] w"
    and "\<And>e w'. X e w' \<Longrightarrow> Q (Inl e) w'"
    and "\<And>w'. I xs w' \<Longrightarrow> Q (Inr ()) w'"
  shows "wp (for_each xs body) Q w"
proof -
  have "wp (for_each zs body) Q w" if "xs = ys @ zs" "I ys w" for ys zs w
    using that
  proof (induction zs arbitrary: ys w)
    case Nil
    then show ?case using assms(4) by (simp add: wp_simps)
  next
    case (Cons x zs)
    have "wp (body x) (\<lambda>r w'. case r of Inl e \<Rightarrow> X e w' | Inr _ \<Rightarrow> I (ys @ [x]) w') w"
      by (rule assms(1)) (use Cons.prems in simp_all)
    then show ?case
      by (auto simp: wp_simps Cons.prems(1) intro!: assms(3) Cons.IH [of "ys @ [x]"]
          split: sum.splits elim!: wp_mono)
  qed
  then show ?thesis using assms(2) by simp
qed

text \<open>A guarded worker does nothing when it is busy, and is not busy when it is done.\<close>

lemma guarded_worker:
  "await get_flag (\<lambda>busy. if busy then return () else
     await (set_flag True) (\<lambda>_. try_finally (on_world m) (set_flag False))) (w, b) =
   (if b then (Inr (), (w, True)) else (fst (m w), (snd (m w), False)))"
  by (auto simp: await_def get_object_def assign_def return_def try_finally_def on_world_def
      split: prod.splits sum.splits)

section \<open>Actions and what is observed of the world\<close>

text \<open>
  \<open>obeys vw m S\<close>: seen through the observation \<open>vw\<close>, every run of \<open>m\<close> is one of the
  transitions \<open>S before outcome after\<close>.
\<close>

definition obeys :: "('w \<Rightarrow> 'v) \<Rightarrow> ('w, 'a) act \<Rightarrow> ('v \<Rightarrow> exn + 'a \<Rightarrow> 'v \<Rightarrow> bool) \<Rightarrow> bool" where
  "obeys vw m S \<longleftrightarrow> (\<forall>w. wp m (\<lambda>r w'. S (vw w) r (vw w')) w)"

text \<open>
  The shape of every law on a call to an external system: the call may throw an error of its
  driver, which is never one of the HTTP exceptions of the services, and then it had no effect;
  when it returns, its effect is \<open>S\<close>.  In a state where \<open>calm\<close> holds (the systems are up) it
  does not throw.
\<close>

definition fallible ::
  "('v \<Rightarrow> bool) \<Rightarrow> ('v \<Rightarrow> 'a \<Rightarrow> 'v \<Rightarrow> bool) \<Rightarrow> 'v \<Rightarrow> exn + 'a \<Rightarrow> 'v \<Rightarrow> bool" where
  "fallible calm S v r v' =
     (case r of Inl e \<Rightarrow> v' = v \<and> \<not> calm v \<and> (\<exists>m. e = JsError m) | Inr a \<Rightarrow> S v a v')"

lemma fallible_Inl [simp]: "fallible calm S v (Inl e) v' = (v' = v \<and> \<not> calm v \<and> (\<exists>m. e = JsError m))"
  by (simp add: fallible_def)

lemma fallible_Inr [simp]: "fallible calm S v (Inr a) v' = S v a v'"
  by (simp add: fallible_def)

lemma obeysI: "(\<And>w. wp m (\<lambda>r w'. S (vw w) r (vw w')) w) \<Longrightarrow> obeys vw m S"
  by (simp add: obeys_def)

lemma obeysD: "obeys vw m S \<Longrightarrow> m w = (r, w') \<Longrightarrow> S (vw w) r (vw w')"
  by (auto simp: obeys_def wp_def split: prod.splits)

lemma obeys_pre:
  "(\<And>w. P (vw w) \<Longrightarrow> wp m (\<lambda>r w'. S (vw w) r (vw w')) w) \<Longrightarrow> obeys vw m (\<lambda>v r v'. P v \<longrightarrow> S v r v')"
  by (fastforce simp: obeys_def wp_def split: prod.splits)

lemma wp_obeys: "obeys vw m S \<Longrightarrow> (\<And>r w'. S (vw w) r (vw w') \<Longrightarrow> Q r w') \<Longrightarrow> wp m Q w"
  by (auto simp: obeys_def wp_def split: prod.splits)

text \<open>The two outcomes of a law as two goals: nothing happened, or the effect took place.\<close>

lemma wp_fallible:
  assumes "obeys vw m (fallible calm S)"
    and "\<And>m w'. vw w' = vw w \<Longrightarrow> \<not> calm (vw w) \<Longrightarrow> Q (Inl (JsError m)) w'"
    and "\<And>a w'. S (vw w) a (vw w') \<Longrightarrow> Q (Inr a) w'"
  shows "wp m Q w"
  by (rule wp_obeys [OF assms(1)]) (auto simp: fallible_def split: sum.splits intro: assms(2,3))

lemma obeys_weaken: "obeys vw m S \<Longrightarrow> (\<And>v r v'. S v r v' \<Longrightarrow> T v r v') \<Longrightarrow> obeys vw m T"
  by (auto simp: obeys_def wp_def split: prod.splits)

lemma obeys_return: "obeys vw (return a) S \<longleftrightarrow> (\<forall>w. S (vw w) (Inr a) (vw w))"
  by (simp add: obeys_def wp_simps)

text \<open>A loop whose body never changes what is observed, whatever its outcome.\<close>

lemma obeys_for_each_inv:
  assumes "\<And>x v. x \<in> set xs \<Longrightarrow> obeys vw (body x) (\<lambda>v r v'. I v \<longrightarrow> I v')"
  shows "obeys vw (for_each xs body) (\<lambda>v r v'. I v \<longrightarrow> I v')"
  using assms
proof (induction xs)
  case Nil
  then show ?case by (simp add: obeys_return)
next
  case (Cons x xs)
  have hd: "obeys vw (body x) (\<lambda>v r v'. I v \<longrightarrow> I v')"
    using Cons.prems by simp
  have tl: "obeys vw (for_each xs body) (\<lambda>v r v'. I v \<longrightarrow> I v')"
    by (rule Cons.IH) (simp add: Cons.prems)
  show ?case
    by (rule obeysI) (auto simp: wp_simps split: sum.splits
        intro!: wp_obeys [OF hd] wp_obeys [OF tl])
qed

section \<open>Strings and lists\<close>

text \<open>\<^verbatim>\<open>Array.prototype.join\<close>.\<close>

fun join :: "string \<Rightarrow> string list \<Rightarrow> string" where
  "join sep [] = []"
| "join sep [x] = x"
| "join sep (x # y # zs) = x @ sep @ join sep (y # zs)"

text \<open>\<^verbatim>\<open>Array.prototype.find\<close> is the library's \<^const>\<open>List.find\<close>.\<close>

lemma find_unique:
  assumes "x \<in> set xs" "P x" "\<And>y. y \<in> set xs \<Longrightarrow> P y \<Longrightarrow> y = x"
  shows "List.find P xs = Some x"
proof (cases "List.find P xs")
  case None
  with assms(1,2) show ?thesis by (auto simp: find_None_iff)
next
  case (Some y)
  then have "y \<in> set xs" "P y" by (auto simp: find_Some_iff)
  with Some assms(3) show ?thesis by simp
qed

text \<open>
  A table indexed by a key: looking a key up in the listing of the matching rows is finding the
  matching row with this key.
\<close>

lemma map_of_eq_find:
  assumes "distinct (map key xs)" "mset xs = mset (filter P t)"
  shows "map_of (map (\<lambda>r. (key r, g r)) xs) s = map_option g (List.find (\<lambda>r. P r \<and> key r = s) t)"
proof -
  have xs: "set xs = {r \<in> set t. P r}"
    using assms(2) by (metis mset_eq_setD set_filter)
  show ?thesis
  proof (cases "List.find (\<lambda>r. P r \<and> key r = s) t")
    case None
    then have "\<forall>r\<in>set xs. key r \<noteq> s" using xs by (auto simp: find_None_iff)
    then show ?thesis using None by (auto simp: map_of_eq_None_iff)
  next
    case (Some r)
    then have "r \<in> set xs" "key r = s" using xs by (auto simp: find_Some_iff)
    moreover have "distinct (map fst (map (\<lambda>r. (key r, g r)) xs))"
      using assms(1) by (simp add: comp_def)
    ultimately show ?thesis
      using Some by (auto intro!: map_of_is_SomeI)
  qed
qed

text \<open>A template string with a separator that does not occur in the left part is injective.\<close>

lemma append_separator_inj:
  assumes "c \<notin> set a" "c \<notin> set a'" "a @ c # b = a' @ c # b'"
  shows "a = a' \<and> b = b'"
  using assms
proof (induction a arbitrary: a')
  case Nil
  then show ?case by (cases a') auto
next
  case (Cons x xs)
  then show ?case by (cases a') auto
qed

end
