(* ===== verification/JS_Number.thy ===== *)
theory JS_Number
  imports Complex_Main "HOL-Library.Log_Nat"
begin

text \<open>
  The JavaScript numbers the sources compute money with: IEEE binary64 values of moderate size,
  that is rationals with a significand of 53 bits, and \<^verbatim>\<open>NaN\<close>.  \<open>fl64\<close> rounds a rational to
  the nearest such value (ties to even), which is what every literal, \<^verbatim>\<open>parseFloat\<close>, \<^verbatim>\<open>+\<close> and
  \<^verbatim>\<open>*\<close> does.  Infinities, signed zeros and subnormals are left out: prices are
  \<^verbatim>\<open>DECIMAL(10,2)\<close> columns, and no computation on them leaves the normal range.
\<close>

section \<open>Rounding to 53 bits\<close>

definition pow2 :: "int \<Rightarrow> rat" where
  "pow2 e = (if 0 \<le> e then 2 ^ nat e else 1 / 2 ^ nat (- e))"

definition round_even :: "rat \<Rightarrow> int" where
  "round_even x =
     (let n = \<lfloor>x\<rfloor>; f = x - of_int n
      in if f < 1 / 2 then n else if 1 / 2 < f then n + 1 else if even n then n else n + 1)"

text \<open>The binary exponent: \<^verbatim>\<open>2 ^ e <= |x| < 2 ^ (e + 1)\<close>.\<close>

definition binexp :: "rat \<Rightarrow> int" where
  "binexp x =
     (let (n, d) = quotient_of x; e = bitlen \<bar>n\<bar> - bitlen d
      in if \<bar>x\<bar> < pow2 e then e - 1 else e)"

definition fl64 :: "rat \<Rightarrow> rat" where
  "fl64 x = (if x = 0 then 0 else
     (let u = pow2 (binexp x - 52) in of_int (round_even (x / u)) * u))"

datatype js_number = Fin rat | NaN

fun js_add :: "js_number \<Rightarrow> js_number \<Rightarrow> js_number" where
  "js_add (Fin x) (Fin y) = Fin (fl64 (x + y))"
| "js_add _ _ = NaN"

fun js_mult :: "js_number \<Rightarrow> js_number \<Rightarrow> js_number" where
  "js_mult (Fin x) (Fin y) = Fin (fl64 (x * y))"
| "js_mult _ _ = NaN"

text \<open>\<^verbatim>\<open>Math.round\<close> rounds halves up.\<close>

fun Math_round :: "js_number \<Rightarrow> js_number" where
  "Math_round (Fin x) = Fin (of_int \<lfloor>x + 1 / 2\<rfloor>)"
| "Math_round NaN = NaN"

section \<open>Error of a rounding\<close>

lemma round_even_error: "\<bar>of_int (round_even x) - x\<bar> \<le> 1 / 2"
proof -
  have "of_int \<lfloor>x\<rfloor> \<le> x" "x < of_int \<lfloor>x\<rfloor> + 1"
    by linarith+
  then show ?thesis
    by (auto simp: round_even_def Let_def abs_le_iff)
qed

lemma round_even_int [simp]: "round_even (of_int n) = n"
  by (simp add: round_even_def)

lemma pow2_pos [simp]: "0 < pow2 e"
  by (simp add: pow2_def)

lemma pow2_nonzero [simp]: "pow2 e \<noteq> 0"
  by (simp add: pow2_def)

lemma abs_pow2 [simp]: "\<bar>pow2 e\<bar> = pow2 e"
  by (simp add: less_imp_le)

lemma pow2_add: "pow2 (a + b) = pow2 a * pow2 b"
proof -
  have p: "pow2 e = 2 powi e" for e
    by (simp add: pow2_def power_int_def field_simps)
  show ?thesis
    unfolding p by (simp add: power_int_add)
qed

lemma pow2_nat: "pow2 (int k) = 2 ^ k"
  by (simp add: pow2_def)

lemma bitlen_bounds:
  assumes "0 < n"
  shows "pow2 (bitlen n - 1) \<le> of_int n" "of_int n < pow2 (bitlen n)"
proof -
  have b: "2 ^ nat (bitlen n - 1) \<le> n" "n < 2 ^ nat (bitlen n)"
    using bitlen_bounds [of n] assms by auto
  have pos: "1 \<le> bitlen n"
    using assms by (metis bitlen_eq_zero_iff bitlen_nonneg int_one_le_iff_zero_less leD order_le_less)
  show "pow2 (bitlen n - 1) \<le> of_int n"
    using b(1) pos unfolding pow2_def
    by (simp del: of_int_power add: of_int_power [symmetric])
  show "of_int n < pow2 (bitlen n)"
    using b(2) pos unfolding pow2_def
    by (simp del: of_int_power add: of_int_power [symmetric])
qed

lemma pow2_shift: "pow2 (e + 1) = 2 * pow2 e" "pow2 (e - 1) = pow2 e / 2"
  using pow2_add [of e 1] pow2_add [of "e - 1" 1] by (simp_all add: pow2_def)

lemma binexp_bounds:
  assumes "x \<noteq> 0"
  shows "pow2 (binexp x) \<le> \<bar>x\<bar>" "\<bar>x\<bar> < pow2 (binexp x + 1)"
proof -
  obtain n d where q: "quotient_of x = (n, d)"
    by fastforce
  have x: "x = of_int n / of_int d" and d: "0 < d"
    using q quotient_of_div quotient_of_denom_pos by blast+
  have n: "0 < \<bar>n\<bar>"
    using assms x by (metis div_0 of_int_0 zero_less_abs_iff)
  have ax: "\<bar>x\<bar> = of_int \<bar>n\<bar> / of_int d"
    unfolding x using d by (simp add: abs_divide)
  let ?e = "bitlen \<bar>n\<bar> - bitlen d"
  note bn = JS_Number.bitlen_bounds [OF n] and bd = JS_Number.bitlen_bounds [OF d]
  have pd: "(0::rat) < of_int d"
    using d by simp
  have up: "\<bar>x\<bar> < pow2 (?e + 1)"
  proof -
    have "pow2 (?e + 1) * pow2 (bitlen d - 1) = pow2 (bitlen \<bar>n\<bar>)"
      by (simp flip: pow2_add)
    then have "of_int \<bar>n\<bar> < pow2 (?e + 1) * of_int d"
      using bn(2) bd(1) mult_left_mono [OF bd(1), of "pow2 (?e + 1)"] by (simp add: less_imp_le)
    then show ?thesis
      using pd by (simp add: ax pos_divide_less_eq)
  qed
  have lo: "pow2 (?e - 1) < \<bar>x\<bar>"
  proof -
    have "pow2 (?e - 1) * pow2 (bitlen d) = pow2 (bitlen \<bar>n\<bar> - 1)"
      by (simp flip: pow2_add)
    then have "pow2 (?e - 1) * of_int d < of_int \<bar>n\<bar>"
      using bn(1) mult_strict_left_mono [OF bd(2), of "pow2 (?e - 1)"] by simp
    then show ?thesis
      using pd by (simp add: ax pos_less_divide_eq)
  qed
  show "pow2 (binexp x) \<le> \<bar>x\<bar>" "\<bar>x\<bar> < pow2 (binexp x + 1)"
    using up lo by (auto simp: binexp_def q Let_def)
qed

text \<open>A rounding is off by at most half a unit in the last place.\<close>

lemma fl64_error: "\<bar>fl64 x - x\<bar> \<le> \<bar>x\<bar> / 2 ^ 53"
proof (cases "x = 0")
  case True
  then show ?thesis by (simp add: fl64_def)
next
  case False
  let ?u = "pow2 (binexp x - 52)"
  have "\<bar>of_int (round_even (x / ?u)) - x / ?u\<bar> * ?u \<le> 1 / 2 * ?u"
    using round_even_error by (intro mult_right_mono) (auto simp: less_imp_le)
  moreover have "\<bar>of_int (round_even (x / ?u)) - x / ?u\<bar> * ?u = \<bar>fl64 x - x\<bar>"
  proof -
    have "fl64 x - x = (of_int (round_even (x / ?u)) - x / ?u) * ?u"
      using False by (simp add: fl64_def Let_def left_diff_distrib)
    then show ?thesis
      by (simp add: abs_mult)
  qed
  moreover have "1 / 2 * ?u = pow2 (binexp x) / 2 ^ 53"
    using pow2_add [of "binexp x" "-52"] by (simp add: pow2_def [of "-52"])
  moreover have "pow2 (binexp x) / 2 ^ 53 \<le> \<bar>x\<bar> / 2 ^ 53"
    using binexp_bounds(1) [OF False] by (intro divide_right_mono) auto
  ultimately show ?thesis by linarith
qed

section \<open>Sums of prices\<close>

text \<open>
  The amounts of the platform are decimal numbers with two fractional digits, added up and
  scaled as binary64 numbers.  The bound on the accumulated error shows that rounding the
  scaled sum to an integer gives the exact number of hundredths.
\<close>

definition sum_prices :: "js_number list \<Rightarrow> js_number" where
  "sum_prices ps = foldl js_add (Fin 0) ps"

lemma fl64_step_error:
  fixes M :: rat
  assumes e: "\<bar>a - s\<bar> \<le> E" and p: "\<bar>p - c\<bar> \<le> c / 2 ^ 53"
    and b: "0 \<le> s" "0 \<le> c" "s + c \<le> M" "E \<le> M"
  shows "\<bar>fl64 (a + p) - (s + c)\<bar> \<le> E + 4 * (M / 2 ^ 53)"
proof -
  have c: "c / 2 ^ 53 \<le> M / 2 ^ 53"
    using b by (intro divide_right_mono) auto
  have y: "\<bar>(a + p) - (s + c)\<bar> \<le> E + M / 2 ^ 53"
    using e p c by linarith
  have M: "M / 2 ^ 53 \<le> M"
    using b by (simp add: divide_le_eq mult_le_cancel_left1)
  have "\<bar>a + p\<bar> \<le> 3 * M"
    using y M b by linarith
  then have "\<bar>a + p\<bar> / 2 ^ 53 \<le> 3 * M / 2 ^ 53"
    by (intro divide_right_mono) auto
  then have "\<bar>fl64 (a + p) - (a + p)\<bar> \<le> 3 * M / 2 ^ 53"
    using fl64_error [of "a + p"] by linarith
  with y show ?thesis by linarith
qed

lemma sum_prices_error:
  fixes M :: rat
  assumes "\<And>c. c \<in> set cs \<Longrightarrow> 0 \<le> c" "0 \<le> s" "s + sum_list cs \<le> M"
    "\<bar>a - s\<bar> \<le> E" "E + 4 * of_nat (length cs) * (M / 2 ^ 53) \<le> M"
  shows "\<exists>b. foldl js_add (Fin a) (map (\<lambda>c. Fin (fl64 c)) cs) = Fin b \<and>
    \<bar>b - (s + sum_list cs)\<bar> \<le> E + 4 * of_nat (length cs) * (M / 2 ^ 53)"
  using assms
proof (induction cs arbitrary: a s E)
  case Nil
  then show ?case by auto
next
  case (Cons c cs)
  let ?d = "M / 2 ^ 53"
  have nn: "0 \<le> c" "0 \<le> sum_list cs"
    using Cons.prems(1) by (auto intro!: sum_list_nonneg)
  have M: "0 \<le> M" using Cons.prems(2,3) nn by simp
  then have d: "0 \<le> ?d" by simp
  have len: "4 * of_nat (length (c # cs)) * ?d = 4 * ?d + 4 * of_nat (length cs) * ?d"
    by (simp add: algebra_simps)
  have "0 \<le> 4 * of_nat (length cs) * ?d" using d by simp
  then have "E \<le> M" using Cons.prems(5) len d by linarith
  then have step: "\<bar>fl64 (a + fl64 c) - (s + c)\<bar> \<le> E + 4 * ?d"
    using Cons.prems nn fl64_error [of c] by (intro fl64_step_error) auto
  have "\<exists>b. foldl js_add (Fin (fl64 (a + fl64 c))) (map (\<lambda>c. Fin (fl64 c)) cs) = Fin b \<and>
    \<bar>b - ((s + c) + sum_list cs)\<bar> \<le> (E + 4 * ?d) + 4 * of_nat (length cs) * ?d"
  proof (rule Cons.IH)
    show "E + 4 * ?d + 4 * of_nat (length cs) * ?d \<le> M"
      using Cons.prems(5) len by linarith
  qed (use Cons.prems nn step in auto)
  then obtain b where b: "foldl js_add (Fin (fl64 (a + fl64 c))) (map (\<lambda>c. Fin (fl64 c)) cs) = Fin b"
      "\<bar>b - ((s + c) + sum_list cs)\<bar> \<le> E + 4 * ?d + 4 * of_nat (length cs) * ?d"
    by blast
  have "\<bar>b - (s + sum_list (c # cs))\<bar> \<le> E + 4 * of_nat (length (c # cs)) * ?d"
    using b(2) len by (simp only: sum_list.Cons add.assoc)
  with b(1) show ?case by auto
qed

lemma Math_round_near: "\<bar>x - of_int n\<bar> < 1 / 2 \<Longrightarrow> Math_round (Fin x) = Fin (of_int n)"
proof -
  assume "\<bar>x - of_int n\<bar> < 1 / 2"
  then have "of_int n \<le> x + 1 / 2" "x + 1 / 2 < of_int n + 1"
    by linarith+
  then have "\<lfloor>x + 1 / 2\<rfloor> = n" by (rule floor_unique)
  then show ?thesis by simp
qed

lemma sum_prices_hundredths:
  assumes "\<And>c. c \<in> set cs \<Longrightarrow> 0 \<le> c" "sum_list cs \<le> 10 ^ 10" "length cs \<le> 10000"
  shows "Math_round (js_mult (sum_prices (map (\<lambda>c. Fin (fl64 (of_int c / 100))) cs)) (Fin 100))
    = Fin (of_int (sum_list cs))"
proof -
  let ?M = "10 ^ 8 :: rat" and ?qs = "map (\<lambda>c. of_int c / 100 :: rat) cs"
  let ?S = "sum_list ?qs" and ?d = "10 ^ 8 / 2 ^ 53 :: rat"
  have S: "?S = of_int (sum_list cs) / 100"
    by (induction cs) (auto simp: add_divide_distrib)
  have SM: "?S \<le> ?M"
    using assms(2) unfolding S by simp
  have S0: "0 \<le> ?S"
    using assms(1) by (intro sum_list_nonneg) auto
  have "(of_nat (length cs) :: rat) \<le> 10000"
    using assms(3) by (metis of_nat_le_iff of_nat_numeral)
  then have n: "4 * of_nat (length cs) * ?d \<le> 4 * 10000 * ?d"
    by (intro mult_right_mono) auto
  have "\<exists>b. foldl js_add (Fin 0) (map (\<lambda>c. Fin (fl64 c)) ?qs) = Fin b \<and>
      \<bar>b - (0 + ?S)\<bar> \<le> 0 + 4 * of_nat (length ?qs) * (?M / 2 ^ 53)"
  proof (rule sum_prices_error)
    show "0 + 4 * of_nat (length ?qs) * (?M / 2 ^ 53) \<le> ?M"
      using n by simp
  qed (use assms(1) SM in auto)
  then obtain b where b: "sum_prices (map (\<lambda>c. Fin (fl64 (of_int c / 100))) cs) = Fin b"
      "\<bar>b - ?S\<bar> \<le> 4 * 10000 * ?d"
    using n by (auto simp: sum_prices_def o_def)
  have "\<bar>b\<bar> \<le> 2 * ?M"
  proof -
    have "4 * 10000 * ?d \<le> ?M" by simp
    then show ?thesis using b(2) SM S0 by linarith
  qed
  then have "\<bar>b * 100\<bar> / 2 ^ 53 \<le> 200 * ?M / 2 ^ 53"
    by (intro divide_right_mono) (simp_all add: abs_mult)
  then have e1: "\<bar>fl64 (b * 100) - b * 100\<bar> \<le> 200 * ?M / 2 ^ 53"
    using fl64_error [of "b * 100"] by linarith
  have e2: "\<bar>b * 100 - of_int (sum_list cs)\<bar> \<le> 100 * (4 * 10000 * ?d)"
    using b(2) unfolding S by linarith
  have "\<bar>fl64 (b * 100) - of_int (sum_list cs)\<bar> < 1 / 2"
  proof -
    have "200 * ?M / 2 ^ 53 + 100 * (4 * 10000 * ?d) < 1 / 2" by simp
    moreover have "\<bar>fl64 (b * 100) - of_int (sum_list cs)\<bar>
        \<le> \<bar>fl64 (b * 100) - b * 100\<bar> + \<bar>b * 100 - of_int (sum_list cs)\<bar>"
      by linarith
    ultimately show ?thesis
      using add_mono [OF e1 e2] by (meson le_less_trans order.trans)
  qed
  then show ?thesis
    unfolding b(1) js_mult.simps by (rule Math_round_near)
qed

section \<open>Reading a number\<close>

definition is_digit :: "char \<Rightarrow> bool" where
  "is_digit c \<longleftrightarrow> 48 \<le> (of_char c :: nat) \<and> (of_char c :: nat) \<le> 57"

definition digits_val :: "string \<Rightarrow> int" where
  "digits_val ds = foldl (\<lambda>n c. 10 * n + (of_char c - 48)) 0 ds"

text \<open>
  \<^verbatim>\<open>parseFloat\<close> reads the longest prefix that is a decimal literal, after blanks; \<^verbatim>\<open>NaN\<close> when
  there is none.  Its inputs here are the texts of \<^verbatim>\<open>DECIMAL\<close> columns, so the exponent suffix
  and \<^verbatim>\<open>Infinity\<close> are not read.
\<close>

definition parseFloat :: "string \<Rightarrow> js_number" where
  "parseFloat text =
     (let s = dropWhile (\<lambda>c. c = CHR '' '') text;
          neg = (s \<noteq> [] \<and> hd s = CHR ''-'');
          s' = (if s \<noteq> [] \<and> (hd s = CHR ''-'' \<or> hd s = CHR ''+'') then tl s else s);
          whole = takeWhile is_digit s';
          rest = dropWhile is_digit s';
          frac = (case rest of [] \<Rightarrow> [] | c # cs \<Rightarrow> if c = CHR ''.'' then takeWhile is_digit cs else []);
          q = (of_int (digits_val (whole @ frac)) :: rat) / 10 ^ length frac
      in if whole = [] \<and> frac = [] then NaN else Fin (fl64 (if neg then - q else q)))"

end
