(* ===== verification/Storage.thy ===== *)
theory Storage
  imports Prelude JS_Number
begin

text \<open>
  The external systems, as parameters.  A record per system lists the calls the services make;
  a locale per system states what the services rely on, in terms of an observation \<open>vw\<close> of the
  world: the rows of a table, the keys of Redis, the clock, the messages handed to Kafka.
  Nothing else is assumed: any call may throw, and a call that throws had no effect.  In a state
  observed as \<open>calm\<close> the systems are up: a call throws only for a reason of its own (a violated
  constraint, no open transaction).

  \<^item> TypeORM's \<^verbatim>\<open>Repository<Entity>\<close>: record \<open>repo\<close>, locale \<open>table_api\<close>;
  \<^item> TypeORM's \<^verbatim>\<open>QueryRunner\<close> and its \<^verbatim>\<open>manager\<close>: records \<open>query_runner\<close> and \<open>manager\<close>,
    locales \<open>transaction_api\<close> and \<open>manager_api\<close> (writes of an open transaction are pending
    until the commit);
  \<^item> Redis strings with expiry and hashes (ioredis): record \<open>redis\<close>, locale \<open>redis_api\<close>;
  \<^item> the Kafka producer: record \<open>kafka\<close>, locale \<open>kafka_api\<close>;
  \<^item> the clock: locale \<open>clock_api\<close>.

  A \<^verbatim>\<open>where\<close> clause is a predicate on rows.  The order in which a query returns rows is not
  specified.  Primary keys and \<^verbatim>\<open>CreateDateColumn\<close>s are chosen by the database on insertion.
\<close>

section \<open>JSON documents and Redis values\<close>

datatype json =
    JNull
  | JBool bool
  | JNum js_number
  | JStr string
  | JArr "json list"
  | JObj "(string \<times> json) list"

text \<open>Property access \<^verbatim>\<open>doc.name\<close>; a missing property is \<open>None\<close> (\<^verbatim>\<open>undefined\<close>).\<close>

fun json_get :: "json \<Rightarrow> string \<Rightarrow> json option" where
  "json_get (JObj fs) k = map_of fs k"
| "json_get _ k = None"

fun json_str :: "json option \<Rightarrow> string option" where
  "json_str (Some (JStr s)) = Some s"
| "json_str _ = None"

lemma json_str_Some [simp]: "json_str x = Some s \<longleftrightarrow> x = Some (JStr s)"
  by (cases x rule: json_str.cases) auto

text \<open>Reading a property of \<^verbatim>\<open>null\<close> throws a \<^verbatim>\<open>TypeError\<close>.\<close>

definition js_prop :: "json \<Rightarrow> string \<Rightarrow> ('w, json option) act" where
  "js_prop j k = (if j = JNull then throw (JsError ''Cannot read properties of null'')
     else return (json_get j k))"

text \<open>The documents that count as true in a condition.\<close>

fun truthy :: "json \<Rightarrow> bool" where
  "truthy JNull = False"
| "truthy (JBool b) = b"
| "truthy (JNum n) = (n \<noteq> Fin 0 \<and> n \<noteq> NaN)"
| "truthy (JStr s) = (s \<noteq> [])"
| "truthy (JArr js) = True"
| "truthy (JObj fs) = True"

text \<open>
  What Redis stores under a key or a hash field: a plain text, or the text \<^verbatim>\<open>JSON.stringify\<close>
  produced, represented by the document it encodes (\<^verbatim>\<open>JSON.parse\<close> gives that document back).
\<close>

datatype rtext = Raw string | Json json

definition JSON_stringify :: "json \<Rightarrow> rtext" where
  "JSON_stringify j = Json j"

fun JSON_parse :: "rtext \<Rightarrow> ('w, json) act" where
  "JSON_parse (Json j) = return j"
| "JSON_parse (Raw s) = throw (JsError ''Unexpected token in JSON'')"

lemma JSON_roundtrip [simp]: "JSON_parse (JSON_stringify j) = return j"
  by (simp add: JSON_stringify_def)

section \<open>Rows\<close>

text \<open>\<^verbatim>\<open>save\<close> on an entity with a primary key: replaces its row, or adds one.\<close>

definition upsert :: "('row \<Rightarrow> string) \<Rightarrow> 'row \<Rightarrow> 'row list \<Rightarrow> 'row list" where
  "upsert rid x t =
     (if rid x \<in> rid ` set t then map (\<lambda>r. if rid r = rid x then x else r) t else t @ [x])"

definition upserts :: "('row \<Rightarrow> string) \<Rightarrow> 'row list \<Rightarrow> 'row list \<Rightarrow> 'row list" where
  "upserts rid xs t = fold (upsert rid) xs t"

lemma upserts_Nil [simp]: "upserts rid [] t = t"
  by (simp add: upserts_def)

lemma upserts_Cons [simp]: "upserts rid (x # xs) t = upserts rid xs (upsert rid x t)"
  by (simp add: upserts_def)

lemma upserts_append [simp]: "upserts rid (xs @ ys) t = upserts rid ys (upserts rid xs t)"
  by (simp add: upserts_def)

lemma upsert_present:
  assumes "distinct (map rid t)" "y \<in> set t" "\<And>r. rid (f r) = rid r"
  shows "upsert rid (f y) t = map (\<lambda>r. if rid r = rid y then f r else r) t"
proof -
  have "r = y" if "r \<in> set t" "rid r = rid y" for r
    using that assms(1,2) by (auto simp: distinct_map inj_on_def)
  then show ?thesis
    using assms(2,3) by (auto simp: upsert_def intro!: map_cong)
qed

text \<open>
  Loading rows, changing them and saving them is an update in place of exactly these rows.
\<close>

lemma upserts_found:
  assumes "distinct (map rid t)" "set ys \<subseteq> set t" "distinct (map rid ys)" "\<And>r. rid (f r) = rid r"
  shows "upserts rid (map f ys) t = map (\<lambda>r. if rid r \<in> rid ` set ys then f r else r) t"
  using assms
proof (induction ys arbitrary: t)
  case Nil
  then show ?case by simp
next
  case (Cons y ys)
  let ?t1 = "map (\<lambda>r. if rid r = rid y then f r else r) t"
  have step: "upsert rid (f y) t = ?t1"
    using Cons.prems by (intro upsert_present) auto
  have ids: "map rid ?t1 = map rid t"
    using Cons.prems(4) by (auto intro!: map_cong)
  have rest: "set ys \<subseteq> set ?t1"
  proof
    fix z assume z: "z \<in> set ys"
    then have "rid z \<noteq> rid y" "z \<in> set t"
      using Cons.prems(2,3) by (auto simp: image_iff)
    then show "z \<in> set ?t1" by force
  qed
  have "upserts rid (map f ys) ?t1 = map (\<lambda>r. if rid r \<in> rid ` set ys then f r else r) ?t1"
  proof (rule Cons.IH)
    show "distinct (map rid ?t1)" using Cons.prems(1) ids by argo
  qed (use Cons.prems rest in simp_all)
  also have "\<dots> = map (\<lambda>r. if rid r \<in> rid ` set (y # ys) then f r else r) t"
    using Cons.prems(3,4) by (auto simp: image_iff intro!: map_cong)
  finally show ?case using step by simp
qed

lemma upserts_modify:
  assumes "distinct (map rid t)" "mset ys = mset (filter P t)" "\<And>r. rid (f r) = rid r"
  shows "upserts rid (map f ys) t = map (\<lambda>r. if P r then f r else r) t"
proof -
  have s: "set ys = {r \<in> set t. P r}"
    using assms(2) by (metis mset_eq_setD set_filter)
  have "mset (map rid ys) = mset (map rid (filter P t))"
    using assms(2) by (simp add: mset_map)
  moreover have "distinct (map rid (filter P t))"
    using assms(1) by (simp add: distinct_map_filter)
  ultimately have d: "distinct (map rid ys)"
    using mset_eq_imp_distinct_iff by blast
  have "rid r \<in> rid ` set ys \<longleftrightarrow> P r" if "r \<in> set t" for r
    using that assms(1) s by (auto simp: distinct_map inj_on_def image_iff)
  then show ?thesis
    using upserts_found [OF assms(1) _ d assms(3)] s by (auto intro!: map_cong)
qed

lemma upserts_fresh:
  assumes "distinct (map rid xs)" "rid ` set xs \<inter> rid ` set t = {}"
  shows "upserts rid xs t = t @ xs"
  using assms
proof (induction xs arbitrary: t)
  case Nil
  then show ?case by simp
next
  case (Cons x xs)
  then have "upsert rid x t = t @ [x]"
    by (auto simp: upsert_def)
  moreover have "upserts rid xs (t @ [x]) = (t @ [x]) @ xs"
    using Cons.prems by (intro Cons.IH) (auto simp: image_iff)
  ultimately show ?case by simp
qed

lemma map_update_ids [simp]:
  "(\<And>r. rid (f r) = rid r) \<Longrightarrow> map rid (map (\<lambda>r. if P r then f r else r) t) = map rid t"
  by (auto intro!: map_cong)

text \<open>The rows an insertion creates: templates completed with fresh keys and the time.\<close>

definition created ::
  "('row \<Rightarrow> string) \<Rightarrow> string set \<Rightarrow> int \<Rightarrow> (string \<Rightarrow> int \<Rightarrow> 'row) list \<Rightarrow> 'row list \<Rightarrow> bool" where
  "created rid used now mks xs \<longleftrightarrow>
     (\<exists>ids. length ids = length mks \<and> distinct ids \<and> set ids \<inter> used = {} \<and>
        xs = map2 (\<lambda>mk i. mk i now) mks ids \<and> map rid xs = ids)"

lemma created_length: "created rid used now mks xs \<Longrightarrow> length xs = length mks"
  by (auto simp: created_def)

lemma created_distinct: "created rid used now mks xs \<Longrightarrow> distinct (map rid xs)"
  by (auto simp: created_def)

lemma created_fresh: "created rid used now mks xs \<Longrightarrow> rid ` set xs \<inter> used = {}"
  by (auto simp: created_def simp flip: set_map)

lemma created_nth:
  assumes "created rid used now mks xs" "k < length mks"
  shows "xs ! k = (mks ! k) (rid (xs ! k)) now"
proof -
  obtain ids where i: "length ids = length mks" "xs = map2 (\<lambda>mk i. mk i now) mks ids"
      "map rid xs = ids"
    using assms(1) unfolding created_def by blast
  then have "ids ! k = rid (xs ! k)"
    using assms(2) by (metis length_map nth_map)
  with i assms(2) show ?thesis by simp
qed

lemma created_map:
  assumes "created rid used now (map f ss) xs" "\<And>s i. g (f s i now) = h s"
  shows "map g xs = map h ss"
proof (rule nth_equalityI)
  show "length (map g xs) = length (map h ss)"
    using created_length [OF assms(1)] by simp
  fix k assume "k < length (map g xs)"
  then have k: "k < length ss"
    using created_length [OF assms(1)] by simp
  then have "xs ! k = f (ss ! k) (rid (xs ! k)) now"
    using created_nth [OF assms(1), of k] by simp
  then show "map g xs ! k = map h ss ! k"
    using k created_length [OF assms(1)] assms(2) by (metis length_map nth_map)
qed

lemma created_set:
  assumes "created rid used now (map f ss) xs" "x \<in> set xs"
  shows "\<exists>s\<in>set ss. \<exists>i. x = f s i now"
proof -
  obtain k where "k < length xs" "x = xs ! k"
    using assms(2) by (auto simp: in_set_conv_nth)
  then show ?thesis
    using created_nth [OF assms(1), of k] created_length [OF assms(1)] by auto
qed

text \<open>
  Templates that keep the primary key they are given, and an insertion that the constraints of
  the table cannot reject.
\<close>

definition keeps_ids :: "('row \<Rightarrow> string) \<Rightarrow> (string \<Rightarrow> int \<Rightarrow> 'row) list \<Rightarrow> bool" where
  "keeps_ids rid mks \<longleftrightarrow> (\<forall>mk\<in>set mks. \<forall>i now. rid (mk i now) = i)"

definition insertable ::
  "('row \<Rightarrow> string) \<Rightarrow> string set \<Rightarrow> int \<Rightarrow> (string \<Rightarrow> int \<Rightarrow> 'row) list \<Rightarrow> ('row list \<Rightarrow> bool) \<Rightarrow> bool" where
  "insertable rid used now mks ok \<longleftrightarrow>
     keeps_ids rid mks \<and> (\<forall>xs. created rid used now mks xs \<longrightarrow> ok xs)"

section \<open>Repositories\<close>

text \<open>
  \<open>repo_find_ordered P key n\<close> is a query with \<^verbatim>\<open>order\<close> (ascending in \<open>key\<close>) and \<^verbatim>\<open>take\<close>;
  \<open>repo_distinct\<close> is \<^verbatim>\<open>SELECT DISTINCT column\<close>.
\<close>

definition page :: "nat option \<Rightarrow> 'a list \<Rightarrow> 'a list" where
  "page n xs = (case n of None \<Rightarrow> xs | Some k \<Rightarrow> take k xs)"

record ('w, 'row) repo =
  repo_find :: "('row \<Rightarrow> bool) \<Rightarrow> ('w, 'row list) act"
  repo_findOne :: "('row \<Rightarrow> bool) \<Rightarrow> ('w, 'row option) act"
  repo_find_ordered :: "('row \<Rightarrow> bool) \<Rightarrow> ('row \<Rightarrow> int) \<Rightarrow> nat option \<Rightarrow> ('w, 'row list) act"
  repo_distinct :: "('row \<Rightarrow> string) \<Rightarrow> ('w, string list) act"
  repo_count :: "('row \<Rightarrow> bool) \<Rightarrow> ('w, nat) act"
  repo_insert :: "(string \<Rightarrow> int \<Rightarrow> 'row) list \<Rightarrow> ('w, 'row list) act"
  repo_save :: "'row list \<Rightarrow> ('w, unit) act"
  repo_update :: "('row \<Rightarrow> bool) \<Rightarrow> ('row \<Rightarrow> 'row) \<Rightarrow> ('w, unit) act"

locale table_api =
  fixes R :: "('w, 'row) repo"
    and vw :: "'w \<Rightarrow> 'v"
    and rid :: "'row \<Rightarrow> string"
    and tab :: "'v \<Rightarrow> 'row list"
    and tab_upd :: "('row list \<Rightarrow> 'row list) \<Rightarrow> 'v \<Rightarrow> 'v"
    and clk :: "'v \<Rightarrow> int"
    and unique :: "'row list \<Rightarrow> bool"
    and calm :: "'v \<Rightarrow> bool"
  assumes find_law:
      "obeys vw (repo_find R P)
         (fallible calm (\<lambda>v xs v'. v' = v \<and> mset xs = mset (filter P (tab v))))"
    and findOne_law:
      "obeys vw (repo_findOne R P)
         (fallible calm (\<lambda>v x v'. v' = v \<and>
            (case x of None \<Rightarrow> \<forall>r\<in>set (tab v). \<not> P r | Some r \<Rightarrow> r \<in> set (tab v) \<and> P r)))"
    and find_ordered_law:
      "obeys vw (repo_find_ordered R P key n)
         (fallible calm (\<lambda>v xs v'. v' = v \<and>
            (\<exists>ys. mset ys = mset (filter P (tab v)) \<and> sorted (map key ys) \<and> xs = page n ys)))"
    and distinct_law:
      "obeys vw (repo_distinct R col)
         (fallible calm (\<lambda>v xs v'. v' = v \<and> distinct xs \<and> set xs = col ` set (tab v)))"
    and count_law:
      "obeys vw (repo_count R P) (fallible calm (\<lambda>v n v'. v' = v \<and> n = length (filter P (tab v))))"
    and insert_law:
      "obeys vw (repo_insert R mks)
         (fallible (\<lambda>v. calm v \<and> insertable rid (rid ` set (tab v)) (clk v) mks (\<lambda>xs. unique (tab v @ xs)))
            (\<lambda>v xs v'. created rid (rid ` set (tab v)) (clk v) mks xs \<and>
            v' = tab_upd (\<lambda>t. t @ xs) v \<and> unique (tab v @ xs)))"
    and save_law:
      "obeys vw (repo_save R xs) (fallible calm (\<lambda>v u v'. v' = tab_upd (upserts rid xs) v))"
    and update_law:
      "obeys vw (repo_update R P f)
         (fallible calm (\<lambda>v u v'. v' = tab_upd (map (\<lambda>r. if P r then f r else r)) v))"

section \<open>Transactions\<close>

record 'w query_runner =
  qr_connect :: "('w, unit) act"
  qr_startTransaction :: "('w, unit) act"
  qr_commitTransaction :: "('w, unit) act"
  qr_rollbackTransaction :: "('w, unit) act"
  qr_release :: "('w, unit) act"

text \<open>
  \<open>tx_open\<close>: a transaction is open; \<open>tx_begin\<close> opens one with no pending write, \<open>tx_publish\<close>
  closes it and applies its pending writes, \<open>tx_discard\<close> closes it and forgets them.  A
  rollback without an open transaction throws, as does a commit.
\<close>

locale transaction_api =
  fixes QR :: "'w query_runner"
    and vw :: "'w \<Rightarrow> 'v"
    and tx_open :: "'v \<Rightarrow> bool"
    and tx_begin :: "'v \<Rightarrow> 'v"
    and tx_publish :: "'v \<Rightarrow> 'v"
    and tx_discard :: "'v \<Rightarrow> 'v"
    and calm :: "'v \<Rightarrow> bool"
  assumes connect_law: "obeys vw (qr_connect QR) (fallible calm (\<lambda>v u v'. v' = v))"
    and start_law: "obeys vw (qr_startTransaction QR) (fallible calm (\<lambda>v u v'. v' = tx_begin v))"
    and commit_law:
      "obeys vw (qr_commitTransaction QR) (fallible (\<lambda>v. calm v \<and> tx_open v) (\<lambda>v u v'. tx_open v \<and> v' = tx_publish v))"
    and rollback_law:
      "obeys vw (qr_rollbackTransaction QR) (fallible (\<lambda>v. calm v \<and> tx_open v) (\<lambda>v u v'. tx_open v \<and> v' = tx_discard v))"
    and release_law: "obeys vw (qr_release QR) (fallible calm (\<lambda>v u v'. v' = v))"

text \<open>
  The shape of the transactions of the sources: \<^verbatim>\<open>connect(); startTransaction(); try { m } catch (error)
  { rollbackTransaction(); throw error } finally { release() }\<close>, where \<open>m\<close> commits.  The calls act on
  the world; \<open>lift\<close> takes them to the actions \<open>m\<close> is one of (\<open>on_world\<close> in code that mutates an object).
\<close>

definition transaction :: "(('w, unit) act \<Rightarrow> ('s, unit) act) \<Rightarrow> 'w query_runner \<Rightarrow> ('s, 'a) act \<Rightarrow> ('s, 'a) act" where
  "transaction lift T m =
     await (lift (qr_connect T)) (\<lambda>_.
     await (lift (qr_startTransaction T)) (\<lambda>_.
     try_finally
       (try_catch m (\<lambda>error. await (lift (qr_rollbackTransaction T)) (\<lambda>_. throw error)))
       (lift (qr_release T))))"

definition lifts :: "(('w, unit) act \<Rightarrow> ('s, unit) act) \<Rightarrow> ('s \<Rightarrow> 'w) \<Rightarrow> ('s \<Rightarrow> 'w \<Rightarrow> 's) \<Rightarrow> bool" where
  "lifts lift world put \<longleftrightarrow> (\<forall>m Q x. wp (lift m) Q x = wp m (\<lambda>r w. Q r (put x w)) (world x)) \<and>
     (\<forall>x w. world (put x w) = w) \<and> (\<forall>x w w'. put (put x w) w' = put x w')"

lemma lifts_id: "lifts (\<lambda>m. m) (\<lambda>w. w) (\<lambda>_ w. w)"
  by (simp add: lifts_def)

lemma lifts_on_world: "lifts on_world fst (\<lambda>x w. (w, snd x))"
  by (simp add: lifts_def wp_simps split_paired_all)

text \<open>
  \<open>At\<close>: no transaction has had an effect; \<open>Tx\<close>: one is open.  When \<open>m\<close> throws it is rolled back, and
  when it returns it has committed; in both cases releasing the connection may still throw.
\<close>

context transaction_api
begin

lemma transaction_wp:
  assumes L: "lifts lift world put" and at: "At (vw (world x))"
    and tx: "\<And>v. Tx v \<Longrightarrow> At v \<and> At (tx_discard v)"
    and down: "\<And>m w. At (vw w) \<Longrightarrow> \<not> calm (vw w) \<Longrightarrow> Q (Inl (JsError m)) (put x w)"
    and body: "\<And>w. vw w = tx_begin (vw (world x)) \<Longrightarrow> wp m (\<lambda>r y. case r of
        Inl e \<Rightarrow> Tx (vw (world y)) \<and> tx_open (vw (world y)) \<and> (\<forall>w. At (vw w) \<longrightarrow> Q (Inl e) (put y w)) \<and>
          (\<forall>w n. At (vw w) \<longrightarrow> \<not> calm (vw w) \<longrightarrow> Q (Inl (JsError n)) (put y w))
      | Inr a \<Rightarrow> (\<forall>w. vw w = vw (world y) \<longrightarrow> Q (Inr a) (put y w)) \<and>
          (\<forall>w n. vw w = vw (world y) \<longrightarrow> \<not> calm (vw w) \<longrightarrow> Q (Inl (JsError n)) (put y w))) (put x w)"
  shows "wp (transaction lift QR m) Q x"
proof -
  have l: "wp (lift m) Q' y = wp m (\<lambda>r w. Q' r (put y w)) (world y)" for m Q' y
    using L by (simp add: lifts_def)
  have p: "world (put y w) = w" "put (put y w) w' = put y w'" for y w w'
    using L by (simp_all add: lifts_def)
  show ?thesis
    unfolding transaction_def wp_await l
  proof (rule wp_fallible [OF connect_law], goal_cases)
    case (1 n w1)
    then show ?case using at down by simp
  next
    case (2 u w1)
    then have at1: "At (vw w1)" and w1: "vw w1 = vw (world x)" using at by simp_all
    show ?case
      unfolding sum.case wp_await l p
    proof (rule wp_fallible [OF start_law], goal_cases)
      case (1 n w2)
      then show ?case using at1 down by simp
    next
      case (2 u w2)
      then have "vw w2 = tx_begin (vw (world x))" using w1 by simp
      then show ?case
        unfolding sum.case wp_try_finally wp_try_catch p l
      proof (rule wp_mono [OF body], goal_cases)
        case (1 r y)
        show ?case
        proof (cases r)
          case (Inl e)
          note tx_y = 1(2) [unfolded Inl sum.case]
          have a: "At (vw (world y))" using tx tx_y by blast
          show ?thesis
            unfolding Inl sum.case wp_await l
          proof (rule wp_fallible [OF rollback_law], goal_cases)
            case (1 n w3)
            then have "\<not> calm (vw w3)" "At (vw w3)" using tx_y a by auto
            then show ?case
              unfolding sum.case l p by (auto intro!: wp_fallible [OF release_law] simp: tx_y p)
          next
            case (2 u w3)
            then have "At (vw w3)" using tx tx_y by simp
            then show ?case
              unfolding sum.case wp_throw l p by (auto intro!: wp_fallible [OF release_law] simp: tx_y p)
          qed
        next
          case (Inr a)
          note done_y = 1(2) [unfolded Inr sum.case]
          show ?thesis
            unfolding Inr sum.case l
            by (rule wp_fallible [OF release_law]) (auto simp: done_y p)
        qed
      qed
    qed
  qed
qed

end

record ('w, 'row) manager =
  manager_insert :: "(string \<Rightarrow> int \<Rightarrow> 'row) list \<Rightarrow> ('w, 'row list) act"
  manager_save :: "'row list \<Rightarrow> ('w, unit) act"

text \<open>\<open>pend\<close>: the rows of this table the open transaction has written, in order.\<close>

locale manager_api =
  fixes M :: "('w, 'row) manager"
    and vw :: "'w \<Rightarrow> 'v"
    and rid :: "'row \<Rightarrow> string"
    and tab :: "'v \<Rightarrow> 'row list"
    and pend :: "'v \<Rightarrow> 'row list"
    and pend_upd :: "('row list \<Rightarrow> 'row list) \<Rightarrow> 'v \<Rightarrow> 'v"
    and clk :: "'v \<Rightarrow> int"
    and tx_open :: "'v \<Rightarrow> bool"
    and unique :: "'row list \<Rightarrow> bool"
    and calm :: "'v \<Rightarrow> bool"
  assumes minsert_law:
      "obeys vw (manager_insert M mks)
         (fallible (\<lambda>v. calm v \<and> insertable rid (rid ` set (tab v) \<union> rid ` set (pend v)) (clk v) mks
              (\<lambda>xs. unique (upserts rid (pend v @ xs) (tab v)))) (\<lambda>v xs v'. tx_open v \<longrightarrow>
            created rid (rid ` set (tab v) \<union> rid ` set (pend v)) (clk v) mks xs \<and> unique (upserts rid (pend v @ xs) (tab v)) \<and>
            v' = pend_upd (\<lambda>p. p @ xs) v))"
    and msave_law:
      "obeys vw (manager_save M xs)
         (fallible calm (\<lambda>v u v'. tx_open v \<longrightarrow> v' = pend_upd (\<lambda>p. p @ xs) v))"

section \<open>Redis\<close>

type_synonym entry = "rtext \<times> int option"

text \<open>A key with an expiry time is gone once the clock reaches it.\<close>

definition live :: "int \<Rightarrow> entry option \<Rightarrow> rtext option" where
  "live now e = (case e of None \<Rightarrow> None
     | Some (x, None) \<Rightarrow> Some x
     | Some (x, Some t) \<Rightarrow> if now < t then Some x else None)"

lemma live_None [simp]: "live now None = None"
  by (simp add: live_def)

lemma live_expiring [simp]: "live now (Some (x, Some t)) = (if now < t then Some x else None)"
  by (simp add: live_def)

lemma live_mono: "live now e = None \<Longrightarrow> now \<le> now' \<Longrightarrow> live now' e = None"
  by (auto simp: live_def split: option.splits if_splits)

text \<open>The commands the sources put into a \<^verbatim>\<open>pipeline()\<close>, which \<^verbatim>\<open>exec()\<close> runs in order.\<close>

datatype redis_cmd = HSET string string rtext | DEL string

record 'w redis =
  redis_get :: "string \<Rightarrow> ('w, rtext option) act"
  redis_set_ex_nx :: "string \<Rightarrow> rtext \<Rightarrow> int \<Rightarrow> ('w, bool) act"
  redis_set_ex :: "string \<Rightarrow> rtext \<Rightarrow> int \<Rightarrow> ('w, unit) act"
  redis_del :: "string \<Rightarrow> ('w, unit) act"
  redis_expire :: "string \<Rightarrow> int \<Rightarrow> ('w, unit) act"
  redis_hset :: "string \<Rightarrow> string \<Rightarrow> rtext \<Rightarrow> ('w, unit) act"
  redis_hget :: "string \<Rightarrow> string \<Rightarrow> ('w, rtext option) act"
  redis_hgetall :: "string \<Rightarrow> ('w, (string \<times> rtext) list) act"
  redis_exec :: "redis_cmd list \<Rightarrow> ('w, unit) act"

fun cmd_effect ::
  "(((string \<Rightarrow> entry option) \<Rightarrow> string \<Rightarrow> entry option) \<Rightarrow> 'v \<Rightarrow> 'v) \<Rightarrow>
   (((string \<Rightarrow> string \<Rightarrow> rtext option) \<Rightarrow> string \<Rightarrow> string \<Rightarrow> rtext option) \<Rightarrow> 'v \<Rightarrow> 'v) \<Rightarrow>
   redis_cmd \<Rightarrow> 'v \<Rightarrow> 'v" where
  "cmd_effect kv_upd hash_upd (HSET k f x) v = hash_upd (\<lambda>h. h(k := (h k)(f \<mapsto> x))) v"
| "cmd_effect kv_upd hash_upd (DEL k) v =
     hash_upd (\<lambda>h. h(k := Map.empty)) (kv_upd (\<lambda>m. m(k := None)) v)"

text \<open>
  \<open>redis_set_ex_nx\<close> answers \<open>True\<close> for the reply \<^verbatim>\<open>OK\<close>.  Expiry times are given in seconds, the
  clock counts milliseconds.  A key of type hash without fields does not exist, so \<open>DEL\<close> on a
  hash key leaves the empty hash.
\<close>

locale redis_api =
  fixes D :: "'w redis"
    and vw :: "'w \<Rightarrow> 'v"
    and kv :: "'v \<Rightarrow> string \<Rightarrow> entry option"
    and kv_upd :: "((string \<Rightarrow> entry option) \<Rightarrow> string \<Rightarrow> entry option) \<Rightarrow> 'v \<Rightarrow> 'v"
    and hash :: "'v \<Rightarrow> string \<Rightarrow> string \<Rightarrow> rtext option"
    and hash_upd ::
      "((string \<Rightarrow> string \<Rightarrow> rtext option) \<Rightarrow> string \<Rightarrow> string \<Rightarrow> rtext option) \<Rightarrow> 'v \<Rightarrow> 'v"
    and clk :: "'v \<Rightarrow> int"
    and calm :: "'v \<Rightarrow> bool"
  assumes get_law:
      "obeys vw (redis_get D k) (fallible calm (\<lambda>v x v'. v' = v \<and> x = live (clk v) (kv v k)))"
    and set_ex_nx_law:
      "obeys vw (redis_set_ex_nx D k x ttl)
         (fallible calm (\<lambda>v ok v'. if live (clk v) (kv v k) = None
            then ok \<and> v' = kv_upd (\<lambda>m. m(k \<mapsto> (x, Some (clk v + ttl * 1000)))) v
            else \<not> ok \<and> v' = v))"
    and set_ex_law:
      "obeys vw (redis_set_ex D k x ttl)
         (fallible calm (\<lambda>v u v'. v' = kv_upd (\<lambda>m. m(k \<mapsto> (x, Some (clk v + ttl * 1000)))) v))"
    and del_law:
      "obeys vw (redis_del D k)
         (fallible calm (\<lambda>v u v'. v' = hash_upd (\<lambda>h. h(k := Map.empty)) (kv_upd (\<lambda>m. m(k := None)) v)))"
    and expire_law:
      "obeys vw (redis_expire D k ttl)
         (fallible calm (\<lambda>v u v'. v' = (case live (clk v) (kv v k) of None \<Rightarrow> v
            | Some x \<Rightarrow> kv_upd (\<lambda>m. m(k \<mapsto> (x, Some (clk v + ttl * 1000)))) v)))"
    and hset_law:
      "obeys vw (redis_hset D k f x)
         (fallible calm (\<lambda>v u v'. v' = hash_upd (\<lambda>h. h(k := (h k)(f \<mapsto> x))) v))"
    and hget_law:
      "obeys vw (redis_hget D k f) (fallible calm (\<lambda>v x v'. v' = v \<and> x = hash v k f))"
    and hgetall_law:
      "obeys vw (redis_hgetall D k)
         (fallible calm (\<lambda>v xs v'. v' = v \<and> distinct (map fst xs) \<and> map_of xs = hash v k))"
    and exec_law:
      "obeys vw (redis_exec D cmds)
         (fallible calm (\<lambda>v u v'. v' = fold (cmd_effect kv_upd hash_upd) cmds v))"

section \<open>Kafka and the clock\<close>

text \<open>\<^verbatim>\<open>emit(topic, \<lbrace>key, value\<rbrace>)\<close>: hands the message to the producer and does not throw.\<close>

type_synonym kafka_message = "string \<times> string \<times> json"

record 'w kafka =
  kafka_emit :: "string \<Rightarrow> string \<Rightarrow> json \<Rightarrow> ('w, unit) act"

locale kafka_api =
  fixes K :: "'w kafka"
    and vw :: "'w \<Rightarrow> 'v"
    and sent_upd :: "(kafka_message list \<Rightarrow> kafka_message list) \<Rightarrow> 'v \<Rightarrow> 'v"
  assumes emit_law:
    "obeys vw (kafka_emit K topic key x)
       (\<lambda>v r v'. r = Inr () \<and> v' = sent_upd (\<lambda>l. l @ [(topic, key, x)]) v)"

locale clock_api =
  fixes date_now :: "('w, int) act"
    and vw :: "'w \<Rightarrow> 'v"
    and clk :: "'v \<Rightarrow> int"
  assumes now_law: "obeys vw date_now (\<lambda>v r v'. r = Inr (clk v) \<and> v' = v)"

end
