(* ===== verification/Seat_Entities.thy ===== *)
theory Seat_Entities
  imports Storage JS_Number
begin

text \<open>
  The data of the seat-inventory service: the entities \<^verbatim>\<open>SeatInventory\<close> and \<^verbatim>\<open>SeatHold\<close> with their
  enums, the messages it receives, what is observed of its world (\<open>seat_store\<close>: its tables, its
  open transaction, Redis, the clock) and the external systems its classes are constructed with
  (\<open>seat_env\<close>).  Locale \<open>seat_world\<close> collects the laws of these systems.

  A \<^verbatim>\<open>DECIMAL\<close> column is read by the driver as text, so \<open>price\<close> is a text; the conversion the
  database makes of a number written to it is the parameter \<open>to_numeric\<close>.
\<close>

section \<open>Entities\<close>

datatype SeatStatus = AVAILABLE | HELD | RESERVED | SOLD

fun status_text :: "SeatStatus \<Rightarrow> string" where
  "status_text AVAILABLE = ''available''"
| "status_text HELD = ''held''"
| "status_text RESERVED = ''reserved''"
| "status_text SOLD = ''sold''"

lemma status_text_inj [simp]: "status_text s = status_text t \<longleftrightarrow> s = t"
  by (cases s; cases t) simp_all

record SeatInventory =
  inv_id :: string
  inv_eventId :: string
  inv_seatId :: string
  inv_sectionId :: string
  inv_sectionName :: string
  inv_ticketTypeId :: string
  inv_ticketTypeName :: string
  inv_price :: string
  inv_currency :: string
  inv_row :: string
  inv_seatNumber :: string
  inv_seatType :: string
  inv_status :: SeatStatus
  inv_priceOverride :: "string option"
  inv_version :: int
  inv_createdAt :: int

datatype SeatLockReleaseReason = TIMEOUT | USER_CANCEL | PAYMENT_SUCCESS | ADMIN | PAYMENT_FAILED

record SeatHold =
  hold_id :: string
  hold_seatInventoryId :: string
  hold_eventId :: string
  hold_seatId :: string
  hold_userId :: string
  hold_sessionId :: string
  hold_heldAt :: int
  hold_expiresAt :: int
  hold_releasedAt :: "int option"
  hold_releaseReason :: "SeatLockReleaseReason option"

text \<open>The Kafka message \<^verbatim>\<open>event.create\<close>.\<close>

record EventSeat =
  es_seatId :: string
  es_sectionId :: string
  es_sectionName :: string
  es_ticketTypeId :: string
  es_ticketTypeName :: string
  es_price :: js_number
  es_currency :: string
  es_row :: string
  es_number :: string
  es_type :: string

record EventCreateMessage =
  ecm_eventId :: string
  ecm_venueId :: "string option"
  ecm_venueName :: "string option"
  ecm_title :: "string option"
  ecm_startsAt :: "int option"
  ecm_seats :: "EventSeat list"

section \<open>The observed state\<close>

record seat_store =
  inventory :: "SeatInventory list"
  seat_holds :: "SeatHold list"
  seat_tx :: bool
  tx_inventory :: "SeatInventory list"
  tx_holds :: "SeatHold list"
  kv :: "string \<Rightarrow> entry option"
  hash :: "string \<Rightarrow> string \<Rightarrow> rtext option"
  clock :: int
  calm :: bool

definition seat_begin :: "'z seat_store_scheme \<Rightarrow> 'z seat_store_scheme" where
  "seat_begin v = v\<lparr>seat_tx := True, tx_inventory := [], tx_holds := []\<rparr>"

definition seat_publish :: "'z seat_store_scheme \<Rightarrow> 'z seat_store_scheme" where
  "seat_publish v = v\<lparr>inventory := upserts inv_id (tx_inventory v) (inventory v),
     seat_holds := upserts hold_id (tx_holds v) (seat_holds v),
     seat_tx := False, tx_inventory := [], tx_holds := []\<rparr>"

definition seat_discard :: "'z seat_store_scheme \<Rightarrow> 'z seat_store_scheme" where
  "seat_discard v = v\<lparr>seat_tx := False, tx_inventory := [], tx_holds := []\<rparr>"

text \<open>The state apart from the transaction in progress.\<close>

definition settled :: "'z seat_store_scheme \<Rightarrow> 'z seat_store_scheme" where
  "settled v = v\<lparr>seat_tx := False, tx_inventory := [], tx_holds := []\<rparr>"

text \<open>\<^verbatim>\<open>@Index(['eventId', 'seatId'], unique)\<close>.\<close>

definition seat_key :: "SeatInventory \<Rightarrow> string \<times> string" where
  "seat_key r = (inv_eventId r, inv_seatId r)"

definition unique_seats :: "SeatInventory list \<Rightarrow> bool" where
  "unique_seats t \<longleftrightarrow> distinct (map seat_key t)"

text \<open>Well-formed tables: primary keys and the unique index.\<close>

definition seat_wf :: "'z seat_store_scheme \<Rightarrow> bool" where
  "seat_wf v \<longleftrightarrow> distinct (map inv_id (inventory v)) \<and> unique_seats (inventory v) \<and>
     distinct (map hold_id (seat_holds v))"

section \<open>The environment\<close>

record 'w seat_env =
  inventoryRepo :: "('w, SeatInventory) repo"
  holdRepo :: "('w, SeatHold) repo"
  inventoryManager :: "('w, SeatInventory) manager"
  holdManager :: "('w, SeatHold) manager"
  seatRunner :: "'w query_runner"
  seatRedis :: "'w redis"
  seatNow :: "('w, int) act"
  to_numeric :: "js_number \<Rightarrow> string"

locale seat_world =
  inv: table_api "inventoryRepo E" vw inv_id inventory inventory_update clock unique_seats calm +
  hold: table_api "holdRepo E" vw hold_id seat_holds seat_holds_update clock "\<lambda>_. True" calm +
  txinv: manager_api "inventoryManager E" vw inv_id inventory tx_inventory tx_inventory_update clock seat_tx unique_seats calm +
  txhold: manager_api "holdManager E" vw hold_id seat_holds tx_holds tx_holds_update clock seat_tx "\<lambda>_. True" calm +
  tx: transaction_api "seatRunner E" vw seat_tx seat_begin seat_publish seat_discard calm +
  redis_api "seatRedis E" vw kv kv_update hash hash_update clock calm +
  clock_api "seatNow E" vw clock
  for E :: "'w seat_env" and vw :: "'w \<Rightarrow> 'z seat_store_scheme"

end
