(* ===== verification/Memory.thy ===== *)
theory Memory
  imports Storage "HOL-Library.AList"
begin

text \<open>
  An executable instance of the external systems: tables and keys held in lists, with a schedule
  of faults.  It shows that the laws of theory \<open>Storage\<close> can hold together, whatever calls fail,
  and it is what the concrete runs of the development are evaluated on.

  The world of an instance extends \<open>mem_base\<close>.  When \<open>steady\<close> is set no call fails; otherwise
  each call first consumes the next entry of \<open>faults\<close>, and \<open>Some e\<close> makes it throw an error with
  message \<open>e\<close>.
\<close>

section \<open>Faults\<close>

record mem_base =
  steady :: bool
  faults :: "string option list"
  mem_clock :: int

definition mem_step ::
  "('z mem_base_scheme \<Rightarrow> (exn + 'a) \<times> 'z mem_base_scheme) \<Rightarrow> ('z mem_base_scheme, 'a) act" where
  "mem_step f w = (if steady w then f w else (case faults w of
      [] \<Rightarrow> f w
    | None # fs \<Rightarrow> f (w\<lparr>faults := fs\<rparr>)
    | Some e # fs \<Rightarrow> (Inl (JsError e), w\<lparr>faults := fs\<rparr>)))"

text \<open>An observation that does not see the fault schedule, and sees whether the world is steady.\<close>

definition blind :: "('z mem_base_scheme \<Rightarrow> 'v) \<Rightarrow> ('v \<Rightarrow> bool) \<Rightarrow> bool" where
  "blind vw calm \<longleftrightarrow> (\<forall>w fs. vw (w\<lparr>faults := fs\<rparr>) = vw w) \<and> (\<forall>w. calm (vw w) = steady w)"

lemma obeys_mem_step:
  assumes "blind vw calm" "\<And>v. calm' v \<Longrightarrow> calm v"
    and "\<And>w. case f w of (r, w') \<Rightarrow> fallible calm' S (vw w) r (vw w')"
  shows "obeys vw (mem_step f) (fallible calm' S)"
proof (rule obeysI)
  fix w :: "'a mem_base_scheme"
  have b: "vw (w\<lparr>faults := fs\<rparr>) = vw w" "calm' (vw w) \<Longrightarrow> steady w" for fs
    using assms(1,2) by (auto simp: blind_def)
  show "wp (mem_step f) (\<lambda>r w'. fallible calm' S (vw w) r (vw w')) w"
    unfolding wp_def mem_step_def
    using assms(3) [of w] assms(3) [of "w\<lparr>faults := fs\<rparr>" for fs] b
    by (auto split: list.splits option.splits prod.splits)
qed

section \<open>Tables\<close>

text \<open>Keys longer than every key in use.\<close>

definition fresh_ids :: "string list \<Rightarrow> nat \<Rightarrow> string list" where
  "fresh_ids used n =
     (let m = fold max (map length used) 0 in map (\<lambda>k. replicate (Suc (m + k)) CHR ''i'') [0..<n])"

lemma fold_max_ge: "x \<in> set xs \<Longrightarrow> x \<le> fold max xs (a :: nat)"
proof (induction xs arbitrary: a)
  case (Cons y ys)
  have "b \<le> fold max zs b" for zs and b :: nat
    by (induction zs arbitrary: b) (auto intro: le_trans max.cobounded2)
  then show ?case
    using Cons by (auto intro: le_trans [OF max.cobounded1])
qed simp

lemma fresh_ids_length [simp]: "length (fresh_ids used n) = n"
  by (simp add: fresh_ids_def Let_def)

lemma fresh_ids_distinct: "distinct (fresh_ids used n)"
  by (auto simp: fresh_ids_def Let_def distinct_map intro!: inj_onI)

lemma fresh_ids_fresh: "set (fresh_ids used n) \<inter> set used = {}"
proof -
  have "length i > length u" if "i \<in> set (fresh_ids used n)" "u \<in> set used" for i u
    using that fold_max_ge [of "length u" "map length used" 0] by (auto simp: fresh_ids_def Let_def)
  then show ?thesis by fastforce
qed

definition new_rows ::
  "('row \<Rightarrow> string) \<Rightarrow> string list \<Rightarrow> int \<Rightarrow> (string \<Rightarrow> int \<Rightarrow> 'row) list \<Rightarrow> 'row list" where
  "new_rows rid used now mks = map2 (\<lambda>mk i. mk i now) mks (fresh_ids used (length mks))"

definition keyed :: "('row \<Rightarrow> string) \<Rightarrow> string list \<Rightarrow> 'row list \<Rightarrow> bool" where
  "keyed rid used xs \<longleftrightarrow> map rid xs = fresh_ids used (length xs)"

lemma keeps_ids_keyed: "keeps_ids rid mks \<Longrightarrow> keyed rid used (new_rows rid used now mks)"
  by (auto simp: keyed_def new_rows_def keeps_ids_def intro!: nth_equalityI)

lemma new_rows_created:
  assumes "keyed rid used (new_rows rid used now mks)" "set used = U"
  shows "created rid U now mks (new_rows rid used now mks)"
  unfolding created_def using assms fresh_ids_fresh [of used "length mks"]
  by (intro exI [of _ "fresh_ids used (length mks)"])
    (auto simp: fresh_ids_distinct new_rows_def keyed_def)

lemma new_rows_rejected:
  assumes "set used = U" "\<not> (keyed rid used (new_rows rid used now mks) \<and> ok (new_rows rid used now mks))"
  shows "\<not> insertable rid U now mks ok"
  using assms new_rows_created [of rid used now mks U] keeps_ids_keyed [of rid mks used now]
  by (auto simp: insertable_def)

lemma insertable_new_rows:
  "insertable rid U now mks ok \<Longrightarrow> set used = U \<Longrightarrow>
     keyed rid used (new_rows rid used now mks) \<and> ok (new_rows rid used now mks)"
  using new_rows_rejected by blast

definition db_error :: exn where
  "db_error = JsError ''duplicate key value violates unique constraint''"

definition mem_repo ::
  "('row \<Rightarrow> string) \<Rightarrow> ('z mem_base_scheme \<Rightarrow> 'row list) \<Rightarrow>
   (('row list \<Rightarrow> 'row list) \<Rightarrow> 'z mem_base_scheme \<Rightarrow> 'z mem_base_scheme) \<Rightarrow>
   ('row list \<Rightarrow> bool) \<Rightarrow> ('z mem_base_scheme, 'row) repo" where
  "mem_repo rid mtab mtab_upd unique = \<lparr>
     repo_find = (\<lambda>P. mem_step (\<lambda>w. (Inr (filter P (mtab w)), w))),
     repo_findOne = (\<lambda>P. mem_step (\<lambda>w. (Inr (List.find P (mtab w)), w))),
     repo_find_ordered = (\<lambda>P key n. mem_step (\<lambda>w. (Inr (page n (sort_key key (filter P (mtab w)))), w))),
     repo_distinct = (\<lambda>col. mem_step (\<lambda>w. (Inr (remdups (map col (mtab w))), w))),
     repo_count = (\<lambda>P. mem_step (\<lambda>w. (Inr (length (filter P (mtab w))), w))),
     repo_insert = (\<lambda>mks. mem_step (\<lambda>w.
       let xs = new_rows rid (map rid (mtab w)) (mem_clock w) mks
       in if keyed rid (map rid (mtab w)) xs \<and> unique (mtab w @ xs)
          then (Inr xs, mtab_upd (\<lambda>t. t @ xs) w) else (Inl db_error, w))),
     repo_save = (\<lambda>xs. mem_step (\<lambda>w. (Inr (), mtab_upd (upserts rid xs) w))),
     repo_update = (\<lambda>P f. mem_step (\<lambda>w. (Inr (), mtab_upd (map (\<lambda>r. if P r then f r else r)) w)))\<rparr>"

locale mem_table =
  fixes vw :: "'z mem_base_scheme \<Rightarrow> 'v"
    and rid :: "'row \<Rightarrow> string"
    and mtab :: "'z mem_base_scheme \<Rightarrow> 'row list"
    and mtab_upd :: "('row list \<Rightarrow> 'row list) \<Rightarrow> 'z mem_base_scheme \<Rightarrow> 'z mem_base_scheme"
    and tab :: "'v \<Rightarrow> 'row list"
    and tab_upd :: "('row list \<Rightarrow> 'row list) \<Rightarrow> 'v \<Rightarrow> 'v"
    and clk :: "'v \<Rightarrow> int"
    and unique :: "'row list \<Rightarrow> bool"
    and calm :: "'v \<Rightarrow> bool"
  assumes blind_vw: "blind vw calm"
    and tab_vw: "tab (vw w) = mtab w"
    and vw_upd: "vw (mtab_upd f w) = tab_upd f (vw w)"
    and clk_vw: "clk (vw w) = mem_clock w"

sublocale mem_table \<subseteq> table_api "mem_repo rid mtab mtab_upd unique" vw rid tab tab_upd clk unique calm
proof
  fix P :: "'row \<Rightarrow> bool" and f xs key n col and mks :: "(string \<Rightarrow> int \<Rightarrow> 'row) list"
  note mem_facts = blind_vw tab_vw vw_upd clk_vw
  show "obeys vw (repo_find (mem_repo rid mtab mtab_upd unique) P)
      (fallible calm (\<lambda>v xs v'. v' = v \<and> mset xs = mset (filter P (tab v))))"
    by (simp add: mem_repo_def) (rule obeys_mem_step [OF blind_vw]; simp add: mem_facts)
  show "obeys vw (repo_findOne (mem_repo rid mtab mtab_upd unique) P)
      (fallible calm (\<lambda>v x v'. v' = v \<and>
         (case x of None \<Rightarrow> \<forall>r\<in>set (tab v). \<not> P r | Some r \<Rightarrow> r \<in> set (tab v) \<and> P r)))"
    by (simp add: mem_repo_def) (rule obeys_mem_step [OF blind_vw];
      auto simp: mem_facts find_None_iff find_Some_iff split: option.splits)
  show "obeys vw (repo_find_ordered (mem_repo rid mtab mtab_upd unique) P key n)
      (fallible calm (\<lambda>v xs v'. v' = v \<and>
        (\<exists>ys. mset ys = mset (filter P (tab v)) \<and> sorted (map key ys) \<and> xs = page n ys)))"
    by (simp add: mem_repo_def) (rule obeys_mem_step [OF blind_vw];
      auto simp: mem_facts intro!: exI [of _ "sort_key key (filter P (mtab w))" for w])
  show "obeys vw (repo_distinct (mem_repo rid mtab mtab_upd unique) col)
      (fallible calm (\<lambda>v xs v'. v' = v \<and> distinct xs \<and> set xs = col ` set (tab v)))"
    by (simp add: mem_repo_def) (rule obeys_mem_step [OF blind_vw]; simp add: mem_facts)
  show "obeys vw (repo_count (mem_repo rid mtab mtab_upd unique) P)
      (fallible calm (\<lambda>v n v'. v' = v \<and> n = length (filter P (tab v))))"
    by (simp add: mem_repo_def) (rule obeys_mem_step [OF blind_vw]; simp add: mem_facts)
  show "obeys vw (repo_insert (mem_repo rid mtab mtab_upd unique) mks)
      (fallible (\<lambda>v. calm v \<and> insertable rid (rid ` set (tab v)) (clk v) mks (\<lambda>xs. unique (tab v @ xs)))
        (\<lambda>v xs v'. created rid (rid ` set (tab v)) (clk v) mks xs \<and>
         v' = tab_upd (\<lambda>t. t @ xs) v \<and> unique (tab v @ xs)))"
    by (simp add: mem_repo_def) (rule obeys_mem_step [OF blind_vw];
      auto simp: mem_facts Let_def db_error_def intro!: new_rows_created dest!: insertable_new_rows [where used = "map rid (mtab w)" for w])
  show "obeys vw (repo_save (mem_repo rid mtab mtab_upd unique) xs)
      (fallible calm (\<lambda>v u v'. v' = tab_upd (upserts rid xs) v))"
    by (simp add: mem_repo_def) (rule obeys_mem_step [OF blind_vw]; simp add: mem_facts)
  show "obeys vw (repo_update (mem_repo rid mtab mtab_upd unique) P f)
      (fallible calm (\<lambda>v u v'. v' = tab_upd (map (\<lambda>r. if P r then f r else r)) v))"
    by (simp add: mem_repo_def) (rule obeys_mem_step [OF blind_vw]; simp add: mem_facts)
qed

section \<open>Transactions\<close>

definition mem_manager ::
  "('row \<Rightarrow> string) \<Rightarrow> ('z mem_base_scheme \<Rightarrow> 'row list) \<Rightarrow> ('z mem_base_scheme \<Rightarrow> 'row list) \<Rightarrow>
   (('row list \<Rightarrow> 'row list) \<Rightarrow> 'z mem_base_scheme \<Rightarrow> 'z mem_base_scheme) \<Rightarrow>
   ('row list \<Rightarrow> bool) \<Rightarrow> ('z mem_base_scheme, 'row) manager" where
  "mem_manager rid mtab mpend mpend_upd unique = \<lparr>
     manager_insert = (\<lambda>mks. mem_step (\<lambda>w.
       let used = map rid (mtab w) @ map rid (mpend w); xs = new_rows rid used (mem_clock w) mks
       in if keyed rid used xs \<and> unique (upserts rid (mpend w @ xs) (mtab w)) then (Inr xs, mpend_upd (\<lambda>p. p @ xs) w) else (Inl db_error, w))),
     manager_save = (\<lambda>xs. mem_step (\<lambda>w. (Inr (), mpend_upd (\<lambda>p. p @ xs) w)))\<rparr>"

locale mem_pending =
  fixes vw :: "'z mem_base_scheme \<Rightarrow> 'v"
    and rid :: "'row \<Rightarrow> string"
    and mtab :: "'z mem_base_scheme \<Rightarrow> 'row list"
    and mpend :: "'z mem_base_scheme \<Rightarrow> 'row list"
    and mpend_upd :: "('row list \<Rightarrow> 'row list) \<Rightarrow> 'z mem_base_scheme \<Rightarrow> 'z mem_base_scheme"
    and tab :: "'v \<Rightarrow> 'row list"
    and pend :: "'v \<Rightarrow> 'row list"
    and pend_upd :: "('row list \<Rightarrow> 'row list) \<Rightarrow> 'v \<Rightarrow> 'v"
    and clk :: "'v \<Rightarrow> int"
    and tx_open :: "'v \<Rightarrow> bool"
    and unique :: "'row list \<Rightarrow> bool"
    and calm :: "'v \<Rightarrow> bool"
  assumes blind_vw: "blind vw calm"
    and tab_vw: "tab (vw w) = mtab w"
    and pend_vw: "pend (vw w) = mpend w"
    and vw_upd: "vw (mpend_upd f w) = pend_upd f (vw w)"
    and clk_vw: "clk (vw w) = mem_clock w"

sublocale mem_pending \<subseteq> manager_api "mem_manager rid mtab mpend mpend_upd unique" vw rid tab pend pend_upd clk tx_open unique calm
proof
  fix xs and mks :: "(string \<Rightarrow> int \<Rightarrow> 'row) list"
  note mem_facts = blind_vw tab_vw pend_vw vw_upd clk_vw keeps_ids_keyed
  show "obeys vw (manager_insert (mem_manager rid mtab mpend mpend_upd unique) mks)
      (fallible (\<lambda>v. calm v \<and> insertable rid (rid ` set (tab v) \<union> rid ` set (pend v)) (clk v) mks
            (\<lambda>xs. unique (upserts rid (pend v @ xs) (tab v)))) (\<lambda>v xs v'. tx_open v \<longrightarrow>
        created rid (rid ` set (tab v) \<union> rid ` set (pend v)) (clk v) mks xs \<and> unique (upserts rid (pend v @ xs) (tab v)) \<and>
        v' = pend_upd (\<lambda>p. p @ xs) v))"
    by (simp add: mem_manager_def) (rule obeys_mem_step [OF blind_vw];
      auto simp: mem_facts Let_def db_error_def intro!: new_rows_created
        dest!: insertable_new_rows [where used = "map rid (mtab w) @ map rid (mpend w)" for w])
  show "obeys vw (manager_save (mem_manager rid mtab mpend mpend_upd unique) xs)
      (fallible calm (\<lambda>v u v'. tx_open v \<longrightarrow> v' = pend_upd (\<lambda>p. p @ xs) v))"
    by (simp add: mem_manager_def) (rule obeys_mem_step [OF blind_vw]; simp add: mem_facts)
qed

definition tx_error :: exn where
  "tx_error = JsError ''Transaction is not started yet''"

definition mem_runner ::
  "('z mem_base_scheme \<Rightarrow> bool) \<Rightarrow> ('z mem_base_scheme \<Rightarrow> 'z mem_base_scheme) \<Rightarrow>
   ('z mem_base_scheme \<Rightarrow> 'z mem_base_scheme) \<Rightarrow> ('z mem_base_scheme \<Rightarrow> 'z mem_base_scheme) \<Rightarrow>
   'z mem_base_scheme query_runner" where
  "mem_runner mopen mbegin mpublish mdiscard = \<lparr>
     qr_connect = mem_step (\<lambda>w. (Inr (), w)),
     qr_startTransaction = mem_step (\<lambda>w. (Inr (), mbegin w)),
     qr_commitTransaction = mem_step (\<lambda>w. if mopen w then (Inr (), mpublish w) else (Inl tx_error, w)),
     qr_rollbackTransaction = mem_step (\<lambda>w. if mopen w then (Inr (), mdiscard w) else (Inl tx_error, w)),
     qr_release = mem_step (\<lambda>w. (Inr (), w))\<rparr>"

locale mem_transaction =
  fixes vw :: "'z mem_base_scheme \<Rightarrow> 'v"
    and mopen :: "'z mem_base_scheme \<Rightarrow> bool"
    and mbegin mpublish mdiscard :: "'z mem_base_scheme \<Rightarrow> 'z mem_base_scheme"
    and tx_open :: "'v \<Rightarrow> bool"
    and tx_begin tx_publish tx_discard :: "'v \<Rightarrow> 'v"
    and calm :: "'v \<Rightarrow> bool"
  assumes blind_vw: "blind vw calm"
    and open_vw: "tx_open (vw w) = mopen w"
    and begin_vw: "vw (mbegin w) = tx_begin (vw w)"
    and publish_vw: "vw (mpublish w) = tx_publish (vw w)"
    and discard_vw: "vw (mdiscard w) = tx_discard (vw w)"

sublocale mem_transaction \<subseteq>
  transaction_api "mem_runner mopen mbegin mpublish mdiscard" vw tx_open tx_begin tx_publish tx_discard calm
  by (unfold_locales; simp add: mem_runner_def; rule obeys_mem_step [OF blind_vw];
      simp add: tx_error_def blind_vw open_vw begin_vw publish_vw discard_vw)

section \<open>Redis, Kafka and the clock\<close>

type_synonym mem_hashes = "(string \<times> (string \<times> rtext) list) list"

definition fields_of :: "mem_hashes \<Rightarrow> string \<Rightarrow> (string \<times> rtext) list" where
  "fields_of h k = (case map_of h k of None \<Rightarrow> [] | Some fs \<Rightarrow> fs)"

definition mem_del ::
  "(((string \<times> entry) list \<Rightarrow> (string \<times> entry) list) \<Rightarrow> 'w \<Rightarrow> 'w) \<Rightarrow>
   ((mem_hashes \<Rightarrow> mem_hashes) \<Rightarrow> 'w \<Rightarrow> 'w) \<Rightarrow> string \<Rightarrow> 'w \<Rightarrow> 'w" where
  "mem_del mkv_upd mhash_upd k w = mhash_upd (AList.delete k) (mkv_upd (AList.delete k) w)"

definition mem_hset ::
  "((mem_hashes \<Rightarrow> mem_hashes) \<Rightarrow> 'w \<Rightarrow> 'w) \<Rightarrow> string \<Rightarrow> string \<Rightarrow> rtext \<Rightarrow> 'w \<Rightarrow> 'w" where
  "mem_hset mhash_upd k f x = mhash_upd (\<lambda>h. AList.update k (AList.update f x (fields_of h k)) h)"

fun mem_cmd ::
  "(((string \<times> entry) list \<Rightarrow> (string \<times> entry) list) \<Rightarrow> 'w \<Rightarrow> 'w) \<Rightarrow>
   ((mem_hashes \<Rightarrow> mem_hashes) \<Rightarrow> 'w \<Rightarrow> 'w) \<Rightarrow> redis_cmd \<Rightarrow> 'w \<Rightarrow> 'w" where
  "mem_cmd mkv_upd mhash_upd (HSET k f x) = mem_hset mhash_upd k f x"
| "mem_cmd mkv_upd mhash_upd (DEL k) = mem_del mkv_upd mhash_upd k"

definition mem_redis ::
  "('z mem_base_scheme \<Rightarrow> (string \<times> entry) list) \<Rightarrow>
   (((string \<times> entry) list \<Rightarrow> (string \<times> entry) list) \<Rightarrow> 'z mem_base_scheme \<Rightarrow> 'z mem_base_scheme) \<Rightarrow>
   ('z mem_base_scheme \<Rightarrow> mem_hashes) \<Rightarrow>
   ((mem_hashes \<Rightarrow> mem_hashes) \<Rightarrow> 'z mem_base_scheme \<Rightarrow> 'z mem_base_scheme) \<Rightarrow>
   'z mem_base_scheme redis" where
  "mem_redis mkv mkv_upd mhash mhash_upd = \<lparr>
     redis_get = (\<lambda>k. mem_step (\<lambda>w. (Inr (live (mem_clock w) (map_of (mkv w) k)), w))),
     redis_set_ex_nx = (\<lambda>k x ttl. mem_step (\<lambda>w.
       if live (mem_clock w) (map_of (mkv w) k) = None
       then (Inr True, mkv_upd (AList.update k (x, Some (mem_clock w + ttl * 1000))) w)
       else (Inr False, w))),
     redis_set_ex = (\<lambda>k x ttl. mem_step (\<lambda>w.
       (Inr (), mkv_upd (AList.update k (x, Some (mem_clock w + ttl * 1000))) w))),
     redis_del = (\<lambda>k. mem_step (\<lambda>w. (Inr (), mem_del mkv_upd mhash_upd k w))),
     redis_expire = (\<lambda>k ttl. mem_step (\<lambda>w.
       (Inr (), case live (mem_clock w) (map_of (mkv w) k) of None \<Rightarrow> w
        | Some x \<Rightarrow> mkv_upd (AList.update k (x, Some (mem_clock w + ttl * 1000))) w))),
     redis_hset = (\<lambda>k f x. mem_step (\<lambda>w. (Inr (), mem_hset mhash_upd k f x w))),
     redis_hget = (\<lambda>k f. mem_step (\<lambda>w. (Inr (map_of (fields_of (mhash w) k) f), w))),
     redis_hgetall = (\<lambda>k. mem_step (\<lambda>w. (Inr (AList.clearjunk (fields_of (mhash w) k)), w))),
     redis_exec = (\<lambda>cmds. mem_step (\<lambda>w. (Inr (), fold (mem_cmd mkv_upd mhash_upd) cmds w)))\<rparr>"

locale mem_keys =
  fixes vw :: "'z mem_base_scheme \<Rightarrow> 'v"
    and mkv :: "'z mem_base_scheme \<Rightarrow> (string \<times> entry) list"
    and mkv_upd ::
      "((string \<times> entry) list \<Rightarrow> (string \<times> entry) list) \<Rightarrow> 'z mem_base_scheme \<Rightarrow> 'z mem_base_scheme"
    and mhash :: "'z mem_base_scheme \<Rightarrow> mem_hashes"
    and mhash_upd :: "(mem_hashes \<Rightarrow> mem_hashes) \<Rightarrow> 'z mem_base_scheme \<Rightarrow> 'z mem_base_scheme"
    and kv :: "'v \<Rightarrow> string \<Rightarrow> entry option"
    and kv_upd :: "((string \<Rightarrow> entry option) \<Rightarrow> string \<Rightarrow> entry option) \<Rightarrow> 'v \<Rightarrow> 'v"
    and hash :: "'v \<Rightarrow> string \<Rightarrow> string \<Rightarrow> rtext option"
    and hash_upd ::
      "((string \<Rightarrow> string \<Rightarrow> rtext option) \<Rightarrow> string \<Rightarrow> string \<Rightarrow> rtext option) \<Rightarrow> 'v \<Rightarrow> 'v"
    and clk :: "'v \<Rightarrow> int"
    and calm :: "'v \<Rightarrow> bool"
  assumes blind_vw: "blind vw calm"
    and kv_vw: "kv (vw w) = map_of (mkv w)"
    and hash_vw: "hash (vw w) k = map_of (fields_of (mhash w) k)"
    and kv_upd_vw: "vw (mkv_upd g w) = kv_upd (\<lambda>_. map_of (g (mkv w))) (vw w)"
    and hash_upd_vw: "vw (mhash_upd g' w) = hash_upd (\<lambda>_ k. map_of (fields_of (g' (mhash w)) k)) (vw w)"
    and mhash_upd_kv: "mhash (mkv_upd g w) = mhash w"
    and kv_upd_at: "kv_upd p v = kv_upd (\<lambda>_. p (kv v)) v"
    and hash_upd_at: "hash_upd q v = hash_upd (\<lambda>_. q (hash v)) v"
    and hash_kv_upd: "hash (kv_upd p v) = hash v"
    and clk_vw: "clk (vw w) = mem_clock w"
begin

lemma vw_set: "vw (mkv_upd (AList.update k e) w) = kv_upd (\<lambda>m. m(k \<mapsto> e)) (vw w)"
  by (subst kv_upd_at) (simp add: kv_upd_vw kv_vw update_conv')

lemma vw_del: "vw (mem_del mkv_upd mhash_upd k w) =
    hash_upd (\<lambda>h. h(k := Map.empty)) (kv_upd (\<lambda>m. m(k := None)) (vw w))"
proof -
  have "(\<lambda>j. map_of (fields_of (AList.delete k (mhash w)) j)) =
      (\<lambda>j. map_of (fields_of (mhash w) j))(k := Map.empty)"
    by (auto simp: fun_eq_iff fields_of_def delete_conv')
  then show ?thesis
    by (subst hash_upd_at, subst (2) kv_upd_at)
      (simp add: mem_del_def kv_upd_vw hash_upd_vw mhash_upd_kv kv_vw hash_kv_upd delete_conv' hash_vw [abs_def])
qed

lemma vw_hset: "vw (mem_hset mhash_upd k f x w) =
    hash_upd (\<lambda>h. h(k := (h k)(f \<mapsto> x))) (vw w)"
proof -
  have "(\<lambda>j. map_of (fields_of (AList.update k (AList.update f x (fields_of (mhash w) k)) (mhash w)) j)) =
      (\<lambda>j. map_of (fields_of (mhash w) j))(k := (map_of (fields_of (mhash w) k))(f \<mapsto> x))"
    by (auto simp: fun_eq_iff fields_of_def update_conv' split: option.splits)
  then show ?thesis
    by (subst hash_upd_at) (simp add: mem_hset_def hash_upd_vw hash_vw [abs_def])
qed

lemma vw_cmd: "vw (mem_cmd mkv_upd mhash_upd c w) = cmd_effect kv_upd hash_upd c (vw w)"
  by (cases c) (simp_all add: vw_hset vw_del)

lemma vw_cmds: "vw (fold (mem_cmd mkv_upd mhash_upd) cs w) = fold (cmd_effect kv_upd hash_upd) cs (vw w)"
  by (induction cs arbitrary: w) (simp_all add: vw_cmd)

end

sublocale mem_keys \<subseteq> redis_api "mem_redis mkv mkv_upd mhash mhash_upd" vw kv kv_upd hash hash_upd clk calm
  by (unfold_locales; simp add: mem_redis_def; rule obeys_mem_step [OF blind_vw];
      auto simp: blind_vw kv_vw hash_vw clk_vw vw_set vw_del vw_hset vw_cmds map_of_clearjunk
        distinct_clearjunk split: option.splits)

definition mem_kafka ::
  "((kafka_message list \<Rightarrow> kafka_message list) \<Rightarrow> 'w \<Rightarrow> 'w) \<Rightarrow> 'w kafka" where
  "mem_kafka msent_upd = \<lparr>kafka_emit = (\<lambda>topic key x w. (Inr (), msent_upd (\<lambda>l. l @ [(topic, key, x)]) w))\<rparr>"

locale mem_producer =
  fixes vw :: "'w \<Rightarrow> 'v"
    and msent_upd :: "(kafka_message list \<Rightarrow> kafka_message list) \<Rightarrow> 'w \<Rightarrow> 'w"
    and sent_upd :: "(kafka_message list \<Rightarrow> kafka_message list) \<Rightarrow> 'v \<Rightarrow> 'v"
  assumes sent_vw: "vw (msent_upd f w) = sent_upd f (vw w)"

sublocale mem_producer \<subseteq> kafka_api "mem_kafka msent_upd" vw sent_upd
  by unfold_locales (simp add: mem_kafka_def obeys_def wp_def sent_vw)

definition mem_now :: "('z mem_base_scheme, int) act" where
  "mem_now w = (Inr (mem_clock w), w)"

locale mem_time =
  fixes vw :: "'z mem_base_scheme \<Rightarrow> 'v" and clk :: "'v \<Rightarrow> int"
  assumes clk_vw: "clk (vw w) = mem_clock w"

sublocale mem_time \<subseteq> clock_api mem_now vw clk
  by unfold_locales (simp add: mem_now_def obeys_def wp_def clk_vw)

end
