(* ===== verification/Seat_Memory.thy ===== *)
theory Seat_Memory
  imports Seat_Entities Memory
begin

text \<open>
  The seat-inventory service on the in-memory instance of its external systems: the world
  \<open>seat_mem\<close>, the environment \<open>mem_seat_env\<close> and the interpretation of \<open>seat_world\<close> on them.
  The interpretation is for every extension of the world, with the extension as the frame that
  the service does not touch, so that worlds of several services can be stacked.
\<close>

record seat_mem = mem_base +
  m_inventory :: "SeatInventory list"
  m_holds :: "SeatHold list"
  m_seat_tx :: bool
  m_tx_inventory :: "SeatInventory list"
  m_tx_holds :: "SeatHold list"
  m_kv :: "(string \<times> entry) list"
  m_hash :: mem_hashes

definition seat_view :: "'z seat_mem_scheme \<Rightarrow> 'z seat_store_scheme" where
  "seat_view w = \<lparr>inventory = m_inventory w, seat_holds = m_holds w, seat_tx = m_seat_tx w,
     tx_inventory = m_tx_inventory w, tx_holds = m_tx_holds w, kv = map_of (m_kv w),
     hash = (\<lambda>k. map_of (fields_of (m_hash w) k)), clock = mem_clock w, calm = steady w, \<dots> = seat_mem.more w\<rparr>"

definition mem_seat_env :: "'z seat_mem_scheme seat_env" where
  "mem_seat_env = \<lparr>
     inventoryRepo = mem_repo inv_id m_inventory m_inventory_update unique_seats,
     holdRepo = mem_repo hold_id m_holds m_holds_update (\<lambda>_. True),
     inventoryManager = mem_manager inv_id m_inventory m_tx_inventory m_tx_inventory_update unique_seats,
     holdManager = mem_manager hold_id m_holds m_tx_holds m_tx_holds_update (\<lambda>_. True),
     seatRunner = mem_runner m_seat_tx
       (\<lambda>w. w\<lparr>m_seat_tx := True, m_tx_inventory := [], m_tx_holds := []\<rparr>)
       (\<lambda>w. w\<lparr>m_inventory := upserts inv_id (m_tx_inventory w) (m_inventory w),
          m_holds := upserts hold_id (m_tx_holds w) (m_holds w),
          m_seat_tx := False, m_tx_inventory := [], m_tx_holds := []\<rparr>)
       (\<lambda>w. w\<lparr>m_seat_tx := False, m_tx_inventory := [], m_tx_holds := []\<rparr>),
     seatRedis = mem_redis m_kv m_kv_update m_hash m_hash_update,
     seatNow = mem_now,
     to_numeric = (\<lambda>_. ''0.00'')\<rparr>"

lemma seat_view_blind: "blind seat_view calm"
  by (simp add: blind_def seat_view_def)

interpretation mem_inv: mem_table seat_view inv_id m_inventory m_inventory_update
  inventory inventory_update clock unique_seats calm
  by unfold_locales (simp_all add: seat_view_blind, simp_all add: seat_view_def)

interpretation mem_hold: mem_table seat_view hold_id m_holds m_holds_update
  seat_holds seat_holds_update clock "\<lambda>_. True" calm
  by unfold_locales (simp_all add: seat_view_blind, simp_all add: seat_view_def)

interpretation mem_txinv: mem_pending seat_view inv_id m_inventory m_tx_inventory
  m_tx_inventory_update inventory tx_inventory tx_inventory_update clock seat_tx unique_seats calm
  by unfold_locales (simp_all add: seat_view_blind, simp_all add: seat_view_def)

interpretation mem_txhold: mem_pending seat_view hold_id m_holds m_tx_holds
  m_tx_holds_update seat_holds tx_holds tx_holds_update clock seat_tx "\<lambda>_. True" calm
  by unfold_locales (simp_all add: seat_view_blind, simp_all add: seat_view_def)

interpretation mem_seat_tx: mem_transaction seat_view m_seat_tx
  "\<lambda>w. w\<lparr>m_seat_tx := True, m_tx_inventory := [], m_tx_holds := []\<rparr>"
  "\<lambda>w. w\<lparr>m_inventory := upserts inv_id (m_tx_inventory w) (m_inventory w),
     m_holds := upserts hold_id (m_tx_holds w) (m_holds w),
     m_seat_tx := False, m_tx_inventory := [], m_tx_holds := []\<rparr>"
  "\<lambda>w. w\<lparr>m_seat_tx := False, m_tx_inventory := [], m_tx_holds := []\<rparr>"
  seat_tx seat_begin seat_publish seat_discard calm
  by unfold_locales
    (simp_all add: seat_view_blind, simp_all add: seat_view_def seat_begin_def seat_publish_def seat_discard_def)

interpretation mem_seat_keys: mem_keys seat_view m_kv m_kv_update m_hash m_hash_update
  kv kv_update hash hash_update clock calm
  by unfold_locales (simp_all add: seat_view_blind, simp_all add: seat_view_def)

interpretation mem_seat_clock: mem_time seat_view clock
  by unfold_locales (simp add: seat_view_def)

interpretation mem_seats: seat_world mem_seat_env seat_view
  by (simp add: seat_world_def mem_seat_env_def mem_inv.table_api_axioms mem_hold.table_api_axioms
      mem_txinv.manager_api_axioms mem_txhold.manager_api_axioms mem_seat_tx.transaction_api_axioms
      mem_seat_keys.redis_api_axioms mem_seat_clock.clock_api_axioms)

section \<open>A concrete world\<close>

text \<open>Event \<^verbatim>\<open>e1\<close> with seats \<^verbatim>\<open>A1\<close> and \<^verbatim>\<open>A2\<close> available and \<^verbatim>\<open>A3\<close> sold, nothing locked, no faults.\<close>

definition demo_seat :: "string \<Rightarrow> SeatStatus \<Rightarrow> SeatInventory" where
  "demo_seat s st = \<lparr>inv_id = ''inv-'' @ s, inv_eventId = ''e1'', inv_seatId = s, inv_sectionId = ''sec'',
     inv_sectionName = ''Stalls'', inv_ticketTypeId = ''tt'', inv_ticketTypeName = ''Standard'',
     inv_price = ''150.00'', inv_currency = ''TRY'', inv_row = ''A'', inv_seatNumber = s,
     inv_seatType = ''standard'', inv_status = st, inv_priceOverride = None, inv_version = 1,
     inv_createdAt = 0\<rparr>"

definition demo_seats :: seat_mem where
  "demo_seats = \<lparr>steady = True, faults = [], mem_clock = 1000,
     m_inventory = [demo_seat ''A1'' AVAILABLE, demo_seat ''A2'' AVAILABLE, demo_seat ''A3'' SOLD],
     m_holds = [], m_seat_tx = False, m_tx_inventory = [], m_tx_holds = [], m_kv = [], m_hash = []\<rparr>"

end
