(* ===== verification/Seat_Lock.thy ===== *)
theory Seat_Lock
  imports Seat_Memory
begin

text \<open>
  \<^verbatim>\<open>SeatLockService\<close> (inventory/seat-lock.service.ts): one Redis key per seat, taken with
  \<^verbatim>\<open>SET key value EX 600 NX\<close>.

  The operations are those of the class; \<open>SeatLockService E\<close> is the object other classes are
  constructed with, and locale \<open>seat_lock_api\<close> is what they rely on.
\<close>

section \<open>Operations\<close>

definition LOCK_TTL :: int where
  "LOCK_TTL = 600"

definition lock_key :: "string \<Rightarrow> string \<Rightarrow> string" where
  "lock_key eventId seatId = ''lock:event:'' @ eventId @ '':seat:'' @ seatId"

definition lock_value :: "string \<Rightarrow> string \<Rightarrow> int \<Rightarrow> json" where
  "lock_value userId sessionId now =
     JObj [(''userId'', JStr userId), (''sessionId'', JStr sessionId), (''lockedAt'', JNum (Fin (of_int now)))]"

record LockResult =
  lock_success :: bool
  failedSeatIds :: "string list"

definition lockSeats ::
  "'w seat_env \<Rightarrow> string \<Rightarrow> string list \<Rightarrow> string \<Rightarrow> string \<Rightarrow> ('w, LockResult) act" where
  "lockSeats E eventId seatIds userId sessionId =
     await (for_fold seatIds (\<lambda>(failed, lockedKeys) seatId.
         let key = lock_key eventId seatId in
         await (seatNow E) (\<lambda>now.
         await (redis_set_ex_nx (seatRedis E) key
                  (JSON_stringify (lock_value userId sessionId now)) LOCK_TTL) (\<lambda>ok.
         return (if ok then (failed, lockedKeys @ [key]) else (failed @ [seatId], lockedKeys))))) ([], []))
     (\<lambda>(failed, lockedKeys).
       if length failed > 0 then
         await (for_each lockedKeys (redis_del (seatRedis E)))
         (\<lambda>_. return \<lparr>lock_success = False, failedSeatIds = failed\<rparr>)
       else return \<lparr>lock_success = True, failedSeatIds = []\<rparr>)"

text \<open>\<^verbatim>\<open>if (!data)\<close>: no reply, or the empty text.\<close>

definition present :: "rtext option \<Rightarrow> rtext option" where
  "present x = (if x = Some (Raw []) then None else x)"

definition lock_releaseSeats ::
  "'w seat_env \<Rightarrow> string \<Rightarrow> string list \<Rightarrow> string \<Rightarrow> ('w, nat) act" where
  "lock_releaseSeats E eventId seatIds userId =
     for_fold seatIds (\<lambda>released seatId.
       let key = lock_key eventId seatId in
       await (redis_get (seatRedis E) key) (\<lambda>data.
       case present data of None \<Rightarrow> return released
       | Some text \<Rightarrow>
         await (JSON_parse text) (\<lambda>lockData.
         await (js_prop lockData ''userId'') (\<lambda>owner.
         if owner \<noteq> Some (JStr userId) then return released
         else await (redis_del (seatRedis E) key) (\<lambda>_. return (released + 1)))))) 0"

definition getLockInfo :: "'w seat_env \<Rightarrow> string \<Rightarrow> string \<Rightarrow> ('w, json option) act" where
  "getLockInfo E eventId seatId =
     await (redis_get (seatRedis E) (lock_key eventId seatId)) (\<lambda>data.
     case present data of None \<Rightarrow> return None
     | Some text \<Rightarrow> await (JSON_parse text) (\<lambda>lockData. return (Some lockData)))"

primrec extendLock ::
  "'w seat_env \<Rightarrow> string \<Rightarrow> string list \<Rightarrow> string \<Rightarrow> int \<Rightarrow> ('w, bool) act" where
  "extendLock E eventId [] userId extraSeconds = return True"
| "extendLock E eventId (seatId # seatIds) userId extraSeconds =
     await (redis_get (seatRedis E) (lock_key eventId seatId)) (\<lambda>data.
     case present data of None \<Rightarrow> return False
     | Some text \<Rightarrow>
       await (JSON_parse text) (\<lambda>lockData.
       await (js_prop lockData ''userId'') (\<lambda>owner.
       if owner \<noteq> Some (JStr userId) then return False
       else await (redis_expire (seatRedis E) (lock_key eventId seatId) (LOCK_TTL + extraSeconds))
            (\<lambda>_. extendLock E eventId seatIds userId extraSeconds))))"

record 'w SeatLockService =
  sls_lockSeats :: "string \<Rightarrow> string list \<Rightarrow> string \<Rightarrow> string \<Rightarrow> ('w, LockResult) act"
  sls_releaseSeats :: "string \<Rightarrow> string list \<Rightarrow> string \<Rightarrow> ('w, nat) act"
  sls_getLockInfo :: "string \<Rightarrow> string \<Rightarrow> ('w, json option) act"

definition seatLockService :: "'w seat_env \<Rightarrow> 'w SeatLockService" where
  "seatLockService E = \<lparr>sls_lockSeats = lockSeats E, sls_releaseSeats = lock_releaseSeats E,
     sls_getLockInfo = getLockInfo E\<rparr>"

section \<open>Lock keys\<close>

lemma live_Some: "live now x = Some y \<Longrightarrow> \<exists>t. x = Some (y, t)"
  by (auto simp: live_def split: option.splits if_splits)

lemma present_Some: "present x = Some y \<Longrightarrow> x = Some y"
  by (simp add: present_def split: if_splits)

lemma lock_key_seat [simp]: "lock_key e s = lock_key e s' \<longleftrightarrow> s = s'"
  by (simp add: lock_key_def)

lemma lock_key_inj_iff:
  assumes "CHR '':'' \<notin> set e" "CHR '':'' \<notin> set e'"
  shows "lock_key e s = lock_key e' s' \<longleftrightarrow> e = e' \<and> s = s'"
  using append_separator_inj [OF assms, of "''seat:'' @ s" "''seat:'' @ s'"]
  by (auto simp: lock_key_def)

section \<open>What is observed of the locks\<close>

text \<open>The value of a seat's lock, and the user it belongs to.\<close>

definition lock_of :: "'z seat_store_scheme \<Rightarrow> string \<Rightarrow> string \<Rightarrow> rtext option" where
  "lock_of v eventId seatId = present (live (clock v) (kv v (lock_key eventId seatId)))"

fun owner_of :: "rtext option \<Rightarrow> string option" where
  "owner_of (Some (Json j)) = json_str (json_get j ''userId'')"
| "owner_of _ = None"

definition lock_owner :: "'z seat_store_scheme \<Rightarrow> string \<Rightarrow> string \<Rightarrow> string option" where
  "lock_owner v eventId seatId = owner_of (lock_of v eventId seatId)"

text \<open>
  A key space that differs from another only in that expired keys are gone; and a state that
  differs from another in such keys only.
\<close>

definition kv_equiv :: "int \<Rightarrow> (string \<Rightarrow> entry option) \<Rightarrow> (string \<Rightarrow> entry option) \<Rightarrow> bool" where
  "kv_equiv now m m' \<longleftrightarrow> (\<forall>k. m' k = m k \<or> live now (m k) = None \<and> m' k = None)"

definition same_locks :: "'z seat_store_scheme \<Rightarrow> 'z seat_store_scheme \<Rightarrow> bool" where
  "same_locks v v' \<longleftrightarrow> v' = v\<lparr>kv := kv v'\<rparr> \<and> kv_equiv (clock v) (kv v) (kv v')"

definition my_lock :: "string \<Rightarrow> string \<Rightarrow> int \<Rightarrow> entry" where
  "my_lock userId sessionId now = (Json (lock_value userId sessionId now), Some (now + 600000))"

definition with_locks ::
  "string \<Rightarrow> string set \<Rightarrow> entry \<Rightarrow> (string \<Rightarrow> entry option) \<Rightarrow> string \<Rightarrow> entry option" where
  "with_locks eventId S x m k = (if k \<in> lock_key eventId ` S then Some x else m k)"

definition without_locks ::
  "string \<Rightarrow> string set \<Rightarrow> (string \<Rightarrow> entry option) \<Rightarrow> string \<Rightarrow> entry option" where
  "without_locks eventId S m k = (if k \<in> lock_key eventId ` S then None else m k)"

text \<open>Lock keys hold strings, never hashes.\<close>

definition locks_are_strings :: "'z seat_store_scheme \<Rightarrow> bool" where
  "locks_are_strings v \<longleftrightarrow> (\<forall>e s. hash v (lock_key e s) = Map.empty)"

text \<open>The values of lock keys are JSON objects, as \<^verbatim>\<open>lockSeats\<close> writes them.\<close>

definition locks_are_json :: "'z seat_store_scheme \<Rightarrow> bool" where
  "locks_are_json v \<longleftrightarrow> (\<forall>e s x t. kv v (lock_key e s) = Some (x, t) \<longrightarrow> (\<exists>fs. x = Json (JObj fs)))"

text \<open>No live lock on a seat.\<close>

definition seat_free :: "'z seat_store_scheme \<Rightarrow> string \<Rightarrow> string \<Rightarrow> bool" where
  "seat_free v eventId seatId \<longleftrightarrow> live (clock v) (kv v (lock_key eventId seatId)) = None"

text \<open>
  What an aborted \<^verbatim>\<open>lockSeats\<close> may leave behind: keys of the requested seats that were free are
  now locked by the caller, or their expired entry is gone.
\<close>

definition partial_locks ::
  "string \<Rightarrow> string list \<Rightarrow> string \<Rightarrow> string \<Rightarrow> 'z seat_store_scheme \<Rightarrow> 'z seat_store_scheme \<Rightarrow> bool" where
  "partial_locks eventId seatIds userId sessionId v v' \<longleftrightarrow> v' = v\<lparr>kv := kv v'\<rparr> \<and>
     (\<forall>k. kv v' k = kv v k \<or>
        k \<in> lock_key eventId ` set seatIds \<and> live (clock v) (kv v k) = None \<and>
        (kv v' k = None \<or> kv v' k = Some (my_lock userId sessionId (clock v))))"

text \<open>The contract of \<^verbatim>\<open>lockSeats\<close>, for each of its three outcomes.\<close>

definition lockSeats_spec ::
  "string \<Rightarrow> string list \<Rightarrow> string \<Rightarrow> string \<Rightarrow>
   'z seat_store_scheme \<Rightarrow> exn + LockResult \<Rightarrow> 'z seat_store_scheme \<Rightarrow> bool" where
  "lockSeats_spec eventId seatIds userId sessionId v r v' =
     (case r of
        Inl e \<Rightarrow> partial_locks eventId seatIds userId sessionId v v' \<and> \<not> calm v \<and> (\<exists>m. e = JsError m)
      | Inr res \<Rightarrow>
          if distinct seatIds \<and> (\<forall>s\<in>set seatIds. seat_free v eventId s)
          then res = \<lparr>lock_success = True, failedSeatIds = []\<rparr> \<and>
               v' = v\<lparr>kv := with_locks eventId (set seatIds) (my_lock userId sessionId (clock v)) (kv v)\<rparr>
          else \<not> lock_success res \<and> failedSeatIds res \<noteq> [] \<and> same_locks v v' \<and>
               (distinct seatIds \<longrightarrow>
                  failedSeatIds res = filter (\<lambda>s. \<not> seat_free v eventId s) seatIds))"

lemma with_locks_step:
  "(with_locks e S x m)(lock_key e s \<mapsto> x) = with_locks e (insert s S) x m"
  by (auto simp: with_locks_def fun_eq_iff)

lemma with_locks_empty [simp]: "with_locks e {} x m = m"
  by (simp add: with_locks_def fun_eq_iff)

lemma without_locks_empty [simp]: "without_locks e {} m = m"
  by (simp add: without_locks_def fun_eq_iff)

lemma without_locks_step:
  "(without_locks e S m)(lock_key e s := None) = without_locks e (insert s S) m"
  by (auto simp: without_locks_def fun_eq_iff)

lemma without_with_locks: "without_locks e S (with_locks e S x m) = without_locks e S m"
  by (auto simp: without_locks_def with_locks_def fun_eq_iff)

lemma locks_are_strings_del [simp]:
  "locks_are_strings v \<Longrightarrow>
     hash_update (\<lambda>h. h(lock_key e s := Map.empty)) (kv_update f v) = kv_update f v"
  by (cases v) (simp add: locks_are_strings_def fun_upd_idem)

lemma locks_are_strings_kv [simp]: "locks_are_strings (kv_update f v) = locks_are_strings v"
  by (simp add: locks_are_strings_def)

section \<open>Locking\<close>

text \<open>
  The invariant of the locking loop: \<open>S\<close> are the seats locked so far, and a seat fails when it
  was not free or is asked for a second time.
\<close>

definition free_seats :: "'z seat_store_scheme \<Rightarrow> string \<Rightarrow> string list \<Rightarrow> string set" where
  "free_seats v eventId ys = {s \<in> set ys. seat_free v eventId s}"

definition all_free :: "'z seat_store_scheme \<Rightarrow> string \<Rightarrow> string list \<Rightarrow> bool" where
  "all_free v eventId ys \<longleftrightarrow> distinct ys \<and> (\<forall>s\<in>set ys. seat_free v eventId s)"

definition locking ::
  "string \<Rightarrow> string \<Rightarrow> string \<Rightarrow> 'z seat_store_scheme \<Rightarrow> string list \<Rightarrow>
   string list \<times> string list \<Rightarrow> 'z seat_store_scheme \<Rightarrow> bool" where
  "locking eventId userId sessionId v ys = (\<lambda>(failed, lockedKeys) v'.
     (\<exists>S. lockedKeys = map (lock_key eventId) S \<and> set S = free_seats v eventId ys) \<and>
     v' = v\<lparr>kv := with_locks eventId (free_seats v eventId ys)
       (my_lock userId sessionId (clock v)) (kv v)\<rparr> \<and>
     (failed = [] \<longleftrightarrow> all_free v eventId ys) \<and>
     (distinct ys \<longrightarrow> failed = filter (\<lambda>s. \<not> seat_free v eventId s) ys))"

lemma locking_Nil: "locking e u sid v [] ([], []) v"
  by (simp add: locking_def free_seats_def all_free_def)

lemma locking_live:
  assumes "locking e u sid v ys (failed, keys) v'"
  shows "live (clock v') (kv v' (lock_key e s)) = None \<longleftrightarrow> seat_free v e s \<and> s \<notin> set ys"
  using assms by (auto simp: locking_def with_locks_def seat_free_def my_lock_def free_seats_def)

lemma locking_calm: "locking e u sid v ys acc v' \<Longrightarrow> calm v' = calm v"
  by (auto simp: locking_def split: prod.splits)

lemma locking_fail:
  assumes "locking e u sid v ys (failed, keys) v'" "\<not> (seat_free v e s \<and> s \<notin> set ys)"
  shows "locking e u sid v (ys @ [s]) (failed @ [s], keys) v'"
proof -
  have "free_seats v e (ys @ [s]) = free_seats v e ys"
    using assms(2) by (auto simp: free_seats_def)
  moreover have "\<not> all_free v e (ys @ [s])"
    using assms(2) by (auto simp: all_free_def)
  ultimately show ?thesis
    using assms by (simp add: locking_def)
qed

lemma locking_ok:
  assumes "locking e u sid v ys (failed, keys) v'" "seat_free v e s" "s \<notin> set ys"
  shows "locking e u sid v (ys @ [s]) (failed, keys @ [lock_key e s])
    (kv_update (\<lambda>m. m(lock_key e s \<mapsto> my_lock u sid (clock v'))) v')"
proof -
  have f: "free_seats v e (ys @ [s]) = insert s (free_seats v e ys)"
    using assms(2) by (auto simp: free_seats_def)
  have a: "all_free v e (ys @ [s]) = all_free v e ys"
    using assms(2,3) by (auto simp: all_free_def)
  obtain S where "keys = map (lock_key e) S" "set S = free_seats v e ys"
    using assms(1) by (auto simp: locking_def)
  then have "\<exists>S'. keys @ [lock_key e s] = map (lock_key e) S' \<and> set S' = insert s (free_seats v e ys)"
    by (intro exI [of _ "S @ [s]"]) simp
  with assms show ?thesis
    by (simp add: locking_def f a with_locks_step)
qed

lemma locking_partial:
  assumes "locking e u sid v ys (failed, keys) v'" "set ys \<subseteq> set ss"
  shows "partial_locks e ss u sid v v'"
proof -
  have "v' = v\<lparr>kv := with_locks e (free_seats v e ys) (my_lock u sid (clock v)) (kv v)\<rparr>"
    using assms(1) by (simp add: locking_def)
  then show ?thesis
    using assms(2)
    by (auto simp: partial_locks_def with_locks_def free_seats_def seat_free_def split: if_splits)
qed

text \<open>Undoing: the keys of the seats \<open>D\<close> among the locked ones have been deleted.\<close>

lemma unlocking_partial:
  assumes "locking e u sid v ss (failed, keys) v1" "D \<subseteq> free_seats v e ss"
  shows "partial_locks e ss u sid v (v1\<lparr>kv := without_locks e D (kv v1)\<rparr>)"
proof -
  have "v1 = v\<lparr>kv := with_locks e (free_seats v e ss) (my_lock u sid (clock v)) (kv v)\<rparr>"
    using assms(1) by (simp add: locking_def)
  then show ?thesis
    using assms(2)
    by (auto simp: partial_locks_def with_locks_def without_locks_def free_seats_def seat_free_def
        split: if_splits)
qed

lemma unlocking_done:
  assumes "locking e u sid v ss (failed, keys) v1"
  shows "same_locks v (v1\<lparr>kv := without_locks e (free_seats v e ss) (kv v1)\<rparr>)"
proof -
  have "v1 = v\<lparr>kv := with_locks e (free_seats v e ss) (my_lock u sid (clock v)) (kv v)\<rparr>"
    using assms by (simp add: locking_def)
  then show ?thesis
    by (auto simp: same_locks_def kv_equiv_def without_with_locks)
      (auto simp: without_locks_def free_seats_def seat_free_def split: if_splits)
qed

context seat_world
begin

lemma lock_step:
  assumes "locking e u sid v ys (failed, keys) (vw w)" "set (ys @ [s]) \<subseteq> set ss"
  shows "wp (await (seatNow E) (\<lambda>now. await (redis_set_ex_nx (seatRedis E) (lock_key e s)
        (JSON_stringify (lock_value u sid now)) LOCK_TTL) (\<lambda>ok.
        return (if ok then (failed, keys @ [lock_key e s]) else (failed @ [s], keys)))))
      (\<lambda>r w'. case r of Inl x \<Rightarrow> partial_locks e ss u sid v (vw w') \<and> \<not> calm v \<and> (\<exists>m. x = JsError m)
         | Inr acc \<Rightarrow> locking e u sid v (ys @ [s]) acc (vw w')) w"
proof -
  have entry: "(JSON_stringify (lock_value u sid (clock (vw w))), Some (clock (vw w) + LOCK_TTL * 1000)) =
      my_lock u sid (clock (vw w))"
    by (simp add: my_lock_def JSON_stringify_def LOCK_TTL_def)
  have part: "partial_locks e ss u sid v (vw w)"
    using assms locking_partial by fastforce
  show ?thesis
    unfolding wp_simps
    apply (rule wp_obeys [OF now_law])
    apply (simp add: wp_simps)
    apply (rule wp_fallible [OF set_ex_nx_law])
    using assms locking_live [OF assms(1), of s] locking_ok [OF assms(1), of s]
      locking_fail [OF assms(1), of s] part entry locking_calm [OF assms(1)]
    by (auto simp: wp_simps split: if_splits)
qed

lemma delete_locks:
  assumes "locks_are_strings (vw w)"
  shows "wp (for_each (map (lock_key e) S) (redis_del (seatRedis E)))
    (\<lambda>r w'. \<exists>D\<subseteq>set S. vw w' = (vw w)\<lparr>kv := without_locks e D (kv (vw w))\<rparr> \<and>
       (case r of Inl x \<Rightarrow> \<not> calm (vw w) \<and> (\<exists>m. x = JsError m) | Inr _ \<Rightarrow> D = set S)) w"
  using assms
proof (induction S arbitrary: w)
  case Nil
  then show ?case by (simp add: wp_simps)
next
  case (Cons s S)
  have tl: "\<exists>D\<subseteq>insert s (set S). vw w2 = (vw w)\<lparr>kv := without_locks e D (kv (vw w))\<rparr> \<and>
      (case r of Inl x \<Rightarrow> \<not> calm (vw w) \<and> (\<exists>m. x = JsError m) | Inr _ \<Rightarrow> D = insert s (set S))"
    if "vw w1 = kv_update (\<lambda>m. m(lock_key e s := None)) (vw w)" "D \<subseteq> set S"
      "vw w2 = (vw w1)\<lparr>kv := without_locks e D (kv (vw w1))\<rparr>" "case r of Inl x \<Rightarrow> \<not> calm (vw w1) \<and> (\<exists>m. x = JsError m) | Inr _ \<Rightarrow> D = set S"
    for w1 w2 D and r :: "exn + unit"
  proof -
    have "without_locks e D ((kv (vw w))(lock_key e s := None)) = without_locks e (insert s D) (kv (vw w))"
      by (auto simp: without_locks_def fun_eq_iff)
    with that show ?thesis
      by (intro exI [of _ "insert s D"]) (auto split: sum.splits)
  qed
  show ?case
    unfolding list.map for_each.simps wp_simps
  proof (rule wp_fallible [OF del_law], goal_cases)
    case (1 x w1)
    then show ?case
      unfolding sum.case by (intro exI [of _ "{}"]) simp
  next
    case (2 u w1)
    then have w1: "vw w1 = kv_update (\<lambda>m. m(lock_key e s := None)) (vw w)"
      using Cons.prems by simp
    then have "locks_are_strings (vw w1)"
      using Cons.prems by simp
    then show ?case
      unfolding sum.case list.set by (rule wp_mono [OF Cons.IH]) (blast intro: tl [OF w1])
  qed
qed

lemma lock_undo:
  assumes "locking e u sid v ss (failed, keys) (vw w)" "locks_are_strings v"
  shows "wp (for_each keys (redis_del (seatRedis E)))
      (\<lambda>r w'. case r of Inl x \<Rightarrow> partial_locks e ss u sid v (vw w') \<and> \<not> calm v \<and> (\<exists>m. x = JsError m) | Inr _ \<Rightarrow> same_locks v (vw w')) w"
proof -
  obtain S where S: "keys = map (lock_key e) S" "set S = free_seats v e ss"
    using assms(1) by (auto simp: locking_def)
  have "locks_are_strings (vw w)"
    using assms by (simp add: locking_def)
  from delete_locks [OF this, of e S] show ?thesis
    unfolding S(1) using unlocking_partial [OF assms(1)] unlocking_done [OF assms(1)] S(2) locking_calm [OF assms(1)]
    by (auto split: sum.splits elim!: wp_mono)
qed

lemma lockSeats_law:
  "obeys vw (lockSeats E e ss u sid)
     (\<lambda>v r v'. locks_are_strings v \<longrightarrow> lockSeats_spec e ss u sid v r v')"
proof (rule obeysI, rule wpI, intro impI)
  fix w r w'
  assume run: "lockSeats E e ss u sid w = (r, w')" and wf: "locks_are_strings (vw w)"
  let ?v = "vw w"
  have "wp (lockSeats E e ss u sid) (\<lambda>r w'. lockSeats_spec e ss u sid ?v r (vw w')) w"
    unfolding lockSeats_def wp_simps Let_def
  proof (rule wp_for_fold [where I = "\<lambda>ys acc w1. locking e u sid ?v ys acc (vw w1)"
          and X = "\<lambda>x w1. partial_locks e ss u sid ?v (vw w1) \<and> \<not> calm ?v \<and> (\<exists>m. x = JsError m)"], goal_cases)
    case (1 ys x zs acc w1)
    then show ?case
      using lock_step [of e u sid ?v ys "fst acc" "snd acc" w1 x ss] by (auto simp: split_beta)
  next
    case 2
    show ?case by (rule locking_Nil)
  next
    case (3 x w1)
    then show ?case by (simp add: lockSeats_spec_def)
  next
    case (4 acc w1)
    obtain failed keys where acc: "acc = (failed, keys)" by (cases acc)
    with 4 have l: "locking e u sid ?v ss (failed, keys) (vw w1)" by simp
    show ?case
    proof (cases "failed = []")
      case True
      then have "all_free ?v e ss" "free_seats ?v e ss = set ss"
        using l by (auto simp: locking_def all_free_def free_seats_def)
      then show ?thesis
        using l True acc by (auto simp: wp_simps lockSeats_spec_def locking_def all_free_def)
    next
      case False
      then have "\<not> all_free ?v e ss" "distinct ss \<longrightarrow> failed = filter (\<lambda>s. \<not> seat_free ?v e s) ss"
        using l by (simp_all add: locking_def)
      then show ?thesis
        using False acc by (auto simp: wp_simps lockSeats_spec_def all_free_def
            split: sum.splits intro!: wp_mono [OF lock_undo [OF l wf]])
    qed
  qed
  then show "lockSeats_spec e ss u sid ?v r (vw w')"
    using run by (auto dest: wpD)
qed

end

section \<open>Releasing\<close>

definition owned_seats :: "'z seat_store_scheme \<Rightarrow> string \<Rightarrow> string list \<Rightarrow> string \<Rightarrow> string set" where
  "owned_seats v eventId seatIds userId = {s \<in> set seatIds. lock_owner v eventId s = Some userId}"

text \<open>
  The contract of \<^verbatim>\<open>releaseSeats\<close>: exactly the caller's own locks are removed and counted; when
  it throws, some of them may have been removed, and nothing else.
\<close>

definition lock_releaseSeats_spec ::
  "string \<Rightarrow> string list \<Rightarrow> string \<Rightarrow> 'z seat_store_scheme \<Rightarrow> exn + nat \<Rightarrow> 'z seat_store_scheme \<Rightarrow> bool" where
  "lock_releaseSeats_spec eventId seatIds userId v r v' =
     (case r of
        Inl e \<Rightarrow> \<not> (calm v \<and> locks_are_json v) \<and> (\<exists>m. e = JsError m) \<and>
          (\<exists>D\<subseteq>owned_seats v eventId seatIds userId. v' = v\<lparr>kv := without_locks eventId D (kv v)\<rparr>)
      | Inr n \<Rightarrow> n = card (owned_seats v eventId seatIds userId) \<and>
          v' = v\<lparr>kv := without_locks eventId (owned_seats v eventId seatIds userId) (kv v)\<rparr>)"


lemma owned_seats_snoc:
  "owned_seats v e (ys @ [s]) u =
     (if lock_owner v e s = Some u then insert s (owned_seats v e ys u) else owned_seats v e ys u)"
  by (auto simp: owned_seats_def)

lemma lock_of_without:
  "lock_of (v\<lparr>kv := without_locks e D (kv v)\<rparr>) e s = (if s \<in> D then None else lock_of v e s)"
  by (auto simp: lock_of_def without_locks_def present_def)

lemma locks_json_of:
  assumes "locks_are_json v" "lock_of v e s = Some x"
  shows "\<exists>fs. x = Json (JObj fs)"
proof -
  obtain t where "kv v (lock_key e s) = Some (x, t)"
    using assms(2) live_Some by (force simp: lock_of_def dest!: present_Some)
  then show ?thesis using assms(1) unfolding locks_are_json_def by blast
qed

context seat_world
begin

lemma release_step:
  fixes e ys u and v :: "'z seat_store_scheme"
  defines "O' \<equiv> \<lambda>zs. owned_seats v e zs u"
  assumes "vw w = v\<lparr>kv := without_locks e (O' ys) (kv v)\<rparr>" "locks_are_strings v"
  shows "wp (await (redis_get (seatRedis E) (lock_key e s)) (\<lambda>data.
       case present data of None \<Rightarrow> return (card (O' ys))
       | Some text \<Rightarrow> await (JSON_parse text) (\<lambda>lockData. await (js_prop lockData ''userId'') (\<lambda>owner.
         if owner \<noteq> Some (JStr u) then return (card (O' ys))
         else await (redis_del (seatRedis E) (lock_key e s)) (\<lambda>_. return (card (O' ys) + 1))))))
     (\<lambda>r w'. case r of Inl x \<Rightarrow> vw w' = vw w \<and> \<not> (calm v \<and> locks_are_json v) \<and> (\<exists>m. x = JsError m)
        | Inr n \<Rightarrow> n = card (O' (ys @ [s])) \<and> vw w' = v\<lparr>kv := without_locks e (O' (ys @ [s])) (kv v)\<rparr>) w"
proof -
  have str: "locks_are_strings (vw w)" using assms by simp
  have lk: "present (live (clock (vw w)) (kv (vw w) (lock_key e s))) =
      (if s \<in> O' ys then None else lock_of v e s)"
    using lock_of_without [where v = v and e = e and D = "O' ys" and s = s] assms(2) by (simp add: lock_of_def)
  have own: "lock_owner v e s = Some u \<longleftrightarrow> json_get j ''userId'' = Some (JStr u)"
    if "lock_of v e s = Some (Json j)" for j
    using that by (simp add: lock_owner_def)
  have fin: "finite (O' ys)" by (simp add: O'_def owned_seats_def)
  have calm: "calm (vw w) = calm v" using assms(2) by simp
  show ?thesis
    unfolding wp_simps
  proof (rule wp_fallible [OF get_law], goal_cases)
    case (1 x w1)
    then show ?case using calm by simp
  next
    case (2 data w1)
    show ?case
    proof (cases "present data")
      case None
      then have "O' (ys @ [s]) = O' ys"
        using 2 lk by (auto simp: O'_def owned_seats_snoc lock_owner_def split: if_splits)
      then show ?thesis using None 2 assms(2) by (simp add: wp_simps)
    next
      case (Some tx)
      then have t: "lock_of v e s = Some tx" "s \<notin> O' ys"
        using 2 lk by (auto split: if_splits)
      show ?thesis
      proof (cases tx)
        case (Raw x)
        then show ?thesis using Some 2 locks_json_of [of v e s] t(1) by (auto simp: wp_simps)
      next
        case (Json j)
        have new: "O' (ys @ [s]) = (if json_get j ''userId'' = Some (JStr u) then insert s (O' ys) else O' ys)"
          using own t(1) Json by (simp add: O'_def owned_seats_snoc)
        show ?thesis
          using Some Json 2 t(2) fin str assms(2) locks_json_of [OF _ t(1)]
          by (auto simp: wp_simps js_prop_def new without_locks_step [symmetric]
              intro!: wp_fallible [OF del_law])
      qed
    qed
  qed
qed

lemma lock_releaseSeats_law:
  "obeys vw (lock_releaseSeats E e ss u)
     (\<lambda>v r v'. locks_are_strings v \<longrightarrow> lock_releaseSeats_spec e ss u v r v')"
proof (rule obeysI, rule wpI, intro impI)
  fix w r w'
  assume run: "lock_releaseSeats E e ss u w = (r, w')" and wf: "locks_are_strings (vw w)"
  let ?v = "vw w"
  let ?at = "\<lambda>ys. ?v\<lparr>kv := without_locks e (owned_seats ?v e ys u) (kv ?v)\<rparr>"
  have "wp (lock_releaseSeats E e ss u) (\<lambda>r w'. lock_releaseSeats_spec e ss u ?v r (vw w')) w"
    unfolding lock_releaseSeats_def Let_def
  proof (rule wp_for_fold [where I = "\<lambda>ys n w1. n = card (owned_seats ?v e ys u) \<and> vw w1 = ?at ys"
        and X = "\<lambda>x w1. \<not> (calm ?v \<and> locks_are_json ?v) \<and> (\<exists>m. x = JsError m) \<and> (\<exists>ys. set ys \<subseteq> set ss \<and> vw w1 = ?at ys)"], goal_cases)
    case (1 ys x zs n w1)
    then show ?case
      using release_step [where w = w1 and v = ?v and e = e and ys = ys and u = u and s = x] wf by (auto elim!: wp_mono split: sum.splits)
  next
    case 2
    show ?case by (simp add: owned_seats_def)
  next
    case (3 x w1)
    then obtain ys where "set ys \<subseteq> set ss" "vw w1 = ?at ys" by blast
    moreover from this(1) have "owned_seats ?v e ys u \<subseteq> owned_seats ?v e ss u"
      by (auto simp: owned_seats_def)
    ultimately show ?case using 3 by (auto simp: lock_releaseSeats_spec_def)
  next
    case (4 n w1)
    then show ?case by (simp add: lock_releaseSeats_spec_def)
  qed
  then show "lock_releaseSeats_spec e ss u ?v r (vw w')"
    using run by (auto dest: wpD)
qed

lemma getLockInfo_law:
  "obeys vw (getLockInfo E e s) (fallible (\<lambda>v. calm v \<and> locks_are_json v) (\<lambda>v x v'. v' = v \<and> map_option Json x = lock_of v e s))"
proof (rule obeysI)
  fix w
  show "wp (getLockInfo E e s)
      (\<lambda>r w'. fallible (\<lambda>v. calm v \<and> locks_are_json v) (\<lambda>v x v'. v' = v \<and> map_option Json x = lock_of v e s) (vw w) r (vw w')) w"
    unfolding getLockInfo_def wp_simps
  proof (rule wp_fallible [OF get_law], goal_cases)
    case (2 data w1)
    have "\<exists>fs. x = Json (JObj fs)" if "locks_are_json (vw w)" "lock_of (vw w) e s = Some x" for x
      by (rule locks_json_of [OF that])
    then show ?case
      using 2 by (cases "present data"; cases "the (present data)") (auto simp: wp_simps lock_of_def)
  qed simp
qed

end

section \<open>Extending\<close>

definition extended ::
  "string \<Rightarrow> string set \<Rightarrow> int \<Rightarrow> 'z seat_store_scheme \<Rightarrow> 'z seat_store_scheme" where
  "extended eventId S ttl v = v\<lparr>kv := \<lambda>k. if k \<in> lock_key eventId ` S
     then map_option (\<lambda>(x, _). (x, Some (clock v + ttl * 1000))) (kv v k) else kv v k\<rparr>"

lemma extended_empty [simp]: "extended e {} ttl v = v"
  by (simp add: extended_def)

lemma extended_lock_of:
  assumes "\<forall>s\<in>S. lock_of v e s \<noteq> None" "0 < ttl"
  shows "lock_of (extended e S ttl v) e s = lock_of v e s"
proof (cases "s \<in> S")
  case True
  then obtain x where "live (clock v) (kv v (lock_key e s)) = Some x"
    using assms(1) by (force simp: lock_of_def dest: present_Some)
  then show ?thesis
    using True assms(2) by (auto simp: lock_of_def extended_def dest!: live_Some)
next
  case False
  then show ?thesis by (auto simp: lock_of_def extended_def)
qed

lemma extended_step:
  assumes "\<forall>s\<in>S. lock_of v e s \<noteq> None" "0 < ttl" "lock_of v e s = Some x"
  shows "kv_update (\<lambda>m. m(lock_key e s \<mapsto> (x, Some (clock v + ttl * 1000)))) (extended e S ttl v) =
    extended e (insert s S) ttl v"
proof -
  obtain t where "kv v (lock_key e s) = Some (x, t)"
    using assms(3) live_Some by (force simp: lock_of_def dest!: present_Some)
  then show ?thesis
    by (auto simp: extended_def fun_eq_iff)
qed

context seat_world
begin

lemma extendLock_wp:
  assumes "vw w = extended e S (LOCK_TTL + extra) v" "\<forall>s\<in>S. lock_of v e s \<noteq> None" "0 < LOCK_TTL + extra"
  shows "wp (extendLock E e ss u extra) (\<lambda>r w'. \<exists>n\<le>length ss.
      (\<forall>s\<in>set (take n ss). lock_owner v e s = Some u) \<and>
      vw w' = extended e (S \<union> set (take n ss)) (LOCK_TTL + extra) v \<and>
      (case r of Inl x \<Rightarrow> True | Inr True \<Rightarrow> n = length ss
       | Inr False \<Rightarrow> n < length ss \<and> lock_owner v e (ss ! n) \<noteq> Some u)) w"
  using assms(1,2)
proof (induction ss arbitrary: S w)
  case Nil
  then show ?case by (simp add: wp_simps)
next
  case (Cons s ss)
  define Q where "Q = (\<lambda>(r :: exn + bool) w'. \<exists>n\<le>length (s # ss).
      (\<forall>s\<in>set (take n (s # ss)). lock_owner v e s = Some u) \<and>
      vw w' = extended e (S \<union> set (take n (s # ss))) (LOCK_TTL + extra) v \<and>
      (case r of Inl x \<Rightarrow> True | Inr True \<Rightarrow> n = length (s # ss)
       | Inr False \<Rightarrow> n < length (s # ss) \<and> lock_owner v e ((s # ss) ! n) \<noteq> Some u))"
  have lk: "present (live (clock (vw w)) (kv (vw w) (lock_key e s))) = lock_of v e s"
    using extended_lock_of [OF Cons.prems(2) assms(3), of s] Cons.prems(1) by (simp add: lock_of_def)
  have stop: "Q r w1" if "vw w1 = vw w" "\<forall>b. r = Inr b \<longrightarrow> \<not> b \<and> lock_owner v e s \<noteq> Some u" for r w1
    using that Cons.prems(1) unfolding Q_def by (intro exI [of _ 0]) (auto split: sum.splits bool.splits)
  have step: "wp (extendLock E e ss u extra) Q w1"
    if x: "lock_of v e s = Some x" "lock_owner v e s = Some u"
      and w1: "vw w1 = extended e (insert s S) (LOCK_TTL + extra) v" for x w1
  proof (rule wp_mono [OF Cons.IH [OF w1]])
    show "\<forall>s\<in>insert s S. lock_of v e s \<noteq> None"
      using x Cons.prems(2) by simp
  next
    fix r :: "exn + bool" and w2
    assume "\<exists>n\<le>length ss. (\<forall>s\<in>set (take n ss). lock_owner v e s = Some u) \<and>
      vw w2 = extended e (insert s S \<union> set (take n ss)) (LOCK_TTL + extra) v \<and>
      (case r of Inl x \<Rightarrow> True | Inr True \<Rightarrow> n = length ss
       | Inr False \<Rightarrow> n < length ss \<and> lock_owner v e (ss ! n) \<noteq> Some u)"
    then obtain n where "n \<le> length ss" "\<forall>s\<in>set (take n ss). lock_owner v e s = Some u"
      "vw w2 = extended e (insert s S \<union> set (take n ss)) (LOCK_TTL + extra) v"
      "case r of Inl x \<Rightarrow> True | Inr True \<Rightarrow> n = length ss
       | Inr False \<Rightarrow> n < length ss \<and> lock_owner v e (ss ! n) \<noteq> Some u" by blast
    then show "Q r w2"
      using x(2) unfolding Q_def by (intro exI [of _ "Suc n"]) (auto split: sum.splits bool.splits)
  qed
  have "wp (extendLock E e (s # ss) u extra) Q w"
    unfolding extendLock.simps wp_simps
  proof (rule wp_fallible [OF get_law], goal_cases)
    case (1 x w1)
    then show ?case using stop [of w1 "Inl (JsError x)"] by simp
  next
    case (2 data w1)
    show ?case
    proof (cases "lock_of v e s" rule: owner_of.cases)
      case (1 j)
      have own: "lock_owner v e s = Some u \<longleftrightarrow> json_get j ''userId'' = Some (JStr u)"
        using 1 by (simp add: lock_owner_def)
      have liv: "live (clock (vw w)) (kv (vw w) (lock_key e s)) = Some (Json j)"
        using lk 1 by (auto intro: present_Some)
      have upd: "kv_update (\<lambda>m. m(lock_key e s \<mapsto> (Json j, Some (clock (vw w) + (LOCK_TTL + extra) * 1000)))) (vw w) =
          extended e (insert s S) (LOCK_TTL + extra) v"
        using extended_step [OF Cons.prems(2) assms(3) 1] Cons.prems(1) by (simp add: extended_def)
      show ?thesis
        using 2 own stop step [OF 1]
        by (auto simp: wp_simps js_prop_def present_def liv upd [unfolded distrib_right] intro!: wp_fallible [OF expire_law])
    qed (use 2 lk stop in \<open>auto simp: wp_simps lock_owner_def\<close>)
  qed
  then show ?case unfolding Q_def .
qed

end

section \<open>The interface of the lock service\<close>

locale seat_lock_api =
  fixes L :: "'w SeatLockService" and vw :: "'w \<Rightarrow> 'z seat_store_scheme"
  assumes lock_law:
      "obeys vw (sls_lockSeats L e ss u sid)
         (\<lambda>v r v'. locks_are_strings v \<longrightarrow> lockSeats_spec e ss u sid v r v')"
    and unlock_law:
      "obeys vw (sls_releaseSeats L e ss u)
         (\<lambda>v r v'. locks_are_strings v \<longrightarrow> lock_releaseSeats_spec e ss u v r v')"
    and info_law:
      "obeys vw (sls_getLockInfo L e s) (fallible (\<lambda>v. calm v \<and> locks_are_json v) (\<lambda>v x v'. v' = v \<and> map_option Json x = lock_of v e s))"

sublocale seat_world \<subseteq> locks: seat_lock_api "seatLockService E" vw
  by unfold_locales
    (simp_all add: seatLockService_def lockSeats_law lock_releaseSeats_law getLockInfo_law)

section \<open>Properties\<close>

lemma demo_locks_are_strings: "locks_are_strings (seat_view demo_seats)"
  by (simp add: locks_are_strings_def seat_view_def demo_seats_def fields_of_def)

lemma with_locks_owner:
  "s \<in> S \<Longrightarrow> lock_owner (v\<lparr>kv := with_locks e S (my_lock u sid (clock v)) (kv v)\<rparr>) e s = Some u"
  by (simp add: lock_owner_def lock_of_def with_locks_def my_lock_def present_def lock_value_def)

definition locked_seats :: seat_mem where
  "locked_seats = demo_seats\<lparr>m_kv :=
     [(lock_key ''e1'' ''A1'', my_lock ''u1'' ''s1'' 500), (lock_key ''e1'' ''A2'', my_lock ''u2'' ''s2'' 500)]\<rparr>"

lemma locked_seats_strings: "locks_are_strings (seat_view locked_seats)"
  by (simp add: locks_are_strings_def seat_view_def locked_seats_def demo_seats_def fields_of_def)

text \<open>
  C17.  Locking a set of seats is all or nothing.  When \<^verbatim>\<open>lockSeats\<close> returns, either the seats were
  distinct and free: it reports success, every seat is locked by the caller for exactly 600
  seconds, and no other key changed; or it reports failure, exactly the seats that were not free
  are listed (when the request has no duplicates), and no live key was changed.
\<close>

theorem lockSeats_all_or_nothing:
  assumes "seat_world E vw" "locks_are_strings (vw w)"
    and "lockSeats E e ss u sid w = (Inr res, w')"
  shows "if distinct ss \<and> (\<forall>s\<in>set ss. seat_free (vw w) e s)
    then lock_success res \<and> failedSeatIds res = [] \<and>
      (\<forall>s\<in>set ss. lock_owner (vw w') e s = Some u \<and>
         kv (vw w') (lock_key e s) = Some (my_lock u sid (clock (vw w)))) \<and>
      (\<forall>k. k \<notin> lock_key e ` set ss \<longrightarrow> kv (vw w') k = kv (vw w) k) \<and>
      vw w' = (vw w)\<lparr>kv := kv (vw w')\<rparr>
    else \<not> lock_success res \<and> failedSeatIds res \<noteq> [] \<and> same_locks (vw w) (vw w') \<and>
      (distinct ss \<longrightarrow> failedSeatIds res = filter (\<lambda>s. \<not> seat_free (vw w) e s) ss)"
proof -
  have "lockSeats_spec e ss u sid (vw w) (Inr res) (vw w')"
    using obeysD [OF seat_world.lockSeats_law [OF assms(1)] assms(3)] assms(2) by simp
  then show ?thesis
    by (auto simp: lockSeats_spec_def with_locks_owner) (auto simp: with_locks_def)
qed

theorem lockSeats_all_or_nothing_witness:
  "\<exists>res w'. lockSeats mem_seat_env ''e1'' [''A1'', ''A2''] ''u1'' ''s1'' demo_seats = (Inr res, w') \<and>
     lock_success res \<and> lock_owner (seat_view w') ''e1'' ''A2'' = Some ''u1''"
proof -
  have "returns (lockSeats mem_seat_env ''e1'' [''A1'', ''A2''] ''u1'' ''s1'') demo_seats"
    by code_simp
  then obtain res w' where run:
    "lockSeats mem_seat_env ''e1'' [''A1'', ''A2''] ''u1'' ''s1'' demo_seats = (Inr res, w')"
    by (rule returnsE)
  have "\<forall>s\<in>set [''A1'', ''A2'']. seat_free (seat_view demo_seats) ''e1'' s"
    by code_simp
  with lockSeats_all_or_nothing [OF mem_seats.seat_world_axioms demo_locks_are_strings run]
  show ?thesis using run by auto
qed

text \<open>
  C11.  \<^verbatim>\<open>lockSeats\<close> never takes over a live lock: whatever its outcome, an exception in the middle
  of the loop or of the undo included, a key that was live keeps its value and its expiry, tables
  are untouched, and a key it did write is a lock of the caller on a requested seat that expires
  600 seconds later, or is gone.
\<close>

theorem lockSeats_never_steals:
  assumes "seat_world E vw" "locks_are_strings (vw w)"
    and "lockSeats E e ss u sid w = (r, w')"
  shows "vw w' = (vw w)\<lparr>kv := kv (vw w')\<rparr> \<and>
    (\<forall>k. live (clock (vw w)) (kv (vw w) k) \<noteq> None \<longrightarrow> kv (vw w') k = kv (vw w) k) \<and>
    (\<forall>k. kv (vw w') k \<noteq> kv (vw w) k \<longrightarrow>
       live (clock (vw w)) (kv (vw w') k) = None \<or>
       (\<exists>s\<in>set ss. k = lock_key e s \<and> kv (vw w') k = Some (my_lock u sid (clock (vw w)))))"
proof -
  have "lockSeats_spec e ss u sid (vw w) r (vw w')"
    using obeysD [OF seat_world.lockSeats_law [OF assms(1)] assms(3)] assms(2) by simp
  then show ?thesis
    unfolding lockSeats_spec_def partial_locks_def same_locks_def kv_equiv_def
    by (auto simp: with_locks_def seat_free_def split: sum.splits if_splits)
qed

theorem lockSeats_never_steals_witness:
  "\<exists>r w'. lockSeats mem_seat_env ''e1'' [''A3'', ''A2''] ''u3'' ''s3'' locked_seats = (r, w') \<and>
     kv (seat_view w') (lock_key ''e1'' ''A2'') = Some (my_lock ''u2'' ''s2'' 500)"
proof -
  obtain r w' where run:
    "lockSeats mem_seat_env ''e1'' [''A3'', ''A2''] ''u3'' ''s3'' locked_seats = (r, w')"
    by fastforce
  have "live (clock (seat_view locked_seats)) (kv (seat_view locked_seats) (lock_key ''e1'' ''A2'')) \<noteq> None"
      "kv (seat_view locked_seats) (lock_key ''e1'' ''A2'') = Some (my_lock ''u2'' ''s2'' 500)"
    by code_simp+
  then show ?thesis
    using lockSeats_never_steals [OF mem_seats.seat_world_axioms locked_seats_strings run] run by auto
qed

text \<open>
  C12.  \<^verbatim>\<open>releaseSeats\<close> of the lock service removes locks of the caller only: in every outcome a key
  that changed was the lock of a requested seat held by the caller; when it returns, none of the
  requested seats is locked by the caller any more and the result is how many were.
\<close>

theorem lock_releaseSeats_only_own:
  assumes "seat_world E vw" "locks_are_strings (vw w)"
    and "lock_releaseSeats E e ss u w = (r, w')"
  shows "vw w' = (vw w)\<lparr>kv := kv (vw w')\<rparr> \<and>
    (\<forall>k. kv (vw w') k \<noteq> kv (vw w) k \<longrightarrow>
       (\<exists>s\<in>set ss. k = lock_key e s \<and> lock_owner (vw w) e s = Some u \<and> kv (vw w') k = None)) \<and>
    (\<forall>n. r = Inr n \<longrightarrow> n = card {s \<in> set ss. lock_owner (vw w) e s = Some u} \<and>
       (\<forall>s\<in>set ss. lock_owner (vw w') e s \<noteq> Some u))"
proof -
  have "lock_releaseSeats_spec e ss u (vw w) r (vw w')"
    using obeysD [OF seat_world.lock_releaseSeats_law [OF assms(1)] assms(3)] assms(2) by simp
  then show ?thesis
    by (auto simp: lock_releaseSeats_spec_def owned_seats_def lock_owner_def lock_of_without
        split: sum.splits) (auto simp: without_locks_def split: if_splits)
qed

theorem lock_releaseSeats_only_own_witness:
  "lock_owner (seat_view locked_seats) ''e1'' ''A2'' = Some ''u2'' \<and>
   (case lock_releaseSeats mem_seat_env ''e1'' [''A1'', ''A2''] ''u1'' locked_seats of
      (r, w') \<Rightarrow> r = Inr 1 \<and> kv (seat_view w') (lock_key ''e1'' ''A2'') \<noteq> None)"
proof -
  have "returns (lock_releaseSeats mem_seat_env ''e1'' [''A1'', ''A2''] ''u1'') locked_seats"
    by code_simp
  then obtain n w' where run:
    "lock_releaseSeats mem_seat_env ''e1'' [''A1'', ''A2''] ''u1'' locked_seats = (Inr n, w')"
    by (rule returnsE)
  have own: "lock_owner (seat_view locked_seats) ''e1'' ''A2'' = Some ''u2''"
      "lock_owner (seat_view locked_seats) ''e1'' ''A1'' = Some ''u1''"
      "kv (seat_view locked_seats) (lock_key ''e1'' ''A2'') \<noteq> None"
    by code_simp+
  then have c: "{s \<in> set [''A1'', ''A2'']. lock_owner (seat_view locked_seats) ''e1'' s = Some ''u1''} = {''A1''}"
    by auto
  note own_only = lock_releaseSeats_only_own [OF mem_seats.seat_world_axioms locked_seats_strings run]
  have "n = card {s \<in> set [''A1'', ''A2'']. lock_owner (seat_view locked_seats) ''e1'' s = Some ''u1''}"
    using own_only by blast
  then have "n = 1" using c by simp
  moreover have "kv (seat_view w') (lock_key ''e1'' ''A2'') = kv (seat_view locked_seats) (lock_key ''e1'' ''A2'')"
    using spec [OF conjunct1 [OF conjunct2 [OF own_only]], of "lock_key ''e1'' ''A2''"] own(1) by auto
  ultimately show ?thesis
    using run own by simp
qed

text \<open>
  C13.  \<^verbatim>\<open>extendLock\<close> answers \<^verbatim>\<open>true\<close> exactly when every seat is locked by the caller, and then every one
  of them lives for 600 seconds plus the extra time from now on.  It is not all or nothing: on
  \<^verbatim>\<open>false\<close> the seats before the first one that is not the caller's have been extended, and no
  other key is changed.
\<close>

theorem extendLock_prefix:
  assumes "seat_world E vw" "0 < LOCK_TTL + extra"
    and "extendLock E e ss u extra w = (Inr ok, w')"
  shows "\<exists>n\<le>length ss. ok = (n = length ss) \<and>
    (\<forall>s\<in>set (take n ss). lock_owner (vw w) e s = Some u) \<and>
    (\<not> ok \<longrightarrow> lock_owner (vw w) e (ss ! n) \<noteq> Some u) \<and>
    vw w' = extended e (set (take n ss)) (LOCK_TTL + extra) (vw w)"
proof -
  have "\<exists>n\<le>length ss. (\<forall>s\<in>set (take n ss). lock_owner (vw w) e s = Some u) \<and>
      vw w' = extended e ({} \<union> set (take n ss)) (LOCK_TTL + extra) (vw w) \<and>
      (case Inr ok of Inl x \<Rightarrow> True | Inr True \<Rightarrow> n = length ss
       | Inr False \<Rightarrow> n < length ss \<and> lock_owner (vw w) e (ss ! n) \<noteq> Some u)"
    using wpD [OF seat_world.extendLock_wp [OF assms(1), where S = "{}" and v = "vw w" and w = w] assms(3)]
      assms(2) by simp
  then show ?thesis by (cases ok) auto
qed

theorem extendLock_prefix_witness:
  "\<exists>w'. extendLock mem_seat_env ''e1'' [''A1'', ''A2''] ''u1'' 300 locked_seats = (Inr False, w') \<and>
     seat_view w' = extended ''e1'' {''A1''} 900 (seat_view locked_seats)"
proof -
  have "fst (extendLock mem_seat_env ''e1'' [''A1'', ''A2''] ''u1'' 300 locked_seats) = Inr False"
    by code_simp
  then obtain w' where run:
    "extendLock mem_seat_env ''e1'' [''A1'', ''A2''] ''u1'' 300 locked_seats = (Inr False, w')"
    by (metis prod.collapse)
  have own: "lock_owner (seat_view locked_seats) ''e1'' ''A1'' = Some ''u1''"
    by code_simp
  have "n = 1" if "n \<le> length [''A1'', ''A2'']" "n \<noteq> 2"
      "lock_owner (seat_view locked_seats) ''e1'' ([''A1'', ''A2''] ! n) \<noteq> Some ''u1''" for n
    using that own by (cases n) (auto simp: less_Suc_eq_le)
  then show ?thesis
    using extendLock_prefix [OF mem_seats.seat_world_axioms _ run] run
    by (fastforce simp: LOCK_TTL_def)
qed

end
