(* ===== verification/Availability_Read.thy ===== *)
theory Availability_Read
  imports Seat_Lock
begin

text \<open>
  \<^verbatim>\<open>AvailabilityReadService\<close> (cqrs/availability-read.service.ts): the read model of seat
  availability, two Redis hashes per event, \<^verbatim>\<open>avail:<event>\<close> from seat to status and
  \<^verbatim>\<open>seat_detail:<event>\<close> from seat to a JSON document.
\<close>

section \<open>Operations\<close>

definition status_key :: "string \<Rightarrow> string" where
  "status_key eventId = ''avail:'' @ eventId"

definition detail_key :: "string \<Rightarrow> string" where
  "detail_key eventId = ''seat_detail:'' @ eventId"

definition updateSeatsStatus :: "'w seat_env \<Rightarrow> string \<Rightarrow> string \<Rightarrow> string \<Rightarrow> ('w, unit) act" where
  "updateSeatsStatus E eventId seatId status = redis_hset (seatRedis E) (status_key eventId) seatId (Raw status)"

definition updateMultipleSeatsStatus ::
  "'w seat_env \<Rightarrow> string \<Rightarrow> (string \<times> string) list \<Rightarrow> ('w, unit) act" where
  "updateMultipleSeatsStatus E eventId updates =
     redis_exec (seatRedis E) (map (\<lambda>(seatId, status). HSET (status_key eventId) seatId (Raw status)) updates)"

definition seat_detail :: "SeatInventory \<Rightarrow> json" where
  "seat_detail seat = JObj [
     (''seatId'', JStr (inv_seatId seat)),
     (''sectionId'', JStr (inv_sectionId seat)),
     (''sectionName'', JStr (inv_sectionName seat)),
     (''ticketTypeId'', JStr (inv_ticketTypeId seat)),
     (''ticketTypeName'', JStr (inv_ticketTypeName seat)),
     (''price'', JStr (inv_price seat)),
     (''currency'', JStr (inv_currency seat)),
     (''row'', JStr (inv_row seat)),
     (''seatNumber'', JStr (inv_seatNumber seat)),
     (''seatType'', JStr (inv_seatType seat))]"

definition rebuildCache :: "'w seat_env \<Rightarrow> string \<Rightarrow> ('w, unit) act" where
  "rebuildCache E eventId =
     await (repo_find (inventoryRepo E) (\<lambda>r. inv_eventId r = eventId)) (\<lambda>seats.
     if length seats = 0 then return ()
     else redis_exec (seatRedis E)
       ([DEL (status_key eventId), DEL (detail_key eventId)] @
        concat (map (\<lambda>seat.
          [HSET (status_key eventId) (inv_seatId seat) (Raw (status_text (inv_status seat))),
           HSET (detail_key eventId) (inv_seatId seat) (JSON_stringify (seat_detail seat))]) seats)))"

text \<open>
  The object \<^verbatim>\<open>{ ...detail, status }\<close>: the fields of the detail (none when there is no detail, or
  when it is not an object) and the status, which overrides a field of that name.
\<close>

record SeatView =
  sv_detail :: "(string \<times> json) list"
  sv_status :: rtext

fun spread :: "json \<Rightarrow> (string \<times> json) list" where
  "spread (JObj fs) = fs"
| "spread _ = []"

definition build_views :: "(string \<times> rtext) list \<Rightarrow> (string \<times> rtext) list \<Rightarrow> ('w, SeatView list) act" where
  "build_views statuses details =
     for_fold statuses (\<lambda>views (seatId, status).
       case present (map_of details seatId) of
         None \<Rightarrow> return (views @ [\<lparr>sv_detail = [], sv_status = status\<rparr>])
       | Some text \<Rightarrow> await (JSON_parse text) (\<lambda>detail.
           return (views @ [\<lparr>sv_detail = spread detail, sv_status = status\<rparr>]))) []"

definition getEventSeatsWithStatus :: "'w seat_env \<Rightarrow> string \<Rightarrow> ('w, SeatView list) act" where
  "getEventSeatsWithStatus E eventId =
     await (redis_hgetall (seatRedis E) (status_key eventId)) (\<lambda>statuses0.
     await (redis_hgetall (seatRedis E) (detail_key eventId)) (\<lambda>details0.
     await (if length statuses0 = 0 then
              await (rebuildCache E eventId) (\<lambda>_.
              await (redis_hgetall (seatRedis E) (status_key eventId)) (\<lambda>statuses.
              await (redis_hgetall (seatRedis E) (detail_key eventId)) (\<lambda>details.
              return (statuses, details))))
            else return (statuses0, details0)) (\<lambda>(statuses, details).
     build_views statuses details)))"

definition has_status :: "SeatStatus \<Rightarrow> SeatView \<Rightarrow> bool" where
  "has_status s sv \<longleftrightarrow> sv_status sv = Raw (status_text s)"

definition getAvailableSeatsDetailed :: "'w seat_env \<Rightarrow> string \<Rightarrow> ('w, SeatView list) act" where
  "getAvailableSeatsDetailed E eventId =
     await (getEventSeatsWithStatus E eventId) (\<lambda>allSeats. return (filter (has_status AVAILABLE) allSeats))"

record SectionSummary =
  sec_total :: nat
  sec_available :: nat
  sec_held :: nat
  sec_sold :: nat
  sec_price :: "json option"

record AvailabilitySummary =
  sum_totalSeats :: nat
  sum_available :: nat
  sum_held :: nat
  sum_sold :: nat
  sum_sections :: "(json \<times> SectionSummary) list"

text \<open>\<^verbatim>\<open>seat.sectionName || 'Unknown'\<close>.\<close>

definition section_of :: "SeatView \<Rightarrow> json" where
  "section_of seat = (case map_of (sv_detail seat) ''sectionName'' of
     Some j \<Rightarrow> if truthy j then j else JStr ''Unknown'' | None \<Rightarrow> JStr ''Unknown'')"

definition count_seat :: "SeatView \<Rightarrow> SectionSummary \<Rightarrow> SectionSummary" where
  "count_seat seat sec =
     (let sec = sec\<lparr>sec_total := sec_total sec + 1\<rparr> in
      if has_status AVAILABLE seat then sec\<lparr>sec_available := sec_available sec + 1\<rparr>
      else if has_status HELD seat then sec\<lparr>sec_held := sec_held sec + 1\<rparr>
      else if has_status SOLD seat then sec\<lparr>sec_sold := sec_sold sec + 1\<rparr>
      else sec)"

definition add_to_section ::
  "(json \<times> SectionSummary) list \<Rightarrow> SeatView \<Rightarrow> (json \<times> SectionSummary) list" where
  "add_to_section sections seat =
     (let key = section_of seat;
          sections = (if key \<in> fst ` set sections then sections
            else sections @ [(key, \<lparr>sec_total = 0, sec_available = 0, sec_held = 0, sec_sold = 0,
                                    sec_price = map_of (sv_detail seat) ''price''\<rparr>)])
      in map (\<lambda>(k, sec). (k, if k = key then count_seat seat sec else sec)) sections)"

definition summarize :: "SeatView list \<Rightarrow> AvailabilitySummary" where
  "summarize allSeats = \<lparr>
     sum_totalSeats = length allSeats,
     sum_available = length (filter (has_status AVAILABLE) allSeats),
     sum_held = length (filter (has_status HELD) allSeats),
     sum_sold = length (filter (has_status SOLD) allSeats),
     sum_sections = foldl add_to_section [] allSeats\<rparr>"

definition getEventAvailabilitySummary :: "'w seat_env \<Rightarrow> string \<Rightarrow> ('w, AvailabilitySummary) act" where
  "getEventAvailabilitySummary E eventId =
     await (getEventSeatsWithStatus E eventId) (\<lambda>allSeats. return (summarize allSeats))"

definition getAvailableCount :: "'w seat_env \<Rightarrow> string \<Rightarrow> ('w, nat) act" where
  "getAvailableCount E eventId =
     await (redis_hgetall (seatRedis E) (status_key eventId)) (\<lambda>statuses.
     return (length (filter (\<lambda>(_, s). s = Raw ''available'') statuses)))"

definition getSeatStatus :: "'w seat_env \<Rightarrow> string \<Rightarrow> string \<Rightarrow> ('w, rtext option) act" where
  "getSeatStatus E eventId seatId = redis_hget (seatRedis E) (status_key eventId) seatId"

definition warmUpCache :: "'w seat_env \<Rightarrow> ('w, unit) act" where
  "warmUpCache E =
     await (repo_distinct (inventoryRepo E) inv_eventId) (\<lambda>eventIds. for_each eventIds (rebuildCache E))"

definition onModuleInit :: "'w seat_env \<Rightarrow> ('w, unit) act" where
  "onModuleInit E = warmUpCache E"

text \<open>The argument the callers pass: one status for all the seats.\<close>

definition with_status :: "SeatStatus \<Rightarrow> string list \<Rightarrow> (string \<times> string) list" where
  "with_status status seatIds = map (\<lambda>seatId. (seatId, status_text status)) seatIds"

record 'w AvailabilityReadService =
  ars_updateMultipleSeatsStatus :: "string \<Rightarrow> (string \<times> string) list \<Rightarrow> ('w, unit) act"

definition availabilityReadService :: "'w seat_env \<Rightarrow> 'w AvailabilityReadService" where
  "availabilityReadService E = \<lparr>ars_updateMultipleSeatsStatus = updateMultipleSeatsStatus E\<rparr>"

section \<open>Keys\<close>

lemma status_key_inj [simp]: "status_key e = status_key e' \<longleftrightarrow> e = e'"
  by (simp add: status_key_def)

lemma detail_key_inj [simp]: "detail_key e = detail_key e' \<longleftrightarrow> e = e'"
  by (simp add: detail_key_def)

lemma cache_keys_distinct [simp]:
  "status_key e \<noteq> detail_key e'" "detail_key e \<noteq> status_key e'"
  "status_key e \<noteq> lock_key e' s" "lock_key e' s \<noteq> status_key e"
  "detail_key e \<noteq> lock_key e' s" "lock_key e' s \<noteq> detail_key e"
  by (simp_all add: status_key_def detail_key_def lock_key_def)

section \<open>The effect on the read model\<close>

text \<open>All seats of a list get the same status, which is how the write side calls it.\<close>

definition set_status :: "string \<Rightarrow> string list \<Rightarrow> SeatStatus \<Rightarrow> 'z seat_store_scheme \<Rightarrow> 'z seat_store_scheme" where
  "set_status eventId seatIds st v = v\<lparr>hash := (hash v)(status_key eventId :=
     (\<lambda>s. if s \<in> set seatIds then Some (Raw (status_text st)) else hash v (status_key eventId) s))\<rparr>"

lemma set_status_simps [simp]:
  "inventory (set_status e ss st v) = inventory v" "seat_holds (set_status e ss st v) = seat_holds v"
  "seat_tx (set_status e ss st v) = seat_tx v" "tx_inventory (set_status e ss st v) = tx_inventory v"
  "tx_holds (set_status e ss st v) = tx_holds v" "kv (set_status e ss st v) = kv v"
  "clock (set_status e ss st v) = clock v" "calm (set_status e ss st v) = calm v"
  "locks_are_strings (set_status e ss st v) = locks_are_strings v"
  by (simp_all add: set_status_def locks_are_strings_def)

lemma hash_set_status:
  "hash (set_status e ss st v) k s =
     (if k = status_key e \<and> s \<in> set ss then Some (Raw (status_text st)) else hash v k s)"
  by (simp add: set_status_def)

lemma fold_set_status:
  "fold (cmd_effect kv_update hash_update) (map (\<lambda>s. HSET (status_key e) s (Raw (status_text st))) ss) v =
     set_status e ss st v"
proof (induction ss arbitrary: v)
  case Nil
  show ?case by (simp add: set_status_def)
next
  case (Cons s ss)
  show ?case
    unfolding list.map fold.simps comp_def Cons.IH
    by (auto simp: set_status_def fun_eq_iff intro!: seat_store.equality)
qed

text \<open>The rows of an event as the read model should show them.\<close>

definition seat_row :: "'z seat_store_scheme \<Rightarrow> string \<Rightarrow> string \<Rightarrow> SeatInventory option" where
  "seat_row v eventId seatId = List.find (\<lambda>r. inv_eventId r = eventId \<and> inv_seatId r = seatId) (inventory v)"

definition db_status :: "'z seat_store_scheme \<Rightarrow> string \<Rightarrow> string \<Rightarrow> rtext option" where
  "db_status v eventId seatId = map_option (\<lambda>r. Raw (status_text (inv_status r))) (seat_row v eventId seatId)"

definition db_detail :: "'z seat_store_scheme \<Rightarrow> string \<Rightarrow> string \<Rightarrow> rtext option" where
  "db_detail v eventId seatId = map_option (\<lambda>r. JSON_stringify (seat_detail r)) (seat_row v eventId seatId)"

definition cache_synced :: "'z seat_store_scheme \<Rightarrow> string \<Rightarrow> bool" where
  "cache_synced v eventId \<longleftrightarrow>
     (\<forall>s. hash v (status_key eventId) s = db_status v eventId s \<and>
          hash v (detail_key eventId) s = db_detail v eventId s)"

definition refreshed :: "string \<Rightarrow> 'z seat_store_scheme \<Rightarrow> 'z seat_store_scheme" where
  "refreshed eventId v =
     (if \<exists>r\<in>set (inventory v). inv_eventId r = eventId
      then v\<lparr>kv := (kv v)(status_key eventId := None, detail_key eventId := None),
             hash := (hash v)(status_key eventId := db_status v eventId, detail_key eventId := db_detail v eventId)\<rparr>
      else v)"

lemma fold_hsets:
  "fold (cmd_effect kv_update hash_update)
     (concat (map (\<lambda>r. [HSET (status_key e) (key r) (f r), HSET (detail_key e) (key r) (g r)]) rs)) v =
   v\<lparr>hash := (hash v)
     (status_key e := hash v (status_key e) ++ map_of (rev (map (\<lambda>r. (key r, f r)) rs)),
      detail_key e := hash v (detail_key e) ++ map_of (rev (map (\<lambda>r. (key r, g r)) rs)))\<rparr>"
proof (induction rs arbitrary: v)
  case Nil
  show ?case by (simp add: fun_upd_idem)
next
  case (Cons r rs)
  show ?case
    by (simp add: Cons.IH)
      (auto simp: fun_eq_iff map_add_def split: option.splits intro!: seat_store.equality)
qed

lemma unique_event_seats:
  assumes "unique_seats t" "mset xs = mset (filter (\<lambda>r. inv_eventId r = e) t)"
  shows "distinct (map inv_seatId xs)"
proof -
  have "distinct (map seat_key (filter (\<lambda>r. inv_eventId r = e) t))"
    using assms(1) by (simp add: unique_seats_def distinct_map_filter)
  then have "distinct (map inv_seatId (filter (\<lambda>r. inv_eventId r = e) t))"
    by (auto simp: distinct_map inj_on_def seat_key_def)
  moreover have "mset (map inv_seatId xs) = mset (map inv_seatId (filter (\<lambda>r. inv_eventId r = e) t))"
    using assms(2) by simp
  ultimately show ?thesis using mset_eq_imp_distinct_iff by blast
qed

lemma rows_of_event:
  assumes "unique_seats (inventory v)" "mset xs = mset (filter (\<lambda>r. inv_eventId r = e) (inventory v))"
  shows "map_of (rev (map (\<lambda>r. (inv_seatId r, g r)) xs)) s = map_option g (seat_row v e s)"
proof -
  have d: "distinct (map inv_seatId (rev xs))"
    using unique_event_seats [OF assms] by (simp flip: rev_map)
  show ?thesis
    using map_of_eq_find [OF d, of "\<lambda>r. inv_eventId r = e" "inventory v" g s] assms(2)
    by (simp add: seat_row_def rev_map)
qed

lemma refreshed_synced:
  assumes "\<exists>r\<in>set (inventory v). inv_eventId r = e"
  shows "cache_synced (refreshed e v) e"
  using assms by (simp add: cache_synced_def refreshed_def db_status_def db_detail_def seat_row_def)

text \<open>The details in the cache are JSON documents, as \<^verbatim>\<open>rebuildCache\<close> writes them.\<close>

definition details_are_json :: "'z seat_store_scheme \<Rightarrow> string \<Rightarrow> bool" where
  "details_are_json v eventId \<longleftrightarrow>
     (\<forall>s x. hash v (detail_key eventId) s = Some x \<longrightarrow> (\<exists>j. x = Json j))"

lemma refreshed_details_json: "details_are_json v e \<Longrightarrow> details_are_json (refreshed e v) e"
  by (auto simp: details_are_json_def refreshed_def db_detail_def JSON_stringify_def split: option.splits)

lemma synced_details_json: "cache_synced v e \<Longrightarrow> details_are_json v e"
  by (auto simp: details_are_json_def cache_synced_def db_detail_def JSON_stringify_def)

text \<open>The entry of a seat in the listing, from the hashes and from the table.\<close>

definition cached_view :: "'z seat_store_scheme \<Rightarrow> string \<Rightarrow> string \<Rightarrow> rtext \<Rightarrow> SeatView" where
  "cached_view v eventId seatId status =
     \<lparr>sv_detail = (case present (hash v (detail_key eventId) seatId) of Some (Json j) \<Rightarrow> spread j | _ \<Rightarrow> []),
      sv_status = status\<rparr>"

definition row_view :: "SeatInventory \<Rightarrow> SeatView" where
  "row_view r = \<lparr>sv_detail = spread (seat_detail r), sv_status = Raw (status_text (inv_status r))\<rparr>"

definition event_rows :: "'z seat_store_scheme \<Rightarrow> string \<Rightarrow> SeatInventory list" where
  "event_rows v eventId = filter (\<lambda>r. inv_eventId r = eventId) (inventory v)"

lemma mset_of_map_of:
  assumes "distinct (map fst xs)" "distinct (map fst ys)" "map_of xs = map_of ys"
  shows "mset xs = mset ys"
  using assms map_of_inject_set [OF assms(1,2)] set_eq_iff_mset_eq_distinct
  by (metis distinct_map)

lemma seat_row_mem:
  assumes "unique_seats (inventory v)" "r \<in> set (event_rows v e)"
  shows "seat_row v e (inv_seatId r) = Some r"
  unfolding seat_row_def
  by (rule find_unique)
    (use assms in \<open>auto simp: event_rows_def unique_seats_def distinct_map inj_on_def seat_key_def\<close>)

lemma synced_listing:
  assumes "unique_seats (inventory v)" "cache_synced v e"
    and "distinct (map fst statuses)" "map_of statuses = hash v (status_key e)"
  shows "mset (map (\<lambda>(s, st). cached_view v e s st) statuses) = mset (map row_view (event_rows v e))"
proof -
  let ?rows = "event_rows v e"
  let ?st = "\<lambda>r. Raw (status_text (inv_status r))"
  have d: "distinct (map inv_seatId ?rows)"
    using unique_event_seats [OF assms(1), of ?rows e] by (simp add: event_rows_def)
  have "map_of (map (\<lambda>r. (inv_seatId r, ?st r)) ?rows) s = db_status v e s" for s
    using map_of_eq_find [OF d, of "\<lambda>r. inv_eventId r = e" "inventory v" ?st s]
    by (simp add: event_rows_def db_status_def seat_row_def)
  then have "map_of statuses = map_of (map (\<lambda>r. (inv_seatId r, ?st r)) ?rows)"
    using assms(2,4) by (auto simp: fun_eq_iff cache_synced_def)
  then have "mset statuses = mset (map (\<lambda>r. (inv_seatId r, ?st r)) ?rows)"
    by (intro mset_of_map_of) (use assms(3) d in \<open>simp_all add: comp_def\<close>)
  then have "mset (map (\<lambda>(s, st). cached_view v e s st) statuses) =
      mset (map (\<lambda>(s, st). cached_view v e s st) (map (\<lambda>r. (inv_seatId r, ?st r)) ?rows))"
    by (simp only: mset_map)
  also have "map (\<lambda>(s, st). cached_view v e s st) (map (\<lambda>r. (inv_seatId r, ?st r)) ?rows) = map row_view ?rows"
    using assms(2) seat_row_mem [OF assms(1)]
    by (auto simp: cached_view_def row_view_def cache_synced_def db_detail_def JSON_stringify_def
        present_def seat_detail_def)
  finally show ?thesis .
qed

definition listing :: "string \<Rightarrow> 'z seat_store_scheme \<Rightarrow> SeatView list \<Rightarrow> bool" where
  "listing e v views \<longleftrightarrow> (\<exists>statuses. distinct (map fst statuses) \<and> map_of statuses = hash v (status_key e) \<and>
     views = map (\<lambda>(s, st). cached_view v e s st) statuses)"

context seat_world
begin

lemma updateMultiple_law:
  "obeys vw (updateMultipleSeatsStatus E e (with_status st ss))
     (fallible calm (\<lambda>v u v'. v' = set_status e ss st v))"
  using exec_law [of "map (\<lambda>s. HSET (status_key e) s (Raw (status_text st))) ss"]
  by (simp add: updateMultipleSeatsStatus_def with_status_def comp_def fold_set_status)

lemma rebuildCache_law:
  "obeys vw (rebuildCache E e) (fallible calm (\<lambda>v u v'. unique_seats (inventory v) \<longrightarrow> v' = refreshed e v))"
proof (rule obeysI)
  fix w
  show "wp (rebuildCache E e) (\<lambda>r w'. fallible calm (\<lambda>v u v'. unique_seats (inventory v) \<longrightarrow> v' = refreshed e v)
      (vw w) r (vw w')) w"
    unfolding rebuildCache_def wp_simps
  proof (rule wp_fallible [OF inv.find_law], goal_cases)
    case (1 x w1)
    then show ?case by simp
  next
    case (2 seats w1)
    let ?v = "vw w"
    have eff: "unique_seats (inventory ?v) \<longrightarrow>
        fold (cmd_effect kv_update hash_update) (DEL (status_key e) # DEL (detail_key e) #
          concat (map (\<lambda>seat. [HSET (status_key e) (inv_seatId seat) (Raw (status_text (inv_status seat))),
            HSET (detail_key e) (inv_seatId seat) (JSON_stringify (seat_detail seat))]) seats)) ?v =
        refreshed e ?v" if "seats \<noteq> []"
    proof -
      have "\<exists>r\<in>set (inventory ?v). inv_eventId r = e"
        using 2 that by (metis (mono_tags, lifting) filter_empty_conv mset_zero_iff)
      then show ?thesis
        using rows_of_event [of ?v seats e] 2
        by (auto simp: fold_hsets refreshed_def fun_eq_iff db_status_def db_detail_def map_add_def
            split: option.splits intro!: seat_store.equality)
    qed
    have none: "refreshed e ?v = ?v" if "seats = []"
      using 2 that by (auto simp: refreshed_def filter_empty_conv)
    show ?case
      using 2 eff none by (auto simp: wp_simps intro!: wp_fallible [OF exec_law])
  qed
qed

lemma view_loop:
  assumes "map_of details = hash (vw w) (detail_key e)"
  shows "wp (build_views statuses details)
     (\<lambda>r w'. vw w' = vw w \<and> (\<forall>x. r = Inl x \<longrightarrow> \<not> details_are_json (vw w) e) \<and>
        (\<forall>views. r = Inr views \<longrightarrow> views = map (\<lambda>(s, st). cached_view (vw w) e s st) statuses)) w"
  unfolding build_views_def
proof (rule wp_for_fold [where I = "\<lambda>ys views w1. vw w1 = vw w \<and>
      views = map (\<lambda>(s, st). cached_view (vw w) e s st) ys" and X = "\<lambda>x w1. vw w1 = vw w \<and> \<not> details_are_json (vw w) e"], goal_cases)
  case (1 ys x zs views w1)
  then show ?case
    using assms by (cases x; cases "present (map_of details (fst x))"; cases "the (present (map_of details (fst x)))")
      (auto simp: wp_simps cached_view_def details_are_json_def dest!: present_Some)
qed auto

lemma getEventSeats_law:
  "obeys vw (getEventSeatsWithStatus E e) (\<lambda>v r v'. unique_seats (inventory v) \<longrightarrow>
     (v' = v \<or> v' = refreshed e v) \<and> (\<forall>x. r = Inl x \<longrightarrow> \<not> (calm v \<and> details_are_json v e)) \<and>
     (\<forall>views. r = Inr views \<longrightarrow> listing e v' views \<and>
        v' = (if hash v (status_key e) = Map.empty then refreshed e v else v)))"
proof (rule obeysI, rule wpI, intro impI)
  fix w r w'
  assume run: "getEventSeatsWithStatus E e w = (r, w')" and u: "unique_seats (inventory (vw w))"
  define Q where "Q = (\<lambda>r w'. (vw w' = vw w \<or> vw w' = refreshed e (vw w)) \<and>
     (\<forall>x. r = Inl x \<longrightarrow> \<not> (calm (vw w) \<and> details_are_json (vw w) e)) \<and>
     (\<forall>views. r = (Inr views :: exn + SeatView list) \<longrightarrow> listing e (vw w') views \<and>
        vw w' = (if hash (vw w) (status_key e) = Map.empty then refreshed e (vw w) else vw w)))"
  have no_fields: "map_of xs = Map.empty \<longleftrightarrow> xs = []" for xs :: "(string \<times> rtext) list"
    by (cases xs) auto
  have calm: "calm (refreshed e (vw w)) = calm (vw w)"
    by (simp add: refreshed_def)
  have stop: "Q (Inl x) w1" if "vw w1 = vw w \<or> vw w1 = refreshed e (vw w)" "\<not> calm (vw w)" for x w1
    using that by (simp add: Q_def)
  have loop: "wp (build_views statuses details) Q w1"
    if v1: "vw w1 = (if hash (vw w) (status_key e) = Map.empty then refreshed e (vw w) else vw w)"
      and st: "distinct (map fst statuses)" "map_of statuses = hash (vw w1) (status_key e)"
      and dt: "map_of details = hash (vw w1) (detail_key e)" for statuses details w1
    by (rule wp_mono [OF view_loop [OF dt]])
      (use v1 st refreshed_details_json [of "vw w" e] in \<open>auto simp: Q_def listing_def split: if_splits\<close>)
  have "wp (getEventSeatsWithStatus E e) Q w"
    unfolding getEventSeatsWithStatus_def wp_simps
    apply (rule wp_fallible [OF hgetall_law])
     apply (simp add: stop)
    apply (simp add: wp_simps)
    apply (rule wp_fallible [OF hgetall_law])
     apply (simp add: stop)
    apply (auto simp: wp_simps u stop no_fields calm intro!: loop wp_fallible [OF rebuildCache_law] wp_fallible [OF hgetall_law])
    done
  then show "(vw w' = vw w \<or> vw w' = refreshed e (vw w)) \<and>
     (\<forall>x. r = Inl x \<longrightarrow> \<not> (calm (vw w) \<and> details_are_json (vw w) e)) \<and>
     (\<forall>views. r = Inr views \<longrightarrow> listing e (vw w') views \<and>
        vw w' = (if hash (vw w) (status_key e) = Map.empty then refreshed e (vw w) else vw w))"
    using run unfolding Q_def by (auto dest: wpD)
qed

end

section \<open>The interface of the read service\<close>

locale availability_api =
  fixes R :: "'w AvailabilityReadService" and vw :: "'w \<Rightarrow> 'z seat_store_scheme"
  assumes update_status_law:
    "obeys vw (ars_updateMultipleSeatsStatus R e (with_status st ss))
       (fallible calm (\<lambda>v u v'. v' = set_status e ss st v))"

sublocale seat_world \<subseteq> availability: availability_api "availabilityReadService E" vw
  by unfold_locales (simp add: availabilityReadService_def updateMultiple_law)

section \<open>Properties\<close>

lemma demo_unique: "unique_seats (inventory (seat_view demo_seats))"
  by code_simp

lemma demo_cold: "hash (seat_view demo_seats) k = Map.empty"
  by (simp add: seat_view_def demo_seats_def fields_of_def)

lemma demo_rows: "event_rows (seat_view demo_seats) ''e1'' =
    [demo_seat ''A1'' AVAILABLE, demo_seat ''A2'' AVAILABLE, demo_seat ''A3'' SOLD]"
  by (simp add: event_rows_def seat_view_def demo_seats_def demo_seat_def)

lemma getEventSeatsWithStatus_listing:
  assumes "seat_world E vw" "unique_seats (inventory (vw w))"
    and "cache_synced (vw w) e \<or> hash (vw w) (status_key e) = Map.empty"
    and "getEventSeatsWithStatus E e w = (Inr views, w')"
  shows "mset views = mset (map row_view (event_rows (vw w) e)) \<and>
    inventory (vw w') = inventory (vw w) \<and> (event_rows (vw w) e \<noteq> [] \<longrightarrow> cache_synced (vw w') e)"
proof -
  have "listing e (vw w') views \<and>
      vw w' = (if hash (vw w) (status_key e) = Map.empty then refreshed e (vw w) else vw w)"
    using obeysD [OF seat_world.getEventSeats_law [OF assms(1)] assms(4)] assms(2) by blast
  then obtain statuses where st: "distinct (map fst statuses)"
      "map_of statuses = hash (vw w') (status_key e)"
      "views = map (\<lambda>(s, st). cached_view (vw w') e s st) statuses"
    and v': "vw w' = (if hash (vw w) (status_key e) = Map.empty then refreshed e (vw w) else vw w)"
    by (auto simp: listing_def)
  have inv: "inventory (vw w') = inventory (vw w)"
    using v' by (auto simp: refreshed_def)
  show ?thesis
  proof (cases "event_rows (vw w) e = [] \<and> hash (vw w) (status_key e) = Map.empty")
    case True
    then have "refreshed e (vw w) = vw w"
      by (auto simp: event_rows_def refreshed_def filter_empty_conv)
    then have "map_of statuses = Map.empty" using st(2) v' True by simp
    then have "statuses = []" by (cases statuses) auto
    then show ?thesis using st(3) True inv by simp
  next
    case False
    then have "cache_synced (vw w') e"
      using v' assms(3) refreshed_synced [of "vw w" e]
      by (auto simp: event_rows_def filter_empty_conv split: if_splits)
    then show ?thesis
      using synced_listing [OF _ _ st(1,2)] st(3) inv assms(2) by (simp add: event_rows_def)
  qed
qed

text \<open>
  C38.  The seat listing of an event is the table: when the hashes agree with the table, or are
  empty as on a first read, \<^verbatim>\<open>getEventSeatsWithStatus\<close> returns one entry per row of the event with
  the row's details and status, and leaves hashes that agree with the table.
\<close>

theorem getEventSeatsWithStatus_accurate:
  assumes "seat_world E vw" "unique_seats (inventory (vw w))"
    and "cache_synced (vw w) e \<or> hash (vw w) (status_key e) = Map.empty"
    and "getEventSeatsWithStatus E e w = (Inr views, w')"
  shows "mset views = mset (map row_view (event_rows (vw w) e)) \<and>
    inventory (vw w') = inventory (vw w) \<and> (event_rows (vw w) e \<noteq> [] \<longrightarrow> cache_synced (vw w') e)"
  using getEventSeatsWithStatus_listing [OF assms] .

theorem getEventSeatsWithStatus_accurate_witness:
  "\<exists>views w'. getEventSeatsWithStatus mem_seat_env ''e1'' demo_seats = (Inr views, w') \<and>
     mset views = {#row_view (demo_seat ''A1'' AVAILABLE), row_view (demo_seat ''A2'' AVAILABLE),
       row_view (demo_seat ''A3'' SOLD)#}"
proof -
  have "returns (getEventSeatsWithStatus mem_seat_env ''e1'') demo_seats"
    by code_simp
  then obtain views w' where run: "getEventSeatsWithStatus mem_seat_env ''e1'' demo_seats = (Inr views, w')"
    by (rule returnsE)
  show ?thesis
    using getEventSeatsWithStatus_accurate [OF mem_seats.seat_world_axioms demo_unique _ run] demo_cold run
    by (simp add: demo_rows)
qed

text \<open>What the summary should say of a section.\<close>

definition section_summary :: "json \<Rightarrow> SeatView list \<Rightarrow> SectionSummary" where
  "section_summary k seats = (let ss = filter (\<lambda>s. section_of s = k) seats in
     \<lparr>sec_total = length ss, sec_available = length (filter (has_status AVAILABLE) ss),
      sec_held = length (filter (has_status HELD) ss), sec_sold = length (filter (has_status SOLD) ss),
      sec_price = (if ss = [] then None else map_of (sv_detail (hd ss)) ''price'')\<rparr>)"

lemma map_of_update_key:
  "map_of (map (\<lambda>(k, x). (k, if k = key then f x else x)) xs) k =
     map_option (if k = key then f else id) (map_of xs k)"
  by (induction xs) auto

lemma section_summary_snoc:
  "section_summary k (seats @ [s]) =
     (if section_of s = k then count_seat s (if \<exists>t\<in>set seats. section_of t = k then section_summary k seats
        else \<lparr>sec_total = 0, sec_available = 0, sec_held = 0, sec_sold = 0,
              sec_price = map_of (sv_detail s) ''price''\<rparr>)
      else section_summary k seats)"
proof (cases "filter (\<lambda>s. section_of s = k) seats")
  case Nil
  then have "\<not> (\<exists>t\<in>set seats. section_of t = k)"
    by (auto simp: filter_empty_conv)
  then show ?thesis
    using Nil by (auto simp: section_summary_def count_seat_def has_status_def)
next
  case (Cons t ts)
  then have "\<exists>t\<in>set seats. section_of t = k"
    using Cons_eq_filterD [OF Cons [symmetric]] by auto
  then show ?thesis
    using Cons by (auto simp: section_summary_def count_seat_def has_status_def)
qed

lemma map_of_add_to_section:
  "map_of (add_to_section secs s) k = (if k = section_of s then Some (count_seat s
     (case map_of secs k of Some x \<Rightarrow> x
      | None \<Rightarrow> \<lparr>sec_total = 0, sec_available = 0, sec_held = 0, sec_sold = 0,
                 sec_price = map_of (sv_detail s) ''price''\<rparr>))
     else map_of secs k)"
proof (cases "map_of secs (section_of s)")
  case None
  then have "section_of s \<notin> fst ` set secs" by (simp add: map_of_eq_None_iff)
  with None show ?thesis
    by (cases "map_of secs k") (auto simp: add_to_section_def Let_def map_of_update_key map_add_def)
next
  case (Some x)
  then have "section_of s \<in> fst ` set secs" by (metis map_of_eq_None_iff option.distinct(1))
  with Some show ?thesis
    by (cases "map_of secs k") (auto simp: add_to_section_def Let_def map_of_update_key)
qed

lemma foldl_add_to_section:
  "map_of (foldl add_to_section [] seats) k =
     (if \<exists>s\<in>set seats. section_of s = k then Some (section_summary k seats) else None)"
proof (induction seats arbitrary: k rule: rev_induct)
  case Nil
  show ?case by simp
next
  case (snoc s seats)
  show ?case
    using snoc.IH [of k] by (auto simp: map_of_add_to_section section_summary_snoc split: if_splits)
qed

text \<open>
  The availability summary counts the table: with hashes that agree with it (or empty ones),
  the totals are the numbers of rows of the event in each status, there is exactly one entry per
  section, and an entry has the section's own counts.
\<close>

theorem getEventAvailabilitySummary_counts:
  assumes "seat_world E vw" "unique_seats (inventory (vw w))"
    and "cache_synced (vw w) e \<or> hash (vw w) (status_key e) = Map.empty"
    and "getEventAvailabilitySummary E e w = (Inr s, w')"
  shows "sum_totalSeats s = length (event_rows (vw w) e) \<and>
    sum_available s = length (filter (\<lambda>r. inv_status r = AVAILABLE) (event_rows (vw w) e)) \<and>
    sum_held s = length (filter (\<lambda>r. inv_status r = HELD) (event_rows (vw w) e)) \<and>
    sum_sold s = length (filter (\<lambda>r. inv_status r = SOLD) (event_rows (vw w) e)) \<and>
    (\<exists>views. mset views = mset (map row_view (event_rows (vw w) e)) \<and>
       (\<forall>k. map_of (sum_sections s) k =
          (if k \<in> section_of ` set views then Some (section_summary k views) else None)))"
proof -
  obtain views where run: "getEventSeatsWithStatus E e w = (Inr views, w')" and s: "s = summarize views"
    using assms(4) by (auto simp: getEventAvailabilitySummary_def await_def return_def
        split: prod.splits sum.splits)
  have m: "mset views = mset (map row_view (event_rows (vw w) e))"
    using getEventSeatsWithStatus_listing [OF assms(1-3) run] by simp
  have cnt: "length (filter (has_status st) views) =
      length (filter (\<lambda>r. inv_status r = st) (event_rows (vw w) e))" for st
  proof -
    have "length (filter (has_status st) views) = size (filter_mset (has_status st) (mset views))"
      by (simp flip: mset_filter)
    also have "\<dots> = length (filter (has_status st) (map row_view (event_rows (vw w) e)))"
      by (metis m mset_filter size_mset)
    also have "\<dots> = length (filter (\<lambda>r. inv_status r = st) (event_rows (vw w) e))"
      by (simp add: filter_map comp_def has_status_def row_view_def)
    finally show ?thesis .
  qed
  have len: "length views = length (event_rows (vw w) e)"
    using m by (metis length_map mset_eq_length)
  show ?thesis
    using m len by (auto simp: s summarize_def cnt foldl_add_to_section image_iff intro!: exI [of _ views])
qed

theorem getEventAvailabilitySummary_counts_witness:
  "\<exists>s w'. getEventAvailabilitySummary mem_seat_env ''e1'' demo_seats = (Inr s, w') \<and>
     sum_totalSeats s = 3 \<and> sum_available s = 2 \<and> sum_sold s = 1"
proof -
  have "returns (getEventAvailabilitySummary mem_seat_env ''e1'') demo_seats"
    by code_simp
  then obtain s w' where run: "getEventAvailabilitySummary mem_seat_env ''e1'' demo_seats = (Inr s, w')"
    by (rule returnsE)
  show ?thesis
    using getEventAvailabilitySummary_counts [OF mem_seats.seat_world_axioms demo_unique _ run] demo_cold run
    by (simp add: demo_rows demo_seat_def)
qed

end
