(* ===== verification/Inventory_Service.thy ===== *)
theory Inventory_Service
  imports Availability_Read
begin

text \<open>
  \<^verbatim>\<open>InventoryService\<close> (inventory/inventory.service.ts) and the Kafka consumer of \<^verbatim>\<open>event.create\<close>
  (inventory/inventory.consumer.ts): the rows of an event are created once, queried, and put back
  on sale after a refund.
\<close>

section \<open>Operations\<close>

definition new_seat :: "'w seat_env \<Rightarrow> string \<Rightarrow> EventSeat \<Rightarrow> string \<Rightarrow> int \<Rightarrow> SeatInventory" where
  "new_seat E eventId seat = (\<lambda>id now. \<lparr>inv_id = id, inv_eventId = eventId, inv_seatId = es_seatId seat,
     inv_sectionId = es_sectionId seat, inv_sectionName = es_sectionName seat,
     inv_ticketTypeId = es_ticketTypeId seat, inv_ticketTypeName = es_ticketTypeName seat,
     inv_price = to_numeric E (es_price seat), inv_currency = es_currency seat, inv_row = es_row seat,
     inv_seatNumber = es_number seat, inv_seatType = es_type seat, inv_status = AVAILABLE,
     inv_priceOverride = None, inv_version = 1, inv_createdAt = now\<rparr>)"

definition createFromEvent :: "'w seat_env \<Rightarrow> EventCreateMessage \<Rightarrow> ('w, unit) act" where
  "createFromEvent E payload =
     await (repo_count (inventoryRepo E) (\<lambda>r. inv_eventId r = ecm_eventId payload)) (\<lambda>existing.
     if existing > 0 then return ()
     else await (repo_insert (inventoryRepo E) (map (new_seat E (ecm_eventId payload)) (ecm_seats payload)))
          (\<lambda>_. return ()))"

definition findByEventId :: "'w seat_env \<Rightarrow> string \<Rightarrow> ('w, SeatInventory list) act" where
  "findByEventId E eventId = repo_find (inventoryRepo E) (\<lambda>r. inv_eventId r = eventId)"

definition getAvailability :: "'w seat_env \<Rightarrow> string \<Rightarrow> ('w, SeatInventory list) act" where
  "getAvailability E eventId =
     repo_find (inventoryRepo E) (\<lambda>r. inv_eventId r = eventId \<and> inv_status r = AVAILABLE)"

definition findBySeatIds :: "'w seat_env \<Rightarrow> string \<Rightarrow> string list \<Rightarrow> ('w, SeatInventory list) act" where
  "findBySeatIds E eventId seatIds =
     repo_find (inventoryRepo E) (\<lambda>r. inv_eventId r = eventId \<and> inv_seatId r \<in> set seatIds)"

definition updateStatus ::
  "'w seat_env \<Rightarrow> 'w AvailabilityReadService \<Rightarrow> string \<Rightarrow> string list \<Rightarrow> SeatStatus \<Rightarrow> ('w, unit) act" where
  "updateStatus E readService eventId seatIds status =
     await (repo_update (inventoryRepo E) (\<lambda>r. inv_eventId r = eventId \<and> inv_seatId r \<in> set seatIds)
              (\<lambda>r. r\<lparr>inv_status := status\<rparr>)) (\<lambda>_.
     ars_updateMultipleSeatsStatus readService eventId (with_status status seatIds))"

definition relaseSoldSeats ::
  "'w seat_env \<Rightarrow> 'w AvailabilityReadService \<Rightarrow> string \<Rightarrow> string list \<Rightarrow> ('w, unit) act" where
  "relaseSoldSeats E readService eventId seatIds =
     await (findBySeatIds E eventId seatIds) (\<lambda>inventories.
     await (repo_save (inventoryRepo E) (map (\<lambda>inv. inv\<lparr>inv_status := AVAILABLE\<rparr>) inventories)) (\<lambda>_.
     ars_updateMultipleSeatsStatus readService eventId (with_status AVAILABLE seatIds)))"

text \<open>
  A Kafka payload is the message, or an envelope whose \<^verbatim>\<open>value\<close> is the message; a message without an
  \<^verbatim>\<open>eventId\<close> has the empty one.
\<close>

datatype 'm kafka_payload = NoPayload | Enveloped 'm | Bare 'm

fun payload_value :: "'m kafka_payload \<Rightarrow> 'm option" where
  "payload_value NoPayload = None"
| "payload_value (Enveloped m) = Some m"
| "payload_value (Bare m) = Some m"

definition handleEventCreate :: "'w seat_env \<Rightarrow> EventCreateMessage kafka_payload \<Rightarrow> ('w, unit) act" where
  "handleEventCreate E payload = (case payload_value payload of
      None \<Rightarrow> return ()
    | Some msg \<Rightarrow> if ecm_eventId msg = [] then return () else createFromEvent E msg)"

record 'w InventoryService =
  ivs_findByEventId :: "string \<Rightarrow> ('w, SeatInventory list) act"
  ivs_getAvailability :: "string \<Rightarrow> ('w, SeatInventory list) act"
  ivs_findBySeatIds :: "string \<Rightarrow> string list \<Rightarrow> ('w, SeatInventory list) act"
  ivs_relaseSoldSeats :: "string \<Rightarrow> string list \<Rightarrow> ('w, unit) act"

definition inventoryService :: "'w seat_env \<Rightarrow> 'w AvailabilityReadService \<Rightarrow> 'w InventoryService" where
  "inventoryService E R = \<lparr>ivs_findByEventId = findByEventId E, ivs_getAvailability = getAvailability E,
     ivs_findBySeatIds = findBySeatIds E, ivs_relaseSoldSeats = relaseSoldSeats E R\<rparr>"

section \<open>Changing the status of seats\<close>

definition in_seats :: "string \<Rightarrow> string list \<Rightarrow> SeatInventory \<Rightarrow> bool" where
  "in_seats eventId seatIds r \<longleftrightarrow> inv_eventId r = eventId \<and> inv_seatId r \<in> set seatIds"

definition mark :: "string \<Rightarrow> string list \<Rightarrow> SeatStatus \<Rightarrow> SeatInventory list \<Rightarrow> SeatInventory list" where
  "mark eventId seatIds st t = map (\<lambda>r. if in_seats eventId seatIds r then r\<lparr>inv_status := st\<rparr> else r) t"

lemma mark_ids [simp]: "map inv_id (mark e ss st t) = map inv_id t"
  by (auto simp: mark_def intro!: map_cong)

lemma mark_seat_keys [simp]: "map seat_key (mark e ss st t) = map seat_key t"
  by (auto simp: mark_def seat_key_def intro!: map_cong)

lemma unique_seats_mark [simp]: "unique_seats (mark e ss st t) = unique_seats t"
  by (simp add: unique_seats_def)

lemma mark_saves:
  assumes "distinct (map inv_id t)" "mset xs = filter_mset (in_seats e ss) (mset t)"
  shows "upserts inv_id (map (\<lambda>r. r\<lparr>inv_status := st\<rparr>) xs) t = mark e ss st t"
  using upserts_modify [of inv_id t xs "in_seats e ss" "\<lambda>r. r\<lparr>inv_status := st\<rparr>"] assms
  by (simp add: mark_def)

lemma mark_saves_state:
  assumes "distinct (map inv_id (inventory v))" "mset xs = filter_mset (in_seats e ss) (mset (inventory v))"
  shows "inventory_update (upserts inv_id (map (inv_status_update (\<lambda>_. st)) xs)) v =
    v\<lparr>inventory := mark e ss st (inventory v)\<rparr>"
  using mark_saves [OF assms] by simp

text \<open>A marked table and a read model marked alike still agree, provided every seat marked there is a row.\<close>

lemma find_mark:
  "List.find (\<lambda>r. inv_eventId r = e' \<and> inv_seatId r = s) (mark e ss st t) =
     map_option (\<lambda>r. if e' = e \<and> s \<in> set ss then r\<lparr>inv_status := st\<rparr> else r)
       (List.find (\<lambda>r. inv_eventId r = e' \<and> inv_seatId r = s) t)"
  by (induction t) (auto simp: mark_def in_seats_def)

lemma seat_row_mark:
  "seat_row (v\<lparr>inventory := mark e ss st (inventory v)\<rparr>) e' s =
     map_option (\<lambda>r. if e' = e \<and> s \<in> set ss then r\<lparr>inv_status := st\<rparr> else r) (seat_row v e' s)"
  by (simp add: seat_row_def find_mark)

lemma mark_synced:
  assumes "cache_synced v e'" "\<forall>s\<in>set ss. seat_row v e s \<noteq> None"
  shows "cache_synced (set_status e ss st (v\<lparr>inventory := mark e ss st (inventory v)\<rparr>)) e'"
  unfolding cache_synced_def
proof
  fix s
  let ?v = "set_status e ss st (v\<lparr>inventory := mark e ss st (inventory v)\<rparr>)"
  have row: "seat_row ?v e' s =
      map_option (\<lambda>r. if e' = e \<and> s \<in> set ss then r\<lparr>inv_status := st\<rparr> else r) (seat_row v e' s)"
    using seat_row_mark [of e ss st v e' s] by (simp add: seat_row_def)
  show "hash ?v (status_key e') s = db_status ?v e' s \<and> hash ?v (detail_key e') s = db_detail ?v e' s"
    using assms by (cases "seat_row v e' s")
      (auto simp: cache_synced_def db_status_def db_detail_def row hash_set_status seat_detail_def)
qed

locale inventory_api =
  fixes Iv :: "'w InventoryService" and vw :: "'w \<Rightarrow> 'z seat_store_scheme"
  assumes find_seats_law:
      "obeys vw (ivs_findBySeatIds Iv e ss)
         (fallible calm (\<lambda>v xs v'. v' = v \<and> mset xs = mset (filter (in_seats e ss) (inventory v))))"
    and find_event_law:
      "obeys vw (ivs_findByEventId Iv e) (fallible calm (\<lambda>v xs v'. v' = v \<and> mset xs = mset (event_rows v e)))"
    and find_available_law:
      "obeys vw (ivs_getAvailability Iv e)
         (fallible calm (\<lambda>v xs v'. v' = v \<and> mset xs = mset (filter (\<lambda>r. inv_status r = AVAILABLE) (event_rows v e))))"
    and release_sold_law:
      "obeys vw (ivs_relaseSoldSeats Iv e ss) (\<lambda>v r v'. distinct (map inv_id (inventory v)) \<longrightarrow>
         (let v1 = v\<lparr>inventory := mark e ss AVAILABLE (inventory v)\<rparr>
          in if r = Inr () then v' = set_status e ss AVAILABLE v1 else \<not> calm v \<and> (v' = v \<or> v' = v1)))"

lemma insertable_seats:
  assumes "event_rows v e = []" "unique_seats (inventory v)" "distinct (map es_seatId seats)"
  shows "insertable inv_id U now (map (new_seat E e) seats) (\<lambda>xs. unique_seats (inventory v @ xs))"
  unfolding insertable_def
proof (intro conjI allI impI)
  show "keeps_ids inv_id (map (new_seat E e) seats)"
    by (auto simp: keeps_ids_def new_seat_def)
next
  fix xs
  assume "created inv_id U now (map (new_seat E e) seats) xs"
  then have k: "map seat_key xs = map (\<lambda>s. (e, es_seatId s)) seats"
    by (rule created_map) (simp add: new_seat_def seat_key_def)
  have "distinct (map seat_key xs)"
    unfolding k using assms(3) by (simp add: distinct_map inj_on_def)
  moreover have "seat_key r \<notin> set (map seat_key xs)" if "r \<in> set (inventory v)" for r
    unfolding k using that assms(1) by (auto simp: event_rows_def filter_empty_conv seat_key_def)
  then have "set (map seat_key (inventory v)) \<inter> set (map seat_key xs) = {}"
    unfolding set_map by blast
  ultimately show "unique_seats (inventory v @ xs)"
    using assms(2) by (simp add: unique_seats_def)
qed

context seat_world
begin

lemma findBySeatIds_law:
  "obeys vw (findBySeatIds E e ss)
     (fallible calm (\<lambda>v xs v'. v' = v \<and> mset xs = mset (filter (in_seats e ss) (inventory v))))"
  using inv.find_law [of "\<lambda>r. inv_eventId r = e \<and> inv_seatId r \<in> set ss"]
  by (simp add: findBySeatIds_def in_seats_def [abs_def])

lemma relaseSoldSeats_law:
  "obeys vw (relaseSoldSeats E (availabilityReadService E) e ss)
     (\<lambda>v r v'. distinct (map inv_id (inventory v)) \<longrightarrow>
       (let v1 = v\<lparr>inventory := mark e ss AVAILABLE (inventory v)\<rparr>
        in if r = Inr () then v' = set_status e ss AVAILABLE v1 else \<not> calm v \<and> (v' = v \<or> v' = v1)))"
proof (rule obeysI, rule wpI, intro impI)
  fix w r w'
  assume run: "relaseSoldSeats E (availabilityReadService E) e ss w = (r, w')"
    and d: "distinct (map inv_id (inventory (vw w)))"
  define v1 where "v1 = (vw w)\<lparr>inventory := mark e ss AVAILABLE (inventory (vw w))\<rparr>"
  have "wp (relaseSoldSeats E (availabilityReadService E) e ss) (\<lambda>r w'.
      if r = Inr () then vw w' = set_status e ss AVAILABLE v1 else \<not> calm (vw w) \<and> (vw w' = vw w \<or> vw w' = v1)) w"
    unfolding relaseSoldSeats_def wp_simps
    by (auto intro!: wp_fallible [OF findBySeatIds_law] wp_fallible [OF inv.save_law]
        wp_fallible [OF availability.update_status_law] simp: wp_simps v1_def mark_saves_state [OF d])
  from wpD [OF this run] show "let v1 = (vw w)\<lparr>inventory := mark e ss AVAILABLE (inventory (vw w))\<rparr>
      in if r = Inr () then vw w' = set_status e ss AVAILABLE v1 else \<not> calm (vw w) \<and> (vw w' = vw w \<or> vw w' = v1)"
    by (simp add: v1_def Let_def split: if_splits)
qed

lemma createFromEvent_law:
  "obeys vw (createFromEvent E m) (fallible
     (\<lambda>v. calm v \<and> unique_seats (inventory v) \<and> distinct (map es_seatId (ecm_seats m))) (\<lambda>v u v'.
     if event_rows v (ecm_eventId m) \<noteq> [] then v' = v
     else \<exists>xs. created inv_id (inv_id ` set (inventory v)) (clock v)
              (map (new_seat E (ecm_eventId m)) (ecm_seats m)) xs \<and>
            v' = inventory_update (\<lambda>t. t @ xs) v \<and> unique_seats (inventory v @ xs)))"
proof (rule obeysI)
  fix w
  show "wp (createFromEvent E m) (\<lambda>r w'. fallible
     (\<lambda>v. calm v \<and> unique_seats (inventory v) \<and> distinct (map es_seatId (ecm_seats m))) (\<lambda>v u v'.
     if event_rows v (ecm_eventId m) \<noteq> [] then v' = v
     else \<exists>xs. created inv_id (inv_id ` set (inventory v)) (clock v)
              (map (new_seat E (ecm_eventId m)) (ecm_seats m)) xs \<and>
            v' = inventory_update (\<lambda>t. t @ xs) v \<and> unique_seats (inventory v @ xs)) (vw w) r (vw w')) w"
    unfolding createFromEvent_def wp_simps
  proof (rule wp_fallible [OF inv.count_law], goal_cases)
    case (2 n w1)
    then have n: "n = length (event_rows (vw w) (ecm_eventId m))" "vw w1 = vw w"
      by (simp_all add: event_rows_def)
    show ?case
      using n insertable_seats [of "vw w" "ecm_eventId m" "ecm_seats m"]
      by (auto simp: wp_simps intro!: wp_fallible [OF inv.insert_law])
  qed simp
qed

end

sublocale seat_world \<subseteq> inventories: inventory_api "inventoryService E (availabilityReadService E)" vw
proof
qed (use findBySeatIds_law relaseSoldSeats_law inv.find_law in
  \<open>simp_all add: inventoryService_def findByEventId_def getAvailability_def event_rows_def filter_filter conj_commute\<close>)

section \<open>Properties\<close>

lemma created_rows:
  assumes "created inv_id U now (map (new_seat E e) seats) xs"
  shows "filter (\<lambda>r. inv_eventId r = e) xs = xs"
    and "map (\<lambda>r. (inv_seatId r, inv_sectionName r, inv_price r, inv_status r)) xs =
         map (\<lambda>s. (es_seatId s, es_sectionName s, to_numeric E (es_price s), AVAILABLE)) seats"
proof -
  have "\<forall>r\<in>set xs. inv_eventId r = e"
    using created_set [OF assms] by (fastforce simp: new_seat_def)
  then show "filter (\<lambda>r. inv_eventId r = e) xs = xs"
    by (simp add: filter_id_conv)
  show "map (\<lambda>r. (inv_seatId r, inv_sectionName r, inv_price r, inv_status r)) xs =
      map (\<lambda>s. (es_seatId s, es_sectionName s, to_numeric E (es_price s), AVAILABLE)) seats"
    by (rule created_map [OF assms]) (simp add: new_seat_def)
qed

text \<open>
  C33.  The inventory of an event is created once.  A first \<^verbatim>\<open>createFromEvent\<close> that returns adds one
  \<open>AVAILABLE\<close> row per seat of the message, in order, and keeps every other row and the table
  well-formed; any later message for the same event, whatever its outcome, changes nothing.
\<close>

theorem createFromEvent_once:
  assumes "seat_world E vw" "seat_wf (vw w)"
    and "createFromEvent E m w = (Inr (), w1)" "ecm_seats m \<noteq> []"
    and "ecm_eventId m' = ecm_eventId m" "createFromEvent E m' w1 = (r, w2)"
  shows "vw w2 = vw w1 \<and> seat_wf (vw w1) \<and>
    (if event_rows (vw w) (ecm_eventId m) = []
     then map (\<lambda>r. (inv_seatId r, inv_sectionName r, inv_price r, inv_status r))
            (event_rows (vw w1) (ecm_eventId m)) =
          map (\<lambda>s. (es_seatId s, es_sectionName s, to_numeric E (es_price s), AVAILABLE)) (ecm_seats m) \<and>
          (\<forall>e'. e' \<noteq> ecm_eventId m \<longrightarrow> event_rows (vw w1) e' = event_rows (vw w) e')
     else vw w1 = vw w)"
proof -
  let ?e = "ecm_eventId m"
  note law = seat_world.createFromEvent_law [OF assms(1)]
  have again: "vw w2 = vw w1" if "event_rows (vw w1) ?e \<noteq> []"
    using obeysD [OF law assms(6)] that assms(5) by (auto simp: fallible_def split: sum.splits)
  show ?thesis
  proof (cases "event_rows (vw w) ?e = []")
    case False
    then have "vw w1 = vw w" using obeysD [OF law assms(3)] by simp
    then show ?thesis using again assms(2) False by simp
  next
    case True
    then obtain xs where xs: "created inv_id (inv_id ` set (inventory (vw w))) (clock (vw w))
          (map (new_seat E ?e) (ecm_seats m)) xs"
        "vw w1 = inventory_update (\<lambda>t. t @ xs) (vw w)" "unique_seats (inventory (vw w) @ xs)"
      using obeysD [OF law assms(3)] by auto
    have rows: "event_rows (vw w1) ?e = xs"
      using True xs(2) created_rows(1) [OF xs(1)] by (simp add: event_rows_def)
    have "length xs = length (ecm_seats m)" using created_length [OF xs(1)] by simp
    then have "xs \<noteq> []" using assms(4) by auto
    moreover have "seat_wf (vw w1)"
      using assms(2) xs(2,3) created_distinct [OF xs(1)] created_fresh [OF xs(1)]
      by (auto simp: seat_wf_def)
    moreover have "event_rows (vw w1) e' = event_rows (vw w) e'" if "e' \<noteq> ?e" for e'
      using that xs(2) created_rows(1) [OF xs(1)]
      by (auto simp: event_rows_def filter_empty_conv filter_id_conv)
    ultimately show ?thesis
      using again rows True created_rows(2) [OF xs(1)] by simp
  qed
qed

definition demo_message :: EventCreateMessage where
  "demo_message = \<lparr>ecm_eventId = ''e2'', ecm_venueId = None, ecm_venueName = None, ecm_title = None,
     ecm_startsAt = None, ecm_seats = [\<lparr>es_seatId = ''B1'', es_sectionId = ''s'', es_sectionName = ''Box'',
       es_ticketTypeId = ''t'', es_ticketTypeName = ''VIP'', es_price = Fin 10, es_currency = ''TRY'',
       es_row = ''B'', es_number = ''1'', es_type = ''vip''\<rparr>]\<rparr>"

lemma demo_seat_wf: "seat_wf (seat_view demo_seats)"
  by (simp add: seat_wf_def demo_unique) (simp add: seat_view_def demo_seats_def demo_seat_def)

theorem createFromEvent_once_witness:
  "\<exists>w1 w2 r. createFromEvent mem_seat_env demo_message demo_seats = (Inr (), w1) \<and>
     createFromEvent mem_seat_env demo_message w1 = (r, w2) \<and> seat_view w2 = seat_view w1"
proof -
  have "returns (createFromEvent mem_seat_env demo_message) demo_seats"
    by code_simp
  then obtain w1 where run: "createFromEvent mem_seat_env demo_message demo_seats = (Inr (), w1)"
    by (rule returnsE) simp
  obtain r w2 where again: "createFromEvent mem_seat_env demo_message w1 = (r, w2)"
    by fastforce
  show ?thesis
    using createFromEvent_once [OF mem_seats.seat_world_axioms demo_seat_wf run _ refl again] run again
    by (auto simp: demo_message_def)
qed

end
