(* ===== verification/Hold_Service.thy ===== *)
theory Hold_Service
  imports Inventory_Service
begin

text \<open>
  \<^verbatim>\<open>HoldService\<close> (hold/hold.service.ts): holding, releasing and selling seats.  Each operation
  combines a database transaction on the rows, the Redis locks and the read model.  The class is
  constructed with the lock service, the inventory service and the read service; the model takes
  them as the arguments \<open>L\<close>, \<open>Iv\<close> and \<open>R\<close>.
\<close>

section \<open>Operations\<close>

definition HOLD_DURATION_MS :: int where
  "HOLD_DURATION_MS = 10 * 60 * 1000"

record HoldResult =
  holdIds :: "string list"
  expiresAt :: int

definition new_hold ::
  "string \<Rightarrow> string \<Rightarrow> string \<Rightarrow> int \<Rightarrow> string \<times> string \<Rightarrow> string \<Rightarrow> int \<Rightarrow> SeatHold" where
  "new_hold eventId userId sessionId expires = (\<lambda>(seatInventoryId, seatId) id now.
     \<lparr>hold_id = id, hold_seatInventoryId = seatInventoryId, hold_eventId = eventId, hold_seatId = seatId,
      hold_userId = userId, hold_sessionId = sessionId, hold_heldAt = now, hold_expiresAt = expires,
      hold_releasedAt = None, hold_releaseReason = None\<rparr>)"

text \<open>The loaded row of every requested seat; a seat without a row throws.\<close>

primrec match_seats :: "SeatInventory list \<Rightarrow> string list \<Rightarrow> ('w, (string \<times> string) list) act" where
  "match_seats inventories [] = return []"
| "match_seats inventories (seatId # seatIds) =
     (case List.find (\<lambda>inv. inv_seatId inv = seatId) inventories of
        None \<Rightarrow> throw (BadRequest (''Seat '' @ seatId @ '' not found in inventory''))
      | Some found \<Rightarrow>
          await (match_seats inventories seatIds) (\<lambda>rest. return ((inv_id found, seatId) # rest)))"

definition hold_body ::
  "'w seat_env \<Rightarrow> 'w InventoryService \<Rightarrow> 'w AvailabilityReadService \<Rightarrow>
   string \<Rightarrow> string list \<Rightarrow> string \<Rightarrow> string \<Rightarrow> ('w, HoldResult) act" where
  "hold_body E Iv R eventId seatIds userId sessionId =
     await (ivs_findBySeatIds Iv eventId seatIds) (\<lambda>inventories.
     let unavailable = filter (\<lambda>inv. inv_status inv \<noteq> AVAILABLE) inventories in
     if length unavailable > 0
     then throw (BadRequest (''Seats not available: '' @ join '', '' (map inv_seatId unavailable)))
     else
     await (manager_save (inventoryManager E) (map (\<lambda>inv. inv\<lparr>inv_status := HELD\<rparr>) inventories)) (\<lambda>_.
     await (seatNow E) (\<lambda>now.
     let expires = now + HOLD_DURATION_MS in
     await (match_seats inventories seatIds) (\<lambda>matched.
     await (manager_insert (holdManager E) (map (new_hold eventId userId sessionId expires) matched)) (\<lambda>savedHolds.
     await (qr_commitTransaction (seatRunner E)) (\<lambda>_.
     await (ars_updateMultipleSeatsStatus R eventId (with_status HELD seatIds)) (\<lambda>_.
     return \<lparr>holdIds = map hold_id savedHolds, expiresAt = expires\<rparr>)))))))"

definition holdSeats ::
  "'w seat_env \<Rightarrow> 'w SeatLockService \<Rightarrow> 'w InventoryService \<Rightarrow> 'w AvailabilityReadService \<Rightarrow>
   string \<Rightarrow> string list \<Rightarrow> string \<Rightarrow> string \<Rightarrow> ('w, HoldResult) act" where
  "holdSeats E L Iv R eventId seatIds userId sessionId =
     await (sls_lockSeats L eventId seatIds userId sessionId) (\<lambda>lockResult.
     if \<not> lock_success lockResult
     then throw (BadRequest (''Seats already held: '' @ join '', '' (failedSeatIds lockResult)))
     else
     await (qr_connect (seatRunner E)) (\<lambda>_.
     await (qr_startTransaction (seatRunner E)) (\<lambda>_.
     try_finally
       (try_catch (hold_body E Iv R eventId seatIds userId sessionId)
          (\<lambda>error.
             await (qr_rollbackTransaction (seatRunner E)) (\<lambda>_.
             await (sls_releaseSeats L eventId seatIds userId) (\<lambda>_.
             throw error))))
       (qr_release (seatRunner E)))))"

text \<open>The loop that stamps the loaded holds, as \<^verbatim>\<open>releaseSeats\<close> and \<^verbatim>\<open>markAsSold\<close> have it.\<close>

definition stamp_holds ::
  "string list \<Rightarrow> SeatLockReleaseReason \<Rightarrow> int \<Rightarrow> SeatHold list \<Rightarrow> SeatHold list" where
  "stamp_holds seatIds reason now holds = map (\<lambda>hold.
     if hold_seatId hold \<in> set seatIds
     then hold\<lparr>hold_releasedAt := Some now, hold_releaseReason := Some reason\<rparr> else hold) holds"

definition open_hold :: "string \<Rightarrow> string \<Rightarrow> SeatHold \<Rightarrow> bool" where
  "open_hold eventId userId h \<longleftrightarrow>
     hold_eventId h = eventId \<and> hold_userId h = userId \<and> hold_releasedAt h = None"

definition release_body ::
  "'w seat_env \<Rightarrow> 'w SeatLockService \<Rightarrow> 'w InventoryService \<Rightarrow> 'w AvailabilityReadService \<Rightarrow>
   string \<Rightarrow> string list \<Rightarrow> string \<Rightarrow> SeatLockReleaseReason \<Rightarrow> ('w, unit) act" where
  "release_body E L Iv R eventId seatIds userId reason =
     await (repo_find (holdRepo E) (open_hold eventId userId)) (\<lambda>holds.
     await (seatNow E) (\<lambda>now.
     await (manager_save (holdManager E) (stamp_holds seatIds reason now holds)) (\<lambda>_.
     await (ivs_findBySeatIds Iv eventId seatIds) (\<lambda>inventories.
     await (manager_save (inventoryManager E) (map (\<lambda>inv. inv\<lparr>inv_status := AVAILABLE\<rparr>) inventories)) (\<lambda>_.
     await (qr_commitTransaction (seatRunner E)) (\<lambda>_.
     await (sls_releaseSeats L eventId seatIds userId) (\<lambda>_.
     ars_updateMultipleSeatsStatus R eventId (with_status AVAILABLE seatIds))))))))"

definition hold_releaseSeats ::
  "'w seat_env \<Rightarrow> 'w SeatLockService \<Rightarrow> 'w InventoryService \<Rightarrow> 'w AvailabilityReadService \<Rightarrow>
   string \<Rightarrow> string list \<Rightarrow> string \<Rightarrow> SeatLockReleaseReason \<Rightarrow> ('w, unit) act" where
  "hold_releaseSeats E L Iv R eventId seatIds userId reason =
     await (qr_connect (seatRunner E)) (\<lambda>_.
     await (qr_startTransaction (seatRunner E)) (\<lambda>_.
     try_finally
       (try_catch (release_body E L Iv R eventId seatIds userId reason)
          (\<lambda>error. await (qr_rollbackTransaction (seatRunner E)) (\<lambda>_. throw error)))
       (qr_release (seatRunner E))))"

definition hold_getLockInfo :: "'w SeatLockService \<Rightarrow> string \<Rightarrow> string \<Rightarrow> ('w, json option) act" where
  "hold_getLockInfo L eventId seatId = sls_getLockInfo L eventId seatId"

definition sold_body ::
  "'w seat_env \<Rightarrow> 'w SeatLockService \<Rightarrow> 'w InventoryService \<Rightarrow> 'w AvailabilityReadService \<Rightarrow>
   string \<Rightarrow> string list \<Rightarrow> string \<Rightarrow> ('w, unit) act" where
  "sold_body E L Iv R eventId seatIds userId =
     await (ivs_findBySeatIds Iv eventId seatIds) (\<lambda>inventories.
     await (manager_save (inventoryManager E) (map (\<lambda>inv. inv\<lparr>inv_status := SOLD\<rparr>) inventories)) (\<lambda>_.
     await (repo_find (holdRepo E) (open_hold eventId userId)) (\<lambda>holds.
     await (seatNow E) (\<lambda>now.
     await (manager_save (holdManager E) (stamp_holds seatIds PAYMENT_SUCCESS now holds)) (\<lambda>_.
     await (qr_commitTransaction (seatRunner E)) (\<lambda>_.
     await (sls_releaseSeats L eventId seatIds userId) (\<lambda>_.
     ars_updateMultipleSeatsStatus R eventId (with_status SOLD seatIds))))))))"

definition markAsSold ::
  "'w seat_env \<Rightarrow> 'w SeatLockService \<Rightarrow> 'w InventoryService \<Rightarrow> 'w AvailabilityReadService \<Rightarrow>
   string \<Rightarrow> string list \<Rightarrow> string \<Rightarrow> ('w, unit) act" where
  "markAsSold E L Iv R eventId seatIds userId =
     await (qr_connect (seatRunner E)) (\<lambda>_.
     await (qr_startTransaction (seatRunner E)) (\<lambda>_.
     try_finally
       (try_catch (sold_body E L Iv R eventId seatIds userId)
          (\<lambda>error. await (qr_rollbackTransaction (seatRunner E)) (\<lambda>_. throw error)))
       (qr_release (seatRunner E))))"

record 'w HoldService =
  hs_holdSeats :: "string \<Rightarrow> string list \<Rightarrow> string \<Rightarrow> string \<Rightarrow> ('w, HoldResult) act"
  hs_releaseSeats :: "string \<Rightarrow> string list \<Rightarrow> string \<Rightarrow> SeatLockReleaseReason \<Rightarrow> ('w, unit) act"
  hs_getLockInfo :: "string \<Rightarrow> string \<Rightarrow> ('w, json option) act"
  hs_markAsSold :: "string \<Rightarrow> string list \<Rightarrow> string \<Rightarrow> ('w, unit) act"

definition holdService :: "'w seat_env \<Rightarrow> 'w HoldService" where
  "holdService E = (let L = seatLockService E; R = availabilityReadService E; Iv = inventoryService E R in
     \<lparr>hs_holdSeats = holdSeats E L Iv R, hs_releaseSeats = hold_releaseSeats E L Iv R,
      hs_getLockInfo = hold_getLockInfo L, hs_markAsSold = markAsSold E L Iv R\<rparr>)"

section \<open>What holding does\<close>

text \<open>The seats can be held: no duplicates, no live lock, and a row for each, available.\<close>

definition holdable :: "'z seat_store_scheme \<Rightarrow> string \<Rightarrow> string list \<Rightarrow> bool" where
  "holdable v eventId seatIds \<longleftrightarrow> all_free v eventId seatIds \<and>
     (\<forall>s\<in>set seatIds. \<exists>r. seat_row v eventId s = Some r \<and> inv_status r = AVAILABLE)"

text \<open>The rows a hold adds.\<close>

definition holds_for ::
  "string \<Rightarrow> string list \<Rightarrow> string \<Rightarrow> string \<Rightarrow> 'z seat_store_scheme \<Rightarrow> SeatHold list \<Rightarrow> bool" where
  "holds_for eventId seatIds userId sessionId v hs \<longleftrightarrow>
     created hold_id (hold_id ` set (seat_holds v)) (clock v)
       (map (\<lambda>s. new_hold eventId userId sessionId (clock v + HOLD_DURATION_MS)
               (inv_id (the (seat_row v eventId s)), s)) seatIds) hs"

definition held_state ::
  "string \<Rightarrow> string list \<Rightarrow> string \<Rightarrow> string \<Rightarrow> SeatHold list \<Rightarrow> 'z seat_store_scheme \<Rightarrow> 'z seat_store_scheme" where
  "held_state eventId seatIds userId sessionId hs v = (settled v)\<lparr>
     inventory := mark eventId seatIds HELD (inventory v),
     seat_holds := seat_holds v @ hs,
     kv := with_locks eventId (set seatIds) (my_lock userId sessionId (clock v)) (kv v)\<rparr>"

text \<open>
  The contract of \<^verbatim>\<open>holdSeats\<close>.  It returns only when the seats could be held, and then the rows,
  the holds, the locks and the read model say so.  It refuses with \<open>BadRequest\<close> only when they
  could not, and then nothing has changed.  When an external system fails (or a lock key holds a
  value that is not a lock), the tables are either
  untouched, with at most locks of the caller left behind, or hold the complete hold.
\<close>

definition holdSeats_spec ::
  "string \<Rightarrow> string list \<Rightarrow> string \<Rightarrow> string \<Rightarrow>
   'z seat_store_scheme \<Rightarrow> exn + HoldResult \<Rightarrow> 'z seat_store_scheme \<Rightarrow> bool" where
  "holdSeats_spec eventId seatIds userId sessionId v r v' =
     (case r of
        Inr res \<Rightarrow> holdable v eventId seatIds \<and>
          (\<exists>hs. holds_for eventId seatIds userId sessionId v hs \<and>
             res = \<lparr>holdIds = map hold_id hs, expiresAt = clock v + HOLD_DURATION_MS\<rparr> \<and>
             v' = set_status eventId seatIds HELD (held_state eventId seatIds userId sessionId hs v))
      | Inl (BadRequest m) \<Rightarrow> \<not> holdable v eventId seatIds \<and> same_locks (settled v) (settled v')
      | Inl (JsError m) \<Rightarrow> \<not> (calm v \<and> locks_are_json v) \<and>
          (partial_locks eventId seatIds userId sessionId (settled v) (settled v') \<or>
           holdable v eventId seatIds \<and>
             (\<exists>hs. holds_for eventId seatIds userId sessionId v hs \<and>
                (v' = held_state eventId seatIds userId sessionId hs v \<or>
                 v' = set_status eventId seatIds HELD (held_state eventId seatIds userId sessionId hs v))))
      | _ \<Rightarrow> False)"

section \<open>Holding\<close>

lemma find_loaded:
  assumes "unique_seats (inventory v)" "mset xs = filter_mset (in_seats e ss) (mset (inventory v))" "s \<in> set ss"
  shows "List.find (\<lambda>r. inv_seatId r = s) xs = seat_row v e s"
proof -
  have xs: "set xs = {r \<in> set (inventory v). in_seats e ss r}"
    using assms(2) by (metis mset_filter mset_eq_setD set_filter)
  show ?thesis
  proof (cases "seat_row v e s")
    case None
    then have "\<forall>r\<in>set xs. inv_seatId r \<noteq> s"
      using xs by (auto simp: seat_row_def find_None_iff in_seats_def)
    then have "List.find (\<lambda>r. inv_seatId r = s) xs = None"
      by (simp add: find_None_iff)
    then show ?thesis using None by simp
  next
    case (Some r)
    then have r: "r \<in> set (inventory v)" "inv_eventId r = e" "inv_seatId r = s"
      by (auto simp: seat_row_def find_Some_iff)
    have "List.find (\<lambda>r. inv_seatId r = s) xs = Some r"
      by (rule find_unique)
        (use r xs assms in \<open>auto simp: in_seats_def unique_seats_def distinct_map inj_on_def seat_key_def\<close>)
    then show ?thesis using Some by simp
  qed
qed

lemma wp_match_seats:
  assumes "\<forall>s\<in>set ss. List.find (\<lambda>r. inv_seatId r = s) xs = f s"
    and "\<forall>s\<in>set ss. f s \<noteq> None \<Longrightarrow> Q (Inr (map (\<lambda>s. (inv_id (the (f s)), s)) ss)) w"
    and "\<And>m s. s \<in> set ss \<Longrightarrow> f s = None \<Longrightarrow> Q (Inl (BadRequest m)) w"
  shows "wp (match_seats xs ss) Q w"
  using assms
proof (induction ss arbitrary: Q)
  case Nil
  then show ?case by (simp add: wp_simps)
next
  case (Cons s ss)
  show ?case
  proof (cases "f s")
    case None
    then show ?thesis using Cons.prems by (auto simp: wp_simps)
  next
    case (Some r)
    have tail: "wp (match_seats xs ss) (\<lambda>r' w'. case r' of Inl e \<Rightarrow> Q (Inl e) w'
        | Inr rest \<Rightarrow> Q (Inr ((inv_id r, s) # rest)) w') w"
    proof (rule Cons.IH)
      show "\<forall>s\<in>set ss. List.find (\<lambda>r. inv_seatId r = s) xs = f s"
        using Cons.prems(1) by simp
      show "case Inr (map (\<lambda>s. (inv_id (the (f s)), s)) ss) of Inl e \<Rightarrow> Q (Inl e) w
          | Inr rest \<Rightarrow> Q (Inr ((inv_id r, s) # rest)) w" if "\<forall>s\<in>set ss. f s \<noteq> None"
        using Cons.prems(2) Some that by simp
      show "case Inl (BadRequest m) of Inl e \<Rightarrow> Q (Inl e) w
          | Inr rest \<Rightarrow> Q (Inr ((inv_id r, s) # rest)) w" if "t \<in> set ss" "f t = None" for m t
        using Cons.prems(3) [of t m] that by simp
    qed
    have step: "match_seats xs (s # ss) =
        await (match_seats xs ss) (\<lambda>rest. return ((inv_id r, s) # rest))"
      using Cons.prems(1) Some by simp
    show ?thesis
      unfolding step wp_await wp_return by (rule tail)
  qed
qed

lemma new_hold_keeps_ids: "keeps_ids hold_id (map (new_hold e u sid t) xs)"
  by (auto simp: keeps_ids_def new_hold_def)

lemma mset_all_iff: "mset xs = filter_mset P (mset t) \<Longrightarrow> set xs = {r \<in> set t. P r}"
  by (metis mset_filter mset_eq_setD set_filter)

text \<open>The rows loaded for the request are all available and complete exactly when every seat is.\<close>

lemma loaded_available:
  assumes "unique_seats (inventory v)" "mset xs = filter_mset (in_seats e ss) (mset (inventory v))"
  shows "filter (\<lambda>r. inv_status r \<noteq> AVAILABLE) xs = [] \<longleftrightarrow>
    (\<forall>s\<in>set ss. \<forall>r. seat_row v e s = Some r \<longrightarrow> inv_status r = AVAILABLE)"
proof -
  have row: "seat_row v e (inv_seatId r) = Some r" if "r \<in> set (inventory v)" "inv_eventId r = e" for r
    using seat_row_mem [OF assms(1), of r e] that by (simp add: event_rows_def)
  have "seat_row v e s = Some r \<Longrightarrow> r \<in> set (inventory v) \<and> inv_eventId r = e \<and> inv_seatId r = s" for s r
    by (auto simp: seat_row_def find_Some_iff)
  then show ?thesis
    using mset_all_iff [OF assms(2)] row by (fastforce simp: filter_empty_conv in_seats_def)
qed

lemma settled_simps [simp]:
  "inventory (settled v) = inventory v" "seat_holds (settled v) = seat_holds v" "kv (settled v) = kv v"
  "hash (settled v) = hash v" "clock (settled v) = clock v" "calm (settled v) = calm v" "settled (settled v) = settled v"
  "settled (kv_update f v) = kv_update f (settled v)"
  "settled (seat_begin v) = settled v" "settled (seat_discard v) = settled v"
  "settled (tx_inventory_update g v) = settled v" "settled (tx_holds_update h v) = settled v"
  "seat_discard v = settled v"
  by (simp_all add: settled_def seat_begin_def seat_discard_def)

lemma seat_begin_simps [simp]:
  "inventory (seat_begin v) = inventory v" "seat_holds (seat_begin v) = seat_holds v"
  "kv (seat_begin v) = kv v" "hash (seat_begin v) = hash v" "clock (seat_begin v) = clock v" "calm (seat_begin v) = calm v"
  "seat_tx (seat_begin v)" "tx_inventory (seat_begin v) = []" "tx_holds (seat_begin v) = []"
  by (simp_all add: seat_begin_def)

lemma seat_store_calm_kv: "calm (v\<lparr>kv := m\<rparr>) = calm v"
  by simp

lemma settled_kv:
  assumes "v' = v\<lparr>kv := m\<rparr>"
  shows "settled v' = (settled v)\<lparr>kv := m\<rparr>"
  unfolding assms by simp

lemma partial_locks_settled:
  "partial_locks e ss u sid v v' \<Longrightarrow> partial_locks e ss u sid (settled v) (settled v')"
  using settled_kv [where v' = v' and v = v and m = "kv v'"] by (simp add: partial_locks_def)

lemma same_locks_settled: "same_locks v v' \<Longrightarrow> same_locks (settled v) (settled v')"
  using settled_kv [where v' = v' and v = v and m = "kv v'"] by (simp add: same_locks_def)

lemma publish_hold:
  assumes "distinct (map inv_id (inventory v))" "mset xs = filter_mset (in_seats e ss) (mset (inventory v))"
    and "created hold_id (hold_id ` set (seat_holds v)) (clock v) mks hs"
    and "v1 = seat_begin v"
  shows "seat_publish (tx_holds_update (\<lambda>p. p @ hs)
      (tx_inventory_update (\<lambda>p. p @ map (inv_status_update (\<lambda>_. st)) xs) v1)) =
    (settled v)\<lparr>inventory := mark e ss st (inventory v), seat_holds := seat_holds v @ hs\<rparr>"
proof -
  have "upserts hold_id hs (seat_holds v) = seat_holds v @ hs"
    using created_distinct [OF assms(3)] created_fresh [OF assms(3)] by (intro upserts_fresh)
  then show ?thesis
    using mark_saves [OF assms(1,2)] assms(4) by (simp add: seat_publish_def settled_def seat_begin_def)
qed

lemma locks_json_with:
  "locks_are_json v \<Longrightarrow> locks_are_json (v\<lparr>kv := with_locks e S (my_lock u sid (clock v)) (kv v)\<rparr>)"
  by (auto simp: locks_are_json_def with_locks_def my_lock_def lock_value_def)

lemma locks_json_without:
  "locks_are_json v \<Longrightarrow> locks_are_json (v\<lparr>kv := without_locks e D (kv v)\<rparr>)"
  by (auto simp: locks_are_json_def without_locks_def)

definition rows_ok :: "'z seat_store_scheme \<Rightarrow> string \<Rightarrow> string list \<Rightarrow> bool" where
  "rows_ok v eventId seatIds \<longleftrightarrow> (\<forall>s\<in>set seatIds. \<exists>r. seat_row v eventId s = Some r \<and> inv_status r = AVAILABLE)"

definition held_rows ::
  "string \<Rightarrow> string list \<Rightarrow> SeatHold list \<Rightarrow> 'z seat_store_scheme \<Rightarrow> 'z seat_store_scheme" where
  "held_rows eventId seatIds hs v = (settled v)\<lparr>inventory := mark eventId seatIds HELD (inventory v),
     seat_holds := seat_holds v @ hs\<rparr>"

text \<open>The outcome of the guarded block of \<^verbatim>\<open>holdSeats\<close>, started in a fresh transaction on \<open>v\<close>.\<close>

definition hold_body_spec ::
  "string \<Rightarrow> string list \<Rightarrow> string \<Rightarrow> string \<Rightarrow>
   'z seat_store_scheme \<Rightarrow> exn + HoldResult \<Rightarrow> 'z seat_store_scheme \<Rightarrow> bool" where
  "hold_body_spec e ss u sid v r v' = (case r of
      Inr res \<Rightarrow> rows_ok v e ss \<and> (\<exists>hs. holds_for e ss u sid v hs \<and>
        res = \<lparr>holdIds = map hold_id hs, expiresAt = clock v + HOLD_DURATION_MS\<rparr> \<and>
        v' = set_status e ss HELD (held_rows e ss hs v))
    | Inl (BadRequest m) \<Rightarrow> \<not> rows_ok v e ss \<and> seat_tx v' \<and> settled v' = settled v
    | Inl (JsError m) \<Rightarrow> \<not> calm v \<and> (seat_tx v' \<and> settled v' = settled v \<or>
        rows_ok v e ss \<and> (\<exists>hs. holds_for e ss u sid v hs \<and> v' = held_rows e ss hs v))
    | _ \<Rightarrow> False)"

text \<open>
  What is left to prove when the guarded block is done: the contract holds, also for the error
  of a release that fails.
\<close>

definition hold_done ::
  "string \<Rightarrow> string list \<Rightarrow> string \<Rightarrow> string \<Rightarrow> 'z seat_store_scheme \<Rightarrow> exn + HoldResult \<Rightarrow> 'z seat_store_scheme \<Rightarrow> bool" where
  "hold_done e ss u sid v r v' \<longleftrightarrow> holdSeats_spec e ss u sid v r v' \<and> calm v' = calm v \<and>
     (\<not> calm v \<longrightarrow> (\<forall>m. holdSeats_spec e ss u sid v (Inl (JsError m)) v'))"

locale hold_client =
  seat_world E vw + seat_lock_api L vw + inventory_api Iv vw + availability_api R vw
  for E :: "'w seat_env" and vw :: "'w \<Rightarrow> 'z seat_store_scheme"
    and L :: "'w SeatLockService" and Iv :: "'w InventoryService" and R :: "'w AvailabilityReadService"
begin

lemma hold_body_wp:
  assumes wf: "seat_wf v" and w: "vw w = seat_begin v"
  shows "wp (hold_body E Iv R e ss u sid) (\<lambda>r w'. hold_body_spec e ss u sid v r (vw w')) w"
proof -
  define Q where "Q = (\<lambda>r w'. hold_body_spec e ss u sid v r (vw w'))"
  have uniq: "unique_seats (inventory v)" and ids: "distinct (map inv_id (inventory v))"
    using wf by (simp_all add: seat_wf_def)
  have fail: "Q (Inl (JsError m)) w'" if "vw w' = v'" "seat_tx v'" "settled v' = settled v" "\<not> calm v" for m w' v'
    using that by (simp add: Q_def hold_body_spec_def)
  have refuse: "Q (Inl (BadRequest m)) w'"
    if "vw w' = v'" "seat_tx v'" "settled v' = settled v" "\<not> rows_ok v e ss" for m w' v'
    using that by (simp add: Q_def hold_body_spec_def)
  show ?thesis
    unfolding Q_def [symmetric] hold_body_def Let_def wp_simps
  proof (rule wp_fallible [OF find_seats_law], goal_cases)
    case (1 m w1)
    then show ?case by (simp add: fail w)
  next
    case (2 xs w1)
    then have w1: "vw w1 = seat_begin v" and xs: "mset xs = filter_mset (in_seats e ss) (mset (inventory v))"
      using w by simp_all
    let ?v1 = "tx_inventory_update (\<lambda>p. p @ map (inv_status_update (\<lambda>_. HELD)) xs) (seat_begin v)"
    have avail: "filter (\<lambda>r. inv_status r \<noteq> AVAILABLE) xs = [] \<and> (\<forall>s\<in>set ss. seat_row v e s \<noteq> None) \<longleftrightarrow>
        rows_ok v e ss"
      using loaded_available [OF uniq xs] by (force simp: rows_ok_def)
    have created: "wp (manager_insert (holdManager E)
          (map (new_hold e u sid (clock v + HOLD_DURATION_MS)) (map (\<lambda>s. (inv_id (the (seat_row v e s)), s)) ss)))
        (\<lambda>r w'. case r of Inl x \<Rightarrow> Q (Inl x) w'
         | Inr hs \<Rightarrow> wp (qr_commitTransaction (seatRunner E)) (\<lambda>r w'. case r of Inl x \<Rightarrow> Q (Inl x) w'
           | Inr _ \<Rightarrow> wp (ars_updateMultipleSeatsStatus R e (with_status HELD ss)) (\<lambda>r w'. case r of Inl x \<Rightarrow> Q (Inl x) w'
             | Inr _ \<Rightarrow> Q (Inr \<lparr>holdIds = map hold_id hs, expiresAt = clock v + HOLD_DURATION_MS\<rparr>) w') w') w') w2"
      if w2: "vw w2 = ?v1" and ok: "rows_ok v e ss" for w2
    proof (rule wp_fallible [OF txhold.minsert_law], goal_cases)
      case (1 m w3)
      then show ?case
        using new_hold_keeps_ids [of e u sid _ "map (\<lambda>s. (inv_id (the (seat_row v e s)), s)) ss"] w2
        by (auto simp: insertable_def intro!: fail)
    next
      case (2 hs w3)
      then have hs: "created hold_id (hold_id ` set (seat_holds v)) (clock v)
          (map (new_hold e u sid (clock v + HOLD_DURATION_MS)) (map (\<lambda>s. (inv_id (the (seat_row v e s)), s)) ss)) hs"
        and w3: "vw w3 = tx_holds_update (\<lambda>p. p @ hs) ?v1"
        using w2 by simp_all
      have hf: "holds_for e ss u sid v hs"
        using hs by (simp add: holds_for_def comp_def)
      have pub: "seat_publish (vw w3) = held_rows e ss hs v"
        using publish_hold [OF ids xs hs refl] by (simp add: w3 held_rows_def)
      have good: "Q (Inr \<lparr>holdIds = map hold_id hs, expiresAt = clock v + HOLD_DURATION_MS\<rparr>) w'"
        if "vw w' = set_status e ss HELD (held_rows e ss hs v)" for w'
        using that hf ok by (auto simp: Q_def hold_body_spec_def)
      have calm: "calm (vw w3) = calm v" "seat_tx (vw w3)" "calm (held_rows e ss hs v) = calm v"
        by (simp_all add: w3 held_rows_def)
      have stop: "Q (Inl (JsError m)) w'"
        if "vw w' = vw w3 \<or> vw w' = held_rows e ss hs v" "\<not> calm v" for m w'
        using that(1)
      proof
        assume "vw w' = vw w3"
        then show ?thesis using w3 that(2) by (simp add: fail)
      next
        assume "vw w' = held_rows e ss hs v"
        then show ?thesis using hf ok that(2) by (auto simp: Q_def hold_body_spec_def)
      qed
      show ?case
        unfolding sum.case
        by (auto intro!: wp_fallible [OF tx.commit_law] wp_fallible [OF update_status_law] good stop
            simp: pub calm)
    qed
    show ?case
    proof (cases "filter (\<lambda>r. inv_status r \<noteq> AVAILABLE) xs = []")
      case False
      then show ?thesis
        using w1 avail by (simp add: wp_simps refuse)
    next
      case True
      show ?thesis
        using True unfolding sum.case
        apply (simp only: list.size less_irrefl if_False wp_await)
        apply (rule wp_fallible [OF txinv.msave_law])
         apply (simp add: fail w1)
        apply (simp only: sum.case wp_await)
        apply (rule wp_obeys [OF now_law])
        apply (simp add: wp_await w1)
        apply (rule wp_match_seats [of ss xs "seat_row v e"])
          apply (simp add: find_loaded [OF uniq xs])
         apply (unfold wp_simps sum.case)
         apply (rule created)
          apply (simp add: w1)
        using avail True apply blast
        using avail apply (auto intro!: refuse)
        done
    qed
  qed
qed

lemma unlock_wp:
  assumes "vw w = settled v1" "v1 = v\<lparr>kv := with_locks e (set ss) (my_lock u sid (clock v)) (kv v)\<rparr>"
    and "all_free v e ss" "locks_are_strings v"
  shows "wp (sls_releaseSeats L e ss u) (\<lambda>r w'.
     partial_locks e ss u sid (settled v) (settled (vw w')) \<and>
     (case r of Inl x \<Rightarrow> \<not> (calm v \<and> locks_are_json v) \<and> (\<exists>m. x = JsError m)
      | Inr _ \<Rightarrow> same_locks (settled v) (settled (vw w')))) w"
proof -
  have "lock_owner (settled v1) e s = Some u" if "s \<in> set ss" for s
    using with_locks_owner [where v = v and e = e and S = "set ss" and s = s and u = u and sid = sid] that assms(2)
    by (simp add: lock_owner_def lock_of_def)
  then have own: "owned_seats (settled v1) e ss u = set ss"
    by (auto simp: owned_seats_def)
  have free: "live (clock v) (kv v (lock_key e s)) = None" if "s \<in> set ss" for s
    using assms(3) that by (simp add: all_free_def seat_free_def)
  have part: "partial_locks e ss u sid (settled v) ((settled v1)\<lparr>kv := without_locks e D (kv v1)\<rparr>)"
    if "D \<subseteq> set ss" for D
    using that free by (auto simp: partial_locks_def assms(2) without_locks_def with_locks_def)
  have same: "same_locks (settled v) ((settled v1)\<lparr>kv := without_locks e (set ss) (kv v1)\<rparr>)"
    using free by (auto simp: same_locks_def kv_equiv_def assms(2) without_locks_def with_locks_def)
  have str: "locks_are_strings (settled v1)"
    using assms(2,4) by (simp add: locks_are_strings_def)
  have json: "calm v \<and> locks_are_json v \<Longrightarrow> calm (settled v1) \<and> locks_are_json (settled v1)"
    using locks_json_with [where v = v and e = e and S = "set ss" and u = u and sid = sid] assms(2)
    by (simp add: locks_are_json_def)
  show ?thesis
  proof (rule wp_obeys [OF unlock_law])
    fix r w'
    assume "locks_are_strings (vw w) \<longrightarrow> lock_releaseSeats_spec e ss u (vw w) r (vw w')"
    then have spec: "lock_releaseSeats_spec e ss u (settled v1) r (vw w')"
      using str assms(1) by simp
    show "partial_locks e ss u sid (settled v) (settled (vw w')) \<and>
        (case r of Inl x \<Rightarrow> \<not> (calm v \<and> locks_are_json v) \<and> (\<exists>m. x = JsError m)
         | Inr _ \<Rightarrow> same_locks (settled v) (settled (vw w')))"
      using spec part same json by (auto simp: lock_releaseSeats_spec_def own split: sum.splits)
  qed
qed

lemma hold_done_partial:
  assumes "partial_locks e ss u sid (settled v) (settled (vw w'))" "\<not> (calm v \<and> locks_are_json v)"
  shows "hold_done e ss u sid v (Inl (JsError m)) (vw w')"
proof -
  have "calm (settled (vw w')) = calm (settled v)"
    using assms(1) by (metis partial_locks_def seat_store_calm_kv)
  then show ?thesis
    using assms by (simp add: hold_done_def holdSeats_spec_def)
qed

lemma hold_done_full:
  assumes "holdable v e ss" "holds_for e ss u sid v hs"
    and "vw w' = held_state e ss u sid hs v \<and> r = Inl (JsError m) \<and> \<not> calm v \<or>
      vw w' = set_status e ss HELD (held_state e ss u sid hs v) \<and>
      r = Inr \<lparr>holdIds = map hold_id hs, expiresAt = clock v + HOLD_DURATION_MS\<rparr>"
  shows "hold_done e ss u sid v r (vw w')"
  using assms by (auto simp: hold_done_def holdSeats_spec_def held_state_def)

lemma hold_undo:
  assumes v1: "v1 = v\<lparr>kv := with_locks e (set ss) (my_lock u sid (clock v)) (kv v)\<rparr>"
    and free: "all_free v e ss" and str: "locks_are_strings v"
    and open_tx: "seat_tx (vw w)" "settled (vw w) = settled v1"
    and err: "err = JsError m \<and> \<not> calm v \<or> err = BadRequest m \<and> \<not> holdable v e ss"
  shows "wp (await (qr_rollbackTransaction (seatRunner E)) (\<lambda>_. await (sls_releaseSeats L e ss u) (\<lambda>_. throw err)))
    (\<lambda>r w'. hold_done e ss u sid v r (vw w')) w"
  unfolding wp_simps
proof (rule wp_fallible [OF tx.rollback_law], goal_cases)
  case (1 m w3)
  have "partial_locks e ss u sid (settled v) (settled v1)"
    using free by (auto simp: partial_locks_def v1 with_locks_def all_free_def seat_free_def)
  moreover have "calm (vw w) = calm v"
    using arg_cong [OF open_tx(2), of calm] by (simp add: v1)
  ultimately show ?case
    using 1 open_tx by (auto intro!: hold_done_partial)
next
  case (2 a w3)
  then have w3: "vw w3 = settled v1" using open_tx by simp
  have last: "hold_done e ss u sid v (Inl err) (vw w')"
    if "partial_locks e ss u sid (settled v) (settled (vw w'))" "same_locks (settled v) (settled (vw w'))" for w'
  proof (cases "calm v")
    case True
    then have "holdSeats_spec e ss u sid v (Inl err) (vw w')"
      using err that by (auto simp: holdSeats_spec_def)
    moreover have "calm (settled (vw w')) = calm (settled v)"
      using that(1) by (metis partial_locks_def seat_store_calm_kv)
    ultimately show ?thesis using True by (simp add: hold_done_def)
  next
    case False
    then show ?thesis
      using err that hold_done_partial [OF that(1)] by (auto simp: hold_done_def holdSeats_spec_def)
  qed
  show ?case
    unfolding sum.case
    by (rule wp_mono [OF unlock_wp [OF w3 v1 free str]]) (auto split: sum.splits intro: last hold_done_partial)
qed

lemma hold_guarded:
  assumes v1: "v1 = v\<lparr>kv := with_locks e (set ss) (my_lock u sid (clock v)) (kv v)\<rparr>"
    and free: "all_free v e ss" and ok: "seat_wf v" "locks_are_strings v" and w: "vw w = seat_begin v1"
  shows "wp (try_catch (hold_body E Iv R e ss u sid) (\<lambda>error.
      await (qr_rollbackTransaction (seatRunner E)) (\<lambda>_. await (sls_releaseSeats L e ss u) (\<lambda>_. throw error))))
    (\<lambda>r w'. hold_done e ss u sid v r (vw w')) w"
  unfolding wp_try_catch
proof (rule wp_mono [OF hold_body_wp [OF _ w]], goal_cases)
  case 1
  then show ?case using ok by (simp add: v1 seat_wf_def)
next
  case (2 r w2)
  have row: "seat_row v1 e s = seat_row v e s" for s
    by (simp add: seat_row_def v1)
  have able: "rows_ok v1 e ss \<longleftrightarrow> holdable v e ss"
    using free by (simp add: rows_ok_def holdable_def row)
  have hf: "holds_for e ss u sid v1 hs \<longleftrightarrow> holds_for e ss u sid v hs" for hs
    by (simp add: holds_for_def row) (simp add: v1)
  have hr: "held_rows e ss hs v1 = held_state e ss u sid hs v" "clock v1 = clock v" "calm v1 = calm v" for hs
    by (simp_all add: held_rows_def held_state_def v1)
  note spec = 2(2) [unfolded hold_body_spec_def able hf hr]
  show ?case
  proof (cases r)
    case (Inr res)
    then show ?thesis using spec by (auto intro: hold_done_full)
  next
    case (Inl err)
    show ?thesis
    proof (cases "seat_tx (vw w2) \<and> settled (vw w2) = settled v1")
      case True
      have "\<exists>m. err = JsError m \<and> \<not> calm v \<or> err = BadRequest m \<and> \<not> holdable v e ss"
        using spec Inl by (auto split: exn.splits)
      then obtain m where "err = JsError m \<and> \<not> calm v \<or> err = BadRequest m \<and> \<not> holdable v e ss" by blast
      then show ?thesis
        unfolding Inl sum.case using True by (intro hold_undo [OF v1 free ok(2)]) auto
    next
      case False
      then obtain m hs where late: "err = JsError m" "\<not> calm v" "holdable v e ss" "holds_for e ss u sid v hs"
          "vw w2 = held_state e ss u sid hs v"
        using spec Inl by (auto split: exn.splits)
      have "\<not> seat_tx (vw w2)"
        by (simp add: late(5) held_state_def settled_def)
      moreover have "hold_done e ss u sid v (Inl (JsError n)) (vw w2)" for n
        using late by (intro hold_done_full) auto
      ultimately show ?thesis
        unfolding Inl sum.case wp_await by (auto intro!: wp_fallible [OF tx.rollback_law])
    qed
  qed
qed

lemma holdSeats_law:
  "obeys vw (holdSeats E L Iv R e ss u sid)
     (\<lambda>v r v'. seat_wf v \<and> locks_are_strings v \<longrightarrow> holdSeats_spec e ss u sid v r v')"
proof (rule obeys_pre)
  fix w
  assume wf: "seat_wf (vw w) \<and> locks_are_strings (vw w)"
  define v where "v = vw w"
  define v1 where "v1 = v\<lparr>kv := with_locks e (set ss) (my_lock u sid (clock v)) (kv v)\<rparr>"
  have ok: "seat_wf v" "locks_are_strings v" using wf by (simp_all add: v_def)
  have inner: "wp (try_finally (try_catch (hold_body E Iv R e ss u sid) (\<lambda>error.
        await (qr_rollbackTransaction (seatRunner E)) (\<lambda>_. await (sls_releaseSeats L e ss u) (\<lambda>_. throw error))))
      (qr_release (seatRunner E))) (\<lambda>r w'. holdSeats_spec e ss u sid v r (vw w')) w1"
    if free: "all_free v e ss" and w1: "vw w1 = seat_begin v1" for w1
    unfolding wp_try_finally
    by (rule wp_mono [OF hold_guarded [OF v1_def free ok w1]])
      (auto simp: hold_done_def intro!: wp_fallible [OF tx.release_law])
  have leak: "holdSeats_spec e ss u sid v (Inl (JsError m)) v1" if "all_free v e ss" "\<not> calm v" for m
    using that by (auto simp: holdSeats_spec_def partial_locks_def v1_def with_locks_def all_free_def seat_free_def)
  have "wp (holdSeats E L Iv R e ss u sid) (\<lambda>r w'. holdSeats_spec e ss u sid v r (vw w')) w"
    unfolding holdSeats_def wp_await wp_if wp_throw
  proof (rule wp_obeys [OF lock_law], goal_cases)
    case (1 r w1)
    then have spec: "lockSeats_spec e ss u sid v r (vw w1)" using wf by (simp add: v_def)
    show ?case
    proof (cases r)
      case (Inl x)
      then show ?thesis
        using spec by (auto simp: lockSeats_spec_def holdSeats_spec_def intro!: partial_locks_settled)
    next
      case (Inr res)
      show ?thesis
      proof (cases "all_free v e ss")
        case True
        then have res: "lock_success res" "vw w1 = v1" "calm v1 = calm v"
          using spec Inr by (auto simp: lockSeats_spec_def all_free_def v1_def split: if_splits)
        show ?thesis
          unfolding Inr sum.case using res leak [OF True]
          by (auto intro!: wp_fallible [OF tx.connect_law] wp_fallible [OF tx.start_law] inner [OF True]
              simp: wp_await)
      next
        case False
        then have "\<not> lock_success res" "same_locks v (vw w1)"
          using spec Inr by (auto simp: lockSeats_spec_def all_free_def split: if_splits)
        then show ?thesis
          using False Inr by (auto simp: holdSeats_spec_def holdable_def intro!: same_locks_settled)
      qed
    qed
  qed
  then show "wp (holdSeats E L Iv R e ss u sid) (\<lambda>r w'. holdSeats_spec e ss u sid (vw w) r (vw w')) w"
    unfolding v_def .
qed

end

section \<open>Releasing and selling\<close>

text \<open>
  Releasing and selling end a hold: the rows of the seats get a status, the caller's open holds on
  them are stamped, the caller's locks are dropped and the read model follows.
\<close>

definition closed_holds ::
  "string \<Rightarrow> string list \<Rightarrow> string \<Rightarrow> SeatLockReleaseReason \<Rightarrow> int \<Rightarrow> SeatHold list \<Rightarrow> SeatHold list" where
  "closed_holds eventId seatIds userId reason now t = map (\<lambda>h.
     if open_hold eventId userId h \<and> hold_seatId h \<in> set seatIds
     then h\<lparr>hold_releasedAt := Some now, hold_releaseReason := Some reason\<rparr> else h) t"

definition closed_rows ::
  "string \<Rightarrow> string list \<Rightarrow> string \<Rightarrow> SeatLockReleaseReason \<Rightarrow> SeatStatus \<Rightarrow>
   'z seat_store_scheme \<Rightarrow> 'z seat_store_scheme" where
  "closed_rows eventId seatIds userId reason st v = (settled v)\<lparr>
     inventory := mark eventId seatIds st (inventory v),
     seat_holds := closed_holds eventId seatIds userId reason (clock v) (seat_holds v)\<rparr>"

definition unlocked :: "string \<Rightarrow> string set \<Rightarrow> 'z seat_store_scheme \<Rightarrow> 'z seat_store_scheme" where
  "unlocked eventId D v = v\<lparr>kv := without_locks eventId D (kv v)\<rparr>"

text \<open>
  The contract: on return everything has happened; on a failure of an external system the tables
  are untouched, or completely updated with some of the caller's locks gone.
\<close>

definition close_spec ::
  "string \<Rightarrow> string list \<Rightarrow> string \<Rightarrow> SeatLockReleaseReason \<Rightarrow> SeatStatus \<Rightarrow>
   'z seat_store_scheme \<Rightarrow> exn + unit \<Rightarrow> 'z seat_store_scheme \<Rightarrow> bool" where
  "close_spec e ss u reason st v r v' =
     (let rows = closed_rows e ss u reason st v;
          full = set_status e ss st (unlocked e (owned_seats v e ss u) rows) in
      case r of
        Inr _ \<Rightarrow> v' = full
      | Inl x \<Rightarrow> \<not> (calm v \<and> locks_are_json v) \<and> (\<exists>m. x = JsError m) \<and>
          (settled v' = settled v \<or> v' = full \<or> (\<exists>D\<subseteq>owned_seats v e ss u. v' = unlocked e D rows)))"

lemma stamp_saves:
  assumes "distinct (map hold_id t)" "mset hs = filter_mset (open_hold e u) (mset t)"
  shows "upserts hold_id (stamp_holds ss reason now hs) t = closed_holds e ss u reason now t"
proof -
  let ?f = "\<lambda>hold. if hold_seatId hold \<in> set ss
     then hold\<lparr>hold_releasedAt := Some now, hold_releaseReason := Some reason\<rparr> else hold"
  have "upserts hold_id (map ?f hs) t = map (\<lambda>h. if open_hold e u h then ?f h else h) t"
    using assms by (intro upserts_modify) simp_all
  also have "\<dots> = closed_holds e ss u reason now t"
    by (auto simp: closed_holds_def intro!: map_cong)
  finally show ?thesis by (simp only: stamp_holds_def)
qed

lemma publish_close:
  assumes "seat_wf v" "mset xs = filter_mset (in_seats e ss) (mset (inventory v))"
    and "mset hs = filter_mset (open_hold e u) (mset (seat_holds v))"
    and "tx_inventory v' = map (inv_status_update (\<lambda>_. st)) xs"
    and "tx_holds v' = stamp_holds ss reason (clock v) hs" "settled v' = settled v"
  shows "seat_publish v' = closed_rows e ss u reason st v"
proof -
  have "seat_publish v' = (settled v')\<lparr>inventory := upserts inv_id (tx_inventory v') (inventory (settled v')),
      seat_holds := upserts hold_id (tx_holds v') (seat_holds (settled v'))\<rparr>"
    by (simp add: seat_publish_def settled_def)
  then show ?thesis
    unfolding assms(6) using assms(1-5) mark_saves [of "inventory v" xs e ss st]
      stamp_saves [of "seat_holds v" hs e u ss reason "clock v"]
    by (simp add: closed_rows_def seat_wf_def)
qed

definition close_body_spec ::
  "string \<Rightarrow> string list \<Rightarrow> string \<Rightarrow> SeatLockReleaseReason \<Rightarrow> SeatStatus \<Rightarrow>
   'z seat_store_scheme \<Rightarrow> exn + unit \<Rightarrow> 'z seat_store_scheme \<Rightarrow> bool" where
  "close_body_spec e ss u reason st v r v' \<longleftrightarrow> close_spec e ss u reason st v r v' \<and>
     (\<forall>x. r = Inl x \<longrightarrow> seat_tx v' \<longrightarrow> settled v' = settled v)"

lemma closed_rows_simps [simp]:
  "\<not> seat_tx (closed_rows e ss u reason st v)" "kv (closed_rows e ss u reason st v) = kv v"
  "clock (closed_rows e ss u reason st v) = clock v" "calm (closed_rows e ss u reason st v) = calm v"
  "hash (closed_rows e ss u reason st v) = hash v"
  by (simp_all add: closed_rows_def settled_def)

lemma owned_seats_kv: "kv v' = kv v \<Longrightarrow> clock v' = clock v \<Longrightarrow> owned_seats v' e ss u = owned_seats v e ss u"
  by (simp add: owned_seats_def lock_owner_def lock_of_def)

context hold_client
begin

lemma close_tail:
  assumes wf: "seat_wf v" "locks_are_strings v"
    and xs: "mset xs = filter_mset (in_seats e ss) (mset (inventory v))"
    and hs: "mset hs = filter_mset (open_hold e u) (mset (seat_holds v))"
    and w: "tx_inventory (vw w) = map (inv_status_update (\<lambda>_. st)) xs"
      "tx_holds (vw w) = stamp_holds ss reason (clock v) hs" "settled (vw w) = settled v" "seat_tx (vw w)"
  shows "wp (await (qr_commitTransaction (seatRunner E)) (\<lambda>_. await (sls_releaseSeats L e ss u) (\<lambda>_.
      ars_updateMultipleSeatsStatus R e (with_status st ss))))
    (\<lambda>r w'. close_body_spec e ss u reason st v r (vw w')) w"
proof -
  define rows where "rows = closed_rows e ss u reason st v"
  have pub: "seat_publish (vw w) = rows"
    unfolding rows_def by (rule publish_close [OF wf(1) xs hs w(1-3)])
  have own: "owned_seats rows e ss u = owned_seats v e ss u"
    by (rule owned_seats_kv) (simp_all add: rows_def)
  have str: "locks_are_strings rows"
    using wf(2) by (simp add: locks_are_strings_def rows_def)
  have json: "locks_are_json rows = locks_are_json v" "calm rows = calm v"
    by (simp_all add: locks_are_json_def rows_def)
  have calm: "calm (vw w) = calm v"
    using arg_cong [OF w(3), of calm] by simp
  have early: "close_body_spec e ss u reason st v (Inl (JsError m)) (vw w)" if "\<not> calm v" for m
    using w(3) that by (simp add: close_body_spec_def close_spec_def)
  have late: "close_body_spec e ss u reason st v (Inl (JsError m)) (unlocked e D rows)"
    if "D \<subseteq> owned_seats v e ss u" "\<not> (calm v \<and> locks_are_json v)" for m D
    using that by (auto simp: close_body_spec_def close_spec_def rows_def unlocked_def Let_def)
  have good: "close_body_spec e ss u reason st v (Inr ()) (set_status e ss st (unlocked e (owned_seats v e ss u) rows))"
    by (simp add: close_body_spec_def close_spec_def rows_def Let_def)
  show ?thesis
    unfolding wp_await
  proof (rule wp_fallible [OF tx.commit_law], goal_cases)
    case (1 m w1)
    then show ?case using early w(4) calm by simp
  next
    case (2 a w1)
    then have w1: "vw w1 = rows" using pub by simp
    show ?case
      unfolding sum.case
    proof (rule wp_obeys [OF unlock_law], goal_cases)
      case (1 r w2)
      then have spec: "lock_releaseSeats_spec e ss u rows r (vw w2)" using str w1 by simp
      show ?case
      proof (cases r)
        case (Inl x)
        then show ?thesis
          using spec late json by (auto simp: lock_releaseSeats_spec_def own unlocked_def)
      next
        case (Inr n)
        then have w2: "vw w2 = unlocked e (owned_seats v e ss u) rows"
          using spec by (simp add: lock_releaseSeats_spec_def own unlocked_def)
        show ?thesis
          unfolding Inr sum.case
          by (rule wp_fallible [OF update_status_law]) (use w2 late good json in \<open>auto simp: unlocked_def\<close>)
      qed
    qed
  qed
qed

lemma release_body_wp:
  assumes "seat_wf v" "locks_are_strings v" "vw w = seat_begin v"
  shows "wp (release_body E L Iv R e ss u reason) (\<lambda>r w'. close_body_spec e ss u reason AVAILABLE v r (vw w')) w"
proof -
  have early: "close_body_spec e ss u reason AVAILABLE v (Inl (JsError m)) v'"
    if "settled v' = settled v" "\<not> calm v" for m v'
    using that by (simp add: close_body_spec_def close_spec_def)
  show ?thesis
    unfolding release_body_def
    apply (subst wp_await)
    apply (rule wp_fallible [OF hold.find_law])
     apply (simp add: early assms(3))
    apply (simp add: wp_await [of "seatNow E"])
    apply (rule wp_obeys [OF now_law])
    apply (simp add: wp_await [of "manager_save (holdManager E) x" for x])
    apply (rule wp_fallible [OF txhold.msave_law])
     apply (simp add: early assms(3))
    apply (simp add: wp_await [of "ivs_findBySeatIds Iv e ss"])
    apply (rule wp_fallible [OF find_seats_law])
     apply (simp add: early assms(3))
    apply (simp add: wp_await [of "manager_save (inventoryManager E) x" for x])
    apply (rule wp_fallible [OF txinv.msave_law])
     apply (simp add: early assms(3))
    apply (simp only: sum.case)
    apply (rule close_tail)
    by (simp_all add: assms)
qed

lemma sold_body_wp:
  assumes "seat_wf v" "locks_are_strings v" "vw w = seat_begin v"
  shows "wp (sold_body E L Iv R e ss u) (\<lambda>r w'. close_body_spec e ss u PAYMENT_SUCCESS SOLD v r (vw w')) w"
proof -
  have early: "close_body_spec e ss u PAYMENT_SUCCESS SOLD v (Inl (JsError m)) v'"
    if "settled v' = settled v" "\<not> calm v" for m v'
    using that by (simp add: close_body_spec_def close_spec_def)
  show ?thesis
    unfolding sold_body_def
    apply (subst wp_await)
    apply (rule wp_fallible [OF find_seats_law])
     apply (simp add: early assms(3))
    apply (simp add: wp_await [of "manager_save (inventoryManager E) x" for x])
    apply (rule wp_fallible [OF txinv.msave_law])
     apply (simp add: early assms(3))
    apply (simp add: wp_await [of "repo_find (holdRepo E) x" for x])
    apply (rule wp_fallible [OF hold.find_law])
     apply (simp add: early assms(3))
    apply (simp add: wp_await [of "seatNow E"])
    apply (rule wp_obeys [OF now_law])
    apply (simp add: wp_await [of "manager_save (holdManager E) x" for x])
    apply (rule wp_fallible [OF txhold.msave_law])
     apply (simp add: early assms(3))
    apply (simp only: sum.case)
    apply (rule close_tail)
    by (simp_all add: assms)
qed

text \<open>The frame both operations share: the transaction around the guarded block.\<close>

lemma close_frame:
  assumes "\<And>w1. vw w1 = seat_begin (vw w) \<Longrightarrow>
    wp body (\<lambda>r w'. close_body_spec e ss u reason st (vw w) r (vw w')) w1"
  shows "wp (await (qr_connect (seatRunner E)) (\<lambda>_. await (qr_startTransaction (seatRunner E)) (\<lambda>_.
      try_finally (try_catch body (\<lambda>error. await (qr_rollbackTransaction (seatRunner E)) (\<lambda>_. throw error)))
        (qr_release (seatRunner E)))))
    (\<lambda>r w'. close_spec e ss u reason st (vw w) r (vw w')) w"
proof -
  have inl: "close_spec e ss u reason st (vw w) (Inl (JsError m)) v'"
    if "close_spec e ss u reason st (vw w) r v'" "r = Inr () \<longrightarrow> \<not> calm v'" for r m v'
    using that by (auto simp: close_spec_def Let_def unlocked_def split: sum.splits)
  have body: "wp (try_finally (try_catch body (\<lambda>error. await (qr_rollbackTransaction (seatRunner E)) (\<lambda>_. throw error)))
        (qr_release (seatRunner E))) (\<lambda>r w'. close_spec e ss u reason st (vw w) r (vw w')) w1"
    if w1: "vw w1 = seat_begin (vw w)" for w1
    unfolding wp_simps
  proof (rule wp_mono [OF assms [OF w1]], goal_cases)
    case (1 r w2)
    then have spec: "close_spec e ss u reason st (vw w) r (vw w2)"
      and pre: "\<And>x. r = Inl x \<Longrightarrow> seat_tx (vw w2) \<Longrightarrow> settled (vw w2) = settled (vw w)"
      by (auto simp: close_body_spec_def)
    show ?case
    proof (cases r)
      case (Inl x)
      have rolled: "close_spec e ss u reason st (vw w) (Inl y) (settled (vw w2))"
        if "seat_tx (vw w2)" "y = JsError m" for y m
        using pre [OF Inl] that spec Inl by (simp add: close_spec_def Let_def)
      obtain m where x: "x = JsError m"
        using spec Inl by (auto simp: close_spec_def Let_def)
      have kept: "close_spec e ss u reason st (vw w) (Inl (JsError n)) (vw w2)" for n
        by (rule inl [OF spec]) (simp add: Inl)
      show ?thesis
        using Inl x rolled kept
        by (auto intro!: wp_fallible [OF tx.rollback_law] wp_fallible [OF tx.release_law])
    next
      case (Inr a)
      then show ?thesis
        using spec by (auto intro!: wp_fallible [OF tx.release_law] intro: inl)
    qed
  qed
  have "close_spec e ss u reason st (vw w) (Inl (JsError m)) (vw w)" if "\<not> calm (vw w)" for m
    using that by (simp add: close_spec_def)
  then show ?thesis
    unfolding wp_await
    by (auto intro!: wp_fallible [OF tx.connect_law] wp_fallible [OF tx.start_law] body simp: wp_await)
qed

lemma hold_releaseSeats_law:
  "obeys vw (hold_releaseSeats E L Iv R e ss u reason)
     (\<lambda>v r v'. seat_wf v \<and> locks_are_strings v \<longrightarrow> close_spec e ss u reason AVAILABLE v r v')"
  unfolding hold_releaseSeats_def
  by (rule obeys_pre, rule close_frame, rule release_body_wp) auto

lemma markAsSold_law:
  "obeys vw (markAsSold E L Iv R e ss u)
     (\<lambda>v r v'. seat_wf v \<and> locks_are_strings v \<longrightarrow> close_spec e ss u PAYMENT_SUCCESS SOLD v r v')"
  unfolding markAsSold_def
  by (rule obeys_pre, rule close_frame, rule sold_body_wp) auto

end

section \<open>The interface of the hold service\<close>

text \<open>The invariant of the service's state.\<close>

definition seat_ok :: "'z seat_store_scheme \<Rightarrow> bool" where
  "seat_ok v \<longleftrightarrow> seat_wf v \<and> locks_are_strings v \<and> locks_are_json v"

locale hold_api =
  fixes H :: "'w HoldService" and vw :: "'w \<Rightarrow> 'z seat_store_scheme"
  assumes hold_law:
      "obeys vw (hs_holdSeats H e ss u sid) (\<lambda>v r v'. seat_ok v \<longrightarrow> holdSeats_spec e ss u sid v r v')"
    and release_law:
      "obeys vw (hs_releaseSeats H e ss u reason) (\<lambda>v r v'. seat_ok v \<longrightarrow> close_spec e ss u reason AVAILABLE v r v')"
    and lock_info_law:
      "obeys vw (hs_getLockInfo H e s) (fallible (\<lambda>v. calm v \<and> locks_are_json v) (\<lambda>v x v'. v' = v \<and> map_option Json x = lock_of v e s))"
    and sold_law:
      "obeys vw (hs_markAsSold H e ss u) (\<lambda>v r v'. seat_ok v \<longrightarrow> close_spec e ss u PAYMENT_SUCCESS SOLD v r v')"

sublocale seat_world \<subseteq> holding: hold_client E vw "seatLockService E"
  "inventoryService E (availabilityReadService E)" "availabilityReadService E"
  by unfold_locales

sublocale seat_world \<subseteq> holds: hold_api "holdService E" vw
proof
  fix e ss u sid reason s
  show "obeys vw (hs_holdSeats (holdService E) e ss u sid)
      (\<lambda>v r v'. seat_ok v \<longrightarrow> holdSeats_spec e ss u sid v r v')"
    unfolding holdService_def Let_def seat_ok_def
    by (rule obeys_weaken) (simp, rule holding.holdSeats_law, simp)
  show "obeys vw (hs_releaseSeats (holdService E) e ss u reason)
      (\<lambda>v r v'. seat_ok v \<longrightarrow> close_spec e ss u reason AVAILABLE v r v')"
    unfolding holdService_def Let_def seat_ok_def
    by (rule obeys_weaken) (simp, rule holding.hold_releaseSeats_law, simp)
  show "obeys vw (hs_markAsSold (holdService E) e ss u)
      (\<lambda>v r v'. seat_ok v \<longrightarrow> close_spec e ss u PAYMENT_SUCCESS SOLD v r v')"
    unfolding holdService_def Let_def seat_ok_def
    by (rule obeys_weaken) (simp, rule holding.markAsSold_law, simp)
  show "obeys vw (hs_getLockInfo (holdService E) e s)
      (fallible (\<lambda>v. calm v \<and> locks_are_json v) (\<lambda>v x v'. v' = v \<and> map_option Json x = lock_of v e s))"
    by (simp add: holdService_def Let_def hold_getLockInfo_def locks.info_law)
qed

context seat_world
begin

lemmas service_holdSeats = holds.hold_law
lemmas service_releaseSeats = holds.release_law
lemmas service_markAsSold = holds.sold_law

end

section \<open>The invariant\<close>

lemma seat_ok_settled [simp]: "seat_ok (settled v) = seat_ok v"
  by (simp add: seat_ok_def seat_wf_def locks_are_strings_def locks_are_json_def)

lemma seat_ok_set_status [simp]: "seat_ok (set_status e ss st v) = seat_ok v"
  by (simp add: seat_ok_def seat_wf_def locks_are_json_def)

text \<open>Changes of Redis that drop keys or add locks keep the invariant.\<close>

lemma seat_ok_kv:
  assumes "seat_ok v" "v' = v\<lparr>kv := kv v'\<rparr>"
    and "\<And>k. kv v' k = kv v k \<or> kv v' k = None \<or> kv v' k = Some (my_lock u sid now)"
  shows "seat_ok v'"
proof -
  have "locks_are_json v'"
    unfolding locks_are_json_def
  proof (intro allI impI)
    fix e s x t
    assume "kv v' (lock_key e s) = Some (x, t)"
    then show "\<exists>fs. x = Json (JObj fs)"
      using assms(1) assms(3) [of "lock_key e s"] unfolding seat_ok_def locks_are_json_def
      by (auto simp: my_lock_def lock_value_def) metis
  qed
  moreover have "seat_wf (v\<lparr>kv := kv v'\<rparr>) \<and> locks_are_strings (v\<lparr>kv := kv v'\<rparr>)"
    using assms(1) by (simp add: seat_ok_def seat_wf_def)
  ultimately show ?thesis
    using assms(2) by (simp add: seat_ok_def)
qed

lemma closed_holds_ids [simp]: "map hold_id (closed_holds e ss u reason now t) = map hold_id t"
  by (auto simp: closed_holds_def intro!: map_cong)

lemma seat_ok_closed_rows [simp]: "seat_ok (closed_rows e ss u reason st v) = seat_ok v"
  by (simp add: seat_ok_def seat_wf_def locks_are_strings_def locks_are_json_def) (simp add: closed_rows_def)

lemma seat_ok_unlocked: "seat_ok v \<Longrightarrow> seat_ok (unlocked e D v)"
  by (rule seat_ok_kv) (auto simp: unlocked_def without_locks_def)

lemma seat_ok_held_state:
  assumes "seat_ok v" "holds_for e ss u sid v hs"
  shows "seat_ok (held_state e ss u sid hs v)"
proof -
  have "seat_ok ((settled v)\<lparr>inventory := mark e ss HELD (inventory v), seat_holds := seat_holds v @ hs\<rparr>)"
    using assms created_distinct [OF assms(2) [unfolded holds_for_def]]
      created_fresh [OF assms(2) [unfolded holds_for_def]]
    by (auto simp: seat_ok_def seat_wf_def locks_are_strings_def locks_are_json_def)
  then show ?thesis
    by (rule seat_ok_kv) (auto simp: held_state_def with_locks_def)
qed

lemma seat_ok_same_locks:
  assumes "same_locks (settled v) (settled v')" "seat_ok v"
  shows "seat_ok v'"
proof -
  have "seat_ok (settled v')"
    by (rule seat_ok_kv [of "settled v"]) (use assms in \<open>auto simp: same_locks_def kv_equiv_def\<close>)
  then show ?thesis by simp
qed

lemma seat_ok_partial_locks:
  assumes "partial_locks e ss u sid (settled v) (settled v')" "seat_ok v"
  shows "seat_ok v'"
proof -
  have "seat_ok (settled v')"
    by (rule seat_ok_kv [of "settled v" _ u sid "clock v"]) (use assms in \<open>auto simp: partial_locks_def\<close>)
  then show ?thesis by simp
qed

lemma seat_ok_hold: "holdSeats_spec e ss u sid v r v' \<Longrightarrow> seat_ok v \<Longrightarrow> seat_ok v'"
  by (auto simp: holdSeats_spec_def seat_ok_held_state split: sum.splits exn.splits
      intro: seat_ok_same_locks seat_ok_partial_locks)

lemma seat_ok_close:
  assumes "close_spec e ss u reason st v r v'" "seat_ok v"
  shows "seat_ok v'"
proof -
  have "settled v' = settled v \<or>
      (\<exists>D. v' = unlocked e D (closed_rows e ss u reason st v) \<or>
           v' = set_status e ss st (unlocked e D (closed_rows e ss u reason st v)))"
    using assms(1) by (auto simp: close_spec_def Let_def split: sum.splits)
  moreover have "seat_ok v'" if "settled v' = settled v"
    using arg_cong [OF that, of seat_ok] assms(2) by simp
  ultimately show ?thesis
    using assms(2) seat_ok_unlocked [of "closed_rows e ss u reason st v" e] by auto
qed

end
