(* ===== verification/Hold_Properties.thy ===== *)
theory Hold_Properties
  imports Hold_Service
begin

text \<open>
  What the hold service guarantees, over every environment that obeys \<open>seat_world\<close>: the effect of
  a successful hold, clean refusals, atomicity under failures, mutual exclusion, the effect of
  releasing and selling, and where the code lets a caller free seats that are not theirs.
\<close>

section \<open>Facts shared by the properties\<close>

lemma holdSeats_runs:
  assumes "seat_world E vw" "seat_ok (vw w)" "hs_holdSeats (holdService E) e ss u sid w = (r, w')"
  shows "holdSeats_spec e ss u sid (vw w) r (vw w')"
  using obeysD [OF seat_world.service_holdSeats [OF assms(1)] assms(3)] assms(2) by simp

lemma releaseSeats_runs:
  assumes "seat_world E vw" "seat_ok (vw w)" "hs_releaseSeats (holdService E) e ss u reason w = (r, w')"
  shows "close_spec e ss u reason AVAILABLE (vw w) r (vw w')"
  using obeysD [OF seat_world.service_releaseSeats [OF assms(1)] assms(3)] assms(2) by simp

lemma markAsSold_runs:
  assumes "seat_world E vw" "seat_ok (vw w)" "hs_markAsSold (holdService E) e ss u w = (r, w')"
  shows "close_spec e ss u PAYMENT_SUCCESS SOLD (vw w) r (vw w')"
  using obeysD [OF seat_world.service_markAsSold [OF assms(1)] assms(3)] assms(2) by simp

lemma kv_frame: "v' = v\<lparr>kv := m\<rparr> \<Longrightarrow> inventory v' = inventory v \<and> seat_holds v' = seat_holds v \<and> hash v' = hash v"
  by simp

lemma settled_frame:
  "settled v' = (settled v)\<lparr>kv := m\<rparr> \<Longrightarrow>
     inventory v' = inventory v \<and> seat_holds v' = seat_holds v \<and> hash v' = hash v"
proof -
  assume "settled v' = (settled v)\<lparr>kv := m\<rparr>"
  from kv_frame [OF this] show ?thesis by simp
qed

lemma locked_ok: "seat_ok (seat_view locked_seats)"
  using demo_seat_wf locked_seats_strings
  by (simp add: seat_ok_def seat_wf_def locked_seats_def seat_view_def)
    (auto simp: locks_are_json_def my_lock_def lock_value_def split: if_splits)

lemma demo_ok: "seat_ok (seat_view demo_seats)"
  by (simp add: seat_ok_def demo_seat_wf demo_locks_are_strings)
    (simp add: locks_are_json_def seat_view_def demo_seats_def)

lemma seat_row_held:
  "seat_row (held_state e ss u sid hs v) e' s =
     map_option (\<lambda>r. if e' = e \<and> s \<in> set ss then r\<lparr>inv_status := HELD\<rparr> else r) (seat_row v e' s)"
  by (simp add: seat_row_def held_state_def find_mark)

lemma seat_row_set_status [simp]: "seat_row (set_status e ss st v) e' s = seat_row v e' s"
  by (simp add: seat_row_def)

lemma holds_for_rows:
  assumes "holds_for e ss u sid v hs"
  shows "map (\<lambda>h. (hold_eventId h, hold_seatId h, hold_userId h, hold_sessionId h, hold_expiresAt h, hold_releasedAt h)) hs =
    map (\<lambda>s. (e, s, u, sid, clock v + HOLD_DURATION_MS, None)) ss"
  by (rule created_map [OF assms [unfolded holds_for_def]]) (simp add: new_hold_def)

section \<open>Holding\<close>

text \<open>
  C3.  A hold that succeeds was possible and is complete.  When \<^verbatim>\<open>holdSeats\<close> returns, the seats were
  distinct, unlocked and available; afterwards each of them has a row with status \<open>HELD\<close> and a
  lock of the caller that lives 600 seconds, one open hold per seat has been added for the caller,
  in order, expiring ten minutes from now, with the returned ids; every other row, hold and lock
  is as before.
\<close>

theorem holdSeats_success:
  assumes "seat_world E vw" "seat_ok (vw w)"
    and "hs_holdSeats (holdService E) e ss u sid w = (Inr res, w')"
  shows "distinct ss \<and>
    (\<forall>s\<in>set ss. seat_free (vw w) e s \<and> (\<exists>r. seat_row (vw w) e s = Some r \<and> inv_status r = AVAILABLE \<and>
       seat_row (vw w') e s = Some (r\<lparr>inv_status := HELD\<rparr>)) \<and>
       kv (vw w') (lock_key e s) = Some (my_lock u sid (clock (vw w)))) \<and>
    (\<forall>e' s. e' \<noteq> e \<or> s \<notin> set ss \<longrightarrow> seat_row (vw w') e' s = seat_row (vw w) e' s) \<and>
    (\<forall>k. k \<notin> lock_key e ` set ss \<longrightarrow> kv (vw w') k = kv (vw w) k) \<and>
    (\<exists>hs. seat_holds (vw w') = seat_holds (vw w) @ hs \<and> holdIds res = map hold_id hs \<and>
       map (\<lambda>h. (hold_eventId h, hold_seatId h, hold_userId h, hold_sessionId h, hold_expiresAt h, hold_releasedAt h)) hs =
       map (\<lambda>s. (e, s, u, sid, expiresAt res, None)) ss) \<and>
    expiresAt res = clock (vw w) + 600000"
proof -
  obtain hs where able: "holdable (vw w) e ss" and hs: "holds_for e ss u sid (vw w) hs"
    and res: "res = \<lparr>holdIds = map hold_id hs, expiresAt = clock (vw w) + HOLD_DURATION_MS\<rparr>"
    and w': "vw w' = set_status e ss HELD (held_state e ss u sid hs (vw w))"
    using holdSeats_runs [OF assms] by (auto simp: holdSeats_spec_def)
  show ?thesis
    unfolding w' res seat_row_set_status seat_row_held
    using able holds_for_rows [OF hs]
    by (auto simp: holdable_def all_free_def held_state_def with_locks_def HOLD_DURATION_MS_def
        option.map_id0 [unfolded id_def] option.map_ident)
qed

theorem holdSeats_success_witness:
  "\<exists>res w'. hs_holdSeats (holdService mem_seat_env) ''e1'' [''A1'', ''A2''] ''u1'' ''s1'' demo_seats = (Inr res, w') \<and>
     expiresAt res = 601000 \<and> kv (seat_view w') (lock_key ''e1'' ''A2'') = Some (my_lock ''u1'' ''s1'' 1000)"
proof -
  have "returns (hs_holdSeats (holdService mem_seat_env) ''e1'' [''A1'', ''A2''] ''u1'' ''s1'') demo_seats"
    by code_simp
  then obtain res w' where run:
    "hs_holdSeats (holdService mem_seat_env) ''e1'' [''A1'', ''A2''] ''u1'' ''s1'' demo_seats = (Inr res, w')"
    by (rule returnsE)
  have "clock (seat_view demo_seats) = 1000"
    by (simp add: seat_view_def demo_seats_def)
  then show ?thesis
    using holdSeats_success [OF mem_seats.seat_world_axioms demo_ok run] run by simp
qed

text \<open>
  C13.  A refusal is clean and justified.  \<^verbatim>\<open>holdSeats\<close> throws \<open>BadRequest\<close> only when the seats could not
  be held (a duplicate, a live lock, a missing row, or a row that is not available), and then
  tables and read model are unchanged, no transaction is open on them, and every live lock is as
  it was: the locks it had taken itself are gone.  The only other exceptions are those of the
  external systems.
\<close>

theorem holdSeats_refusal:
  assumes "seat_world E vw" "seat_ok (vw w)"
    and "hs_holdSeats (holdService E) e ss u sid w = (Inl x, w')"
  shows "(\<exists>m. x = JsError m) \<or>
    (\<exists>m. x = BadRequest m) \<and>
      \<not> (distinct ss \<and> (\<forall>s\<in>set ss. seat_free (vw w) e s \<and>
           (\<exists>r. seat_row (vw w) e s = Some r \<and> inv_status r = AVAILABLE))) \<and>
      inventory (vw w') = inventory (vw w) \<and> seat_holds (vw w') = seat_holds (vw w) \<and>
      hash (vw w') = hash (vw w) \<and> kv_equiv (clock (vw w)) (kv (vw w)) (kv (vw w'))"
proof (cases x)
  case (BadRequest m)
  then have able: "\<not> holdable (vw w) e ss" and same: "same_locks (settled (vw w)) (settled (vw w'))"
    using holdSeats_runs [OF assms] by (auto simp: holdSeats_spec_def)
  have "settled (vw w') = (settled (vw w))\<lparr>kv := kv (settled (vw w'))\<rparr>"
    using same by (simp add: same_locks_def)
  note tables = settled_frame [OF this]
  show ?thesis
    using BadRequest able same tables by (auto simp: holdable_def all_free_def same_locks_def)
qed (use holdSeats_runs [OF assms] in \<open>auto simp: holdSeats_spec_def\<close>)

theorem holdSeats_refusal_witness:
  "\<exists>m w'. hs_holdSeats (holdService mem_seat_env) ''e1'' [''A1'', ''A3''] ''u1'' ''s1'' demo_seats = (Inl (BadRequest m), w') \<and>
     inventory (seat_view w') = inventory (seat_view demo_seats)"
proof -
  have "fst (hs_holdSeats (holdService mem_seat_env) ''e1'' [''A1'', ''A3''] ''u1'' ''s1'' demo_seats) =
      Inl (BadRequest ''Seats not available: A3'')"
    by code_simp
  then obtain w' where run: "hs_holdSeats (holdService mem_seat_env) ''e1'' [''A1'', ''A3''] ''u1'' ''s1'' demo_seats =
      (Inl (BadRequest ''Seats not available: A3''), w')"
    by (metis prod.collapse)
  show ?thesis
    using holdSeats_refusal [OF mem_seats.seat_world_axioms demo_ok run] run by auto
qed

text \<open>
  C18.  While the external systems are up, \<^verbatim>\<open>holdSeats\<close> decides exactly: it returns when the seats are
  distinct, unlocked and available, and otherwise refuses with \<open>BadRequest\<close>.
\<close>

theorem holdSeats_decides:
  assumes "seat_world E vw" "seat_ok (vw w)" "calm (vw w)"
    and "hs_holdSeats (holdService E) e ss u sid w = (r, w')"
  shows "if distinct ss \<and> (\<forall>s\<in>set ss. seat_free (vw w) e s \<and>
      (\<exists>row. seat_row (vw w) e s = Some row \<and> inv_status row = AVAILABLE))
    then \<exists>res. r = Inr res else \<exists>m. r = Inl (BadRequest m)"
proof -
  have able: "holdable (vw w) e ss \<longleftrightarrow> distinct ss \<and> (\<forall>s\<in>set ss. seat_free (vw w) e s \<and>
      (\<exists>row. seat_row (vw w) e s = Some row \<and> inv_status row = AVAILABLE))"
    by (auto simp: holdable_def all_free_def)
  have "locks_are_json (vw w)" using assms(2) by (simp add: seat_ok_def)
  then show ?thesis
    unfolding able [symmetric] using holdSeats_runs [OF assms(1,2,4)] assms(3)
    by (auto simp: holdSeats_spec_def split: sum.splits exn.splits)
qed

theorem holdSeats_decides_witness:
  "\<exists>res w'. hs_holdSeats (holdService mem_seat_env) ''e1'' [''A1''] ''u1'' ''s1'' demo_seats = (Inr res, w')"
proof -
  obtain r w' where run: "hs_holdSeats (holdService mem_seat_env) ''e1'' [''A1''] ''u1'' ''s1'' demo_seats = (r, w')"
    by fastforce
  have "seat_free (seat_view demo_seats) ''e1'' ''A1''" "calm (seat_view demo_seats)"
    by code_simp+
  moreover have "seat_row (seat_view demo_seats) ''e1'' ''A1'' = Some (demo_seat ''A1'' AVAILABLE)"
      "inv_status (demo_seat ''A1'' AVAILABLE) = AVAILABLE"
    by (simp_all add: seat_row_def seat_view_def demo_seats_def demo_seat_def)
  ultimately show ?thesis
    using holdSeats_decides [OF mem_seats.seat_world_axioms demo_ok _ run] run by simp
qed

text \<open>
  C4.  Whatever fails, the tables are never half updated: after \<^verbatim>\<open>holdSeats\<close>, in every outcome, either
  both tables are as before, or the seats were available and both tables carry the complete hold;
  and no live key of Redis has been changed.
\<close>

theorem holdSeats_atomic:
  assumes "seat_world E vw" "seat_ok (vw w)"
    and "hs_holdSeats (holdService E) e ss u sid w = (r, w')"
  shows "(\<forall>k. live (clock (vw w)) (kv (vw w) k) \<noteq> None \<longrightarrow> kv (vw w') k = kv (vw w) k) \<and>
    (inventory (vw w') = inventory (vw w) \<and> seat_holds (vw w') = seat_holds (vw w) \<or>
     (\<forall>s\<in>set ss. \<exists>r. seat_row (vw w) e s = Some r \<and> inv_status r = AVAILABLE) \<and>
     inventory (vw w') = mark e ss HELD (inventory (vw w)) \<and>
     (\<exists>hs. holds_for e ss u sid (vw w) hs \<and> seat_holds (vw w') = seat_holds (vw w) @ hs))"
    (is "?keys \<and> ?tables")
proof -
  note spec = holdSeats_runs [OF assms]
  have full: ?thesis if "holdable (vw w) e ss" "holds_for e ss u sid (vw w) hs"
      "vw w' = held_state e ss u sid hs (vw w) \<or> vw w' = set_status e ss HELD (held_state e ss u sid hs (vw w))" for hs
    using that by (auto simp: held_state_def holdable_def all_free_def seat_free_def with_locks_def)
  have none: ?thesis if "settled (vw w') = (settled (vw w))\<lparr>kv := kv (vw w')\<rparr>" ?keys
    using settled_frame [OF that(1)] that(2) by simp
  have same: ?thesis if s: "same_locks (settled (vw w)) (settled (vw w'))"
    by (rule none) (use s in \<open>auto simp: same_locks_def kv_equiv_def\<close>)
  have part: ?thesis if p: "partial_locks e ss u sid (settled (vw w)) (settled (vw w'))"
    by (rule none) (use p in \<open>auto simp: partial_locks_def\<close>)
  show ?thesis
    using spec full same part by (auto simp: holdSeats_spec_def split: sum.splits exn.splits)
qed

definition failing_seats :: seat_mem where
  "failing_seats = demo_seats\<lparr>steady := False, faults := [None, None, None, None, None, Some ''connection lost'']\<rparr>"

lemma failing_ok: "seat_ok (seat_view failing_seats)"
  using demo_ok
  by (simp add: failing_seats_def seat_view_def seat_ok_def seat_wf_def locks_are_strings_def locks_are_json_def)

theorem holdSeats_atomic_witness:
  "\<exists>w'. hs_holdSeats (holdService mem_seat_env) ''e1'' [''A1''] ''u1'' ''s1'' failing_seats =
       (Inl (JsError ''connection lost''), w') \<and>
     (inventory (seat_view w') = inventory (seat_view failing_seats) \<or>
      inventory (seat_view w') = mark ''e1'' [''A1''] HELD (inventory (seat_view failing_seats)))"
proof -
  have "fst (hs_holdSeats (holdService mem_seat_env) ''e1'' [''A1''] ''u1'' ''s1'' failing_seats) =
      Inl (JsError ''connection lost'')"
    by code_simp
  then obtain w' where run: "hs_holdSeats (holdService mem_seat_env) ''e1'' [''A1''] ''u1'' ''s1'' failing_seats =
      (Inl (JsError ''connection lost''), w')"
    by (metis prod.collapse)
  show ?thesis
    using holdSeats_atomic [OF mem_seats.seat_world_axioms failing_ok run] run by blast
qed

text \<open>
  C13.  Mutual exclusion.  Once a hold has succeeded, no further \<^verbatim>\<open>holdSeats\<close> that includes one of its
  seats succeeds, by any user and at any later time, as long as the rows of the table have not
  been changed: the row stays \<open>HELD\<close> even after the lock has expired.
\<close>

theorem holdSeats_exclusive:
  assumes "seat_world E vw" "seat_ok (vw w)"
    and "hs_holdSeats (holdService E) e ss u sid w = (Inr res, w1)"
    and "seat_ok (vw w2)" "inventory (vw w2) = inventory (vw w1)" "set ss' \<inter> set ss \<noteq> {}"
    and "hs_holdSeats (holdService E) e ss' u' sid' w2 = (r, w3)"
  shows "\<exists>x. r = Inl x"
proof (cases r)
  case (Inr res')
  obtain s where s: "s \<in> set ss" "s \<in> set ss'" using assms(6) by auto
  obtain hs where "holdable (vw w) e ss" "vw w1 = set_status e ss HELD (held_state e ss u sid hs (vw w))"
    using holdSeats_runs [OF assms(1-3)] by (auto simp: holdSeats_spec_def)
  then obtain row where "seat_row (vw w1) e s = Some (row\<lparr>inv_status := HELD\<rparr>)"
    using s(1) by (auto simp: holdable_def seat_row_held)
  then have "seat_row (vw w2) e s = Some (row\<lparr>inv_status := HELD\<rparr>)"
    using assms(5) by (simp add: seat_row_def)
  moreover have "holdable (vw w2) e ss'"
    using holdSeats_runs [OF assms(1,4,7)] Inr by (auto simp: holdSeats_spec_def)
  ultimately show ?thesis
    using s(2) by (auto simp: holdable_def)
qed simp

theorem holdSeats_exclusive_witness:
  "\<exists>res w1 x w3. hs_holdSeats (holdService mem_seat_env) ''e1'' [''A1''] ''u1'' ''s1'' demo_seats = (Inr res, w1) \<and>
     hs_holdSeats (holdService mem_seat_env) ''e1'' [''A2'', ''A1''] ''u2'' ''s2'' (w1\<lparr>mem_clock := 700000\<rparr>) = (Inl x, w3)"
proof -
  have "returns (hs_holdSeats (holdService mem_seat_env) ''e1'' [''A1''] ''u1'' ''s1'') demo_seats"
    by code_simp
  then obtain res w1 where run:
    "hs_holdSeats (holdService mem_seat_env) ''e1'' [''A1''] ''u1'' ''s1'' demo_seats = (Inr res, w1)"
    by (rule returnsE)
  let ?w2 = "w1\<lparr>mem_clock := 700000\<rparr>"
  obtain r w3 where again:
    "hs_holdSeats (holdService mem_seat_env) ''e1'' [''A2'', ''A1''] ''u2'' ''s2'' ?w2 = (r, w3)"
    by fastforce
  have "seat_ok (seat_view w1)"
    using seat_ok_hold [OF holdSeats_runs [OF mem_seats.seat_world_axioms demo_ok run] demo_ok] .
  then have "seat_ok (seat_view ?w2)"
    by (simp add: seat_ok_def seat_wf_def locks_are_strings_def locks_are_json_def seat_view_def)
  moreover have "inventory (seat_view ?w2) = inventory (seat_view w1)"
    by (simp add: seat_view_def)
  ultimately have "\<exists>x. r = Inl x"
    by (rule holdSeats_exclusive [OF mem_seats.seat_world_axioms demo_ok run _ _ _ again]) simp
  then show ?thesis using run again by blast
qed

section \<open>Releasing and selling\<close>

lemma unlocked_owner:
  assumes "kv v1 = kv v" "clock v1 = clock v" "s \<in> set ss"
  shows "lock_owner (unlocked e (owned_seats v e ss u) v1) e s \<noteq> Some u"
  using assms by (auto simp: lock_owner_def lock_of_def unlocked_def without_locks_def owned_seats_def present_def)

lemma unlocked_keys:
  assumes "kv v1 = kv v" "D \<subseteq> owned_seats v e ss u"
  shows "kv (unlocked e D v1) k = kv v k \<or>
    kv (unlocked e D v1) k = None \<and> (\<exists>s\<in>set ss. k = lock_key e s \<and> lock_owner v e s = Some u)"
  using assms by (auto simp: unlocked_def without_locks_def owned_seats_def)

text \<open>What both ways of ending a hold do, in every outcome.\<close>

lemma close_effect:
  assumes "close_spec e ss u reason st v r v'"
  shows "(inventory v' = inventory v \<and> seat_holds v' = seat_holds v \<and> r \<noteq> Inr () \<or>
      inventory v' = mark e ss st (inventory v) \<and>
      seat_holds v' = closed_holds e ss u reason (clock v) (seat_holds v)) \<and>
    (\<forall>k. kv v' k = kv v k \<or>
       kv v' k = None \<and> (\<exists>s\<in>set ss. k = lock_key e s \<and> lock_owner v e s = Some u)) \<and>
    (r = Inr () \<longrightarrow> (\<forall>s\<in>set ss. lock_owner v' e s \<noteq> Some u \<and>
       hash v' (status_key e) s = Some (Raw (status_text st))))"
proof -
  let ?rows = "closed_rows e ss u reason st v"
  let ?all = "owned_seats v e ss u"
  have tables: "inventory (unlocked e D ?rows) = mark e ss st (inventory v)"
      "seat_holds (unlocked e D ?rows) = closed_holds e ss u reason (clock v) (seat_holds v)" for D
    by (simp_all add: unlocked_def closed_rows_def)
  have keys: "kv (unlocked e D ?rows) k = kv v k \<or> kv (unlocked e D ?rows) k = None \<and>
      (\<exists>s\<in>set ss. k = lock_key e s \<and> lock_owner v e s = Some u)" if "D \<subseteq> ?all" for D k
    using unlocked_keys [OF _ that, of ?rows k] by simp
  have owner: "lock_owner (set_status e ss st (unlocked e ?all ?rows)) e s \<noteq> Some u" if "s \<in> set ss" for s
    using unlocked_owner [of ?rows v s ss e u] that by (simp add: lock_owner_def lock_of_def)
  consider (same) "settled v' = settled v" "r \<noteq> Inr ()"
    | (full) "v' = set_status e ss st (unlocked e ?all ?rows)"
    | (part) D where "D \<subseteq> ?all" "v' = unlocked e D ?rows" "r \<noteq> Inr ()"
    using assms by (auto simp: close_spec_def Let_def split: sum.splits)
  then show ?thesis
  proof cases
    case same
    then have "inventory v' = inventory v \<and> seat_holds v' = seat_holds v \<and> kv v' = kv v"
      by (metis settled_simps(1-3))
    then show ?thesis using same(2) by simp
  next
    case full
    then show ?thesis
      using tables keys [of ?all] owner by (simp add: hash_set_status)
  next
    case part
    then show ?thesis
      using tables keys [of D] by simp
  qed
qed

text \<open>
  C19.  Selling seats is complete or not visible in the tables.  When \<^verbatim>\<open>markAsSold\<close> returns, every row of
  the seats is \<open>SOLD\<close>, the buyer's open holds on them are closed with reason \<open>PAYMENT_SUCCESS\<close>, the
  buyer has no lock on them any more, and nobody else's lock has changed.  When it throws, the
  tables are either unchanged or completely updated.
\<close>

theorem markAsSold_effect:
  assumes "seat_world E vw" "seat_ok (vw w)"
    and "hs_markAsSold (holdService E) e ss u w = (r, w')"
  shows "(inventory (vw w') = inventory (vw w) \<and> seat_holds (vw w') = seat_holds (vw w) \<and> r \<noteq> Inr () \<or>
      inventory (vw w') = mark e ss SOLD (inventory (vw w)) \<and>
      seat_holds (vw w') = closed_holds e ss u PAYMENT_SUCCESS (clock (vw w)) (seat_holds (vw w))) \<and>
    (\<forall>k. kv (vw w') k = kv (vw w) k \<or>
       kv (vw w') k = None \<and> (\<exists>s\<in>set ss. k = lock_key e s \<and> lock_owner (vw w) e s = Some u)) \<and>
    (r = Inr () \<longrightarrow> (\<forall>s\<in>set ss. lock_owner (vw w') e s \<noteq> Some u \<and>
       hash (vw w') (status_key e) s = Some (Raw ''sold'')))"
  using close_effect [OF markAsSold_runs [OF assms]] by simp

theorem markAsSold_effect_witness:
  "\<exists>w'. hs_markAsSold (holdService mem_seat_env) ''e1'' [''A1''] ''u1'' locked_seats = (Inr (), w') \<and>
     lock_owner (seat_view w') ''e1'' ''A1'' \<noteq> Some ''u1''"
proof -
  have "returns (hs_markAsSold (holdService mem_seat_env) ''e1'' [''A1''] ''u1'') locked_seats"
    by code_simp
  then obtain w' where run: "hs_markAsSold (holdService mem_seat_env) ''e1'' [''A1''] ''u1'' locked_seats = (Inr (), w')"
    by (rule returnsE) simp
  show ?thesis
    using markAsSold_effect [OF mem_seats.seat_world_axioms locked_ok run] run by simp
qed

text \<open>
  C20.  Releasing seats is complete or not visible in the tables.  When \<^verbatim>\<open>releaseSeats\<close> returns, every row
  of the seats is \<open>AVAILABLE\<close>, the caller's open holds on them are closed with the given reason, the
  caller has no lock on them any more, and nobody else's lock has changed.  When it throws, the
  tables are either unchanged or completely updated.
\<close>

theorem releaseSeats_effect:
  assumes "seat_world E vw" "seat_ok (vw w)"
    and "hs_releaseSeats (holdService E) e ss u reason w = (r, w')"
  shows "(inventory (vw w') = inventory (vw w) \<and> seat_holds (vw w') = seat_holds (vw w) \<and> r \<noteq> Inr () \<or>
      inventory (vw w') = mark e ss AVAILABLE (inventory (vw w)) \<and>
      seat_holds (vw w') = closed_holds e ss u reason (clock (vw w)) (seat_holds (vw w))) \<and>
    (\<forall>k. kv (vw w') k = kv (vw w) k \<or>
       kv (vw w') k = None \<and> (\<exists>s\<in>set ss. k = lock_key e s \<and> lock_owner (vw w) e s = Some u)) \<and>
    (r = Inr () \<longrightarrow> (\<forall>s\<in>set ss. lock_owner (vw w') e s \<noteq> Some u \<and>
       hash (vw w') (status_key e) s = Some (Raw ''available'')))"
  using close_effect [OF releaseSeats_runs [OF assms]] by simp

theorem releaseSeats_effect_witness:
  "\<exists>w'. hs_releaseSeats (holdService mem_seat_env) ''e1'' [''A1''] ''u1'' USER_CANCEL locked_seats = (Inr (), w') \<and>
     lock_owner (seat_view w') ''e1'' ''A1'' \<noteq> Some ''u1''"
proof -
  have "returns (hs_releaseSeats (holdService mem_seat_env) ''e1'' [''A1''] ''u1'' USER_CANCEL) locked_seats"
    by code_simp
  then obtain w' where run:
    "hs_releaseSeats (holdService mem_seat_env) ''e1'' [''A1''] ''u1'' USER_CANCEL locked_seats = (Inr (), w')"
    by (rule returnsE) simp
  show ?thesis
    using releaseSeats_effect [OF mem_seats.seat_world_axioms locked_ok run] run by simp
qed

text \<open>
  C40.  \<^verbatim>\<open>releaseSeats\<close> checks neither the holder nor the status: a user who holds nothing can put a seat
  that is \<open>SOLD\<close> back on sale.
\<close>

theorem releaseSeats_frees_sold_seat:
  "case hs_releaseSeats (holdService mem_seat_env) ''e1'' [''A3''] ''stranger'' USER_CANCEL demo_seats of
     (r, w') \<Rightarrow> r = Inr () \<and>
       map_option inv_status (seat_row (seat_view demo_seats) ''e1'' ''A3'') = Some SOLD \<and>
       map_option inv_status (seat_row (seat_view w') ''e1'' ''A3'') = Some AVAILABLE"
  by code_simp

section \<open>Consistency of the service's state\<close>

text \<open>
  C10.  The invariant: primary keys are distinct, there is at most one row per event and seat, and lock
  keys are strings; it is kept by holding, releasing and selling in every outcome.
\<close>

theorem hold_service_invariant:
  assumes "seat_world E vw" "seat_ok (vw w)"
    and "hs_holdSeats (holdService E) e ss u sid w = (r1, w1)"
    and "hs_releaseSeats (holdService E) e ss u reason w = (r2, w2)"
    and "hs_markAsSold (holdService E) e ss u w = (r3, w3)"
  shows "seat_ok (vw w1) \<and> seat_ok (vw w2) \<and> seat_ok (vw w3)"
  using seat_ok_hold [OF holdSeats_runs [OF assms(1-3)]] seat_ok_close [OF releaseSeats_runs [OF assms(1,2,4)]]
    seat_ok_close [OF markAsSold_runs [OF assms(1,2,5)]] assms(2) by simp

theorem hold_service_invariant_witness:
  "seat_ok (seat_view (snd (hs_holdSeats (holdService mem_seat_env) ''e1'' [''A1''] ''u1'' ''s1'' demo_seats)))"
proof -
  obtain r1 w1 where "hs_holdSeats (holdService mem_seat_env) ''e1'' [''A1''] ''u1'' ''s1'' demo_seats = (r1, w1)"
    by fastforce
  moreover obtain r2 w2 where "hs_releaseSeats (holdService mem_seat_env) ''e1'' [''A1''] ''u1'' ADMIN demo_seats = (r2, w2)"
    by fastforce
  moreover obtain r3 w3 where "hs_markAsSold (holdService mem_seat_env) ''e1'' [''A1''] ''u1'' demo_seats = (r3, w3)"
    by fastforce
  ultimately show ?thesis
    using hold_service_invariant [OF mem_seats.seat_world_axioms demo_ok] by simp
qed

lemma cache_synced_cong:
  "cache_synced v e \<Longrightarrow> inventory v' = inventory v \<Longrightarrow> hash v' = hash v \<Longrightarrow> cache_synced v' e"
  by (simp add: cache_synced_def db_status_def db_detail_def seat_row_def)

text \<open>
  The write side keeps the read model: when the hashes of an event agree with the table, they still
  do after a hold that returns, and after releasing or selling existing seats.
\<close>

theorem hold_service_keeps_cache:
  assumes "seat_world E vw" "seat_ok (vw w)" "cache_synced (vw w) e'"
    and "hs_holdSeats (holdService E) e ss u sid w = (Inr res, w1)"
    and "\<forall>s\<in>set ss'. seat_row (vw w) e s \<noteq> None"
    and "hs_releaseSeats (holdService E) e ss' u reason w = (Inr (), w2)"
    and "hs_markAsSold (holdService E) e ss' u w = (Inr (), w3)"
  shows "cache_synced (vw w1) e' \<and> cache_synced (vw w2) e' \<and> cache_synced (vw w3) e'"
proof -
  have frame: "cache_synced (set_status e zs st v') e'"
    if "\<forall>s\<in>set zs. seat_row (vw w) e s \<noteq> None" "inventory v' = mark e zs st (inventory (vw w))"
      "hash v' = hash (vw w)" for zs st v'
    by (rule cache_synced_cong [OF mark_synced [OF assms(3) that(1), of st]])
      (use that(2,3) in \<open>auto simp: fun_eq_iff hash_set_status\<close>)
  obtain hs where "holdable (vw w) e ss" "vw w1 = set_status e ss HELD (held_state e ss u sid hs (vw w))"
    using holdSeats_runs [OF assms(1,2,4)] by (auto simp: holdSeats_spec_def)
  then have "cache_synced (vw w1) e'"
    by (auto simp: holdable_def held_state_def intro!: frame)
  moreover have "cache_synced (vw w2) e'" "cache_synced (vw w3) e'"
    using releaseSeats_runs [OF assms(1,2,6)] markAsSold_runs [OF assms(1,2,7)] assms(5)
    by (auto simp: close_spec_def Let_def unlocked_def closed_rows_def intro!: frame)
  ultimately show ?thesis by simp
qed

definition warm_seats :: seat_mem where
  "warm_seats = snd (rebuildCache mem_seat_env ''e1'' demo_seats)"

lemma warm_facts: "seat_ok (seat_view warm_seats)" "cache_synced (seat_view warm_seats) ''e1''"
proof -
  have "returns (rebuildCache mem_seat_env ''e1'') demo_seats"
    by code_simp
  then have "rebuildCache mem_seat_env ''e1'' demo_seats = (Inr (), warm_seats)"
    unfolding warm_seats_def by (rule returnsE) simp
  from obeysD [OF mem_seats.rebuildCache_law this]
  have w: "seat_view warm_seats = refreshed ''e1'' (seat_view demo_seats)"
    by (simp add: demo_unique)
  have some: "\<exists>r\<in>set (inventory (seat_view demo_seats)). inv_eventId r = ''e1''"
    by code_simp
  show "cache_synced (seat_view warm_seats) ''e1''"
    unfolding w by (rule refreshed_synced [OF some])
  show "seat_ok (seat_view warm_seats)"
    using demo_ok unfolding w by (auto simp: refreshed_def seat_ok_def seat_wf_def locks_are_strings_def locks_are_json_def)
qed

theorem hold_service_keeps_cache_witness:
  "cache_synced (seat_view (snd (hs_holdSeats (holdService mem_seat_env) ''e1'' [''A1''] ''u1'' ''s1'' warm_seats))) ''e1''"
proof -
  have "returns (hs_holdSeats (holdService mem_seat_env) ''e1'' [''A1''] ''u1'' ''s1'') warm_seats"
    by code_simp
  then obtain res w1 where run1:
    "hs_holdSeats (holdService mem_seat_env) ''e1'' [''A1''] ''u1'' ''s1'' warm_seats = (Inr res, w1)"
    by (rule returnsE)
  have "returns (hs_releaseSeats (holdService mem_seat_env) ''e1'' [''A2''] ''u1'' ADMIN) warm_seats"
    by code_simp
  then obtain w2 where run2:
    "hs_releaseSeats (holdService mem_seat_env) ''e1'' [''A2''] ''u1'' ADMIN warm_seats = (Inr (), w2)"
    by (rule returnsE) simp
  have "returns (hs_markAsSold (holdService mem_seat_env) ''e1'' [''A2''] ''u1'') warm_seats"
    by code_simp
  then obtain w3 where run3: "hs_markAsSold (holdService mem_seat_env) ''e1'' [''A2''] ''u1'' warm_seats = (Inr (), w3)"
    by (rule returnsE) simp
  have "\<forall>s\<in>set [''A2'']. seat_row (seat_view warm_seats) ''e1'' s \<noteq> None"
    by code_simp
  then show ?thesis
    using hold_service_keeps_cache [OF mem_seats.seat_world_axioms warm_facts run1 _ run2 run3] run1 by simp
qed

text \<open>
  A hold before the first read leaves the read model incomplete for good: the hash of the event then
  has an entry for the held seat only, so it is not empty and is never rebuilt, and the listing
  shows one of the three seats of the event.
\<close>

theorem hold_before_first_read_hides_seats:
  "case hs_holdSeats (holdService mem_seat_env) ''e1'' [''A1''] ''u1'' ''s1'' demo_seats of
     (r1, w1) \<Rightarrow> case getEventSeatsWithStatus mem_seat_env ''e1'' w1 of
       (r2, w2) \<Rightarrow> r2 = Inr [\<lparr>sv_detail = [], sv_status = Raw ''held''\<rparr>] \<and>
         length (event_rows (seat_view w2) ''e1'') = 3"
  by code_simp

end
