(* ===== verification/Hold_Expiry.thy ===== *)
theory Hold_Expiry
  imports Hold_Properties
begin

text \<open>
  \<^verbatim>\<open>HoldExpiryWorker\<close> (hold/hold-expiry.worker.ts): every ten seconds, the open holds whose time is
  over are grouped by event and user and released.  The worker object has a flag against
  overlapping runs.
\<close>

section \<open>Operations\<close>

definition expired_hold :: "int \<Rightarrow> SeatHold \<Rightarrow> bool" where
  "expired_hold now h \<longleftrightarrow> hold_expiresAt h < now \<and> hold_releasedAt h = None"

definition group_key :: "SeatHold \<Rightarrow> string" where
  "group_key hold = hold_eventId hold @ '':'' @ hold_userId hold"

definition add_to_group :: "(string \<times> SeatHold list) list \<Rightarrow> SeatHold \<Rightarrow> (string \<times> SeatHold list) list" where
  "add_to_group grouped hold =
     (let key = group_key hold;
          grouped = (if key \<in> fst ` set grouped then grouped else grouped @ [(key, [])])
      in map (\<lambda>(k, holds). (k, if k = key then holds @ [hold] else holds)) grouped)"

definition group_holds :: "SeatHold list \<Rightarrow> (string \<times> SeatHold list) list" where
  "group_holds holds = foldl add_to_group [] holds"

definition expire_holds :: "'w seat_env \<Rightarrow> 'w HoldService \<Rightarrow> ('w, unit) act" where
  "expire_holds E H =
     await (seatNow E) (\<lambda>now.
     await (repo_find (holdRepo E) (expired_hold now)) (\<lambda>expiredHolds.
     if length expiredHolds = 0 then return ()
     else for_each (group_holds expiredHolds) (\<lambda>(key, holds).
       let eventId = hold_eventId (hd holds); userId = hold_userId (hd holds);
           seatIds = map hold_seatId holds
       in try_catch (hs_releaseSeats H eventId seatIds userId TIMEOUT) (\<lambda>error. return ()))))"

definition processExpiredHolds :: "'w seat_env \<Rightarrow> 'w HoldService \<Rightarrow> ('w \<times> bool, unit) act" where
  "processExpiredHolds E H =
     await get_flag (\<lambda>isProcessing. if isProcessing then return () else
     await (set_flag True) (\<lambda>_. try_finally (on_world (expire_holds E H)) (set_flag False)))"

section \<open>Grouping\<close>

lemma map_of_add_to_group:
  "map_of (add_to_group gs h) k =
     (if k = group_key h then Some ((case map_of gs k of Some hs \<Rightarrow> hs | None \<Rightarrow> []) @ [h]) else map_of gs k)"
proof (cases "map_of gs (group_key h)")
  case None
  then have "group_key h \<notin> fst ` set gs" by (simp add: map_of_eq_None_iff)
  with None show ?thesis
    by (cases "map_of gs k") (auto simp: add_to_group_def Let_def map_of_update_key map_add_def)
next
  case (Some hs)
  then have "group_key h \<in> fst ` set gs" by (metis map_of_eq_None_iff option.distinct(1))
  with Some show ?thesis
    by (cases "map_of gs k") (auto simp: add_to_group_def Let_def map_of_update_key)
qed

lemma group_holds_keys: "distinct (map fst (group_holds hs))"
proof -
  have fst_pair: "fst \<circ> (\<lambda>(k, x). (k, f k x)) = fst" for f :: "string \<Rightarrow> SeatHold list \<Rightarrow> SeatHold list"
    by auto
  have "map fst (add_to_group gs h) =
      (if group_key h \<in> set (map fst gs) then map fst gs else map fst gs @ [group_key h])" for gs h
    by (simp add: add_to_group_def Let_def fst_pair)
  then have "distinct (map fst gs) \<Longrightarrow> distinct (map fst (add_to_group gs h))" for gs h
    by simp
  then have "distinct (map fst (foldl add_to_group gs hs))" if "distinct (map fst gs)" for gs
    using that by (induction hs arbitrary: gs) auto
  then show ?thesis by (simp add: group_holds_def)
qed

lemma map_of_group_holds:
  "map_of (group_holds hs) k =
     (if \<exists>h\<in>set hs. group_key h = k then Some (filter (\<lambda>h. group_key h = k) hs) else None)"
  unfolding group_holds_def
proof (induction hs arbitrary: k rule: rev_induct)
  case (snoc h hs)
  have "filter (\<lambda>h. group_key h = k) hs = []" if "\<forall>h\<in>set hs. group_key h \<noteq> k"
    using that by (simp add: filter_empty_conv)
  then show ?case
    using snoc.IH [of k] by (auto simp: map_of_add_to_group)
qed simp

lemma group_holds_mem:
  "(k, xs) \<in> set (group_holds hs) \<longleftrightarrow> xs = filter (\<lambda>h. group_key h = k) hs \<and> xs \<noteq> []"
proof -
  have "(k, xs) \<in> set (group_holds hs) \<longleftrightarrow> map_of (group_holds hs) k = Some xs"
    using group_holds_keys by (simp add: map_of_eq_Some_iff)
  also have "\<dots> \<longleftrightarrow> xs = filter (\<lambda>h. group_key h = k) hs \<and> xs \<noteq> []"
    by (auto simp: map_of_group_holds filter_empty_conv)
  finally show ?thesis .
qed

text \<open>With event ids free of colons, a group is the holds of one user in one event.\<close>

lemma group_key_eq:
  assumes "CHR '':'' \<notin> set (hold_eventId h)" "CHR '':'' \<notin> set (hold_eventId h')"
  shows "group_key h = group_key h' \<longleftrightarrow> hold_eventId h = hold_eventId h' \<and> hold_userId h = hold_userId h'"
  using append_separator_inj [OF assms] by (auto simp: group_key_def)

section \<open>The effect of a run\<close>

definition in_group :: "string \<times> SeatHold list \<Rightarrow> SeatHold \<Rightarrow> bool" where
  "in_group g h \<longleftrightarrow> open_hold (hold_eventId (hd (snd g))) (hold_userId (hd (snd g))) h \<and>
     hold_seatId h \<in> set (map hold_seatId (snd g))"

definition close_in_group :: "int \<Rightarrow> string \<times> SeatHold list \<Rightarrow> SeatHold \<Rightarrow> SeatHold" where
  "close_in_group now g h =
     (if in_group g h then h\<lparr>hold_releasedAt := Some now, hold_releaseReason := Some TIMEOUT\<rparr> else h)"

definition free_in_group :: "string \<times> SeatHold list \<Rightarrow> SeatInventory \<Rightarrow> SeatInventory" where
  "free_in_group g r = (if in_seats (hold_eventId (hd (snd g))) (map hold_seatId (snd g)) r
     then r\<lparr>inv_status := AVAILABLE\<rparr> else r)"

lemma closed_in_group:
  "closed_holds (hold_eventId (hd (snd g))) (map hold_seatId (snd g)) (hold_userId (hd (snd g))) TIMEOUT now t =
     map (close_in_group now g) t"
  by (auto simp: closed_holds_def close_in_group_def in_group_def intro!: map_cong)

lemma freed_in_group:
  "mark (hold_eventId (hd (snd g))) (map hold_seatId (snd g)) AVAILABLE t = map (free_in_group g) t"
  by (auto simp: mark_def free_in_group_def intro!: map_cong)

lemma fold_close_in_group:
  "fold (close_in_group now) gs h =
     (if \<exists>g\<in>set gs. in_group g h then h\<lparr>hold_releasedAt := Some now, hold_releaseReason := Some TIMEOUT\<rparr> else h)"
proof (induction gs arbitrary: h)
  case (Cons g gs)
  have "\<not> in_group g' (h\<lparr>hold_releasedAt := Some now, hold_releaseReason := Some TIMEOUT\<rparr>)" for g'
    by (simp add: in_group_def open_hold_def)
  then show ?case
    using Cons.IH by (auto simp: close_in_group_def)
qed simp

lemma fold_free_in_group:
  "fold free_in_group gs r =
     (if \<exists>g\<in>set gs. in_seats (hold_eventId (hd (snd g))) (map hold_seatId (snd g)) r
      then r\<lparr>inv_status := AVAILABLE\<rparr> else r)"
  by (induction gs arbitrary: r) (auto simp: free_in_group_def in_seats_def)

definition expired_like :: "int \<Rightarrow> SeatHold list \<Rightarrow> SeatHold \<Rightarrow> bool" where
  "expired_like now t h \<longleftrightarrow> hold_releasedAt h = None \<and>
     (\<exists>x\<in>set t. expired_hold now x \<and> hold_eventId x = hold_eventId h \<and> hold_userId x = hold_userId h \<and>
        hold_seatId x = hold_seatId h)"

definition expired_seat :: "int \<Rightarrow> SeatHold list \<Rightarrow> SeatInventory \<Rightarrow> bool" where
  "expired_seat now t r \<longleftrightarrow>
     (\<exists>x\<in>set t. expired_hold now x \<and> hold_eventId x = inv_eventId r \<and> hold_seatId x = inv_seatId r)"

lemma group_members:
  assumes "\<forall>h\<in>set t. CHR '':'' \<notin> set (hold_eventId h)" "set xs \<subseteq> set t" "g \<in> set (group_holds xs)"
  shows "snd g \<noteq> []" "set (snd g) \<subseteq> set xs"
    "h \<in> set (snd g) \<Longrightarrow> hold_eventId (hd (snd g)) = hold_eventId h \<and> hold_userId (hd (snd g)) = hold_userId h"
proof -
  obtain k hs where g: "g = (k, hs)" by (cases g)
  then have hs: "hs = filter (\<lambda>h. group_key h = k) xs" "hs \<noteq> []"
    using assms(3) group_holds_mem [of k hs xs] by auto
  then show "snd g \<noteq> []" "set (snd g) \<subseteq> set xs" using g by auto
  assume "h \<in> set (snd g)"
  moreover have "hd hs \<in> set hs" using hs(2) by simp
  ultimately have "group_key (hd hs) = group_key h" "hd hs \<in> set t" "h \<in> set t"
    using hs(1) g assms(2) by auto
  then show "hold_eventId (hd (snd g)) = hold_eventId h \<and> hold_userId (hd (snd g)) = hold_userId h"
    using group_key_eq [of "hd hs" h] assms(1) g by simp
qed

lemma in_groups_iff:
  assumes "\<forall>h\<in>set t. CHR '':'' \<notin> set (hold_eventId h)" "set xs = {h \<in> set t. expired_hold now h}"
  shows "(\<exists>g\<in>set (group_holds xs). in_group g h) \<longleftrightarrow> expired_like now t h"
    and "(\<exists>g\<in>set (group_holds xs). in_seats (hold_eventId (hd (snd g))) (map hold_seatId (snd g)) r) \<longleftrightarrow>
      expired_seat now t r"
proof -
  have sub: "set xs \<subseteq> set t" using assms(2) by auto
  note mem = group_members [OF assms(1) sub]
  have own: "\<exists>g\<in>set (group_holds xs). x \<in> set (snd g)" if "x \<in> set xs" for x
    using that group_holds_mem [of "group_key x" "filter (\<lambda>h. group_key h = group_key x) xs" xs]
    by (force simp: filter_empty_conv)
  show "(\<exists>g\<in>set (group_holds xs). in_group g h) \<longleftrightarrow> expired_like now t h"
  proof
    assume "\<exists>g\<in>set (group_holds xs). in_group g h"
    then obtain g x where g: "g \<in> set (group_holds xs)" "in_group g h" "x \<in> set (snd g)" "hold_seatId x = hold_seatId h"
      by (auto simp: in_group_def)
    then have "x \<in> set t" "expired_hold now x" "hold_eventId x = hold_eventId h" "hold_userId x = hold_userId h"
        "hold_releasedAt h = None"
      using mem(2) [OF g(1)] mem(3) [OF g(1,3)] assms(2) by (auto simp: in_group_def open_hold_def)
    then show "expired_like now t h"
      using g(4) by (auto simp: expired_like_def)
  next
    assume "expired_like now t h"
    then obtain x where x: "x \<in> set xs" "hold_eventId x = hold_eventId h" "hold_userId x = hold_userId h"
        "hold_seatId x = hold_seatId h" "hold_releasedAt h = None"
      using assms(2) by (auto simp: expired_like_def)
    then obtain g where "g \<in> set (group_holds xs)" "x \<in> set (snd g)" using own by blast
    moreover from this have "in_group g h"
      using x mem(3) [of g x] by (auto simp: in_group_def open_hold_def intro: image_eqI [of _ _ x])
    ultimately show "\<exists>g\<in>set (group_holds xs). in_group g h" by blast
  qed
  show "(\<exists>g\<in>set (group_holds xs). in_seats (hold_eventId (hd (snd g))) (map hold_seatId (snd g)) r) \<longleftrightarrow>
      expired_seat now t r"
  proof
    assume "\<exists>g\<in>set (group_holds xs). in_seats (hold_eventId (hd (snd g))) (map hold_seatId (snd g)) r"
    then obtain g x where g: "g \<in> set (group_holds xs)" "x \<in> set (snd g)" "hold_seatId x = inv_seatId r"
        "hold_eventId (hd (snd g)) = inv_eventId r"
      by (auto simp: in_seats_def)
    then have "x \<in> set t" "expired_hold now x" "hold_eventId x = inv_eventId r"
      using mem(2) [OF g(1)] mem(3) [OF g(1,2)] assms(2) by auto
    then show "expired_seat now t r"
      using g(3) by (auto simp: expired_seat_def)
  next
    assume "expired_seat now t r"
    then obtain x where x: "x \<in> set xs" "hold_eventId x = inv_eventId r" "hold_seatId x = inv_seatId r"
      using assms(2) by (auto simp: expired_seat_def)
    then obtain g where "g \<in> set (group_holds xs)" "x \<in> set (snd g)" using own by blast
    then show "\<exists>g\<in>set (group_holds xs). in_seats (hold_eventId (hd (snd g))) (map hold_seatId (snd g)) r"
      using x mem(3) [of g x] by (force simp: in_seats_def)
  qed
qed

context seat_world
begin

lemma expire_holds_wp:
  assumes ok: "seat_ok (vw w)" and calm: "calm (vw w)"
    and ids: "\<forall>h\<in>set (seat_holds (vw w)). CHR '':'' \<notin> set (hold_eventId h)"
  shows "wp (expire_holds E (holdService E)) (\<lambda>r w'. r = Inr () \<and> seat_ok (vw w') \<and>
      seat_holds (vw w') = map (\<lambda>h. if expired_like (clock (vw w)) (seat_holds (vw w)) h
        then h\<lparr>hold_releasedAt := Some (clock (vw w)), hold_releaseReason := Some TIMEOUT\<rparr> else h) (seat_holds (vw w)) \<and>
      inventory (vw w') = map (\<lambda>row. if expired_seat (clock (vw w)) (seat_holds (vw w)) row
        then row\<lparr>inv_status := AVAILABLE\<rparr> else row) (inventory (vw w))) w"
proof -
  define t now where "t = seat_holds (vw w)" and "now = clock (vw w)"
  define J where "J = (\<lambda>gs w1. seat_ok (vw w1) \<and> calm (vw w1) \<and> clock (vw w1) = now \<and>
    seat_holds (vw w1) = map (fold (close_in_group now) gs) t \<and>
    inventory (vw w1) = map (fold free_in_group gs) (inventory (vw w)))"
  have step: "wp (try_catch (hs_releaseSeats (holdService E) (hold_eventId (hd hs)) (map hold_seatId hs)
        (hold_userId (hd hs)) TIMEOUT) (\<lambda>error. return ()))
      (\<lambda>r w'. case r of Inl x \<Rightarrow> False | Inr _ \<Rightarrow> J (gs @ [(k, hs)]) w') w1"
    if j: "J gs w1" for gs k hs w1
    unfolding wp_simps
  proof (rule wp_obeys [OF service_releaseSeats], goal_cases)
    case (1 r w2)
    let ?e = "hold_eventId (hd hs)" and ?u = "hold_userId (hd hs)" and ?ss = "map hold_seatId hs"
    have spec: "close_spec ?e ?ss ?u TIMEOUT AVAILABLE (vw w1) r (vw w2)" and ok1: "seat_ok (vw w1)"
      using 1 j by (auto simp: J_def)
    have r: "r = Inr ()"
      using spec j by (auto simp: close_spec_def Let_def J_def seat_ok_def split: sum.splits)
    then have "vw w2 = set_status ?e ?ss AVAILABLE (unlocked ?e (owned_seats (vw w1) ?e ?ss ?u)
        (closed_rows ?e ?ss ?u TIMEOUT AVAILABLE (vw w1)))"
      using spec by (simp add: close_spec_def Let_def)
    moreover have "seat_ok (vw w2)" by (rule seat_ok_close [OF spec ok1])
    ultimately show ?case
      using r j closed_in_group [of "(k, hs)"] freed_in_group [of "(k, hs)"]
      by (auto simp: J_def unlocked_def closed_rows_def)
  qed
  show ?thesis
    unfolding expire_holds_def wp_await
  proof (rule wp_obeys [OF now_law], goal_cases)
    case (1 r0 w0)
    then have r0: "r0 = Inr now" "vw w0 = vw w" by (simp_all add: now_def)
    show ?case
      unfolding r0(1) sum.case wp_await
    proof (rule wp_fallible [OF hold.find_law], goal_cases)
      case (1 m w1)
      then show ?case using calm r0(2) by simp
    next
      case (2 xs w1)
      then have xs: "set xs = {h \<in> set t. expired_hold now h}" and w1: "vw w1 = vw w"
        using mset_all_iff [of xs "expired_hold now" t] r0(2) by (simp_all add: t_def)
      have groups: "(\<exists>g\<in>set (group_holds xs). in_group g h) \<longleftrightarrow> expired_like now t h"
          "(\<exists>g\<in>set (group_holds xs). in_seats (hold_eventId (hd (snd g))) (map hold_seatId (snd g)) row) \<longleftrightarrow>
            expired_seat now t row" for h row
        using in_groups_iff [OF ids [folded t_def] xs] by simp_all
      have none: "group_holds xs = []" if "xs = []"
        using that by (simp add: group_holds_def)
      have "wp (for_each (group_holds xs) (\<lambda>(key, holds). let eventId = hold_eventId (hd holds);
            userId = hold_userId (hd holds); seatIds = map hold_seatId holds
          in try_catch (hs_releaseSeats (holdService E) eventId seatIds userId TIMEOUT) (\<lambda>error. return ())))
          (\<lambda>r w'. r = Inr () \<and> J (group_holds xs) w') w1"
        by (rule wp_for_each [where I = J and X = "\<lambda>_ _. False"])
          (use ok calm w1 step in \<open>auto simp: J_def t_def now_def Let_def\<close>)
      then have "wp (if length xs = 0 then return () else for_each (group_holds xs) (\<lambda>(key, holds).
            let eventId = hold_eventId (hd holds); userId = hold_userId (hd holds); seatIds = map hold_seatId holds
            in try_catch (hs_releaseSeats (holdService E) eventId seatIds userId TIMEOUT) (\<lambda>error. return ())))
          (\<lambda>r w'. r = Inr () \<and> J (group_holds xs) w') w1"
        using none by (auto simp: wp_simps)
      then show ?case
        unfolding sum.case
        by (rule wp_mono)
          (auto simp: J_def fold_close_in_group fold_free_in_group groups t_def now_def intro!: map_cong)
    qed
  qed
qed

end

text \<open>
  C32.  While the external systems are up, a run of the expiry worker releases exactly what is over.  It
  returns; every open hold whose time is over is closed with reason \<open>TIMEOUT\<close> (and so is an open
  hold of the same user on the same seat), every other hold is untouched; every row of a seat of
  such a hold is \<open>AVAILABLE\<close>, every other row is untouched; the worker is ready for the next run.
\<close>

theorem processExpiredHolds_releases:
  assumes "seat_world E vw" "seat_ok (vw w)" "calm (vw w)"
    and "\<forall>h\<in>set (seat_holds (vw w)). CHR '':'' \<notin> set (hold_eventId h)"
    and "processExpiredHolds E (holdService E) (w, False) = (r, (w', busy))"
  shows "r = Inr () \<and> \<not> busy \<and> (\<forall>h\<in>set (seat_holds (vw w')). \<not> expired_hold (clock (vw w)) h) \<and>
    seat_holds (vw w') = map (\<lambda>h. if expired_like (clock (vw w)) (seat_holds (vw w)) h
      then h\<lparr>hold_releasedAt := Some (clock (vw w)), hold_releaseReason := Some TIMEOUT\<rparr> else h) (seat_holds (vw w)) \<and>
    inventory (vw w') = map (\<lambda>row. if expired_seat (clock (vw w)) (seat_holds (vw w)) row
      then row\<lparr>inv_status := AVAILABLE\<rparr> else row) (inventory (vw w))"
proof -
  have run: "expire_holds E (holdService E) w = (r, w')" and idle: "\<not> busy"
    using assms(5) by (auto simp: processExpiredHolds_def guarded_worker prod_eq_iff)
  note eff = wpD [OF seat_world.expire_holds_wp [OF assms(1-4)] run]
  have "\<not> expired_hold (clock (vw w)) h" if "h \<in> set (seat_holds (vw w'))" for h
    using that eff by (auto simp: expired_hold_def expired_like_def split: if_splits)
  then show ?thesis using eff idle by auto
qed

definition expiring_seats :: seat_mem where
  "expiring_seats = (snd (hs_holdSeats (holdService mem_seat_env) ''e1'' [''A1''] ''u1'' ''s1'' demo_seats))\<lparr>mem_clock := 700000\<rparr>"

theorem processExpiredHolds_releases_witness:
  "length (seat_holds (seat_view expiring_seats)) = 1 \<and>
   (case processExpiredHolds mem_seat_env (holdService mem_seat_env) (expiring_seats, False) of
      (r, (w', busy)) \<Rightarrow> r = Inr () \<and> \<not> busy \<and>
        map hold_releaseReason (seat_holds (seat_view w')) = [Some TIMEOUT])"
proof -
  obtain r w' busy where run:
    "processExpiredHolds mem_seat_env (holdService mem_seat_env) (expiring_seats, False) = (r, (w', busy))"
    by (metis prod.collapse)
  obtain r1 w1 where hold: "hs_holdSeats (holdService mem_seat_env) ''e1'' [''A1''] ''u1'' ''s1'' demo_seats = (r1, w1)"
    by fastforce
  then have "seat_ok (seat_view w1)"
    using seat_ok_hold [OF holdSeats_runs [OF mem_seats.seat_world_axioms demo_ok] demo_ok] by blast
  then have ok: "seat_ok (seat_view expiring_seats)"
    using hold by (simp add: expiring_seats_def seat_ok_def seat_wf_def locks_are_strings_def locks_are_json_def seat_view_def)
  have calm: "calm (seat_view expiring_seats)"
    and ids: "\<forall>h\<in>set (seat_holds (seat_view expiring_seats)). CHR '':'' \<notin> set (hold_eventId h)"
    and one: "length (seat_holds (seat_view expiring_seats)) = 1"
    and exp: "map (expired_like (clock (seat_view expiring_seats)) (seat_holds (seat_view expiring_seats)))
      (seat_holds (seat_view expiring_seats)) = [True]"
    by code_simp+
  show ?thesis
    using processExpiredHolds_releases [OF mem_seats.seat_world_axioms ok calm ids run] one exp run
    by (auto simp: length_Suc_conv)
qed

end
