(* ===== verification/JS_Text.thy ===== *)
theory JS_Text
  imports JS_Number
begin

text \<open>
  The text operations of JavaScript the sources use on numbers and dates:
  \<^verbatim>\<open>Number.prototype.toString(36)\<close>, \<^verbatim>\<open>String(n)\<close>, \<^verbatim>\<open>toUpperCase\<close> and \<^verbatim>\<open>toLowerCase\<close> on ASCII text,
  \<^verbatim>\<open>slice(0, n)\<close> (\<^const>\<open>take\<close>) and \<^verbatim>\<open>Date.prototype.toISOString\<close>.
\<close>

section \<open>Positional notation\<close>

definition digit :: "int \<Rightarrow> char" where
  "digit d = char_of (nat (if d < 10 then 48 + d else 87 + d))"

text \<open>The number of binary digits, which bounds the number of digits in any base.\<close>

primrec num_bits :: "num \<Rightarrow> nat" where
  "num_bits num.One = 1"
| "num_bits (num.Bit0 n) = Suc (num_bits n)"
| "num_bits (num.Bit1 n) = Suc (num_bits n)"

definition int_bits :: "int \<Rightarrow> nat" where
  "int_bits i = (if i = 0 then 0 else num_bits (num_of_nat (nat \<bar>i\<bar>)))"

lemma int_bits_numeral: "int_bits (numeral n) = num_bits n" "int_bits (- numeral n) = num_bits n"
  unfolding int_bits_def abs_minus_cancel abs_numeral nat_numeral num_of_nat_numeral_eq by simp_all

lemma int_bits_code [code]:
  "int_bits 0 = 0" "int_bits (Int.Pos n) = num_bits n" "int_bits (Int.Neg n) = num_bits n"
  unfolding Int.Pos_def Int.Neg_def int_bits_numeral by (simp_all add: int_bits_def)

lemma num_bits_bound: "numeral n < (2 :: int) ^ num_bits n"
proof (induction n)
  case One
  show ?case by simp
next
  case (Bit0 n)
  then show ?case unfolding numeral_Bit0 [of n] num_bits.simps power_Suc by linarith
next
  case (Bit1 n)
  then show ?case unfolding numeral_Bit1 [of n] num_bits.simps power_Suc by linarith
qed

lemma int_bits_bound:
  assumes "0 \<le> i"
  shows "i < 2 ^ int_bits i"
proof (cases "i = 0")
  case False
  have "numeral (num_of_nat (nat i)) = i"
    using assms False by (simp add: numeral_num_of_nat_unfold)
  then show ?thesis
    using num_bits_bound [of "num_of_nat (nat i)"] int_bits_numeral(1) [of "num_of_nat (nat i)"] by simp
qed (simp add: int_bits_def)

fun radix_upto :: "nat \<Rightarrow> int \<Rightarrow> int \<Rightarrow> string" where
  "radix_upto 0 b n = [digit n]"
| "radix_upto (Suc k) b n = (if n < b then [digit n] else radix_upto k b (n div b) @ [digit (n mod b)])"

definition radix :: "int \<Rightarrow> int \<Rightarrow> string" where
  "radix b n = radix_upto (int_bits n) b n"

definition toString :: "int \<Rightarrow> int \<Rightarrow> string" where
  "toString b n = (if n < 0 then ''-'' @ radix b (- n) else radix b n)"

definition upper :: "char \<Rightarrow> char" where
  "upper c = (let k = of_char c :: nat in if 97 \<le> k \<and> k \<le> 122 then char_of (k - 32) else c)"

definition toUpperCase :: "string \<Rightarrow> string" where
  "toUpperCase s = map upper s"

text \<open>The value of a numeral in upper case: the inverse used to read a code back.\<close>

definition digit_value :: "char \<Rightarrow> int" where
  "digit_value c = (let k = of_char c :: nat in int (if k < 58 then k - 48 else k - 55))"

definition numeral_value :: "int \<Rightarrow> string \<Rightarrow> int" where
  "numeral_value b s = foldl (\<lambda>n c. b * n + digit_value c) 0 s"

lemma digit_value_upper: "0 \<le> d \<Longrightarrow> d < 36 \<Longrightarrow> digit_value (upper (digit d)) = d"
  by (simp add: digit_value_def upper_def digit_def Let_def del: of_nat_of_char) auto

lemma upper_digit_no_dash: "0 \<le> d \<Longrightarrow> d < 36 \<Longrightarrow> upper (digit d) \<noteq> CHR ''-''"
proof
  assume d: "0 \<le> d" "d < 36" and eq: "upper (digit d) = CHR ''-''"
  have "(of_char (upper (digit d)) :: nat) = 45"
    unfolding eq by simp
  with d show False
    by (simp add: upper_def digit_def Let_def split: if_splits)
qed

lemma mod_below:
  assumes "2 \<le> b" "b \<le> (36 :: int)"
  shows "0 \<le> n mod b" "n mod b < 36"
  using pos_mod_sign [of b n] pos_mod_bound [of b n] assms by linarith+

lemma radix_upto_value:
  assumes "2 \<le> b" "b \<le> 36" "0 \<le> n" "n < 2 ^ k"
  shows "numeral_value b (toUpperCase (radix_upto k b n)) = n"
  using assms(3,4)
proof (induction k arbitrary: n)
  case 0
  then show ?case by (simp add: numeral_value_def toUpperCase_def digit_value_upper)
next
  case (Suc k)
  show ?case
  proof (cases "n < b")
    case True
    then show ?thesis
      using assms Suc.prems by (simp add: numeral_value_def toUpperCase_def digit_value_upper)
  next
    case False
    have "n div b \<le> n div 2"
      using assms(1) Suc.prems(1) by (intro zdiv_mono2) auto
    moreover have "n div 2 < 2 ^ k" using Suc.prems(2) by simp
    ultimately have "numeral_value b (toUpperCase (radix_upto k b (n div b))) = n div b"
      using Suc.prems assms(1) by (intro Suc.IH) (auto simp: pos_imp_zdiv_nonneg_iff)
    then show ?thesis
      using False mod_below [OF assms(1,2)] by (simp add: numeral_value_def toUpperCase_def digit_value_upper)
  qed
qed

lemma radix_value: "2 \<le> b \<Longrightarrow> b \<le> 36 \<Longrightarrow> 0 \<le> n \<Longrightarrow> numeral_value b (toUpperCase (radix b n)) = n"
  unfolding radix_def by (rule radix_upto_value) (auto intro: int_bits_bound)

lemma radix_upto_no_dash:
  assumes "2 \<le> b" "b \<le> 36" "0 \<le> n" "n < 2 ^ k"
  shows "CHR ''-'' \<notin> set (toUpperCase (radix_upto k b n))"
  using assms(3,4)
proof (induction k arbitrary: n)
  case 0
  then show ?case
    using upper_digit_no_dash [of n] by (simp add: toUpperCase_def)
next
  case (Suc k)
  show ?case
  proof (cases "n < b")
    case True
    then show ?thesis
      using assms Suc.prems upper_digit_no_dash [of n] by (simp add: toUpperCase_def)
  next
    case False
    have "n div b \<le> n div 2"
      using assms(1) Suc.prems(1) by (intro zdiv_mono2) auto
    moreover have "n div 2 < 2 ^ k" using Suc.prems(2) by simp
    ultimately have "CHR ''-'' \<notin> set (toUpperCase (radix_upto k b (n div b)))"
      using Suc.prems assms(1) by (intro Suc.IH) (auto simp: pos_imp_zdiv_nonneg_iff)
    then show ?thesis
      using False upper_digit_no_dash [OF mod_below [OF assms(1,2)], of n] by (simp add: toUpperCase_def)
  qed
qed

lemma radix_no_dash: "2 \<le> b \<Longrightarrow> b \<le> 36 \<Longrightarrow> 0 \<le> n \<Longrightarrow> CHR ''-'' \<notin> set (toUpperCase (radix b n))"
  unfolding radix_def by (rule radix_upto_no_dash) (auto intro: int_bits_bound)

section \<open>Dates\<close>

text \<open>The civil date of a day number counted from 1970-01-01, in the proleptic Gregorian calendar.\<close>

definition civil :: "int \<Rightarrow> int \<times> int \<times> int" where
  "civil days =
     (let z = days + 719468; era = z div 146097; doe = z mod 146097;
          yoe = (doe - doe div 1460 + doe div 36524 - doe div 146096) div 365;
          doy = doe - (365 * yoe + yoe div 4 - yoe div 100);
          mp = (5 * doy + 2) div 153;
          d = doy - (153 * mp + 2) div 5 + 1;
          m = (if mp < 10 then mp + 3 else mp - 9);
          y = yoe + era * 400 + (if m \<le> 2 then 1 else 0)
      in (y, m, d))"

definition padded :: "nat \<Rightarrow> int \<Rightarrow> string" where
  "padded n x = (let s = radix 10 \<bar>x\<bar> in replicate (n - length s) CHR ''0'' @ s)"

definition year_text :: "int \<Rightarrow> string" where
  "year_text y = (if 0 \<le> y \<and> y \<le> 9999 then padded 4 y
     else (if y < 0 then ''-'' else ''+'') @ padded 6 y)"

text \<open>\<^verbatim>\<open>YYYY-MM-DDTHH:mm:ss.sssZ\<close> of a time in milliseconds.\<close>

definition toISOString :: "int \<Rightarrow> string" where
  "toISOString t =
     (let (y, m, d) = civil (t div 86400000); r = t mod 86400000 in
      year_text y @ ''-'' @ padded 2 m @ ''-'' @ padded 2 d @ ''T'' @
      padded 2 (r div 3600000) @ '':'' @ padded 2 (r div 60000 mod 60) @ '':'' @
      padded 2 (r div 1000 mod 60) @ ''.'' @ padded 3 (r mod 1000) @ ''Z'')"

lemma toString_timestamp: "toUpperCase (toString 36 1709210096789) = ''LT77K785''"
  by code_simp

lemma toISOString_epoch: "toISOString 0 = ''1970-01-01T00:00:00.000Z''"
  by code_simp

lemma toISOString_leap_day: "toISOString 1709210096789 = ''2024-02-29T12:34:56.789Z''"
  by code_simp

section \<open>Numbers as text\<close>

definition lower :: "char \<Rightarrow> char" where
  "lower c = (let k = of_char c :: nat in if 65 \<le> k \<and> k \<le> 90 then char_of (k + 32) else c)"

definition toLowerCase :: "string \<Rightarrow> string" where
  "toLowerCase s = map lower s"

text \<open>
  \<^verbatim>\<open>String(n)\<close>: the shortest decimal that reads back as the number, in positional notation between
  \<open>10 ^ -7\<close> and \<open>10 ^ 21\<close> and in exponent notation outside.  \<open>dec_exp\<close> finds the decimal exponent; its
  fuel covers the exponents of binary64 numbers.
\<close>

definition pow10 :: "int \<Rightarrow> rat" where
  "pow10 e = (if 0 \<le> e then 10 ^ nat e else 1 / 10 ^ nat (- e))"

fun dec_exp :: "nat \<Rightarrow> rat \<Rightarrow> int" where
  "dec_exp 0 x = 0"
| "dec_exp (Suc k) x = (if 10 \<le> x then 1 + dec_exp k (x / 10) else if x < 1 then dec_exp k (x * 10) - 1 else 0)"

fun shortest :: "nat \<Rightarrow> int \<Rightarrow> int \<Rightarrow> rat \<Rightarrow> int" where
  "shortest 0 p e x = round_even (x / pow10 (e - p + 1))"
| "shortest (Suc k) p e x =
     (let m = round_even (x / pow10 (e - p + 1)) in
      if fl64 (of_int m * pow10 (e - p + 1)) = x then m else shortest k (p + 1) e x)"

definition decimal_text :: "rat \<Rightarrow> string" where
  "decimal_text x =
     (let e = dec_exp 400 x; ds = radix 10 (shortest 16 1 e x); k = length ds; n = e + 1
      in if int k \<le> n \<and> n \<le> 21 then ds @ replicate (nat n - k) CHR ''0''
         else if 0 < n \<and> n \<le> 21 then take (nat n) ds @ ''.'' @ drop (nat n) ds
         else if - 6 < n \<and> n \<le> 0 then ''0.'' @ replicate (nat (- n)) CHR ''0'' @ ds
         else (if k = 1 then ds else take 1 ds @ ''.'' @ drop 1 ds) @ ''e'' @
           (if 0 < e then ''+'' else ''-'') @ radix 10 \<bar>e\<bar>)"

fun number_text :: "js_number \<Rightarrow> string" where
  "number_text NaN = ''NaN''"
| "number_text (Fin x) = (if x = 0 then ''0'' else if x < 0 then ''-'' @ decimal_text (- x) else decimal_text x)"

lemma number_text_examples:
  "number_text (Fin 150) = ''150''" "number_text (Fin (fl64 (1995 / 100))) = ''19.95''"
  "number_text (Fin (fl64 (1 / 10))) = ''0.1''"
  by code_simp+

text \<open>Hexadecimal digits, as in digests and object ids.\<close>

definition is_hex :: "char \<Rightarrow> bool" where
  "is_hex c \<longleftrightarrow> c \<in> set ''0123456789abcdef''"

end
