(* ===== verification/Seat_Controllers.thy ===== *)
theory Seat_Controllers
  imports Hold_Expiry JS_Text
begin

text \<open>
  The entry points of the seat-inventory service: \<^verbatim>\<open>InventoryGrpcController\<close>
  (inventory/inventory.grpc-controller.ts), \<^verbatim>\<open>HoldController\<close> (hold/hold.controller.ts) and
  \<^verbatim>\<open>InventoryController\<close> (inventory/inventory.controller.ts).  The controllers are constructed with the
  inventory service \<open>Iv\<close>, the hold service \<open>H\<close>, the lock service \<open>L\<close> and the read service \<open>R\<close>.
\<close>

section \<open>The gRPC controller\<close>

record SeatMessage =
  sm_id :: string
  sm_eventId :: string
  sm_seatId :: string
  sm_sectionId :: string
  sm_sectionName :: string
  sm_ticketTypeId :: string
  sm_ticketTypeName :: string
  sm_price :: string
  sm_currency :: string
  sm_row :: string
  sm_seatNumber :: string
  sm_seatType :: string
  sm_status :: string

definition seat_message :: "SeatInventory \<Rightarrow> SeatMessage" where
  "seat_message s = \<lparr>sm_id = inv_id s, sm_eventId = inv_eventId s, sm_seatId = inv_seatId s,
     sm_sectionId = inv_sectionId s, sm_sectionName = inv_sectionName s,
     sm_ticketTypeId = inv_ticketTypeId s, sm_ticketTypeName = inv_ticketTypeName s,
     sm_price = inv_price s, sm_currency = inv_currency s, sm_row = inv_row s,
     sm_seatNumber = inv_seatNumber s, sm_seatType = inv_seatType s, sm_status = status_text (inv_status s)\<rparr>"

definition grpc_getSeatsByEvent :: "'w InventoryService \<Rightarrow> string \<Rightarrow> ('w, SeatMessage list) act" where
  "grpc_getSeatsByEvent Iv eventId =
     await (ivs_findByEventId Iv eventId) (\<lambda>seats. return (map seat_message seats))"

definition grpc_getAvailableSeats :: "'w InventoryService \<Rightarrow> string \<Rightarrow> ('w, SeatInventory list) act" where
  "grpc_getAvailableSeats Iv eventId = ivs_getAvailability Iv eventId"

text \<open>\<^verbatim>\<open>!lock || lock.userId !== userId\<close>.\<close>

definition lock_of_user :: "string \<Rightarrow> json option \<Rightarrow> bool" where
  "lock_of_user userId lock = (case lock of None \<Rightarrow> False
     | Some d \<Rightarrow> truthy d \<and> json_get d ''userId'' = Some (JStr userId))"

primrec grpc_verifyHold :: "'w SeatLockService \<Rightarrow> string \<Rightarrow> string list \<Rightarrow> string \<Rightarrow> ('w, bool) act" where
  "grpc_verifyHold L eventId [] userId = return True"
| "grpc_verifyHold L eventId (seatId # seatIds) userId =
     await (sls_getLockInfo L eventId seatId) (\<lambda>lock.
     if \<not> lock_of_user userId lock then return False
     else grpc_verifyHold L eventId seatIds userId)"

record HoldSeatsReply =
  hsr_success :: bool
  hsr_holdIds :: "string list"
  hsr_expiresAt :: string
  hsr_failedSeatIds :: "string list"

definition grpc_holdSeats ::
  "'w HoldService \<Rightarrow> string \<Rightarrow> string list \<Rightarrow> string \<Rightarrow> string \<Rightarrow> ('w, HoldSeatsReply) act" where
  "grpc_holdSeats H eventId seatIds userId sessionId =
     try_catch
       (await (hs_holdSeats H eventId seatIds userId sessionId) (\<lambda>result.
        return \<lparr>hsr_success = True, hsr_holdIds = holdIds result,
          hsr_expiresAt = toISOString (expiresAt result), hsr_failedSeatIds = []\<rparr>))
       (\<lambda>error. return \<lparr>hsr_success = False, hsr_holdIds = [], hsr_expiresAt = [],
          hsr_failedSeatIds = seatIds\<rparr>)"

definition grpc_releaseSeats ::
  "'w HoldService \<Rightarrow> string \<Rightarrow> string list \<Rightarrow> string \<Rightarrow> SeatLockReleaseReason \<Rightarrow> ('w, bool) act" where
  "grpc_releaseSeats H eventId seatIds userId reason =
     try_catch (await (hs_releaseSeats H eventId seatIds userId reason) (\<lambda>_. return True))
       (\<lambda>error. return False)"

definition grpc_markSeatsAsSold :: "'w HoldService \<Rightarrow> string \<Rightarrow> string list \<Rightarrow> string \<Rightarrow> ('w, bool) act" where
  "grpc_markSeatsAsSold H eventId seatIds userId =
     try_catch (await (hs_markAsSold H eventId seatIds userId) (\<lambda>_. return True))
       (\<lambda>error. return False)"

definition grpc_releaseSoldSeats :: "'w InventoryService \<Rightarrow> string \<Rightarrow> string list \<Rightarrow> ('w, bool) act" where
  "grpc_releaseSoldSeats Iv eventId seatIds =
     try_catch (await (ivs_relaseSoldSeats Iv eventId seatIds) (\<lambda>_. return True))
       (\<lambda>error. return False)"

section \<open>The HTTP controllers\<close>

definition http_holdSeats ::
  "'w HoldService \<Rightarrow> string \<Rightarrow> string list \<Rightarrow> string \<Rightarrow> string \<Rightarrow> ('w, HoldResult) act" where
  "http_holdSeats H eventId seatIds userId sessionId = hs_holdSeats H eventId seatIds userId sessionId"

definition http_releaseSeats :: "'w HoldService \<Rightarrow> string \<Rightarrow> string list \<Rightarrow> string \<Rightarrow> ('w, unit) act" where
  "http_releaseSeats H eventId seatIds userId = hs_releaseSeats H eventId seatIds userId USER_CANCEL"

definition http_verifyHold :: "'w HoldService \<Rightarrow> string \<Rightarrow> string list \<Rightarrow> string \<Rightarrow> ('w, bool) act" where
  "http_verifyHold H eventId seatIds userId =
     await (for_each seatIds (\<lambda>seatId.
       await (hs_getLockInfo H eventId seatId) (\<lambda>lock.
       case lock of
         None \<Rightarrow> throw (BadRequest (''Seat '' @ seatId @ '' is not held''))
       | Some d \<Rightarrow>
           if \<not> truthy d then throw (BadRequest (''Seat '' @ seatId @ '' is not held''))
           else if json_get d ''userId'' \<noteq> Some (JStr userId)
           then throw (BadRequest (''Seat '' @ seatId @ '' is held by another user''))
           else return ())))
     (\<lambda>_. return True)"

record 'w InventoryController =
  ic_findByEventRaw :: "string \<Rightarrow> ('w, SeatInventory list) act"
  ic_getAvailability :: "string \<Rightarrow> ('w, SeatView list) act"
  ic_getAvailableCount :: "string \<Rightarrow> ('w, nat) act"
  ic_getSummary :: "string \<Rightarrow> ('w, AvailabilitySummary) act"
  ic_findByEvent :: "string \<Rightarrow> ('w, SeatView list) act"

definition inventoryController :: "'w seat_env \<Rightarrow> 'w InventoryController" where
  "inventoryController E = \<lparr>
     ic_findByEventRaw = findByEventId E,
     ic_getAvailability = getAvailableSeatsDetailed E,
     ic_getAvailableCount = getAvailableCount E,
     ic_getSummary = getEventAvailabilitySummary E,
     ic_findByEvent = getEventSeatsWithStatus E\<rparr>"

text \<open>
  The service as its gRPC clients see it: the methods of the generated interface
  \<^verbatim>\<open>SeatInventoryServiceClient\<close> the booking service calls, answered by the controller.
\<close>

record 'w SeatInventoryClient =
  sic_getSeatsByEvent :: "string \<Rightarrow> ('w, SeatMessage list) act"
  sic_verifyHold :: "string \<Rightarrow> string list \<Rightarrow> string \<Rightarrow> ('w, bool) act"
  sic_releaseSeats :: "string \<Rightarrow> string list \<Rightarrow> string \<Rightarrow> SeatLockReleaseReason \<Rightarrow> ('w, bool) act"
  sic_markSeatsAsSold :: "string \<Rightarrow> string list \<Rightarrow> string \<Rightarrow> ('w, bool) act"
  sic_releaseSoldSeats :: "string \<Rightarrow> string list \<Rightarrow> ('w, bool) act"

definition inventoryGrpcController :: "'w seat_env \<Rightarrow> 'w SeatInventoryClient" where
  "inventoryGrpcController E =
     (let L = seatLockService E; Iv = inventoryService E (availabilityReadService E); H = holdService E in
      \<lparr>sic_getSeatsByEvent = grpc_getSeatsByEvent Iv, sic_verifyHold = grpc_verifyHold L,
       sic_releaseSeats = grpc_releaseSeats H, sic_markSeatsAsSold = grpc_markSeatsAsSold H,
       sic_releaseSoldSeats = grpc_releaseSoldSeats Iv\<rparr>)"

section \<open>Verifying a hold\<close>

lemma lock_of_user_iff:
  assumes "map_option Json x = lock_of v e s" "locks_are_json v"
  shows "lock_of_user u x \<longleftrightarrow> lock_owner v e s = Some u"
proof (cases x)
  case None
  then have "lock_of v e s = None" using assms(1) by simp
  then show ?thesis using None by (simp add: lock_of_user_def lock_owner_def)
next
  case (Some d)
  then have d: "lock_of v e s = Some (Json d)" using assms(1) by simp
  then obtain t where "kv v (lock_key e s) = Some (Json d, t)"
    using live_Some present_Some by (metis lock_of_def)
  then obtain fs where "d = JObj fs"
    using assms(2) unfolding locks_are_json_def by (metis rtext.inject(2))
  then show ?thesis
    using Some d by (simp add: lock_of_user_def lock_owner_def)
qed

context seat_lock_api
begin

lemma verifyHold_law:
  "obeys vw (grpc_verifyHold L e ss u)
     (\<lambda>v r v'. locks_are_json v \<longrightarrow>
        fallible calm (\<lambda>v b v'. v' = v \<and> b = (\<forall>s\<in>set ss. lock_owner v e s = Some u)) v r v')"
proof (rule obeys_pre, goal_cases)
  case (1 w)
  then show ?case
  proof (induction ss arbitrary: w)
    case Nil
    then show ?case by (simp add: wp_simps)
  next
    case (Cons s ss)
    have step: "wp (grpc_verifyHold L e ss u) (\<lambda>r w'. fallible calm
        (\<lambda>v b v'. v' = v \<and> b = (\<forall>s\<in>set (s # ss). lock_owner v e s = Some u)) (vw w) r (vw w')) w1"
      if "vw w1 = vw w" "lock_owner (vw w) e s = Some u" for w1
      using Cons.IH [of w1] that Cons.prems by (auto simp: fallible_def elim!: wp_mono split: sum.splits)
    show ?case
      unfolding grpc_verifyHold.simps wp_await
    proof (rule wp_fallible [OF info_law], goal_cases)
      case (2 x w1)
      then have "lock_of_user u x \<longleftrightarrow> lock_owner (vw w) e s = Some u"
        using Cons.prems by (intro lock_of_user_iff) auto
      then show ?case
        using 2 step by (auto simp: wp_simps)
    qed (use Cons.prems in simp)
  qed
qed

end

context hold_api
begin

lemma http_verifyHold_law:
  "obeys vw (http_verifyHold H e ss u)
     (\<lambda>v r v'. locks_are_json v \<longrightarrow> v' = v \<and>
        (case r of Inl x \<Rightarrow> (\<exists>m. x = JsError m) \<and> \<not> calm v \<or>
            (\<exists>m. x = BadRequest m) \<and> (\<exists>s\<in>set ss. lock_owner v e s \<noteq> Some u)
         | Inr b \<Rightarrow> b \<and> (\<forall>s\<in>set ss. lock_owner v e s = Some u)))"
proof (rule obeys_pre, goal_cases)
  case (1 w)
  have lock: "truthy d \<and> json_get d ''userId'' = Some (JStr u) \<longleftrightarrow> lock_owner (vw w) e s = Some u"
      if "Some (Json d) = lock_of (vw w) e s" for d s
    using lock_of_user_iff [of "Some d" "vw w" e s u] that 1 by (auto simp: lock_of_user_def)
  have free: "lock_owner (vw w) e s \<noteq> Some u" if "lock_of (vw w) e s = None" for s
    using that by (simp add: lock_owner_def)
  show ?case
    unfolding http_verifyHold_def wp_await
  proof (rule wp_for_each [where I = "\<lambda>ys w1. vw w1 = vw w \<and> (\<forall>s\<in>set ys. lock_owner (vw w) e s = Some u)"
        and X = "\<lambda>x w1. vw w1 = vw w \<and> ((\<exists>m. x = JsError m) \<and> \<not> calm (vw w) \<or>
            (\<exists>m. x = BadRequest m) \<and> (\<exists>s\<in>set ss. lock_owner (vw w) e s \<noteq> Some u))"], goal_cases)
    case (1 ys s zs w1)
    show ?case
      unfolding wp_await
    proof (rule wp_fallible [OF lock_info_law], goal_cases)
      case (2 x w2)
      then show ?case
        using 1 lock free by (cases x) (fastforce simp: wp_simps)+
    qed (use 1 \<open>locks_are_json (vw w)\<close> in auto)
  qed (auto simp: wp_simps)
qed

end

context seat_world
begin

lemmas grpc_verify = locks.verifyHold_law
lemmas http_verify = holds.http_verifyHold_law
lemmas release_sold = inventories.release_sold_law

end

section \<open>Answers instead of exceptions\<close>

text \<open>The \<^verbatim>\<open>try { await m; return { success: true } } catch { return { success: false } }\<close> of the controller.\<close>

lemma answered:
  "try_catch (await m (\<lambda>_. return True)) (\<lambda>error. return False) w =
     (Inr (case fst (m w) of Inl _ \<Rightarrow> False | Inr _ \<Rightarrow> True), snd (m w))"
  by (simp add: try_catch_def await_def return_def split: prod.splits sum.splits)

lemmas grpc_answers = grpc_releaseSeats_def grpc_markSeatsAsSold_def grpc_releaseSoldSeats_def answered

lemma grpc_answer_True:
  "grpc_releaseSeats H e ss u reason w = (Inr True, w') \<longleftrightarrow> hs_releaseSeats H e ss u reason w = (Inr (), w')"
  "grpc_markSeatsAsSold H e ss u w = (Inr True, w') \<longleftrightarrow> hs_markAsSold H e ss u w = (Inr (), w')"
  "grpc_releaseSoldSeats Iv e ss w = (Inr True, w') \<longleftrightarrow> ivs_relaseSoldSeats Iv e ss w = (Inr (), w')"
  by (auto simp: grpc_answers prod_eq_iff split: sum.splits)

section \<open>Properties\<close>

lemma locks_json: "seat_ok v \<Longrightarrow> locks_are_json v"
  by (simp add: seat_ok_def)

text \<open>
  C20.  The two ways to verify a hold agree and are exact.  While the external systems are up, the
  gRPC method answers whether every seat is locked by the user at this moment, and the HTTP
  endpoint returns exactly when it answers yes and refuses with \<open>BadRequest\<close> when it answers no.
  Neither changes anything.
\<close>

theorem verifyHold_channels_agree:
  assumes "seat_world E vw" "seat_ok (vw w)" "calm (vw w)"
    and "grpc_verifyHold (seatLockService E) e ss u w = (r, w')"
    and "http_verifyHold (holdService E) e ss u w = (r', w'')"
  shows "r = Inr (\<forall>s\<in>set ss. lock_owner (vw w) e s = Some u) \<and> vw w' = vw w \<and> vw w'' = vw w \<and>
    (if r = Inr True then r' = Inr True else \<exists>m. r' = Inl (BadRequest m))"
proof -
  have json: "locks_are_json (vw w)" by (rule locks_json [OF assms(2)])
  have "fallible calm (\<lambda>v b v'. v' = v \<and> b = (\<forall>s\<in>set ss. lock_owner v e s = Some u)) (vw w) r (vw w')"
    using obeysD [OF seat_world.grpc_verify [OF assms(1)] assms(4)] json by simp
  then have r: "r = Inr (\<forall>s\<in>set ss. lock_owner (vw w) e s = Some u)" "vw w' = vw w"
    using assms(3) by (auto simp: fallible_def split: sum.splits)
  show ?thesis
    using r obeysD [OF seat_world.http_verify [OF assms(1)] assms(5)] json assms(3)
    by (cases r') auto
qed

theorem verifyHold_channels_agree_witness:
  "\<exists>w' w'' m. grpc_verifyHold (seatLockService mem_seat_env) ''e1'' [''A1'', ''A2''] ''u1'' locked_seats = (Inr False, w') \<and>
     http_verifyHold (holdService mem_seat_env) ''e1'' [''A1'', ''A2''] ''u1'' locked_seats = (Inl (BadRequest m), w'')"
proof -
  obtain r w' r' w'' where
    run: "grpc_verifyHold (seatLockService mem_seat_env) ''e1'' [''A1'', ''A2''] ''u1'' locked_seats = (r, w')"
      "http_verifyHold (holdService mem_seat_env) ''e1'' [''A1'', ''A2''] ''u1'' locked_seats = (r', w'')"
    by fastforce
  have "calm (seat_view locked_seats)" "lock_owner (seat_view locked_seats) ''e1'' ''A2'' \<noteq> Some ''u1''"
    by code_simp+
  then show ?thesis
    using verifyHold_channels_agree [OF mem_seats.seat_world_axioms locked_ok _ run] run by auto
qed

lemma held_lock:
  assumes "kv v' (lock_key e s) = Some (my_lock u sid now)" "clock v' < now + 600000"
  shows "lock_of v' e s = Some (Json (lock_value u sid now)) \<and> lock_owner v' e s = Some u"
  using assms by (simp add: lock_owner_def lock_of_def my_lock_def present_def lock_value_def)

text \<open>
  What is held can be verified, by its holder only and for ten minutes.  After a successful
  hold, as long as less than 600 seconds have passed and its keys in Redis are untouched,
  verification answers yes for the holder and no for everybody else; once 600 seconds have
  passed it answers no for the holder too.
\<close>

theorem hold_then_verify:
  assumes "seat_world E vw" "seat_ok (vw w)" "ss \<noteq> []"
    and "hs_holdSeats (holdService E) e ss u sid w = (Inr res, w1)"
    and "seat_ok (vw w2)" "calm (vw w2)" "\<forall>s\<in>set ss. kv (vw w2) (lock_key e s) = kv (vw w1) (lock_key e s)"
    and "grpc_verifyHold (seatLockService E) e ss u' w2 = (r, w3)"
  shows "r = Inr (u' = u \<and> clock (vw w2) < clock (vw w) + 600000)"
proof -
  have keys: "\<forall>s\<in>set ss. kv (vw w2) (lock_key e s) = Some (my_lock u sid (clock (vw w)))"
    using assms(7) holdSeats_runs [OF assms(1,2,4)]
    by (auto simp: holdSeats_spec_def held_state_def with_locks_def)
  have own: "\<forall>s\<in>set ss. lock_owner (vw w2) e s = (if clock (vw w2) < clock (vw w) + 600000 then Some u else None)"
    using keys by (auto dest: held_lock) (simp add: lock_owner_def lock_of_def my_lock_def present_def)
  have "fallible calm (\<lambda>v b v'. v' = v \<and> b = (\<forall>s\<in>set ss. lock_owner v e s = Some u')) (vw w2) r (vw w3)"
    using obeysD [OF seat_world.grpc_verify [OF assms(1)] assms(8)] locks_json [OF assms(5)] by simp
  then have "r = Inr (\<forall>s\<in>set ss. lock_owner (vw w2) e s = Some u')"
    using assms(6) by (auto simp: fallible_def split: sum.splits)
  moreover have "hd ss \<in> set ss" using assms(3) by simp
  ultimately show ?thesis using own by auto
qed

theorem hold_then_verify_witness:
  "\<exists>res w1 w3. hs_holdSeats (holdService mem_seat_env) ''e1'' [''A1''] ''u1'' ''s1'' demo_seats = (Inr res, w1) \<and>
     grpc_verifyHold (seatLockService mem_seat_env) ''e1'' [''A1''] ''u1'' w1 = (Inr True, w3)"
proof -
  have "returns (hs_holdSeats (holdService mem_seat_env) ''e1'' [''A1''] ''u1'' ''s1'') demo_seats"
    by code_simp
  then obtain res w1 where run:
    "hs_holdSeats (holdService mem_seat_env) ''e1'' [''A1''] ''u1'' ''s1'' demo_seats = (Inr res, w1)"
    by (rule returnsE)
  obtain r w3 where verify: "grpc_verifyHold (seatLockService mem_seat_env) ''e1'' [''A1''] ''u1'' w1 = (r, w3)"
    by fastforce
  note spec = holdSeats_runs [OF mem_seats.seat_world_axioms demo_ok run]
  have "calm (seat_view demo_seats)" by code_simp
  then have "calm (seat_view w1)" "clock (seat_view w1) = clock (seat_view demo_seats)"
    using spec by (auto simp: holdSeats_spec_def held_state_def settled_def)
  then show ?thesis
    using hold_then_verify [OF mem_seats.seat_world_axioms demo_ok _ run seat_ok_hold [OF spec demo_ok] _ _ verify]
      run verify by simp
qed

lemma closed_seat:
  assumes "close_spec e ss u reason st v (Inr ()) v'"
  shows "seat_row v' e s = map_option (\<lambda>r. if s \<in> set ss then r\<lparr>inv_status := st\<rparr> else r) (seat_row v e s)"
    and "calm v' = calm v" "clock v' = clock v"
    and "kv v' = without_locks e (owned_seats v e ss u) (kv v)"
  using assms seat_row_mark [of e ss st v e s]
  by (auto simp: close_spec_def Let_def unlocked_def closed_rows_def seat_row_def)

text \<open>
  The life of a seat.  Seats that are held, sold to their holder and given back by a refund,
  each step being answered with success, are held, sold and available in turn; and after that,
  while the external systems are up, anybody can hold them again.
\<close>

theorem seat_life_cycle:
  assumes world: "seat_world E vw" "seat_ok (vw w)" "calm (vw w)"
    and held: "hs_holdSeats (holdService E) e ss u sid w = (Inr res, w1)"
    and sold: "grpc_markSeatsAsSold (holdService E) e ss u w1 = (Inr True, w2)"
    and refund: "grpc_releaseSoldSeats (inventoryService E (availabilityReadService E)) e ss w2 = (Inr True, w3)"
    and again: "hs_holdSeats (holdService E) e ss u' sid' w3 = (r, w4)"
  shows "(\<exists>res'. r = Inr res') \<and> (\<forall>s\<in>set ss.
    map_option inv_status (seat_row (vw w) e s) = Some AVAILABLE \<and>
    map_option inv_status (seat_row (vw w1) e s) = Some HELD \<and>
    map_option inv_status (seat_row (vw w2) e s) = Some SOLD \<and>
    map_option inv_status (seat_row (vw w3) e s) = Some AVAILABLE)"
proof -
  obtain hs where able: "holdable (vw w) e ss" and hs: "holds_for e ss u sid (vw w) hs"
    and w1: "vw w1 = set_status e ss HELD (held_state e ss u sid hs (vw w))"
    using holdSeats_runs [OF world(1,2) held] by (auto simp: holdSeats_spec_def)
  have ok1: "seat_ok (vw w1)"
    by (rule seat_ok_hold [OF holdSeats_runs [OF world(1,2) held] world(2)])
  have row1: "seat_row (vw w1) e s = map_option (inv_status_update (\<lambda>_. HELD)) (seat_row (vw w) e s)"
    and lock1: "kv (vw w1) (lock_key e s) = Some (my_lock u sid (clock (vw w)))" if "s \<in> set ss" for s
    using that by (simp_all add: w1 seat_row_held, simp add: held_state_def with_locks_def)
  have calm1: "calm (vw w1)" "clock (vw w1) = clock (vw w)"
    using world(3) by (simp_all add: w1 held_state_def)
  have close: "close_spec e ss u PAYMENT_SUCCESS SOLD (vw w1) (Inr ()) (vw w2)"
    using markAsSold_runs [OF world(1) ok1] sold [unfolded grpc_answer_True] by simp
  note w2 = closed_seat [OF close] and ok2 = seat_ok_close [OF close ok1]
  have w3: "vw w3 = set_status e ss AVAILABLE ((vw w2)\<lparr>inventory := mark e ss AVAILABLE (inventory (vw w2))\<rparr>)"
    using obeysD [OF seat_world.release_sold [OF world(1)] refund [unfolded grpc_answer_True]] ok2
    by (simp add: seat_ok_def seat_wf_def)
  have row3: "seat_row (vw w3) e s = map_option (\<lambda>r. if s \<in> set ss then r\<lparr>inv_status := AVAILABLE\<rparr> else r) (seat_row (vw w2) e s)" for s
    by (simp add: w3 seat_row_mark)
  have rows: "\<exists>row. seat_row (vw w) e s = Some row \<and> inv_status row = AVAILABLE" if "s \<in> set ss" for s
    using able that by (simp add: holdable_def)
  have free: "seat_free (vw w3) e s" if "s \<in> set ss" for s
  proof -
    have "lock_owner (vw w1) e s = Some u"
      using held_lock [OF lock1 [OF that]] calm1 by simp
    then have "s \<in> owned_seats (vw w1) e ss u" using that by (simp add: owned_seats_def)
    then show ?thesis by (simp add: w3 seat_free_def w2(4) without_locks_def)
  qed
  have "holdable (vw w3) e ss"
    using able rows free row1 w2(1) row3 by (fastforce simp: holdable_def all_free_def)
  moreover have "seat_ok (vw w3)"
    using ok2 by (simp add: w3) (simp add: seat_ok_def seat_wf_def locks_are_strings_def locks_are_json_def)
  moreover have "calm (vw w3)" using calm1 w2(2) by (simp add: w3)
  ultimately have "\<exists>res'. r = Inr res'"
    using holdSeats_runs [OF world(1) _ again]
    by (auto simp: holdSeats_spec_def seat_ok_def split: sum.splits exn.splits)
  then show ?thesis
    using rows row1 w2(1) row3 by fastforce
qed

theorem seat_life_cycle_witness:
  "\<exists>res w1 w2 w3 res' w4. hs_holdSeats (holdService mem_seat_env) ''e1'' [''A1''] ''u1'' ''s1'' demo_seats = (Inr res, w1) \<and>
     grpc_markSeatsAsSold (holdService mem_seat_env) ''e1'' [''A1''] ''u1'' w1 = (Inr True, w2) \<and>
     grpc_releaseSoldSeats (inventoryService mem_seat_env (availabilityReadService mem_seat_env)) ''e1'' [''A1''] w2 = (Inr True, w3) \<and>
     hs_holdSeats (holdService mem_seat_env) ''e1'' [''A1''] ''u2'' ''s2'' w3 = (Inr res', w4)"
proof -
  let ?H = "holdService mem_seat_env"
    and ?I = "inventoryService mem_seat_env (availabilityReadService mem_seat_env)"
  have ran: "returns (hs_holdSeats ?H ''e1'' [''A1''] ''u1'' ''s1'') demo_seats"
      "fst (grpc_markSeatsAsSold ?H ''e1'' [''A1''] ''u1''
         (snd (hs_holdSeats ?H ''e1'' [''A1''] ''u1'' ''s1'' demo_seats))) = Inr True"
      "fst (grpc_releaseSoldSeats ?I ''e1'' [''A1''] (snd (grpc_markSeatsAsSold ?H ''e1'' [''A1''] ''u1''
         (snd (hs_holdSeats ?H ''e1'' [''A1''] ''u1'' ''s1'' demo_seats))))) = Inr True"
      "calm (seat_view demo_seats)"
    by code_simp+
  obtain res w1 where held: "hs_holdSeats ?H ''e1'' [''A1''] ''u1'' ''s1'' demo_seats = (Inr res, w1)"
    using ran(1) by (rule returnsE)
  obtain w2 where sold: "grpc_markSeatsAsSold ?H ''e1'' [''A1''] ''u1'' w1 = (Inr True, w2)"
    using ran(2) held by (metis prod.collapse snd_conv)
  obtain w3 where refund: "grpc_releaseSoldSeats ?I ''e1'' [''A1''] w2 = (Inr True, w3)"
    using ran(3) held sold by (metis prod.collapse snd_conv)
  obtain r w4 where again: "hs_holdSeats ?H ''e1'' [''A1''] ''u2'' ''s2'' w3 = (r, w4)"
    by fastforce
  show ?thesis
    using seat_life_cycle [OF mem_seats.seat_world_axioms demo_ok ran(4) held sold refund again]
      held sold refund again by blast
qed

end
