(* ===== verification/Payment_Entities.thy ===== *)
theory Payment_Entities
  imports Storage JS_Text
begin

text \<open>
  The data of the payment service: the entities \<^verbatim>\<open>Payment\<close> and \<^verbatim>\<open>Refund\<close>
  (payment/entities/*.entity.ts), the enums, the gateway interface
  (gateways/payment-gateway.interface.ts), the observed state of the service, and its environment:
  two tables, Redis, Kafka, the clock and the Stripe client.

  A \<^verbatim>\<open>decimal\<close> column is a number on an object the code has just built and a text on an object
  that was loaded: type \<open>amount\<close>.  What the database makes of a number written to such a column
  is the parameter \<open>pay_to_numeric\<close>; the text it gives back is written unchanged.
\<close>

section \<open>Entities\<close>

datatype PaymentStatus = INITIATED | PROCESSING | SUCCEEDED | FAILED | REFUNDED

datatype PaymentMethod = CREDIT_CARD | DEBIT_CARD | WALLET | BANK_TRANSFER

datatype RefundStatus = PENDING | PROCESSED | FAILED

datatype PaymentProvider = STRIPE | IYZICO | MOCK

fun payment_status_text :: "PaymentStatus \<Rightarrow> string" where
  "payment_status_text INITIATED = ''initiated''"
| "payment_status_text PROCESSING = ''processing''"
| "payment_status_text SUCCEEDED = ''succeeded''"
| "payment_status_text PaymentStatus.FAILED = ''failed''"
| "payment_status_text REFUNDED = ''refunded''"

fun payment_method_text :: "PaymentMethod \<Rightarrow> string" where
  "payment_method_text CREDIT_CARD = ''credit_card''"
| "payment_method_text DEBIT_CARD = ''debit_card''"
| "payment_method_text WALLET = ''wallet''"
| "payment_method_text BANK_TRANSFER = ''bank_transfer''"

fun provider_text :: "PaymentProvider \<Rightarrow> string" where
  "provider_text STRIPE = ''stripe''"
| "provider_text IYZICO = ''iyzico''"
| "provider_text MOCK = ''mock''"

lemma payment_status_text_inj [simp]: "payment_status_text s = payment_status_text t \<longleftrightarrow> s = t"
  by (cases s; cases t) simp_all

datatype amount = Number js_number | Decimal string

text \<open>The number an amount is in arithmetic: a decimal text is read.\<close>

fun to_number :: "amount \<Rightarrow> js_number" where
  "to_number (Number n) = n"
| "to_number (Decimal s) = parseFloat s"

text \<open>\<^verbatim>\<open>String(amount)\<close>.\<close>

fun amount_text :: "amount \<Rightarrow> string" where
  "amount_text (Number n) = number_text n"
| "amount_text (Decimal s) = s"

fun amount_json :: "amount \<Rightarrow> json" where
  "amount_json (Number n) = JNum n"
| "amount_json (Decimal s) = JStr s"

record Payment =
  pay_id :: string
  pay_bookingId :: string
  pay_idempotencyKey :: string
  pay_amount :: amount
  pay_currency :: string
  pay_method :: PaymentMethod
  pay_status :: PaymentStatus
  pay_provider :: string
  pay_providerTxId :: "string option"
  pay_failureReason :: "string option"
  pay_paidAt :: "int option"
  pay_createdAt :: int

record Refund =
  ref_id :: string
  ref_paymentId :: string
  ref_idempotencyKey :: string
  ref_amount :: amount
  ref_reason :: "string option"
  ref_status :: RefundStatus
  ref_providerRefundId :: "string option"
  ref_failureReason :: "string option"
  ref_createdAt :: int

record InitiatePaymentDto =
  ip_bookingId :: string
  ip_idempotencyKey :: string
  ip_amount :: js_number
  ip_currency :: string
  ip_method :: PaymentMethod
  ip_cardToken :: string
  ip_provider :: "string option"

section \<open>The gateway interface\<close>

record PaymentGatewayRequest =
  gr_amount :: js_number
  gr_currency :: string
  gr_cardToken :: string
  gr_idempotencyKey :: string

record PaymentGatewayResponse =
  gw_success :: bool
  gw_providerTxId :: "string option"
  gw_failureReason :: "string option"

record 'w PaymentGateway =
  gw_name :: string
  gw_charge :: "PaymentGatewayRequest \<Rightarrow> ('w, PaymentGatewayResponse) act"
  gw_refund :: "string \<Rightarrow> amount \<Rightarrow> ('w, PaymentGatewayResponse) act"

section \<open>Stripe\<close>

text \<open>
  The two calls of the Stripe client the gateway makes, with the id and the status of what they
  created.  \<open>charges\<close> are the payment intents that took money, \<open>paybacks\<close> the refunds that gave
  some back.
\<close>

record charge =
  ch_id :: string
  ch_key :: string
  ch_amount :: js_number
  ch_currency :: string
  ch_card :: string

record payback =
  pb_id :: string
  pb_intent :: string
  pb_amount :: js_number

record 'w stripe =
  stripe_createIntent :: "js_number \<Rightarrow> string \<Rightarrow> string \<Rightarrow> string \<Rightarrow> ('w, string \<times> string) act"
  stripe_createRefund :: "string \<Rightarrow> js_number \<Rightarrow> ('w, string \<times> string) act"

text \<open>
  Stripe executes a request with an idempotency key once: a later request with the key of a
  successful one takes no money again and answers with the same id.  A call that throws may have
  been executed (the answer was lost).
\<close>

definition charged :: "charge list \<Rightarrow> string \<Rightarrow> bool" where
  "charged cs key \<longleftrightarrow> (\<exists>c\<in>set cs. ch_key c = key)"

locale stripe_api =
  fixes S :: "'w stripe"
    and vw :: "'w \<Rightarrow> 'v"
    and chs :: "'v \<Rightarrow> charge list"
    and chs_upd :: "(charge list \<Rightarrow> charge list) \<Rightarrow> 'v \<Rightarrow> 'v"
    and pbs_upd :: "(payback list \<Rightarrow> payback list) \<Rightarrow> 'v \<Rightarrow> 'v"
  assumes intent_law:
      "obeys vw (stripe_createIntent S amt cur tok key)
         (\<lambda>v r v'. let taken = (\<lambda>i. chs_upd (\<lambda>cs. cs @ [\<lparr>ch_id = i, ch_key = key, ch_amount = amt,
             ch_currency = cur, ch_card = tok\<rparr>]) v) in
           case r of
             Inl e \<Rightarrow> v' = v \<or> \<not> charged (chs v) key \<and> (\<exists>i. v' = taken i)
           | Inr (i, st) \<Rightarrow>
               if charged (chs v) key then v' = v \<and> (st = ''succeeded'' \<longrightarrow> (\<exists>c\<in>set (chs v). ch_key c = key \<and> ch_id c = i))
               else if st = ''succeeded'' then v' = taken i else v' = v)"
    and refund_law:
      "obeys vw (stripe_createRefund S intent amt)
         (\<lambda>v r v'. let given = (\<lambda>i. pbs_upd (\<lambda>ps. ps @ [\<lparr>pb_id = i, pb_intent = intent, pb_amount = amt\<rparr>]) v) in
           case r of
             Inl e \<Rightarrow> v' = v \<or> (\<exists>i. v' = given i)
           | Inr (i, st) \<Rightarrow> if st = ''succeeded'' then v' = given i else v' = v \<or> v' = given i)"

section \<open>The observed state and the environment\<close>

record payment_store =
  payments :: "Payment list"
  refunds :: "Refund list"
  charges :: "charge list"
  paybacks :: "payback list"
  p_sent :: "kafka_message list"
  p_kv :: "string \<Rightarrow> entry option"
  p_hash :: "string \<Rightarrow> string \<Rightarrow> rtext option"
  p_clock :: int
  p_calm :: bool

definition unique_keys :: "Payment list \<Rightarrow> bool" where
  "unique_keys t \<longleftrightarrow> distinct (map pay_idempotencyKey t)"

record 'w payment_env =
  paymentRepo :: "('w, Payment) repo"
  refundRepo :: "('w, Refund) repo"
  paymentKafka :: "'w kafka"
  paymentRedis :: "'w redis"
  paymentNow :: "('w, int) act"
  stripeClient :: "'w stripe"
  sleep :: "nat \<Rightarrow> ('w, unit) act"
  pay_to_numeric :: "js_number \<Rightarrow> string"
  PAYMENT_DEFAULT_PROVIDER :: "string option"

locale payment_world =
  pay: table_api "paymentRepo E" vw pay_id payments payments_update p_clock unique_keys p_calm +
  ref: table_api "refundRepo E" vw ref_id refunds refunds_update p_clock "\<lambda>_. True" p_calm +
  kafka_api "paymentKafka E" vw p_sent_update +
  redis_api "paymentRedis E" vw p_kv p_kv_update p_hash p_hash_update p_clock p_calm +
  clock_api "paymentNow E" vw p_clock +
  stripe: stripe_api "stripeClient E" vw charges charges_update paybacks_update
  for E :: "'w payment_env" and vw :: "'w \<Rightarrow> 'z payment_store_scheme" +
  assumes sleep_law: "obeys vw (sleep E ms) (\<lambda>v r v'. r = Inr () \<and> v' = v)"

text \<open>The row the database keeps of an object.\<close>

definition stored_amount :: "'w payment_env \<Rightarrow> amount \<Rightarrow> amount" where
  "stored_amount E a = (case a of Number n \<Rightarrow> Decimal (pay_to_numeric E n) | Decimal s \<Rightarrow> Decimal s)"

definition stored_payment :: "'w payment_env \<Rightarrow> Payment \<Rightarrow> Payment" where
  "stored_payment E p = p\<lparr>pay_amount := stored_amount E (pay_amount p)\<rparr>"

lemma stored_amount_simps [simp]:
  "stored_amount E (Number n) = Decimal (pay_to_numeric E n)" "stored_amount E (Decimal s) = Decimal s"
  by (simp_all add: stored_amount_def)

lemma stored_payment_simps [simp]:
  "pay_id (stored_payment E p) = pay_id p" "pay_bookingId (stored_payment E p) = pay_bookingId p"
  "pay_idempotencyKey (stored_payment E p) = pay_idempotencyKey p" "pay_status (stored_payment E p) = pay_status p"
  "pay_providerTxId (stored_payment E p) = pay_providerTxId p" "pay_amount (stored_payment E p) = stored_amount E (pay_amount p)"
  "pay_provider (stored_payment E p) = pay_provider p" "pay_failureReason (stored_payment E p) = pay_failureReason p"
  by (simp_all add: stored_payment_def)

end
