(* ===== verification/Payment_Gateways.thy ===== *)
theory Payment_Gateways
  imports Payment_Entities
begin

text \<open>
  The payment gateways: \<^verbatim>\<open>StripeGateway\<close> (gateways/stripe.gateway.ts), \<^verbatim>\<open>IyzicoGateway\<close>
  (gateways/iyzico.gateway.ts) and \<^verbatim>\<open>PaymentGatewayFactory\<close> (gateways/payment-gateway.factory.ts).
\<close>

section \<open>Stripe\<close>

definition MAX_RETRIES :: nat where
  "MAX_RETRIES = 3"

definition INITIAL_BACKOFF_MS :: nat where
  "INITIAL_BACKOFF_MS = 500"

definition RETRYABLE_ERROR_TYPES :: "string list" where
  "RETRYABLE_ERROR_TYPES = [''StripeConnectionError'', ''StripeAPIError'', ''StripeRateLimitError'']"

text \<open>\<^verbatim>\<open>error.type || error.constructor.name\<close>.\<close>

fun error_type :: "exn \<Rightarrow> string" where
  "error_type (StripeError t c m) = (if t = [] then ''StripeError'' else t)"
| "error_type (BadRequest m) = ''BadRequestException''"
| "error_type (NotFound m) = ''NotFoundException''"
| "error_type (Unauthorized m) = ''UnauthorizedException''"
| "error_type (Conflict m) = ''ConflictException''"
| "error_type (InternalServerError m) = ''InternalServerErrorException''"
| "error_type (HttpException c m) = ''HttpException''"
| "error_type (TooManyRequests m r) = ''HttpException''"
| "error_type (JsError m) = ''Error''"

fun statusCode :: "exn \<Rightarrow> nat option" where
  "statusCode (StripeError t c m) = c"
| "statusCode _ = None"

definition isRetryable :: "exn \<Rightarrow> bool" where
  "isRetryable error =
     (if error_type error \<in> set RETRYABLE_ERROR_TYPES then True
      else case statusCode error of Some c \<Rightarrow> 500 \<le> c \<and> c < 600 | None \<Rightarrow> False)"

text \<open>A loop whose body may \<^verbatim>\<open>return\<close> or \<^verbatim>\<open>break\<close>; \<open>after\<close> is what follows the loop.\<close>

datatype 'r exit = Return 'r | Break | Continue

primrec for_exit :: "'x list \<Rightarrow> ('x \<Rightarrow> ('w, 'r exit) act) \<Rightarrow> ('w, 'r) act \<Rightarrow> ('w, 'r) act" where
  "for_exit [] body after = after"
| "for_exit (x # xs) body after = await (body x) (\<lambda>e. case e of
      Return r \<Rightarrow> return r | Break \<Rightarrow> after | Continue \<Rightarrow> for_exit xs body after)"

definition gateway_failure :: "string \<Rightarrow> PaymentGatewayResponse" where
  "gateway_failure reason = \<lparr>gw_success = False, gw_providerTxId = None, gw_failureReason = Some reason\<rparr>"

text \<open>\<open>Continue\<close> from the \<^verbatim>\<open>try\<close> statement means that the body goes on after it, with \<^verbatim>\<open>lastError\<close> set.\<close>

definition withRetry ::
  "'w payment_env \<Rightarrow> ('w, PaymentGatewayResponse) act \<Rightarrow> string \<Rightarrow> ('w, PaymentGatewayResponse) act" where
  "withRetry E fn context = for_exit [1..<Suc MAX_RETRIES] (\<lambda>attempt.
     await (try_catch (await fn (\<lambda>r. return (Return r, None)))
       (\<lambda>error.
          if \<not> isRetryable error then return (Return (gateway_failure (message error)), Some error)
          else if attempt = MAX_RETRIES then return (Break, Some error)
          else await (sleep E (INITIAL_BACKOFF_MS * 2 ^ (attempt - 1))) (\<lambda>_. return (Continue, Some error))))
     (\<lambda>(e, lastError). case e of
        Continue \<Rightarrow> return (Return (gateway_failure (case lastError of
            Some error \<Rightarrow> if message error = [] then ''Payment failed after retries'' else message error
          | None \<Rightarrow> ''Payment failed after retries'')))
      | _ \<Rightarrow> return e))
     (return (gateway_failure (''Failed to '' @ context @ '' after 3 attempts'')))"

definition doCharge :: "'w payment_env \<Rightarrow> PaymentGatewayRequest \<Rightarrow> ('w, PaymentGatewayResponse) act" where
  "doCharge E request =
     try_catch
       (await (stripe_createIntent (stripeClient E) (Math_round (js_mult (gr_amount request) (Fin 100)))
                 (toLowerCase (gr_currency request)) (gr_cardToken request) (gr_idempotencyKey request))
        (\<lambda>(id, status).
          if status = ''succeeded''
          then return \<lparr>gw_success = True, gw_providerTxId = Some id, gw_failureReason = None\<rparr>
          else return (gateway_failure (''Payment status: '' @ status))))
       (\<lambda>error. return (gateway_failure (message error)))"

definition doRefund :: "'w payment_env \<Rightarrow> string \<Rightarrow> amount \<Rightarrow> ('w, PaymentGatewayResponse) act" where
  "doRefund E providerTxId amount =
     try_catch
       (await (stripe_createRefund (stripeClient E) providerTxId (Math_round (js_mult (to_number amount) (Fin 100))))
        (\<lambda>(id, status).
          return \<lparr>gw_success = (status = ''succeeded''), gw_providerTxId = Some id, gw_failureReason = None\<rparr>))
       (\<lambda>error. return (gateway_failure (message error)))"

definition stripe_charge :: "'w payment_env \<Rightarrow> PaymentGatewayRequest \<Rightarrow> ('w, PaymentGatewayResponse) act" where
  "stripe_charge E request = withRetry E (doCharge E request) (''charge:'' @ gr_idempotencyKey request)"

definition stripe_refund :: "'w payment_env \<Rightarrow> string \<Rightarrow> amount \<Rightarrow> ('w, PaymentGatewayResponse) act" where
  "stripe_refund E providerTxId amount = withRetry E (doRefund E providerTxId amount) (''refund:'' @ providerTxId)"

definition StripeGateway :: "'w payment_env \<Rightarrow> 'w PaymentGateway" where
  "StripeGateway E = \<lparr>gw_name = ''stripe'', gw_charge = stripe_charge E, gw_refund = stripe_refund E\<rparr>"

section \<open>Iyzico\<close>

definition iyzico_charge :: "PaymentGatewayRequest \<Rightarrow> ('w, PaymentGatewayResponse) act" where
  "iyzico_charge request = return (gateway_failure ''Iyzico gateway not implemented yet'')"

definition iyzico_refund :: "string \<Rightarrow> amount \<Rightarrow> ('w, PaymentGatewayResponse) act" where
  "iyzico_refund providerTxId amount = return (gateway_failure ''Iyzico refund not implemented yet'')"

definition IyzicoGateway :: "'w PaymentGateway" where
  "IyzicoGateway = \<lparr>gw_name = ''iyzico'', gw_charge = iyzico_charge, gw_refund = iyzico_refund\<rparr>"

section \<open>The factory\<close>

definition gateways :: "'w payment_env \<Rightarrow> (string \<times> 'w PaymentGateway) list" where
  "gateways E = [(provider_text STRIPE, StripeGateway E), (provider_text IYZICO, IyzicoGateway)]"

definition defaultProvider :: "'w payment_env \<Rightarrow> string" where
  "defaultProvider E = (case PAYMENT_DEFAULT_PROVIDER E of
      Some p \<Rightarrow> if p = [] then provider_text STRIPE else p | None \<Rightarrow> provider_text STRIPE)"

definition getByProvider :: "'w payment_env \<Rightarrow> string \<Rightarrow> ('w, 'w PaymentGateway) act" where
  "getByProvider E provider = (case map_of (gateways E) provider of
      None \<Rightarrow> throw (JsError (''Payment provider '' @ provider @ '' not support''))
    | Some gateway \<Rightarrow> return gateway)"

definition getDefault :: "'w payment_env \<Rightarrow> ('w, 'w PaymentGateway) act" where
  "getDefault E = getByProvider E (defaultProvider E)"

section \<open>One attempt\<close>

text \<open>
  C35.  \<^verbatim>\<open>withRetry\<close> never retries: whatever the operation does, it is run exactly once, and an
  exception becomes a failure answer (for a retryable error after a pause of 500 milliseconds that
  leads to no second attempt).
\<close>

theorem withRetry_single_attempt:
  "withRetry E fn context =
     try_catch fn (\<lambda>error.
       if isRetryable error
       then await (sleep E 500) (\<lambda>_. return (gateway_failure
              (if message error = [] then ''Payment failed after retries'' else message error)))
       else return (gateway_failure (message error)))"
proof
  fix w
  have attempts: "[1..<Suc MAX_RETRIES] = [1, 2, 3]"
    by (simp add: MAX_RETRIES_def upt_rec)
  show "withRetry E fn context w = try_catch fn (\<lambda>error.
       if isRetryable error
       then await (sleep E 500) (\<lambda>_. return (gateway_failure
              (if message error = [] then ''Payment failed after retries'' else message error)))
       else return (gateway_failure (message error))) w"
    unfolding withRetry_def attempts
    by (auto simp: try_catch_def await_def return_def MAX_RETRIES_def INITIAL_BACKOFF_MS_def
        split: prod.splits sum.splits)
qed

text \<open>An operation that never throws is passed through.\<close>

lemma withRetry_safe:
  assumes "\<And>w. \<exists>r w'. fn w = (Inr r, w')"
  shows "withRetry E fn context = fn"
proof
  fix w
  have "\<forall>e w'. fn w \<noteq> (Inl e, w')"
    using assms [of w] by auto
  then have "try_catch fn h w = fn w" for h
    by (auto simp: try_catch_def split: prod.splits sum.splits)
  then show "withRetry E fn context w = fn w"
    unfolding withRetry_def
    using assms [of w] by (auto simp: upt_rec MAX_RETRIES_def try_catch_def await_def return_def)
qed

lemma catching_never_throws: "\<exists>r w'. try_catch m (\<lambda>e. return (f e)) w = (Inr r, w')"
  by (auto simp: try_catch_def return_def split: prod.splits sum.splits)

lemma stripe_charge_eq: "stripe_charge E request = doCharge E request"
  unfolding stripe_charge_def
  by (rule withRetry_safe) (simp add: doCharge_def catching_never_throws)

lemma stripe_refund_eq: "stripe_refund E tx amt = doRefund E tx amt"
  unfolding stripe_refund_def
  by (rule withRetry_safe) (simp add: doRefund_def catching_never_throws)

section \<open>The contract of a gateway\<close>

text \<open>
  What the payment service relies on.  A gateway answers and does not throw; it touches nothing
  but the ledger of the provider.  A successful charge is in the ledger under the key of the
  request with the amount in hundredths; an unsuccessful answer may still stand for money that was
  taken (the answer of the provider was lost).
\<close>

definition charge_for :: "PaymentGatewayRequest \<Rightarrow> string \<Rightarrow> charge" where
  "charge_for request i = \<lparr>ch_id = i, ch_key = gr_idempotencyKey request,
     ch_amount = Math_round (js_mult (gr_amount request) (Fin 100)),
     ch_currency = toLowerCase (gr_currency request), ch_card = gr_cardToken request\<rparr>"

definition charge_spec ::
  "PaymentGatewayRequest \<Rightarrow> 'z payment_store_scheme \<Rightarrow> exn + PaymentGatewayResponse \<Rightarrow> 'z payment_store_scheme \<Rightarrow> bool" where
  "charge_spec request v r v' \<longleftrightarrow> (\<exists>resp. r = Inr resp \<and>
     (let key = gr_idempotencyKey request in
      if gw_success resp then
        \<exists>i. gw_providerTxId resp = Some i \<and>
          (if charged (charges v) key then v' = v \<and> (\<exists>c\<in>set (charges v). ch_key c = key \<and> ch_id c = i)
           else v' = charges_update (\<lambda>cs. cs @ [charge_for request i]) v)
      else v' = v \<or> \<not> charged (charges v) key \<and> (\<exists>i. v' = charges_update (\<lambda>cs. cs @ [charge_for request i]) v)))"

definition payback_for :: "string \<Rightarrow> amount \<Rightarrow> string \<Rightarrow> payback" where
  "payback_for tx amt i = \<lparr>pb_id = i, pb_intent = tx, pb_amount = Math_round (js_mult (to_number amt) (Fin 100))\<rparr>"

definition refund_spec ::
  "string \<Rightarrow> amount \<Rightarrow> 'z payment_store_scheme \<Rightarrow> exn + PaymentGatewayResponse \<Rightarrow> 'z payment_store_scheme \<Rightarrow> bool" where
  "refund_spec tx amt v r v' \<longleftrightarrow> (\<exists>resp. r = Inr resp \<and>
     (if gw_success resp then
        \<exists>i. gw_providerTxId resp = Some i \<and> v' = paybacks_update (\<lambda>ps. ps @ [payback_for tx amt i]) v
      else v' = v \<or> (\<exists>i. v' = paybacks_update (\<lambda>ps. ps @ [payback_for tx amt i]) v)))"

locale gateway_api =
  fixes G :: "'w PaymentGateway" and vw :: "'w \<Rightarrow> 'z payment_store_scheme"
  assumes charge_law: "obeys vw (gw_charge G request) (charge_spec request)"
    and payback_law: "obeys vw (gw_refund G tx amt) (refund_spec tx amt)"

sublocale payment_world \<subseteq> stripe_gateway: gateway_api "StripeGateway E" vw
proof
  fix request tx amt
  show "obeys vw (gw_charge (StripeGateway E) request) (charge_spec request)"
    unfolding StripeGateway_def PaymentGateway.simps stripe_charge_eq doCharge_def
  proof (rule obeysI, unfold wp_simps, rule wp_obeys [OF stripe.intent_law], goal_cases)
    case (1 w r w')
    then show ?case
      by (cases r) (auto simp: wp_simps charge_spec_def charge_for_def gateway_failure_def Let_def
          split: prod.splits)
  qed
  show "obeys vw (gw_refund (StripeGateway E) tx amt) (refund_spec tx amt)"
    unfolding StripeGateway_def PaymentGateway.simps stripe_refund_eq doRefund_def
  proof (rule obeysI, unfold wp_simps, rule wp_obeys [OF stripe.refund_law], goal_cases)
    case (1 w r w')
    then show ?case
      by (cases r) (auto simp: wp_simps refund_spec_def payback_for_def gateway_failure_def Let_def
          split: if_splits)
  qed
qed

sublocale payment_world \<subseteq> iyzico_gateway: gateway_api IyzicoGateway vw
  by unfold_locales (simp_all add: IyzicoGateway_def iyzico_charge_def iyzico_refund_def obeys_return
      charge_spec_def refund_spec_def gateway_failure_def)

context payment_world
begin

text \<open>Every gateway the factory hands out keeps the contract; otherwise it throws.\<close>

lemma getByProvider_cases:
  "(\<exists>m. getByProvider E p = throw (JsError m)) \<or>
   (\<exists>G. getByProvider E p = return G \<and> gateway_api G vw)"
  by (auto simp: getByProvider_def gateways_def stripe_gateway.gateway_api_axioms
      iyzico_gateway.gateway_api_axioms)

end

end
