(* ===== verification/Payment_Service.thy ===== *)
theory Payment_Service
  imports Payment_Gateways
begin

text \<open>
  \<^verbatim>\<open>PaymentService\<close> (payment/payment.service.ts).  The methods mutate the entity they have saved, so
  their bodies act on the world and that object (\<open>with_object\<close>).
\<close>

section \<open>Operations\<close>

definition new_payment :: "'w payment_env \<Rightarrow> InitiatePaymentDto \<Rightarrow> string \<Rightarrow> string \<Rightarrow> int \<Rightarrow> Payment" where
  "new_payment E dto provider = (\<lambda>id now. stored_payment E
     \<lparr>pay_id = id, pay_bookingId = ip_bookingId dto, pay_idempotencyKey = ip_idempotencyKey dto,
      pay_amount = Number (ip_amount dto), pay_currency = ip_currency dto, pay_method = ip_method dto,
      pay_status = INITIATED, pay_provider = provider, pay_providerTxId = None,
      pay_failureReason = None, pay_paidAt = None, pay_createdAt = now\<rparr>)"

text \<open>\<^verbatim>\<open>await this.paymentRepo.save(savedPayment)\<close>.\<close>

definition save_payment :: "'w payment_env \<Rightarrow> ('w \<times> Payment, unit) act" where
  "save_payment E = await get_object (\<lambda>p. on_world (repo_save (paymentRepo E) [stored_payment E p]))"

definition opt_json :: "string option \<Rightarrow> json" where
  "opt_json x = (case x of None \<Rightarrow> JNull | Some s \<Rightarrow> JStr s)"

definition payment_succeeded_payload :: "Payment \<Rightarrow> json" where
  "payment_succeeded_payload p = JObj [(''paymentId'', JStr (pay_id p)), (''bookingId'', JStr (pay_bookingId p)),
     (''amount'', amount_json (pay_amount p)), (''currency'', JStr (pay_currency p)),
     (''provider'', JStr (pay_provider p)), (''providerTxId'', opt_json (pay_providerTxId p)),
     (''paidAt'', opt_json (map_option toISOString (pay_paidAt p)))]"

definition emit_succeeded :: "'w payment_env \<Rightarrow> ('w \<times> Payment, unit) act" where
  "emit_succeeded E = await get_object (\<lambda>p.
     on_world (kafka_emit (paymentKafka E) ''payment.succeded'' (pay_id p) (payment_succeeded_payload p)))"

definition payment_failed_payload :: "Payment \<Rightarrow> string option \<Rightarrow> json" where
  "payment_failed_payload p reason = JObj [(''paymentId'', JStr (pay_id p)), (''bookingId'', JStr (pay_bookingId p)),
     (''reason'', opt_json reason), (''provider'', JStr (pay_provider p))]"

definition emit_failed :: "'w payment_env \<Rightarrow> string option \<Rightarrow> ('w \<times> Payment, unit) act" where
  "emit_failed E reason = await get_object (\<lambda>p.
     on_world (kafka_emit (paymentKafka E) ''payment.failed'' (pay_id p) (payment_failed_payload p reason)))"

definition charge_request :: "InitiatePaymentDto \<Rightarrow> PaymentGatewayRequest" where
  "charge_request dto = \<lparr>gr_amount = ip_amount dto, gr_currency = ip_currency dto,
     gr_cardToken = ip_cardToken dto, gr_idempotencyKey = ip_idempotencyKey dto\<rparr>"

text \<open>What follows the answer of the gateway.\<close>

definition payment_outcome :: "'w payment_env \<Rightarrow> PaymentGatewayResponse \<Rightarrow> ('w \<times> Payment, unit) act" where
  "payment_outcome E response =
     (if gw_success response then
        await (on_world (paymentNow E)) (\<lambda>now.
        await (assign (\<lambda>p. p\<lparr>pay_status := SUCCEEDED, pay_providerTxId := gw_providerTxId response,
                               pay_paidAt := Some now\<rparr>)) (\<lambda>_.
        await (save_payment E) (\<lambda>_. emit_succeeded E)))
      else
        await (assign (\<lambda>p. p\<lparr>pay_status := PaymentStatus.FAILED, pay_failureReason := gw_failureReason response\<rparr>)) (\<lambda>_.
        await (save_payment E) (\<lambda>_. emit_failed E (gw_failureReason response))))"

definition payment_body ::
  "'w payment_env \<Rightarrow> 'w PaymentGateway \<Rightarrow> InitiatePaymentDto \<Rightarrow> ('w \<times> Payment, Payment) act" where
  "payment_body E gateway dto =
     await (assign (\<lambda>p. p\<lparr>pay_status := PROCESSING\<rparr>)) (\<lambda>_.
     await (save_payment E) (\<lambda>_.
     await (on_world (gw_charge gateway (charge_request dto))) (\<lambda>response.
     await (payment_outcome E response) (\<lambda>_. get_object))))"

definition payment_handler :: "'w payment_env \<Rightarrow> exn \<Rightarrow> ('w \<times> Payment, Payment) act" where
  "payment_handler E error =
     await (assign (\<lambda>p. p\<lparr>pay_status := PaymentStatus.FAILED, pay_failureReason := Some (message error)\<rparr>)) (\<lambda>_.
     await (save_payment E) (\<lambda>_.
     await (emit_failed E (Some (message error))) (\<lambda>_.
     throw error)))"

definition choose_gateway :: "'w payment_env \<Rightarrow> string option \<Rightarrow> ('w, 'w PaymentGateway) act" where
  "choose_gateway E provider = (case provider of
      Some p \<Rightarrow> if p = [] then getDefault E else getByProvider E p
    | None \<Rightarrow> getDefault E)"

definition initiatePayment :: "'w payment_env \<Rightarrow> InitiatePaymentDto \<Rightarrow> ('w, Payment) act" where
  "initiatePayment E dto =
     await (repo_findOne (paymentRepo E) (\<lambda>p. pay_idempotencyKey p = ip_idempotencyKey dto)) (\<lambda>existing.
     case existing of
       Some payment \<Rightarrow> return payment
     | None \<Rightarrow>
       await (choose_gateway E (ip_provider dto)) (\<lambda>gateway.
       await (repo_insert (paymentRepo E) [new_payment E dto (gw_name gateway)]) (\<lambda>saved.
       with_object ((hd saved)\<lparr>pay_amount := Number (ip_amount dto)\<rparr>)
         (try_catch (payment_body E gateway dto) (payment_handler E)))))"

definition payment_findById :: "'w payment_env \<Rightarrow> string \<Rightarrow> ('w, Payment) act" where
  "payment_findById E paymentId =
     await (repo_findOne (paymentRepo E) (\<lambda>p. pay_id p = paymentId)) (\<lambda>payment.
     case payment of None \<Rightarrow> throw (NotFound ''Payment not found'') | Some p \<Rightarrow> return p)"

definition payment_findByBookingId :: "'w payment_env \<Rightarrow> string \<Rightarrow> ('w, Payment list) act" where
  "payment_findByBookingId E bookingId = repo_find (paymentRepo E) (\<lambda>p. pay_bookingId p = bookingId)"

section \<open>What a payment does\<close>

text \<open>The state with one more payment, and what the provider and Kafka got.\<close>

definition with_payment ::
  "Payment \<Rightarrow> charge list \<Rightarrow> kafka_message list \<Rightarrow> 'z payment_store_scheme \<Rightarrow> 'z payment_store_scheme" where
  "with_payment row cs es v = v\<lparr>payments := payments v @ [row], charges := charges v @ cs, p_sent := p_sent v @ es\<rparr>"

lemma with_payment_simps [simp]:
  "payments (with_payment row cs es v) = payments v @ [row]" "refunds (with_payment row cs es v) = refunds v"
  "charges (with_payment row cs es v) = charges v @ cs" "paybacks (with_payment row cs es v) = paybacks v"
  "p_sent (with_payment row cs es v) = p_sent v @ es" "p_clock (with_payment row cs es v) = p_clock v"
  "p_calm (with_payment row cs es v) = p_calm v"
  by (simp_all add: with_payment_def)

lemma with_payment_charge: "charges_update (\<lambda>l. l @ [c]) (with_payment row cs es v) = with_payment row (cs @ [c]) es v"
  and with_payment_sent: "p_sent_update (\<lambda>l. l @ [m]) (with_payment row cs es v) = with_payment row cs (es @ [m]) v"
  by (simp_all add: with_payment_def)

lemma upsert_last: "rid x = rid y \<Longrightarrow> rid y \<notin> rid ` set t \<Longrightarrow> upserts rid [x] (t @ [y]) = t @ [x]"
  by (auto simp: upsert_def image_iff intro!: map_idI)

lemma with_payment_save:
  assumes "pay_id p = pay_id row" "pay_id row \<notin> pay_id ` set (payments v)"
  shows "payments_update (upserts pay_id [p]) (with_payment row cs es v) = with_payment p cs es v"
  using upsert_last [OF assms] by (simp add: with_payment_def)

text \<open>The row a request leaves, whatever its status.\<close>

definition payment_row :: "'w payment_env \<Rightarrow> InitiatePaymentDto \<Rightarrow> 'z payment_store_scheme \<Rightarrow> Payment \<Rightarrow> bool" where
  "payment_row E dto v row \<longleftrightarrow> pay_id row \<notin> pay_id ` set (payments v) \<and>
     pay_idempotencyKey row = ip_idempotencyKey dto \<and> pay_bookingId row = ip_bookingId dto \<and>
     pay_amount row = Decimal (pay_to_numeric E (ip_amount dto)) \<and> pay_currency row = ip_currency dto \<and>
     pay_method row = ip_method dto \<and> pay_createdAt row = p_clock v"

definition seen_key :: "'z payment_store_scheme \<Rightarrow> string \<Rightarrow> bool" where
  "seen_key v key \<longleftrightarrow> (\<exists>p\<in>set (payments v). pay_idempotencyKey p = key)"

text \<open>Money was taken under a key, by the transaction \<open>tx\<close>.\<close>

definition taken_as :: "charge list \<Rightarrow> string \<Rightarrow> string option \<Rightarrow> bool" where
  "taken_as cs key tx \<longleftrightarrow> (\<exists>c\<in>set cs. ch_key c = key \<and> tx = Some (ch_id c))"

definition charge_done :: "InitiatePaymentDto \<Rightarrow> 'z payment_store_scheme \<Rightarrow> charge list \<Rightarrow> bool" where
  "charge_done dto v cs \<longleftrightarrow> cs = [] \<or>
     \<not> charged (charges v) (ip_idempotencyKey dto) \<and> (\<exists>i. cs = [charge_for (charge_request dto) i])"

text \<open>The messages of a payment.\<close>

definition succeeded_message :: "Payment \<Rightarrow> kafka_message" where
  "succeeded_message p = (''payment.succeded'', pay_id p, payment_succeeded_payload p)"

definition failed_message :: "Payment \<Rightarrow> string option \<Rightarrow> kafka_message" where
  "failed_message p reason = (''payment.failed'', pay_id p, payment_failed_payload p reason)"

lemma failed_message_same [simp]:
  "failed_message (stored_payment E p) reason = failed_message p reason"
  "failed_message (pay_status_update f p) reason = failed_message p reason"
  "failed_message (pay_failureReason_update g p) reason = failed_message p reason"
  "failed_message (pay_amount_update h p) reason = failed_message p reason"
  by (simp_all add: failed_message_def payment_failed_payload_def stored_payment_def)

text \<open>
  The contract of \<^verbatim>\<open>initiatePayment\<close>.  A key that was seen is answered from the table and nothing
  happens.  Otherwise nothing happens, or a row is added: on return it is \<open>SUCCEEDED\<close>, with money
  taken under the key, or \<open>FAILED\<close>, and the message of the outcome was sent; on an exception (only when a
  system is down) it does not count as paid, and at most the message of a failure was sent.
\<close>

definition initiate_spec ::
  "'w payment_env \<Rightarrow> InitiatePaymentDto \<Rightarrow> 'z payment_store_scheme \<Rightarrow> exn + Payment \<Rightarrow> 'z payment_store_scheme \<Rightarrow> bool" where
  "initiate_spec E dto v r v' \<longleftrightarrow>
     (let key = ip_idempotencyKey dto in
      if seen_key v key then
        v' = v \<and> (case r of Inl e \<Rightarrow> \<not> p_calm v \<and> (\<exists>m. e = JsError m)
          | Inr p \<Rightarrow> p \<in> set (payments v) \<and> pay_idempotencyKey p = key)
      else
        v' = v \<and> (\<exists>m. r = Inl (JsError m)) \<or>
        (\<exists>row cs es. payment_row E dto v row \<and> charge_done dto v cs \<and> v' = with_payment row cs es v \<and>
          (case r of
             Inl e \<Rightarrow> \<not> p_calm v \<and> (\<exists>m. e = JsError m) \<and> pay_status row \<notin> {SUCCEEDED, REFUNDED} \<and>
               (es = [] \<or> pay_status row = PaymentStatus.FAILED \<and> es = [failed_message row (Some (message e))])
           | Inr p \<Rightarrow> row = stored_payment E p \<and> pay_amount p = Number (ip_amount dto) \<and>
               (pay_status p = PaymentStatus.FAILED \<and> es = [failed_message p (pay_failureReason p)] \<or>
                pay_status p = SUCCEEDED \<and> es = [succeeded_message p] \<and>
                taken_as (charges v @ cs) key (pay_providerTxId p)))))"

context payment_world
begin

lemma save_payment_wp:
  assumes "vw w = with_payment row cs es v" "pay_id p = pay_id row" "pay_id row \<notin> pay_id ` set (payments v)"
    and "\<And>m w'. vw w' = with_payment row cs es v \<Longrightarrow> \<not> p_calm v \<Longrightarrow> Q (Inl (JsError m)) (w', p)"
    and "\<And>w'. vw w' = with_payment (stored_payment E p) cs es v \<Longrightarrow> Q (Inr ()) (w', p)"
  shows "wp (save_payment E) Q (w, p)"
  unfolding save_payment_def wp_simps sum.case
  by (rule wp_fallible [OF pay.save_law])
    (use assms with_payment_save [of "stored_payment E p" row v cs es] in auto)

lemma emit_failed_wp:
  assumes "vw w = with_payment row cs es v"
    and "\<And>w'. vw w' = with_payment row cs (es @ [failed_message p reason]) v \<Longrightarrow> Q (Inr ()) (w', p)"
  shows "wp (emit_failed E reason) Q (w, p)"
  unfolding emit_failed_def wp_simps sum.case
  by (rule wp_obeys [OF emit_law]) (auto simp: assms(1) with_payment_sent failed_message_def intro: assms(2))

lemma emit_succeeded_wp:
  assumes "vw w = with_payment row cs es v"
    and "\<And>w'. vw w' = with_payment row cs (es @ [succeeded_message p]) v \<Longrightarrow> Q (Inr ()) (w', p)"
  shows "wp (emit_succeeded E) Q (w, p)"
  unfolding emit_succeeded_def wp_simps sum.case
  by (rule wp_obeys [OF emit_law]) (auto simp: assms(1) with_payment_sent succeeded_message_def intro: assms(2))

text \<open>What the gateway leaves on top of a new row.\<close>

lemma charge_outcome:
  assumes "charge_spec (charge_request dto) (with_payment row [] [] v) r v'"
  obtains resp cs where "r = Inr resp" "v' = with_payment row cs [] v" "charge_done dto v cs"
    "gw_success resp \<Longrightarrow> taken_as (charges v @ cs) (ip_idempotencyKey dto) (gw_providerTxId resp)"
proof -
  let ?key = "ip_idempotencyKey dto" and ?c = "charge_for (charge_request dto)"
  obtain resp where r: "r = Inr resp"
    using assms by (auto simp: charge_spec_def)
  have new: "charges_update (\<lambda>cs. cs @ [?c i]) (with_payment row [] [] v) = with_payment row [?c i] [] v" for i
    using with_payment_charge [where cs = "[]"] by simp
  have key: "gr_idempotencyKey (charge_request dto) = ?key" "ch_key (?c i) = ?key" "ch_id (?c i) = i" for i
    by (simp_all add: charge_request_def charge_for_def)
  consider (none) "v' = with_payment row [] [] v"
      "gw_success resp \<Longrightarrow> \<exists>c\<in>set (charges v). ch_key c = ?key \<and> gw_providerTxId resp = Some (ch_id c)"
    | (one) i where "v' = with_payment row [?c i] [] v" "\<not> charged (charges v) ?key"
        "gw_success resp \<Longrightarrow> gw_providerTxId resp = Some i"
    using assms unfolding charge_spec_def r key new by (auto simp: Let_def split: if_splits)
  then show thesis
  proof cases
    case none
    then show thesis
      using that [of resp "[]"] r by (auto simp: charge_done_def taken_as_def)
  next
    case (one i)
    then show thesis
      using that [of resp "[?c i]"] r key by (auto simp: charge_done_def taken_as_def)
  qed
qed

text \<open>The handler of the \<^verbatim>\<open>catch\<close> block, on a row that did not succeed.\<close>

lemma payment_handler_wp:
  assumes w: "vw w = with_payment row cs [] v" and p: "pay_id p = pay_id row"
    and row: "payment_row E dto v row" "payment_row E dto v (stored_payment E p)" "pay_status row \<notin> {SUCCEEDED, REFUNDED}"
    and rest: "charge_done dto v cs" "\<not> p_calm v"
    and new: "\<not> seen_key v (ip_idempotencyKey dto)"
  shows "wp (payment_handler E (JsError m)) (\<lambda>r (w', p'). initiate_spec E dto v r (vw w')) (w, p)"
proof -
  have fresh: "pay_id row \<notin> pay_id ` set (payments v)"
    using row(1) by (simp add: payment_row_def)
  have ends: "initiate_spec E dto v (Inl (JsError m')) (vw w')"
    if "vw w' = with_payment row' cs es' v" "payment_row E dto v row'" "pay_status row' \<notin> {SUCCEEDED, REFUNDED}"
      "es' = [] \<or> pay_status row' = PaymentStatus.FAILED \<and> es' = [failed_message row' (Some m')]" for m' w' row' es'
    using that rest new by (auto simp: initiate_spec_def Let_def)
  show ?thesis
    unfolding payment_handler_def wp_simps sum.case
    by (rule save_payment_wp [OF w])
      (use p fresh row ends in \<open>auto simp: wp_simps payment_row_def stored_payment_def intro!: emit_failed_wp\<close>)
qed

lemma payment_body_wp:
  assumes G: "gateway_api G vw" and w: "vw w = with_payment row [] [] v"
    and p: "stored_payment E p = row" "pay_amount p = Number (ip_amount dto)"
    and row: "payment_row E dto v row" "pay_status row \<notin> {SUCCEEDED, REFUNDED}"
    and new: "\<not> seen_key v (ip_idempotencyKey dto)"
  shows "wp (try_catch (payment_body E G dto) (payment_handler E))
    (\<lambda>r (w', p'). initiate_spec E dto v r (vw w')) (w, p)"
proof -
  have fresh: "pay_id row \<notin> pay_id ` set (payments v)"
    using row(1) by (simp add: payment_row_def)
  have keep: "payment_row E dto v (stored_payment E p')"
    if "pay_id p' = pay_id p" "pay_idempotencyKey p' = pay_idempotencyKey p" "pay_bookingId p' = pay_bookingId p"
      "pay_amount p' = pay_amount p" "pay_currency p' = pay_currency p" "pay_method p' = pay_method p"
      "pay_createdAt p' = pay_createdAt p" for p'
    using row(1) that by (auto simp: payment_row_def stored_payment_def simp flip: p(1))
  have ends: "initiate_spec E dto v (Inr p') (with_payment (stored_payment E p') cs es v)"
    if "payment_row E dto v (stored_payment E p')"
      "charge_done dto v cs" "pay_amount p' = Number (ip_amount dto)"
      "pay_status p' = PaymentStatus.FAILED \<and> es = [failed_message p' (pay_failureReason p')] \<or>
       pay_status p' = SUCCEEDED \<and> es = [succeeded_message p'] \<and> taken_as (charges v @ cs) (ip_idempotencyKey dto) (pay_providerTxId p')" for p' cs es
    using that new unfolding initiate_spec_def Let_def by (auto intro!: exI)
  have handled: "wp (payment_handler E (JsError m)) (\<lambda>r (w', p'). initiate_spec E dto v r (vw w')) (w', p')"
    if "vw w' = with_payment row' cs [] v" "payment_row E dto v row'" "pay_status row' \<notin> {SUCCEEDED, REFUNDED}"
      "pay_id row' = pay_id p'" "payment_row E dto v (stored_payment E p')" "charge_done dto v cs" "\<not> p_calm v" for m w' row' cs p'
    using payment_handler_wp [of w' row' cs v p'] that new by simp
  let ?p1 = "p\<lparr>pay_status := PROCESSING\<rparr>"
  let ?Q = "\<lambda>r w'. case r of Inl e \<Rightarrow> wp (payment_handler E e) (\<lambda>r (w', p'). initiate_spec E dto v r (vw w')) w'
    | Inr a \<Rightarrow> case w' of (w', p') \<Rightarrow> initiate_spec E dto v (Inr a) (vw w')"
  have after: "wp (payment_outcome E resp)
      (\<lambda>r w'. case r of Inl e \<Rightarrow> wp (payment_handler E e) (\<lambda>r (w', p'). initiate_spec E dto v r (vw w')) w'
        | Inr _ \<Rightarrow> wp get_object ?Q w') (w2, ?p1)"
    if w2: "vw w2 = with_payment (stored_payment E ?p1) cs [] v" and cs: "charge_done dto v cs"
      and ok: "gw_success resp \<Longrightarrow> taken_as (charges v @ cs) (ip_idempotencyKey dto) (gw_providerTxId resp)"
    for w2 cs resp
  proof (cases "gw_success resp")
    case True
    show ?thesis
      unfolding payment_outcome_def if_P [OF True] wp_simps
    proof (rule wp_obeys [OF now_law], goal_cases)
      case (1 r w3)
      then have w3: "vw w3 = with_payment (stored_payment E ?p1) cs [] v" and r: "r = Inr (p_clock v)"
        using w2 by simp_all
      show ?case
        unfolding r sum.case wp_simps
        by (rule save_payment_wp [OF w3])
          (use p fresh cs ok True in \<open>auto simp: wp_simps intro!: handled keep ends emit_succeeded_wp\<close>)
    qed
  next
    case False
    show ?thesis
      unfolding payment_outcome_def if_not_P [OF False] wp_simps sum.case
      by (rule save_payment_wp [OF w2])
        (use p fresh cs in \<open>auto simp: wp_simps intro!: handled keep ends emit_failed_wp\<close>)
  qed
  show ?thesis
    unfolding payment_body_def wp_simps sum.case
  proof (rule save_payment_wp [OF w], goal_cases)
    case (4 w1)
    show ?case
      unfolding sum.case wp_simps
    proof (rule wp_obeys [OF gateway_api.charge_law [OF G]], goal_cases)
      case (1 r w2)
      then obtain resp cs where "r = Inr resp" "vw w2 = with_payment (stored_payment E ?p1) cs [] v" "charge_done dto v cs"
          "gw_success resp \<Longrightarrow> taken_as (charges v @ cs) (ip_idempotencyKey dto) (gw_providerTxId resp)"
        unfolding 4 by (rule charge_outcome) blast
      then show ?case by (simp add: after)
    qed
  qed (use p fresh row in \<open>auto intro!: handled keep simp: charge_done_def\<close>)
qed

lemma new_payment_insertable:
  assumes "unique_keys (payments v)" "\<not> seen_key v (ip_idempotencyKey dto)"
  shows "insertable pay_id U now [new_payment E dto name] (\<lambda>xs. unique_keys (payments v @ xs))"
  using assms by (auto simp: insertable_def keeps_ids_def created_def new_payment_def unique_keys_def seen_key_def length_Suc_conv)

lemma choose_gateway_cases:
  "(\<exists>m. choose_gateway E p = throw (JsError m)) \<or> (\<exists>G. choose_gateway E p = return G \<and> gateway_api G vw)"
  using getByProvider_cases by (cases p) (auto simp: choose_gateway_def getDefault_def)

lemma initiatePayment_law:
  "obeys vw (initiatePayment E dto) (\<lambda>v r v'. unique_keys (payments v) \<longrightarrow> initiate_spec E dto v r v')"
proof (rule obeys_pre, goal_cases)
  case (1 w)
  let ?v = "vw w" and ?key = "ip_idempotencyKey dto"
  have stop: "initiate_spec E dto ?v (Inl (JsError m)) (vw w')" if "vw w' = ?v" "\<not> p_calm ?v \<or> \<not> seen_key ?v ?key" for m w'
    using that by (auto simp: initiate_spec_def Let_def)
  show ?case
    unfolding initiatePayment_def wp_await
  proof (rule wp_fallible [OF pay.findOne_law], goal_cases)
    case (2 x w1)
    show ?case
    proof (cases x)
      case (Some p)
      then show ?thesis using 2 by (auto simp: wp_simps initiate_spec_def Let_def seen_key_def)
    next
      case None
      then have new: "\<not> seen_key ?v ?key" and w1: "vw w1 = ?v"
        using 2 by (auto simp: seen_key_def)
      have insert: "wp (repo_insert (paymentRepo E) [new_payment E dto (gw_name G)])
          (\<lambda>r w'. case r of Inl e \<Rightarrow> initiate_spec E dto ?v (Inl e) (vw w') | Inr saved \<Rightarrow>
             wp (with_object ((hd saved)\<lparr>pay_amount := Number (ip_amount dto)\<rparr>)
               (try_catch (payment_body E G dto) (payment_handler E))) (\<lambda>r w'. initiate_spec E dto ?v r (vw w')) w') w1"
        if G: "gateway_api G vw" for G
      proof (rule wp_fallible [OF pay.insert_law], goal_cases)
        case (1 m w2)
        then show ?case using stop new w1 by simp
      next
        case (2 saved w2)
        then obtain i where saved: "saved = [new_payment E dto (gw_name G) i (p_clock ?v)]"
            "i \<notin> pay_id ` set (payments ?v)"
          by (auto simp: created_def length_Suc_conv w1 new_payment_def)
        have "vw w2 = with_payment (hd saved) [] [] ?v"
          using 2 saved(1) w1 by (simp add: with_payment_def)
        then show ?case
          unfolding sum.case wp_with_object
          by (rule payment_body_wp [OF G])
            (use saved new in \<open>auto simp: payment_row_def new_payment_def stored_payment_def\<close>)
      qed
      show ?thesis
        using choose_gateway_cases [of "ip_provider dto"] None new w1 insert
        by (auto simp: wp_simps intro!: stop)
    qed
  qed (use stop in simp)
qed

end

end
