(* ===== verification/Refund_Service.thy ===== *)
theory Refund_Service
  imports Payment_Service
begin

text \<open>
  \<^verbatim>\<open>RefundService\<close> (payment/refund.service.ts) and the gRPC controller of the payment service
  (payment/payment.grpc-controller.ts).
\<close>

section \<open>Operations\<close>

definition new_refund :: "Payment \<Rightarrow> string \<Rightarrow> string option \<Rightarrow> string \<Rightarrow> int \<Rightarrow> Refund" where
  "new_refund payment key reason = (\<lambda>id now. \<lparr>ref_id = id, ref_paymentId = pay_id payment,
     ref_idempotencyKey = key, ref_amount = pay_amount payment, ref_reason = reason, ref_status = PENDING,
     ref_providerRefundId = None, ref_failureReason = None, ref_createdAt = now\<rparr>)"

definition save_refund :: "'w payment_env \<Rightarrow> ('w \<times> Refund, unit) act" where
  "save_refund E = await get_object (\<lambda>rf. on_world (repo_save (refundRepo E) [rf]))"

definition payment_refunded_payload :: "Payment \<Rightarrow> Refund \<Rightarrow> json" where
  "payment_refunded_payload payment rf = JObj [(''refundId'', JStr (ref_id rf)), (''paymentId'', JStr (pay_id payment)),
     (''bookingId'', JStr (pay_bookingId payment)), (''amount'', amount_json (pay_amount payment)),
     (''currency'', JStr (pay_currency payment)), (''providerRefundId'', opt_json (ref_providerRefundId rf))]"

definition emit_refunded :: "'w payment_env \<Rightarrow> Payment \<Rightarrow> ('w \<times> Refund, unit) act" where
  "emit_refunded E payment = await get_object (\<lambda>rf.
     on_world (kafka_emit (paymentKafka E) ''payment.refunded'' (ref_id rf) (payment_refunded_payload payment rf)))"

definition refund_outcome ::
  "'w payment_env \<Rightarrow> Payment \<Rightarrow> PaymentGatewayResponse \<Rightarrow> ('w \<times> Refund, unit) act" where
  "refund_outcome E payment refundResult =
     (if gw_success refundResult then
        await (assign (\<lambda>rf. rf\<lparr>ref_status := PROCESSED, ref_providerRefundId := gw_providerTxId refundResult\<rparr>)) (\<lambda>_.
        await (save_refund E) (\<lambda>_.
        await (on_world (repo_save (paymentRepo E) [payment\<lparr>pay_status := REFUNDED\<rparr>])) (\<lambda>_.
        emit_refunded E payment)))
      else
        await (assign (\<lambda>rf. rf\<lparr>ref_status := FAILED, ref_failureReason := gw_failureReason refundResult\<rparr>)) (\<lambda>_.
        save_refund E))"

definition refund_tx :: "Payment \<Rightarrow> string" where
  "refund_tx payment = (case pay_providerTxId payment of Some tx \<Rightarrow> tx | None \<Rightarrow> [])"

definition refund_body :: "'w payment_env \<Rightarrow> Payment \<Rightarrow> ('w \<times> Refund, Refund) act" where
  "refund_body E payment =
     await (on_world (getByProvider E (pay_provider payment))) (\<lambda>gateway.
     await (on_world (gw_refund gateway (refund_tx payment) (pay_amount payment))) (\<lambda>refundResult.
     await (refund_outcome E payment refundResult) (\<lambda>_. get_object)))"

definition refund_handler :: "'w payment_env \<Rightarrow> exn \<Rightarrow> ('w \<times> Refund, Refund) act" where
  "refund_handler E error =
     await (assign (\<lambda>rf. rf\<lparr>ref_status := FAILED, ref_failureReason := Some (message error)\<rparr>)) (\<lambda>_.
     await (save_refund E) (\<lambda>_. throw error))"

definition refundByBooking :: "'w payment_env \<Rightarrow> string \<Rightarrow> string \<Rightarrow> string option \<Rightarrow> ('w, Refund) act" where
  "refundByBooking E bookingId idempotencyKey reason =
     await (repo_findOne (paymentRepo E) (\<lambda>p. pay_bookingId p = bookingId \<and> pay_status p = SUCCEEDED)) (\<lambda>found.
     case found of
       None \<Rightarrow> throw (BadRequest (''No succeeded payment found for booking '' @ bookingId))
     | Some payment \<Rightarrow>
       await (repo_findOne (refundRepo E) (\<lambda>rf. ref_idempotencyKey rf = idempotencyKey)) (\<lambda>existing.
       case existing of
         Some rf \<Rightarrow> return rf
       | None \<Rightarrow>
         await (repo_insert (refundRepo E) [new_refund payment idempotencyKey reason]) (\<lambda>saved.
         with_object (hd saved) (try_catch (refund_body E payment) (refund_handler E)))))"

section \<open>The gRPC controller\<close>

record PaymentInfo =
  pi_id :: string
  pi_bookingId :: string
  pi_idempotencyKey :: string
  pi_amount :: string
  pi_currency :: string
  pi_method :: string
  pi_status :: string
  pi_provider :: string
  pi_providerTxId :: string
  pi_failureReason :: string
  pi_paidAt :: string

text \<open>\<^verbatim>\<open>x || ''\<close>.\<close>

definition or_empty :: "string option \<Rightarrow> string" where
  "or_empty x = (case x of None \<Rightarrow> [] | Some s \<Rightarrow> s)"

definition toPaymentInfo :: "Payment \<Rightarrow> PaymentInfo" where
  "toPaymentInfo p = \<lparr>pi_id = pay_id p, pi_bookingId = pay_bookingId p, pi_idempotencyKey = pay_idempotencyKey p,
     pi_amount = amount_text (pay_amount p), pi_currency = pay_currency p,
     pi_method = payment_method_text (pay_method p), pi_status = payment_status_text (pay_status p),
     pi_provider = pay_provider p, pi_providerTxId = or_empty (pay_providerTxId p),
     pi_failureReason = or_empty (pay_failureReason p),
     pi_paidAt = (case pay_paidAt p of None \<Rightarrow> [] | Some t \<Rightarrow> toISOString t)\<rparr>"

definition grpc_initiatePayment :: "'w payment_env \<Rightarrow> InitiatePaymentDto \<Rightarrow> ('w, PaymentInfo) act" where
  "grpc_initiatePayment E dto = await (initiatePayment E dto) (\<lambda>payment. return (toPaymentInfo payment))"

definition grpc_getPayment :: "'w payment_env \<Rightarrow> string \<Rightarrow> ('w, PaymentInfo) act" where
  "grpc_getPayment E paymentId = await (payment_findById E paymentId) (\<lambda>payment. return (toPaymentInfo payment))"

definition grpc_getPaymentsByBooking :: "'w payment_env \<Rightarrow> string \<Rightarrow> ('w, PaymentInfo list) act" where
  "grpc_getPaymentsByBooking E bookingId =
     await (payment_findByBookingId E bookingId) (\<lambda>payments. return (map toPaymentInfo payments))"

record RefundReply =
  rr_success :: bool
  rr_refundId :: string
  rr_failureReason :: string

definition grpc_refundPayment :: "'w payment_env \<Rightarrow> string \<Rightarrow> string \<Rightarrow> string option \<Rightarrow> ('w, RefundReply) act" where
  "grpc_refundPayment E bookingId idempotencyKey reason =
     try_catch
       (await (refundByBooking E bookingId idempotencyKey reason) (\<lambda>refund.
        return \<lparr>rr_success = (ref_status refund = PROCESSED), rr_refundId = ref_id refund,
          rr_failureReason = or_empty (ref_failureReason refund)\<rparr>))
       (\<lambda>error. return \<lparr>rr_success = False, rr_refundId = [], rr_failureReason = message error\<rparr>)"

section \<open>What a refund does\<close>

definition with_refund ::
  "Payment list \<Rightarrow> Refund \<Rightarrow> payback list \<Rightarrow> kafka_message list \<Rightarrow> 'z payment_store_scheme \<Rightarrow> 'z payment_store_scheme" where
  "with_refund pays row ps es v = v\<lparr>payments := pays, refunds := refunds v @ [row],
     paybacks := paybacks v @ ps, p_sent := p_sent v @ es\<rparr>"

lemma with_refund_simps [simp]:
  "payments (with_refund pays row ps es v) = pays" "refunds (with_refund pays row ps es v) = refunds v @ [row]"
  "charges (with_refund pays row ps es v) = charges v" "paybacks (with_refund pays row ps es v) = paybacks v @ ps"
  "p_sent (with_refund pays row ps es v) = p_sent v @ es" "p_clock (with_refund pays row ps es v) = p_clock v"
  "p_calm (with_refund pays row ps es v) = p_calm v"
  by (simp_all add: with_refund_def)

lemma with_refund_update:
  "paybacks_update (\<lambda>l. l @ [c]) (with_refund pays row ps es v) = with_refund pays row (ps @ [c]) es v"
  "p_sent_update (\<lambda>l. l @ [m]) (with_refund pays row ps es v) = with_refund pays row ps (es @ [m]) v"
  "payments_update f (with_refund pays row ps es v) = with_refund (f pays) row ps es v"
  by (simp_all add: with_refund_def)

lemma with_refund_save:
  assumes "ref_id rf = ref_id row" "ref_id row \<notin> ref_id ` set (refunds v)"
  shows "refunds_update (upserts ref_id [rf]) (with_refund pays row ps es v) = with_refund pays rf ps es v"
  using upsert_last [OF assms] by (simp add: with_refund_def)

definition refundable :: "'z payment_store_scheme \<Rightarrow> string \<Rightarrow> Payment \<Rightarrow> bool" where
  "refundable v bookingId p \<longleftrightarrow> p \<in> set (payments v) \<and> pay_bookingId p = bookingId \<and> pay_status p = SUCCEEDED"

definition payback_done :: "Payment \<Rightarrow> payback list \<Rightarrow> bool" where
  "payback_done p ps \<longleftrightarrow> ps = [] \<or> (\<exists>i. ps = [payback_for (refund_tx p) (pay_amount p) i])"

text \<open>
  The contract of \<^verbatim>\<open>refundByBooking\<close>.  Nothing happens without a succeeded payment or for a key that
  was seen.  Otherwise at most one refund row is added and money is given back at most once; on
  return the refund is \<open>PROCESSED\<close>, the money was given back, the payment is \<open>REFUNDED\<close> and the message was
  sent, or it is \<open>FAILED\<close> and the payment untouched.  On an exception no message was sent; while the
  systems are up the refund is then \<open>FAILED\<close> with the message of the exception, and no money moved.
\<close>

definition refunded_message :: "Payment \<Rightarrow> Refund \<Rightarrow> kafka_message" where
  "refunded_message p rf = (''payment.refunded'', ref_id rf, payment_refunded_payload p rf)"

definition refund_run ::
  "string \<Rightarrow> string \<Rightarrow> 'z payment_store_scheme \<Rightarrow> exn + Refund \<Rightarrow> 'z payment_store_scheme \<Rightarrow> bool" where
  "refund_run bookingId key v r v' \<longleftrightarrow>
     (\<exists>p pays row ps es. refundable v bookingId p \<and> payback_done p ps \<and> v' = with_refund pays row ps es v \<and>
        ref_id row \<notin> ref_id ` set (refunds v) \<and> ref_paymentId row = pay_id p \<and> ref_idempotencyKey row = key \<and>
        (case r of
           Inl e \<Rightarrow> (\<exists>m. e = JsError m) \<and> pays = payments v \<and> es = [] \<and>
             (p_calm v \<longrightarrow> ps = [] \<and> ref_status row = FAILED \<and> ref_failureReason row = Some (message e))
         | Inr rf \<Rightarrow> row = rf \<and>
             (ref_status rf = PROCESSED \<and> ps \<noteq> [] \<and> es = [refunded_message p rf] \<and>
                pays = upserts pay_id [p\<lparr>pay_status := REFUNDED\<rparr>] (payments v) \<or>
              ref_status rf = FAILED \<and> es = [] \<and> pays = payments v)))"

definition refund_booking_spec ::
  "string \<Rightarrow> string \<Rightarrow> 'z payment_store_scheme \<Rightarrow> exn + Refund \<Rightarrow> 'z payment_store_scheme \<Rightarrow> bool" where
  "refund_booking_spec bookingId key v r v' \<longleftrightarrow>
     v' = v \<and> (\<exists>m. r = Inl (JsError m)) \<and> \<not> p_calm v \<or>
     v' = v \<and> (\<exists>m. r = Inl (BadRequest m)) \<and> (\<forall>p. \<not> refundable v bookingId p) \<or>
     (\<exists>p. refundable v bookingId p) \<and>
       (if \<exists>rf\<in>set (refunds v). ref_idempotencyKey rf = key
        then v' = v \<and> (\<exists>rf\<in>set (refunds v). ref_idempotencyKey rf = key \<and> r = Inr rf)
        else refund_run bookingId key v r v')"

lemma refund_run_spec:
  "refund_run b key v r v' \<Longrightarrow> \<forall>rf\<in>set (refunds v). ref_idempotencyKey rf \<noteq> key \<Longrightarrow> refund_booking_spec b key v r v'"
  unfolding refund_booking_spec_def by (auto simp: refund_run_def)

context payment_world
begin

lemma save_refund_wp:
  assumes "vw w = with_refund pays row ps es v" "ref_id rf = ref_id row" "ref_id row \<notin> ref_id ` set (refunds v)"
    and "\<And>m w'. vw w' = with_refund pays row ps es v \<Longrightarrow> \<not> p_calm v \<Longrightarrow> Q (Inl (JsError m)) (w', rf)"
    and "\<And>w'. vw w' = with_refund pays rf ps es v \<Longrightarrow> Q (Inr ()) (w', rf)"
  shows "wp (save_refund E) Q (w, rf)"
  unfolding save_refund_def wp_simps sum.case
  by (rule wp_fallible [OF ref.save_law])
    (use assms with_refund_save [of rf row v pays ps es] in auto)

text \<open>What the gateway leaves on top of a new refund.\<close>

lemma payback_outcome:
  assumes "refund_spec (refund_tx p) (pay_amount p) (with_refund pays row [] [] v) r v'"
  obtains resp ps where "r = Inr resp" "v' = with_refund pays row ps [] v" "payback_done p ps"
    "gw_success resp \<Longrightarrow> ps \<noteq> []"
proof -
  obtain resp where r: "r = Inr resp"
    using assms by (auto simp: refund_spec_def)
  have new: "paybacks_update (\<lambda>ps. ps @ [c]) (with_refund pays row [] [] v) = with_refund pays row [c] [] v" for c
    by (simp add: with_refund_update)
  show thesis
    using assms that [of resp "[]"] that [of resp "[payback_for (refund_tx p) (pay_amount p) i]" for i]
    unfolding refund_spec_def r new by (auto simp: payback_done_def split: if_splits)
qed

end

text \<open>A refund object that belongs to a run, and the two ways the run may end.\<close>

definition refund_object :: "'z payment_store_scheme \<Rightarrow> Payment \<Rightarrow> string \<Rightarrow> string \<Rightarrow> Refund \<Rightarrow> bool" where
  "refund_object v p key i rf \<longleftrightarrow> ref_id rf = i \<and> ref_paymentId rf = pay_id p \<and> ref_idempotencyKey rf = key \<and>
     i \<notin> ref_id ` set (refunds v)"

lemma refund_run_Inl:
  assumes "refundable v b p" "payback_done p ps" "refund_object v p key i row"
    and "p_calm v \<Longrightarrow> ps = [] \<and> ref_status row = FAILED \<and> ref_failureReason row = Some m"
  shows "refund_run b key v (Inl (JsError m)) (with_refund (payments v) row ps [] v)"
  using assms unfolding refund_run_def refund_object_def
  by (intro exI [of _ p] exI [of _ "payments v"] exI [of _ row] exI [of _ ps] exI [of _ "[]"]) auto

lemma refund_run_Inr:
  assumes "refundable v b p" "payback_done p ps" "refund_object v p key i row"
    and "ref_status row = PROCESSED \<and> ps \<noteq> [] \<and> es = [refunded_message p row] \<and>
        pays = upserts pay_id [p\<lparr>pay_status := REFUNDED\<rparr>] (payments v) \<or>
      ref_status row = FAILED \<and> es = [] \<and> pays = payments v"
  shows "refund_run b key v (Inr row) (with_refund pays row ps es v)"
  using assms unfolding refund_run_def refund_object_def
  by (intro exI [of _ p] exI [of _ pays] exI [of _ row] exI [of _ ps] exI [of _ es]) auto

context payment_world
begin

lemma refund_handler_wp:
  assumes w: "vw w = with_refund (payments v) row ps [] v"
    and obj: "refund_object v p key i row" "refund_object v p key i rf"
    and run: "refundable v b p" "payback_done p ps" and calm: "p_calm v \<Longrightarrow> ps = []"
  shows "wp (refund_handler E (JsError m)) (\<lambda>r (w', rf'). refund_run b key v r (vw w')) (w, rf)"
  unfolding refund_handler_def wp_simps sum.case
  by (rule save_refund_wp [OF w])
    (use obj calm in \<open>auto simp: wp_simps refund_object_def intro!: refund_run_Inl [OF run, where i = i]\<close>)

lemma refund_outcome_wp:
  assumes w: "vw w = with_refund (payments v) row ps [] v"
    and obj: "refund_object v p key i row"
    and run: "refundable v b p" "payback_done p ps" and ok: "gw_success resp \<Longrightarrow> ps \<noteq> []"
  shows "wp (refund_outcome E p resp) (\<lambda>r w'. case r of
      Inl e \<Rightarrow> wp (refund_handler E e) (\<lambda>r (w', rf'). refund_run b key v r (vw w')) w'
    | Inr _ \<Rightarrow> wp get_object (\<lambda>r w'. case r of
        Inl e \<Rightarrow> wp (refund_handler E e) (\<lambda>r (w', rf'). refund_run b key v r (vw w')) w'
      | Inr a \<Rightarrow> case w' of (w', rf') \<Rightarrow> refund_run b key v (Inr a) (vw w')) w') (w, row)"
proof (cases "gw_success resp")
  case True
  let ?rf = "row\<lparr>ref_status := PROCESSED, ref_providerRefundId := gw_providerTxId resp\<rparr>"
  have obj': "refund_object v p key i ?rf" using obj by (simp add: refund_object_def)
  have paid: "wp (repo_save (paymentRepo E) [p\<lparr>pay_status := REFUNDED\<rparr>]) (\<lambda>r w'. case r of
      Inl e \<Rightarrow> wp (refund_handler E e) (\<lambda>r (w', rf'). refund_run b key v r (vw w')) (w', ?rf)
    | Inr _ \<Rightarrow> wp (emit_refunded E p) (\<lambda>r w'. case r of
        Inl e \<Rightarrow> wp (refund_handler E e) (\<lambda>r (w', rf'). refund_run b key v r (vw w')) w'
      | Inr _ \<Rightarrow> wp get_object (\<lambda>r w'. case r of
          Inl e \<Rightarrow> wp (refund_handler E e) (\<lambda>r (w', rf'). refund_run b key v r (vw w')) w'
        | Inr a \<Rightarrow> case w' of (w', rf') \<Rightarrow> refund_run b key v (Inr a) (vw w')) w') (w', ?rf)) w1"
    if "vw w1 = with_refund (payments v) ?rf ps [] v" for w1
  proof (rule wp_fallible [OF pay.save_law], goal_cases)
    case (1 m w2)
    then show ?case using that obj' by (auto intro!: refund_handler_wp [OF _ obj' obj' run])
  next
    case (2 u w2)
    then have "vw w2 = with_refund (upserts pay_id [p\<lparr>pay_status := REFUNDED\<rparr>] (payments v)) ?rf ps [] v"
      using that by (simp add: with_refund_update)
    then show ?case
      unfolding sum.case emit_refunded_def wp_simps
      by (auto intro!: wp_obeys [OF emit_law] refund_run_Inr [OF run obj'] simp: with_refund_update refunded_message_def ok [OF True])
  qed
  show ?thesis
    unfolding refund_outcome_def if_P [OF True] wp_await wp_assign wp_on_world sum.case
  proof (rule save_refund_wp [OF w], goal_cases)
    case (3 m w1)
    then show ?case by (auto intro!: refund_handler_wp [OF _ obj obj' run])
  next
    case (4 w1)
    then show ?case by (simp add: wp_on_world paid)
  qed (use obj in \<open>simp_all add: refund_object_def\<close>)
next
  case False
  let ?rf = "row\<lparr>ref_status := FAILED, ref_failureReason := gw_failureReason resp\<rparr>"
  have obj': "refund_object v p key i ?rf" using obj by (simp add: refund_object_def)
  show ?thesis
    unfolding refund_outcome_def if_not_P [OF False] wp_await wp_assign sum.case
  proof (rule save_refund_wp [OF w], goal_cases)
    case (3 m w1)
    then show ?case by (auto intro!: refund_handler_wp [OF _ obj obj' run])
  next
    case (4 w1)
    then show ?case by (auto simp: wp_get_object intro!: refund_run_Inr [OF run obj'])
  qed (use obj in \<open>simp_all add: refund_object_def\<close>)
qed

lemma refund_body_wp:
  assumes w: "vw w = with_refund (payments v) row [] [] v"
    and obj: "refund_object v p key i row" and run: "refundable v b p"
  shows "wp (try_catch (refund_body E p) (refund_handler E)) (\<lambda>r (w', rf'). refund_run b key v r (vw w')) (w, row)"
proof -
  have none: "payback_done p []" by (simp add: payback_done_def)
  have paid: "wp (gw_refund G (refund_tx p) (pay_amount p)) (\<lambda>r w'. case r of
      Inl e \<Rightarrow> wp (refund_handler E e) (\<lambda>r (w', rf'). refund_run b key v r (vw w')) (w', row)
    | Inr resp \<Rightarrow> wp (refund_outcome E p resp) (\<lambda>r w'. case r of
        Inl e \<Rightarrow> wp (refund_handler E e) (\<lambda>r (w', rf'). refund_run b key v r (vw w')) w'
      | Inr _ \<Rightarrow> wp get_object (\<lambda>r w'. case r of
          Inl e \<Rightarrow> wp (refund_handler E e) (\<lambda>r (w', rf'). refund_run b key v r (vw w')) w'
        | Inr a \<Rightarrow> case w' of (w', rf') \<Rightarrow> refund_run b key v (Inr a) (vw w')) w') (w', row)) w"
    if "gateway_api G vw" for G
  proof (rule wp_obeys [OF gateway_api.payback_law [OF that]], unfold w, erule payback_outcome, goal_cases)
    case (1 r w' resp ps)
    then show ?case using refund_outcome_wp [OF 1(2) obj run 1(3,4)] by simp
  qed
  show ?thesis
    unfolding refund_body_def wp_try_catch wp_await wp_on_world sum.case
    using getByProvider_cases [of "pay_provider p"] paid
    by (auto simp: wp_return wp_throw wp_await wp_on_world intro!: refund_handler_wp [OF w obj obj run none])
qed

lemma refundByBooking_law: "obeys vw (refundByBooking E b key reason) (refund_booking_spec b key)"
proof (rule obeysI)
  fix w
  let ?v = "vw w"
  have stop: "refund_booking_spec b key ?v (Inl (JsError m)) (vw w')" if "vw w' = ?v" "\<not> p_calm ?v" for m w'
    using that by (auto simp: refund_booking_spec_def)
  show "wp (refundByBooking E b key reason) (\<lambda>r w'. refund_booking_spec b key ?v r (vw w')) w"
    unfolding refundByBooking_def wp_await
  proof (rule wp_fallible [OF pay.findOne_law], goal_cases)
    case (2 x w1)
    show ?case
    proof (cases x)
      case None
      then show ?thesis using 2 by (auto simp: wp_simps refund_booking_spec_def refundable_def)
    next
      case (Some p)
      then have p: "refundable ?v b p" and w1: "vw w1 = ?v" using 2 by (auto simp: refundable_def)
      show ?thesis
        unfolding Some sum.case option.case wp_await
      proof (rule wp_fallible [OF ref.findOne_law], goal_cases)
        case (2 y w2)
        show ?case
        proof (cases y)
          case Some
          then show ?thesis using 2 p w1 by (auto simp: wp_simps refund_booking_spec_def)
        next
          case None
          then have new: "\<forall>rf\<in>set (refunds ?v). ref_idempotencyKey rf \<noteq> key" and w2: "vw w2 = ?v"
            using 2 w1 by auto
          show ?thesis
            unfolding None sum.case option.case wp_await
          proof (rule wp_fallible [OF ref.insert_law], goal_cases)
            case (1 m w3)
            then show ?case
              using stop w2 by (auto simp: insertable_def keeps_ids_def new_refund_def)
          next
            case (2 saved w3)
            then obtain i where saved: "saved = [new_refund p key reason i (p_clock ?v)]" "i \<notin> ref_id ` set (refunds ?v)"
              by (auto simp: created_def length_Suc_conv w2 new_refund_def)
            have w3: "vw w3 = with_refund (payments ?v) (hd saved) [] [] ?v"
              using 2 saved(1) w2 by (simp add: with_refund_def)
            have obj: "refund_object ?v p key i (hd saved)"
              using saved by (simp add: refund_object_def new_refund_def)
            show ?case
              unfolding sum.case wp_with_object
              by (rule wp_mono [OF refund_body_wp [OF w3 obj p]]) (auto intro: refund_run_spec [OF _ new])
          qed
        qed
      qed (use stop w1 in simp)
    qed
  qed (use stop in simp)
qed

end

end
