(* ===== verification/Payment_Memory.thy ===== *)
theory Payment_Memory
  imports Payment_Entities Seat_Memory
begin

text \<open>
  The payment service on the in-memory instance of its external systems.  The world extends that
  of the seat-inventory service, so that the services can be run together.  The provider answers
  from a script; when the script is empty it accepts.
\<close>

section \<open>A provider with a script\<close>

text \<open>
  \<open>Accept\<close>: the request succeeds; \<open>Answer st\<close>: another status; \<open>Refuse e\<close>: it is rejected with an
  error; \<open>Lose e\<close>: it succeeds, but the client sees an error.
\<close>

datatype stripe_answer = Accept | Answer string | Refuse exn | Lose exn

record payment_mem = seat_mem +
  m_payments :: "Payment list"
  m_refunds :: "Refund list"
  m_charges :: "charge list"
  m_paybacks :: "payback list"
  m_p_sent :: "kafka_message list"
  m_p_kv :: "(string \<times> entry) list"
  m_p_hash :: mem_hashes
  m_answers :: "stripe_answer list"

definition next_answer :: "'z payment_mem_scheme \<Rightarrow> stripe_answer \<times> 'z payment_mem_scheme" where
  "next_answer w = (case m_answers w of [] \<Rightarrow> (Accept, w) | a # as \<Rightarrow> (a, w\<lparr>m_answers := as\<rparr>))"

definition take_money :: "js_number \<Rightarrow> string \<Rightarrow> string \<Rightarrow> string \<Rightarrow> 'z payment_mem_scheme \<Rightarrow> string \<times> 'z payment_mem_scheme" where
  "take_money amt cur tok key w = (case List.find (\<lambda>c. ch_key c = key) (m_charges w) of
      Some c \<Rightarrow> (ch_id c, w)
    | None \<Rightarrow> (''pi_'' @ key, m_charges_update (\<lambda>cs. cs @ [\<lparr>ch_id = ''pi_'' @ key, ch_key = key, ch_amount = amt,
        ch_currency = cur, ch_card = tok\<rparr>]) w))"

definition mem_createIntent ::
  "js_number \<Rightarrow> string \<Rightarrow> string \<Rightarrow> string \<Rightarrow> ('z payment_mem_scheme, string \<times> string) act" where
  "mem_createIntent amt cur tok key w = (case next_answer w of
      (Accept, w1) \<Rightarrow> (case take_money amt cur tok key w1 of (i, w2) \<Rightarrow> (Inr (i, ''succeeded''), w2))
    | (Answer st, w1) \<Rightarrow> (Inr ('''', if st = ''succeeded'' then ''canceled'' else st), w1)
    | (Refuse e, w1) \<Rightarrow> (Inl e, w1)
    | (Lose e, w1) \<Rightarrow> (Inl e, snd (take_money amt cur tok key w1)))"

definition mem_createRefund :: "string \<Rightarrow> js_number \<Rightarrow> ('z payment_mem_scheme, string \<times> string) act" where
  "mem_createRefund intent amt w = (case next_answer w of (a, w1) \<Rightarrow>
     let i = ''re_'' @ intent;
         w2 = m_paybacks_update (\<lambda>ps. ps @ [\<lparr>pb_id = i, pb_intent = intent, pb_amount = amt\<rparr>]) w1
     in case a of
       Accept \<Rightarrow> (Inr (i, ''succeeded''), w2)
     | Answer st \<Rightarrow> (Inr ('''', if st = ''succeeded'' then ''failed'' else st), w1)
     | Refuse e \<Rightarrow> (Inl e, w1)
     | Lose e \<Rightarrow> (Inl e, w2))"

definition payment_view :: "'z payment_mem_scheme \<Rightarrow> 'z payment_store_scheme" where
  "payment_view w = \<lparr>payments = m_payments w, refunds = m_refunds w, charges = m_charges w,
     paybacks = m_paybacks w, p_sent = m_p_sent w, p_kv = map_of (m_p_kv w),
     p_hash = (\<lambda>k. map_of (fields_of (m_p_hash w) k)), p_clock = mem_clock w, p_calm = steady w,
     \<dots> = payment_mem.more w\<rparr>"

definition mem_payment_env :: "'z payment_mem_scheme payment_env" where
  "mem_payment_env = \<lparr>
     paymentRepo = mem_repo pay_id m_payments m_payments_update unique_keys,
     refundRepo = mem_repo ref_id m_refunds m_refunds_update (\<lambda>_. True),
     paymentKafka = mem_kafka m_p_sent_update,
     paymentRedis = mem_redis m_p_kv m_p_kv_update m_p_hash m_p_hash_update,
     paymentNow = mem_now,
     stripeClient = \<lparr>stripe_createIntent = mem_createIntent, stripe_createRefund = mem_createRefund\<rparr>,
     sleep = (\<lambda>ms w. (Inr (), w)),
     pay_to_numeric = number_text,
     PAYMENT_DEFAULT_PROVIDER = None\<rparr>"

lemma payment_view_blind: "blind payment_view p_calm"
  by (simp add: blind_def payment_view_def)

interpretation mem_pay: mem_table payment_view pay_id m_payments m_payments_update
  payments payments_update p_clock unique_keys p_calm
  by unfold_locales (simp_all add: payment_view_blind, simp_all add: payment_view_def)

interpretation mem_ref: mem_table payment_view ref_id m_refunds m_refunds_update
  refunds refunds_update p_clock "\<lambda>_. True" p_calm
  by unfold_locales (simp_all add: payment_view_blind, simp_all add: payment_view_def)

interpretation mem_pay_kafka: mem_producer payment_view m_p_sent_update p_sent_update
  by unfold_locales (simp add: payment_view_def)

interpretation mem_pay_keys: mem_keys payment_view m_p_kv m_p_kv_update m_p_hash m_p_hash_update
  p_kv p_kv_update p_hash p_hash_update p_clock p_calm
  by unfold_locales (simp_all add: payment_view_blind, simp_all add: payment_view_def)

interpretation mem_pay_clock: mem_time payment_view p_clock
  by unfold_locales (simp add: payment_view_def)

lemma view_next_answer: "next_answer w = (a, w') \<Longrightarrow> payment_view w' = payment_view w"
  by (auto simp: next_answer_def payment_view_def split: list.splits)

lemma view_take_money:
  "take_money amt cur tok key w = (i, w') \<Longrightarrow>
     (if charged (charges (payment_view w)) key
      then payment_view w' = payment_view w \<and> (\<exists>c\<in>set (charges (payment_view w)). ch_key c = key \<and> ch_id c = i)
      else payment_view w' = charges_update (\<lambda>cs. cs @ [\<lparr>ch_id = i, ch_key = key, ch_amount = amt,
        ch_currency = cur, ch_card = tok\<rparr>]) (payment_view w))"
  by (auto simp: take_money_def charged_def payment_view_def find_None_iff find_Some_iff
      split: option.splits intro!: bexI [where x = "m_charges w ! n" for n])

interpretation mem_stripe: stripe_api
  "\<lparr>stripe_createIntent = mem_createIntent, stripe_createRefund = mem_createRefund\<rparr>"
  payment_view charges charges_update paybacks_update
proof
  fix amt cur tok key intent
  show "obeys payment_view (stripe_createIntent \<lparr>stripe_createIntent = mem_createIntent, stripe_createRefund = mem_createRefund\<rparr> amt cur tok key)
      (\<lambda>v r v'. let taken = (\<lambda>i. charges_update (\<lambda>cs. cs @ [\<lparr>ch_id = i, ch_key = key, ch_amount = amt,
             ch_currency = cur, ch_card = tok\<rparr>]) v) in
           case r of
             Inl e \<Rightarrow> v' = v \<or> \<not> charged (charges v) key \<and> (\<exists>i. v' = taken i)
           | Inr (i, st) \<Rightarrow>
               if charged (charges v) key then v' = v \<and> (st = ''succeeded'' \<longrightarrow> (\<exists>c\<in>set (charges v). ch_key c = key \<and> ch_id c = i))
               else if st = ''succeeded'' then v' = taken i else v' = v)"
  proof (rule obeysI)
    fix w :: "'z payment_mem_scheme"
    obtain a w1 where a: "next_answer w = (a, w1)" by fastforce
    obtain i w2 where t: "take_money amt cur tok key w1 = (i, w2)" by fastforce
    show "wp (stripe_createIntent \<lparr>stripe_createIntent = mem_createIntent, stripe_createRefund = mem_createRefund\<rparr> amt cur tok key)
      (\<lambda>r w'. let taken = (\<lambda>i. charges_update (\<lambda>cs. cs @ [\<lparr>ch_id = i, ch_key = key, ch_amount = amt,
             ch_currency = cur, ch_card = tok\<rparr>]) (payment_view w)) in
           case r of
             Inl e \<Rightarrow> payment_view w' = payment_view w \<or> \<not> charged (charges (payment_view w)) key \<and> (\<exists>i. payment_view w' = taken i)
           | Inr (i, st) \<Rightarrow>
               if charged (charges (payment_view w)) key then payment_view w' = payment_view w \<and>
                 (st = ''succeeded'' \<longrightarrow> (\<exists>c\<in>set (charges (payment_view w)). ch_key c = key \<and> ch_id c = i))
               else if st = ''succeeded'' then payment_view w' = taken i else payment_view w' = payment_view w) w"
      using view_next_answer [OF a] view_take_money [OF t] a t
      by (cases a) (auto simp: wp_def mem_createIntent_def Let_def split: if_splits)
  qed
next
  fix amt intent
  show "obeys payment_view (stripe_createRefund \<lparr>stripe_createIntent = mem_createIntent, stripe_createRefund = mem_createRefund\<rparr> intent amt)
      (\<lambda>v r v'. let given = (\<lambda>i. paybacks_update (\<lambda>ps. ps @ [\<lparr>pb_id = i, pb_intent = intent, pb_amount = amt\<rparr>]) v) in
           case r of
             Inl e \<Rightarrow> v' = v \<or> (\<exists>i. v' = given i)
           | Inr (i, st) \<Rightarrow> if st = ''succeeded'' then v' = given i else v' = v \<or> v' = given i)"
  proof (rule obeysI)
    fix w :: "'z payment_mem_scheme"
    obtain a w1 where a: "next_answer w = (a, w1)" by fastforce
    have p: "payment_view (m_paybacks_update f w1) = paybacks_update f (payment_view w)" for f
      using view_next_answer [OF a] by (simp add: payment_view_def)
    show "wp (stripe_createRefund \<lparr>stripe_createIntent = mem_createIntent, stripe_createRefund = mem_createRefund\<rparr> intent amt)
      (\<lambda>r w'. let given = (\<lambda>i. paybacks_update (\<lambda>ps. ps @ [\<lparr>pb_id = i, pb_intent = intent, pb_amount = amt\<rparr>]) (payment_view w)) in
           case r of
             Inl e \<Rightarrow> payment_view w' = payment_view w \<or> (\<exists>i. payment_view w' = given i)
           | Inr (i, st) \<Rightarrow> if st = ''succeeded'' then payment_view w' = given i
               else payment_view w' = payment_view w \<or> payment_view w' = given i) w"
      using view_next_answer [OF a] a p
      by (cases a) (auto simp: wp_def mem_createRefund_def Let_def)
  qed
qed

interpretation mem_payments: payment_world mem_payment_env payment_view
  by (simp add: payment_world_def payment_world_axioms_def mem_payment_env_def mem_pay.table_api_axioms mem_ref.table_api_axioms
      mem_pay_kafka.kafka_api_axioms mem_pay_keys.redis_api_axioms mem_pay_clock.clock_api_axioms
      mem_stripe.stripe_api_axioms obeys_def wp_def)

section \<open>A concrete world\<close>

definition demo_payments :: payment_mem where
  "demo_payments = seat_mem.extend demo_seats
     \<lparr>m_payments = [], m_refunds = [], m_charges = [], m_paybacks = [], m_p_sent = [],
      m_p_kv = [], m_p_hash = [], m_answers = []\<rparr>"

definition demo_order :: InitiatePaymentDto where
  "demo_order = \<lparr>ip_bookingId = ''b1'', ip_idempotencyKey = ''k1'', ip_amount = Fin 150, ip_currency = ''TRY'',
     ip_method = CREDIT_CARD, ip_cardToken = ''tok'', ip_provider = Some ''''\<rparr>"

end
