(* ===== verification/Payment_Properties.thy ===== *)
theory Payment_Properties
  imports Refund_Service Payment_Memory
begin

text \<open>
  The properties of the payment service: what a payment charges, idempotency, what a refund gives
  back, the invariant that ties the table to the ledger of the provider, and two runs in which an
  answer of the provider is lost.
\<close>

section \<open>The invariant\<close>

text \<open>
  Every charge belongs to a row with its key, no key is charged twice, and a row that counts as
  paid is backed by a charge.
\<close>

definition payment_ok :: "'z payment_store_scheme \<Rightarrow> bool" where
  "payment_ok v \<longleftrightarrow> distinct (map pay_id (payments v)) \<and> unique_keys (payments v) \<and>
     distinct (map ch_key (charges v)) \<and> (\<forall>c\<in>set (charges v). seen_key v (ch_key c)) \<and>
     (\<forall>p\<in>set (payments v). pay_status p \<in> {SUCCEEDED, REFUNDED} \<longrightarrow>
        taken_as (charges v) (pay_idempotencyKey p) (pay_providerTxId p))"

lemma payment_ok_keys: "payment_ok v \<Longrightarrow> unique_keys (payments v)"
  by (simp add: payment_ok_def)

lemma payment_ok_uncharged: "payment_ok v \<Longrightarrow> \<not> seen_key v key \<Longrightarrow> \<not> charged (charges v) key"
  by (auto simp: payment_ok_def charged_def)

lemma taken_as_append: "taken_as cs key tx \<Longrightarrow> taken_as (cs @ cs') key tx"
  by (auto simp: taken_as_def)

lemma payment_ok_initiate:
  assumes "initiate_spec E dto v r v'" "payment_ok v"
  shows "payment_ok v'"
proof (cases "v' = v")
  case False
  let ?key = "ip_idempotencyKey dto"
  have new: "\<not> seen_key v ?key"
    using assms(1) False by (auto simp: initiate_spec_def Let_def split: if_splits)
  obtain row cs es where row: "payment_row E dto v row" and cs: "charge_done dto v cs"
    and v': "v' = with_payment row cs es v"
    and st: "pay_status row \<noteq> REFUNDED" "pay_status row = SUCCEEDED \<Longrightarrow> taken_as (charges v @ cs) ?key (pay_providerTxId row)"
    using assms(1) False new unfolding initiate_spec_def Let_def by (cases r) fastforce+
  have one: "cs = [] \<or> (\<exists>c. cs = [c] \<and> ch_key c = ?key)"
    using cs by (auto simp: charge_done_def charge_for_def charge_request_def)
  have "?key \<notin> ch_key ` set (charges v)"
    using payment_ok_uncharged [OF assms(2) new] by (auto simp: charged_def)
  then have "distinct (map ch_key (charges v @ cs))"
    using assms(2) one by (auto simp: payment_ok_def image_iff)
  moreover have "seen_key v' (ch_key c)" if "c \<in> set (charges v @ cs)" for c
    using that assms(2) one row by (auto simp: payment_ok_def seen_key_def v' payment_row_def)
  ultimately show ?thesis
    using assms(2) row new st
    by (auto simp: payment_ok_def v' payment_row_def unique_keys_def seen_key_def intro: taken_as_append)
qed (use assms in simp)

lemma seen_key_set: "seen_key v key \<longleftrightarrow> key \<in> set (map pay_idempotencyKey (payments v))"
  by (auto simp: seen_key_def)

lemma upsert_refunded:
  assumes "distinct (map pay_id t)" "p \<in> set t"
  shows "upserts pay_id [p\<lparr>pay_status := REFUNDED\<rparr>] t =
    map (\<lambda>q. if pay_id q = pay_id p then q\<lparr>pay_status := REFUNDED\<rparr> else q) t"
  using upsert_present [of pay_id t p "pay_status_update (\<lambda>_. REFUNDED)"] assms by simp

lemma payment_ok_refund:
  assumes "refund_booking_spec b key v r v'" "payment_ok v"
  shows "payment_ok v'"
proof -
  have mark: "payment_ok (with_refund (map (\<lambda>q. if pay_id q = pay_id p then q\<lparr>pay_status := REFUNDED\<rparr> else q) (payments v)) row ps es v)"
      (is "payment_ok (with_refund (map ?f _) _ _ _ _)") if p: "refundable v b p" for p row ps es
  proof -
    have cols: "map pay_id (map ?f (payments v)) = map pay_id (payments v)"
        "map pay_idempotencyKey (map ?f (payments v)) = map pay_idempotencyKey (payments v)"
      by (simp_all add: comp_def if_distrib cong: if_cong)
    have "q = p" if "q \<in> set (payments v)" "pay_id q = pay_id p" for q
      using that p assms(2) by (auto simp: payment_ok_def refundable_def distinct_map inj_on_def)
    then have "taken_as (charges v) (pay_idempotencyKey q) (pay_providerTxId q)"
      if "q \<in> set (payments v)" "pay_id q = pay_id p" for q
      using that p assms(2) by (auto simp: payment_ok_def refundable_def)
    then show ?thesis
      using assms(2) unfolding payment_ok_def unique_keys_def seen_key_set
      by (auto simp: cols simp del: map_map list.map_comp)
  qed
  have same: "payment_ok (with_refund (payments v) row ps es v)" for row ps es
    using assms(2) by (simp add: payment_ok_def seen_key_def)
  have ids: "distinct (map pay_id (payments v))" using assms(2) by (simp add: payment_ok_def)
  have "payment_ok v'" if run: "refund_run b key v r v'"
  proof -
    from run obtain p pays row ps es where p: "refundable v b p" and v': "v' = with_refund pays row ps es v"
      and pays: "pays = payments v \<or> pays = upserts pay_id [p\<lparr>pay_status := REFUNDED\<rparr>] (payments v)"
      by (cases r) (auto simp: refund_run_def)
    have "p \<in> set (payments v)" using p by (simp add: refundable_def)
    then show ?thesis
      using pays mark [OF p] same upsert_refunded [OF ids] by (auto simp: v')
  qed
  then show ?thesis
    using assms by (auto simp: refund_booking_spec_def split: if_splits)
qed

section \<open>Runs\<close>

lemma initiatePayment_runs:
  assumes "payment_world E vw" "payment_ok (vw w)" "initiatePayment E dto w = (r, w')"
  shows "initiate_spec E dto (vw w) r (vw w')"
  using obeysD [OF payment_world.initiatePayment_law [OF assms(1)] assms(3)] payment_ok_keys [OF assms(2)] by simp

lemma refundByBooking_runs:
  assumes "payment_world E vw" "refundByBooking E b key reason w = (r, w')"
  shows "refund_booking_spec b key (vw w) r (vw w')"
  by (rule obeysD [OF payment_world.refundByBooking_law [OF assms(1)] assms(2)])

lemma demo_payment_ok: "payment_ok (payment_view demo_payments)"
  by (simp add: payment_ok_def payment_view_def demo_payments_def unique_keys_def seat_mem.extend_def)

text \<open>
  C6.  What a payment takes.  With a key that was used, \<^verbatim>\<open>initiatePayment\<close> changes nothing and returns the stored
  payment of that key (or throws, when the database is down).  With a new key, when it returns, exactly one payment
  was added, for this booking and key.  If it is \<open>SUCCEEDED\<close>, exactly one charge was made, under the key, for
  the amount in hundredths rounded to an integer, in the lower-case currency and on the given card, the payment
  carries its id, and exactly the message \<^verbatim>\<open>payment.succeded\<close> about it was sent; otherwise it is \<open>FAILED\<close>, at
  most one charge was made, and exactly the message \<^verbatim>\<open>payment.failed\<close> with its reason was sent.  When it throws, no
  succeeded payment was added, at most one charge was made, and at most the message \<^verbatim>\<open>payment.failed\<close> about the
  payment that was added, with the text of the exception, was sent.
\<close>

theorem initiatePayment_charges:
  assumes "payment_world E vw" "payment_ok (vw w)" "initiatePayment E dto w = (r, w')"
  shows "refunds (vw w') = refunds (vw w) \<and> paybacks (vw w') = paybacks (vw w) \<and>
    (if \<exists>p\<in>set (payments (vw w)). pay_idempotencyKey p = ip_idempotencyKey dto
     then vw w' = vw w \<and> (case r of Inl e \<Rightarrow> \<not> p_calm (vw w)
       | Inr p \<Rightarrow> p \<in> set (payments (vw w)) \<and> pay_idempotencyKey p = ip_idempotencyKey dto)
     else case r of
       Inl e \<Rightarrow> \<exists>rows cs es. payments (vw w') = payments (vw w) @ rows \<and> charges (vw w') = charges (vw w) @ cs \<and>
         p_sent (vw w') = p_sent (vw w) @ es \<and> length rows \<le> 1 \<and> length cs \<le> length rows \<and> length es \<le> length rows \<and>
         (\<forall>p\<in>set rows. pay_bookingId p = ip_bookingId dto \<and> pay_idempotencyKey p = ip_idempotencyKey dto \<and> pay_status p \<noteq> SUCCEEDED) \<and>
         (\<forall>m\<in>set es. \<exists>p\<in>set rows. pay_status p = PaymentStatus.FAILED \<and>
            m = (''payment.failed'', pay_id p, payment_failed_payload p (Some (message e))))
     | Inr p \<Rightarrow> pay_bookingId p = ip_bookingId dto \<and> pay_idempotencyKey p = ip_idempotencyKey dto \<and>
         payments (vw w') = payments (vw w) @ [stored_payment E p] \<and>
         (if pay_status p = SUCCEEDED
          then p_sent (vw w') = p_sent (vw w) @ [(''payment.succeded'', pay_id p, payment_succeeded_payload p)] \<and>
            (\<exists>c. charges (vw w') = charges (vw w) @ [c] \<and> pay_providerTxId p = Some (ch_id c) \<and>
              ch_key c = ip_idempotencyKey dto \<and> ch_amount c = Math_round (js_mult (ip_amount dto) (Fin 100)) \<and>
              ch_currency c = toLowerCase (ip_currency dto) \<and> ch_card c = ip_cardToken dto)
          else pay_status p = PaymentStatus.FAILED \<and>
            p_sent (vw w') = p_sent (vw w) @ [(''payment.failed'', pay_id p, payment_failed_payload p (pay_failureReason p))] \<and>
            (\<exists>cs. charges (vw w') = charges (vw w) @ cs \<and> length cs \<le> 1)))"
proof (cases "seen_key (vw w) (ip_idempotencyKey dto)")
  case True
  then show ?thesis
    using initiatePayment_runs [OF assms] by (auto simp: initiate_spec_def Let_def seen_key_def split: sum.splits)
next
  case new: False
  let ?v = "vw w"
  note spec = initiatePayment_runs [OF assms]
  have unpaid: "\<not> taken_as (charges ?v) (ip_idempotencyKey dto) tx" for tx
    using payment_ok_uncharged [OF assms(2) new] by (auto simp: taken_as_def charged_def)
  show ?thesis
  proof (cases r)
    case (Inl e)
    then consider (none) "vw w' = ?v"
      | (row) row cs es where "payment_row E dto ?v row" "charge_done dto ?v cs" "vw w' = with_payment row cs es ?v"
          "pay_status row \<noteq> SUCCEEDED" "es = [] \<or> pay_status row = PaymentStatus.FAILED \<and> es = [failed_message row (Some (message e))]"
      using spec new unfolding initiate_spec_def Let_def by auto
    then show ?thesis
    proof cases
      case none
      then show ?thesis
        unfolding if_not_P [OF new [unfolded seen_key_def]] Inl sum.case
        by (intro conjI exI [of _ "[]"]) simp_all
    next
      case (row row cs es)
      then show ?thesis
        unfolding if_not_P [OF new [unfolded seen_key_def]] Inl sum.case
        by (intro conjI exI [of _ "[row]"] exI [of _ cs] exI [of _ es]) (auto simp: charge_done_def payment_row_def failed_message_def)
    qed
  next
    case (Inr p)
    then obtain cs es where row: "payment_row E dto ?v (stored_payment E p)" "charge_done dto ?v cs"
        "vw w' = with_payment (stored_payment E p) cs es ?v"
      and st: "pay_status p = PaymentStatus.FAILED \<and> es = [failed_message p (pay_failureReason p)] \<or>
        pay_status p = SUCCEEDED \<and> es = [succeeded_message p] \<and>
          taken_as (charges ?v @ cs) (ip_idempotencyKey dto) (pay_providerTxId p)"
      using spec new unfolding initiate_spec_def Let_def by auto
    have "\<exists>c. cs = [c] \<and> pay_providerTxId p = Some (ch_id c) \<and> ch_key c = ip_idempotencyKey dto \<and>
        ch_amount c = Math_round (js_mult (ip_amount dto) (Fin 100)) \<and>
        ch_currency c = toLowerCase (ip_currency dto) \<and> ch_card c = ip_cardToken dto" if "pay_status p = SUCCEEDED"
      using that st row(2) unpaid by (auto simp: charge_done_def taken_as_def charge_for_def charge_request_def)
    moreover have "length cs \<le> 1" using row(2) by (auto simp: charge_done_def)
    ultimately show ?thesis
      unfolding if_not_P [OF new [unfolded seen_key_def]] Inr sum.case
      using row st by (auto simp: payment_row_def failed_message_def succeeded_message_def)
  qed
qed

theorem initiatePayment_charges_witness:
  "\<exists>p w'. initiatePayment mem_payment_env demo_order demo_payments = (Inr p, w') \<and> pay_status p = SUCCEEDED \<and>
     (\<exists>c. charges (payment_view w') = [c] \<and> ch_amount c = Math_round (js_mult (Fin 150) (Fin 100))) \<and>
     p_sent (payment_view w') = p_sent (payment_view demo_payments) @ [(''payment.succeded'', pay_id p, payment_succeeded_payload p)]"
proof -
  have "map_sum id pay_status (fst (initiatePayment mem_payment_env demo_order demo_payments)) = Inr SUCCEEDED"
    by code_simp
  then obtain p w' where run: "initiatePayment mem_payment_env demo_order demo_payments = (Inr p, w')" "pay_status p = SUCCEEDED"
    by (cases "initiatePayment mem_payment_env demo_order demo_payments"; cases "fst (initiatePayment mem_payment_env demo_order demo_payments)") auto
  have "payments (payment_view demo_payments) = []" "charges (payment_view demo_payments) = []"
    by (simp_all add: payment_view_def demo_payments_def seat_mem.extend_def)
  then show ?thesis
    using initiatePayment_charges [OF mem_payments.payment_world_axioms demo_payment_ok run(1)] run
    by (auto simp: demo_order_def)
qed



text \<open>
  C31.  The payment table and the ledger of the provider stay consistent: payments and refunds, in
  every outcome, keep every charge under a key with a row, no key charged twice, and every payment
  that is succeeded or refunded backed by a charge with its transaction id.
\<close>

theorem payment_service_invariant:
  assumes "payment_world E vw" "payment_ok (vw w)"
    and "initiatePayment E dto w = (r, w') \<or> refundByBooking E b key reason w = (r', w')"
  shows "payment_ok (vw w')"
  using assms(3)
proof
  assume "initiatePayment E dto w = (r, w')"
  then show ?thesis
    by (rule payment_ok_initiate [OF initiatePayment_runs [OF assms(1,2)] assms(2)])
next
  assume "refundByBooking E b key reason w = (r', w')"
  then show ?thesis
    by (rule payment_ok_refund [OF refundByBooking_runs [OF assms(1)] assms(2)])
qed

theorem payment_service_invariant_witness:
  "\<exists>r w'. initiatePayment mem_payment_env demo_order demo_payments = (r, w') \<and> payment_ok (payment_view w')"
proof -
  obtain r w' where run: "initiatePayment mem_payment_env demo_order demo_payments = (r, w')" by fastforce
  show ?thesis
    using payment_service_invariant [OF mem_payments.payment_world_axioms demo_payment_ok disjI1, OF run] run by blast
qed

text \<open>
  C12.  What a refund gives back.  \<^verbatim>\<open>refundByBooking\<close> either changes nothing: without a succeeded payment of the
  booking it is refused with a \<open>BadRequest\<close>, for a key that was used it returns the stored refund, and it may fail with
  the database.  Or it adds exactly one refund row, for a succeeded payment of the booking and under the new
  key, and takes no charge.  When that refund is returned as \<open>PROCESSED\<close>, exactly the amount of the payment, in
  hundredths, was given back on its transaction, that payment, and no other, is marked \<open>REFUNDED\<close>, and exactly the
  message \<^verbatim>\<open>payment.refunded\<close> about it was sent.  When it is returned as \<open>FAILED\<close>, payments and messages are
  untouched.  When the call throws, they are untouched too; while the database is up, no money moved and the row
  is \<open>FAILED\<close> with the text of the exception.  In every outcome that amount is given back at most once.
\<close>

theorem refundByBooking_effect:
  assumes "payment_world E vw" "payment_ok (vw w)" "refundByBooking E b key reason w = (r, w')"
  shows "vw w' = vw w \<and>
    (case r of
       Inl e \<Rightarrow> (\<exists>m. e = BadRequest m) \<and> (\<forall>p\<in>set (payments (vw w)). pay_bookingId p = b \<longrightarrow> pay_status p \<noteq> SUCCEEDED) \<or> \<not> p_calm (vw w)
     | Inr rf \<Rightarrow> rf \<in> set (refunds (vw w)) \<and> ref_idempotencyKey rf = key) \<or>
   (\<forall>rf\<in>set (refunds (vw w)). ref_idempotencyKey rf \<noteq> key) \<and> charges (vw w') = charges (vw w) \<and>
   (\<exists>p\<in>set (payments (vw w)). \<exists>row ps. pay_bookingId p = b \<and> pay_status p = SUCCEEDED \<and>
      refunds (vw w') = refunds (vw w) @ [row] \<and> ref_paymentId row = pay_id p \<and> ref_idempotencyKey row = key \<and>
      paybacks (vw w') = paybacks (vw w) @ ps \<and> length ps \<le> 1 \<and>
      (\<forall>x\<in>set ps. pb_intent x = refund_tx p \<and> pb_amount x = Math_round (js_mult (to_number (pay_amount p)) (Fin 100))) \<and>
      (case r of
         Inl e \<Rightarrow> payments (vw w') = payments (vw w) \<and> p_sent (vw w') = p_sent (vw w) \<and>
           (p_calm (vw w) \<longrightarrow> ps = [] \<and> ref_status row = FAILED \<and> ref_failureReason row = Some (message e))
       | Inr rf \<Rightarrow> rf = row \<and>
           (if ref_status row = PROCESSED
            then length ps = 1 \<and>
              payments (vw w') = map (\<lambda>q. if pay_id q = pay_id p then q\<lparr>pay_status := REFUNDED\<rparr> else q) (payments (vw w)) \<and>
              p_sent (vw w') = p_sent (vw w) @ [(''payment.refunded'', ref_id row, payment_refunded_payload p row)]
            else ref_status row = FAILED \<and> payments (vw w') = payments (vw w) \<and> p_sent (vw w') = p_sent (vw w))))"
proof -
  have ids: "distinct (map pay_id (payments (vw w)))" using assms(2) by (simp add: payment_ok_def)
  have spec: "refund_booking_spec b key (vw w) r (vw w')"
    by (rule refundByBooking_runs [OF assms(1,3)])
  show ?thesis
  proof (cases "vw w' = vw w")
    case True
    have "\<exists>row. refunds (vw w') = refunds (vw w) @ [row]" if "refund_run b key (vw w) r (vw w')"
      using that by (auto simp: refund_run_def)
    then have "\<not> refund_run b key (vw w) r (vw w')" using True by auto
    then show ?thesis
      using spec True unfolding refund_booking_spec_def refundable_def by (auto split: if_splits sum.splits)
  next
    case False
    then have new: "\<forall>rf\<in>set (refunds (vw w)). ref_idempotencyKey rf \<noteq> key" and ran: "refund_run b key (vw w) r (vw w')"
      using spec unfolding refund_booking_spec_def by (auto split: if_splits)
    from ran obtain p pays row ps es where run: "refundable (vw w) b p" "payback_done p ps"
        "vw w' = with_refund pays row ps es (vw w)" "ref_paymentId row = pay_id p" "ref_idempotencyKey row = key"
      and out: "case r of Inl e \<Rightarrow> (\<exists>m. e = JsError m) \<and> pays = payments (vw w) \<and> es = [] \<and>
             (p_calm (vw w) \<longrightarrow> ps = [] \<and> ref_status row = FAILED \<and> ref_failureReason row = Some (message e))
        | Inr rf \<Rightarrow> row = rf \<and>
           (ref_status rf = PROCESSED \<and> ps \<noteq> [] \<and> es = [refunded_message p rf] \<and>
              pays = upserts pay_id [p\<lparr>pay_status := REFUNDED\<rparr>] (payments (vw w)) \<or>
            ref_status rf = FAILED \<and> es = [] \<and> pays = payments (vw w))"
      unfolding refund_run_def by blast
    have p: "p \<in> set (payments (vw w))" "pay_bookingId p = b" "pay_status p = SUCCEEDED"
      using run(1) by (simp_all add: refundable_def)
    have ps: "length ps \<le> 1" "ps \<noteq> [] \<Longrightarrow> length ps = 1"
      "\<forall>x\<in>set ps. pb_intent x = refund_tx p \<and> pb_amount x = Math_round (js_mult (to_number (pay_amount p)) (Fin 100))"
      using run(2) by (auto simp: payback_done_def payback_for_def)
    show ?thesis
      using out run(3-5) p ps new upsert_refunded [OF ids p(1)]
      by (intro disjI2 conjI bexI [OF _ p(1)] exI [of _ row] exI [of _ ps])
        (auto simp: refunded_message_def split: sum.splits)
  qed
qed

text \<open>
  C35.  A booking is refunded at most once.  After a refund of the only succeeded payment of a
  booking was processed, every later \<^verbatim>\<open>refundByBooking\<close> for it gives nothing back, changes nothing and
  is refused, whatever its key: also a retry with the key of the processed refund.
\<close>

theorem refund_at_most_once:
  assumes "payment_world E vw" "payment_ok (vw w)"
    and "\<forall>rf\<in>set (refunds (vw w)). ref_idempotencyKey rf \<noteq> key"
    and "\<forall>p\<in>set (payments (vw w)). \<forall>q\<in>set (payments (vw w)). pay_bookingId p = b \<and> pay_bookingId q = b \<and>
      pay_status p = SUCCEEDED \<and> pay_status q = SUCCEEDED \<longrightarrow> p = q"
    and "refundByBooking E b key reason w = (Inr rf, w1)" "ref_status rf = PROCESSED"
    and "payments (vw w2) = payments (vw w1)" "refundByBooking E b key' reason' w2 = (r, w3)"
  shows "vw w3 = vw w2 \<and> (\<exists>x. r = Inl x) \<and> (p_calm (vw w2) \<longrightarrow> (\<exists>m. r = Inl (BadRequest m)))"
proof -
  have spec: "refund_booking_spec b key (vw w) (Inr rf) (vw w1)"
    by (rule refundByBooking_runs [OF assms(1,5)])
  have run: "refund_run b key (vw w) (Inr rf) (vw w1)"
    using spec assms(3) unfolding refund_booking_spec_def by (auto split: if_splits)
  have ids: "distinct (map pay_id (payments (vw w)))" using assms(2) by (simp add: payment_ok_def)
  obtain p where p: "refundable (vw w) b p" "payments (vw w1) = upserts pay_id [p\<lparr>pay_status := REFUNDED\<rparr>] (payments (vw w))"
    using run assms(6) by (auto simp: refund_run_def)
  have "payments (vw w1) = map (\<lambda>q. if pay_id q = pay_id p then q\<lparr>pay_status := REFUNDED\<rparr> else q) (payments (vw w))"
    using upsert_refunded [OF ids, of p] p by (simp add: refundable_def)
  then have "\<not> refundable (vw w2) b q" for q
    using assms(4,7) p(1) by (auto simp: refundable_def split: if_splits)
  then show ?thesis
    using refundByBooking_runs [OF assms(1,8)] by (auto simp: refund_booking_spec_def split: if_splits)
qed

section \<open>Concrete runs\<close>

text \<open>The world after the demo order was paid.\<close>

definition paid_demo :: payment_mem where
  "paid_demo = snd (initiatePayment mem_payment_env demo_order demo_payments)"

lemma paid_demo_ok: "payment_ok (payment_view paid_demo)"
  using payment_ok_initiate [OF initiatePayment_runs [OF mem_payments.payment_world_axioms demo_payment_ok] demo_payment_ok]
  by (simp add: paid_demo_def prod_eq_iff)

lemma paid_demo_facts:
  "map (\<lambda>p. (pay_bookingId p, pay_status p)) (payments (payment_view paid_demo)) = [(''b1'', SUCCEEDED)]"
  "map ref_id (refunds (payment_view paid_demo)) = []"
  "map_sum (\<lambda>_. ()) ref_status (fst (refundByBooking mem_payment_env ''b1'' ''r1'' None paid_demo)) = Inr PROCESSED"
  by code_simp+

lemma status_run:
  assumes "map_sum (\<lambda>_. ()) f (fst (m w)) = Inr x"
  obtains a w' where "m w = (Inr a, w')" "f a = x"
  using assms by (cases "m w"; cases "fst (m w)") auto

theorem refundByBooking_effect_witness:
  "\<exists>rf w'. refundByBooking mem_payment_env ''b1'' ''r1'' None paid_demo = (Inr rf, w') \<and>
     length (paybacks (payment_view w')) = Suc (length (paybacks (payment_view paid_demo)))"
proof -
  obtain rf w' where run: "refundByBooking mem_payment_env ''b1'' ''r1'' None paid_demo = (Inr rf, w')" "ref_status rf = PROCESSED"
    using paid_demo_facts(3) by (rule status_run)
  have "refunds (payment_view paid_demo) = []" using paid_demo_facts(2) by simp
  then show ?thesis
    using refundByBooking_effect [OF mem_payments.payment_world_axioms paid_demo_ok run(1)] run by auto
qed

theorem refund_at_most_once_witness:
  "\<exists>rf w1 m w3. refundByBooking mem_payment_env ''b1'' ''r1'' None paid_demo = (Inr rf, w1) \<and>
     refundByBooking mem_payment_env ''b1'' ''r1'' None w1 = (Inl m, w3) \<and> payment_view w3 = payment_view w1"
proof -
  obtain rf w1 where run: "refundByBooking mem_payment_env ''b1'' ''r1'' None paid_demo = (Inr rf, w1)" "ref_status rf = PROCESSED"
    using paid_demo_facts(3) by (rule status_run)
  obtain r w3 where again: "refundByBooking mem_payment_env ''b1'' ''r1'' None w1 = (r, w3)" by fastforce
  have one: "\<forall>p\<in>set (payments (payment_view paid_demo)). \<forall>q\<in>set (payments (payment_view paid_demo)). p = q"
    using paid_demo_facts(1) by (auto simp: map_eq_Cons_conv)
  have "\<forall>rf\<in>set (refunds (payment_view paid_demo)). ref_idempotencyKey rf \<noteq> ''r1''"
    using paid_demo_facts(2) by simp
  from refund_at_most_once [OF mem_payments.payment_world_axioms paid_demo_ok this _ run refl again] one
  show ?thesis using run again by auto
qed

text \<open>
  C37.  A lost answer is taken for a refusal.  When Stripe takes the money but the connection
  breaks before the answer arrives, the retryable error is not retried: the payment is returned as
  \<open>FAILED\<close>, with the money taken.
\<close>

theorem payment_failed_but_charged:
  "\<exists>p w'. initiatePayment mem_payment_env demo_order
       (demo_payments\<lparr>m_answers := [Lose (StripeError ''StripeConnectionError'' None ''timeout'')]\<rparr>) = (Inr p, w') \<and>
     pay_status p = PaymentStatus.FAILED \<and> map ch_key (charges (payment_view w')) = [''k1''] \<and>
     isRetryable (StripeError ''StripeConnectionError'' None ''timeout'')"
proof -
  let ?w = "demo_payments\<lparr>m_answers := [Lose (StripeError ''StripeConnectionError'' None ''timeout'')]\<rparr>"
  have "map_sum (\<lambda>_. ()) pay_status (fst (initiatePayment mem_payment_env demo_order ?w)) = Inr PaymentStatus.FAILED"
      "map ch_key (m_charges (snd (initiatePayment mem_payment_env demo_order ?w))) = [''k1'']"
      "isRetryable (StripeError ''StripeConnectionError'' None ''timeout'')"
    by code_simp+
  then show ?thesis
    by (auto simp: payment_view_def elim!: status_run)
qed

text \<open>
  C38.  The same loss on a refund pays twice.  The refund is recorded as \<open>FAILED\<close> although the money
  was given back, the payment stays \<open>SUCCEEDED\<close>, and a refund with another key gives it back again.
\<close>

theorem refund_lost_answer_pays_twice:
  "let w1 = snd (refundByBooking mem_payment_env ''b1'' ''r1'' None
         (paid_demo\<lparr>m_answers := [Lose (StripeError ''StripeConnectionError'' None ''timeout'')]\<rparr>));
       w2 = snd (refundByBooking mem_payment_env ''b1'' ''r2'' None w1)
   in map ref_status (refunds (payment_view w2)) = [FAILED, PROCESSED] \<and>
      map pb_intent (paybacks (payment_view w2)) = [''pi_k1'', ''pi_k1''] \<and>
      map ch_id (charges (payment_view w2)) = [''pi_k1'']"
  by code_simp

end
