(* ===== verification/Payment_Http.thy ===== *)
theory Payment_Http
  imports Payment_Properties
begin

text \<open>
  The HTTP side of the payment service: \<^verbatim>\<open>IdempotencyInterceptor\<close>
  (payment/idempotency/idempotency.interceptor.ts) around \<^verbatim>\<open>PaymentController.initiate\<close>
  (payment/payment.controller.ts), and the queries of the controller.
\<close>

section \<open>Operations\<close>

definition TTL_SECONDS :: int where
  "TTL_SECONDS = 3600"

definition cache_key :: "string \<Rightarrow> string" where
  "cache_key idempotencyKey = ''idempotency:payment:'' @ idempotencyKey"

definition processing_doc :: json where
  "processing_doc = JObj [(''status'', JStr ''processing'')]"

definition completed_doc :: "json option \<Rightarrow> json" where
  "completed_doc response = JObj ((''status'', JStr ''completed'') #
     (case response of None \<Rightarrow> [] | Some j \<Rightarrow> [(''response'', j)]))"

text \<open>
  \<open>handle\<close> is \<^verbatim>\<open>next.handle()\<close>.  The callback of \<^verbatim>\<open>tap\<close> is not awaited: the response goes out whether or not
  the write of the cache succeeds.
\<close>

definition intercept ::
  "'w payment_env \<Rightarrow> string option \<Rightarrow> ('w, json option) act \<Rightarrow> ('w, json option) act" where
  "intercept E header handle = (case header of
      None \<Rightarrow> handle
    | Some idempotencyKey \<Rightarrow>
      if idempotencyKey = [] then handle
      else
        let key = cache_key idempotencyKey in
        await (redis_get (paymentRedis E) key) (\<lambda>cached.
        case (if cached = Some (Raw []) then None else cached) of
          Some text \<Rightarrow>
            await (JSON_parse text) (\<lambda>data.
            await (js_prop data ''status'') (\<lambda>status.
            if status = Some (JStr ''processing'') then throw (Conflict ''Payment already in progress'')
            else return (json_get data ''response'')))
        | None \<Rightarrow>
            await (redis_set_ex_nx (paymentRedis E) key (JSON_stringify processing_doc) TTL_SECONDS) (\<lambda>ok.
            if \<not> ok then throw (Conflict ''Request with this idempotency key is already being processed'')
            else
              await handle (\<lambda>response.
              await (try_catch (redis_set_ex (paymentRedis E) key (JSON_stringify (completed_doc response)) TTL_SECONDS)
                 (\<lambda>_. return ())) (\<lambda>_. return response)))))"

text \<open>The body of the response: the entity as JSON.\<close>

definition payment_json :: "Payment \<Rightarrow> json" where
  "payment_json p = JObj
     [(''id'', JStr (pay_id p)), (''bookingId'', JStr (pay_bookingId p)),
      (''idempotencyKey'', JStr (pay_idempotencyKey p)), (''amount'', amount_json (pay_amount p)),
      (''currency'', JStr (pay_currency p)), (''method'', JStr (payment_method_text (pay_method p))),
      (''status'', JStr (payment_status_text (pay_status p))), (''provider'', JStr (pay_provider p)),
      (''providerTxId'', opt_json (pay_providerTxId p)), (''failureReason'', opt_json (pay_failureReason p)),
      (''paidAt'', opt_json (map_option toISOString (pay_paidAt p))),
      (''createdAt'', JStr (toISOString (pay_createdAt p)))]"

definition http_initiate :: "'w payment_env \<Rightarrow> string option \<Rightarrow> InitiatePaymentDto \<Rightarrow> ('w, json option) act" where
  "http_initiate E header dto =
     intercept E header (await (initiatePayment E dto) (\<lambda>p. return (Some (payment_json p))))"

definition http_payment_findById :: "'w payment_env \<Rightarrow> string \<Rightarrow> ('w, Payment) act" where
  "http_payment_findById E paymentId = payment_findById E paymentId"

definition http_payment_findByBookingId :: "'w payment_env \<Rightarrow> string \<Rightarrow> ('w, Payment list) act" where
  "http_payment_findByBookingId E bookingId = payment_findByBookingId E bookingId"

section \<open>The interceptor\<close>

definition same_redis :: "'z payment_store_scheme \<Rightarrow> 'z payment_store_scheme \<Rightarrow> bool" where
  "same_redis v v' \<longleftrightarrow> p_kv v' = p_kv v \<and> p_hash v' = p_hash v \<and> p_clock v' = p_clock v \<and> p_calm v' = p_calm v"

lemma same_redis_initiate: "initiate_spec E dto v r v' \<Longrightarrow> same_redis v v'"
  by (cases r) (auto simp: initiate_spec_def Let_def same_redis_def with_payment_def split: if_splits)

text \<open>The entry a request leaves in the cache.\<close>

definition cached_as :: "'z payment_store_scheme \<Rightarrow> string \<Rightarrow> json \<Rightarrow> int \<Rightarrow> bool" where
  "cached_as v k doc now \<longleftrightarrow> p_kv v (cache_key k) = Some (JSON_stringify doc, Some (now + TTL_SECONDS * 1000))"

context payment_world
begin

lemma intercept_first:
  assumes k: "k \<noteq> []" and calm: "p_calm (vw w)" and free: "live (p_clock (vw w)) (p_kv (vw w) (cache_key k)) = None"
    and h: "\<And>w0. payments (vw w0) = payments (vw w) \<Longrightarrow> wp h (\<lambda>r w1. same_redis (vw w0) (vw w1) \<and>
      (case r of Inl e \<Rightarrow> True | Inr resp \<Rightarrow> resp \<noteq> None)) w0"
  shows "wp (intercept E (Some k) h) (\<lambda>r w'. case r of
      Inl e \<Rightarrow> cached_as (vw w') k processing_doc (p_clock (vw w))
    | Inr resp \<Rightarrow> resp \<noteq> None \<and> cached_as (vw w') k (completed_doc resp) (p_clock (vw w))) w"
proof -
  have none: "(if (None :: rtext option) = Some (Raw []) then None else None) = (None :: rtext option)" by simp
  show ?thesis
    unfolding intercept_def option.case Let_def if_not_P [OF k] wp_await
  proof (rule wp_fallible [OF get_law], goal_cases)
    case (2 cached w1)
    then have w1: "vw w1 = vw w" and cached: "cached = None" using free by simp_all
    show ?case
      unfolding cached none sum.case option.case wp_await
    proof (rule wp_fallible [OF set_ex_nx_law], goal_cases)
      case (2 ok w2)
      then have ok: "ok" and w2: "payments (vw w2) = payments (vw w)" "p_calm (vw w2)" "p_clock (vw w2) = p_clock (vw w)"
          "cached_as (vw w2) k processing_doc (p_clock (vw w))"
        using w1 free calm by (simp_all add: cached_as_def)
      have "wp h (\<lambda>r w3. same_redis (vw w2) (vw w3) \<and> (case r of Inl e \<Rightarrow> True | Inr resp \<Rightarrow> resp \<noteq> None)) w2"
        by (rule h [OF w2(1)])
      then show ?case
        using ok w2
        by (auto elim!: wp_mono simp: wp_simps same_redis_def cached_as_def split: sum.splits
            intro!: wp_fallible [OF set_ex_law])
    qed (use calm w1 in simp)
  qed (use calm in simp)
qed

text \<open>A later request with the same key, while the entry lives.\<close>

lemma intercept_again:
  assumes k: "k \<noteq> []" and calm: "p_calm (vw w)" and entry: "cached_as (vw w) k doc now"
    and time: "p_clock (vw w) < now + 3600000"
  shows "doc = processing_doc \<Longrightarrow> wp (intercept E (Some k) h) (\<lambda>r w'. vw w' = vw w \<and> (\<exists>m. r = Inl (Conflict m))) w"
    and "doc = completed_doc (Some j) \<Longrightarrow> wp (intercept E (Some k) h) (\<lambda>r w'. vw w' = vw w \<and> r = Inr (Some j)) w"
proof -
  have lv: "live (p_clock (vw w)) (p_kv (vw w) (cache_key k)) = Some (Json doc)"
    using entry time by (simp add: cached_as_def JSON_stringify_def TTL_SECONDS_def)
  show "wp (intercept E (Some k) h) (\<lambda>r w'. vw w' = vw w \<and> (\<exists>m. r = Inl (Conflict m))) w" if "doc = processing_doc"
    using k calm lv that
    by (auto simp: intercept_def Let_def wp_simps processing_doc_def js_prop_def intro!: wp_fallible [OF get_law])
  show "wp (intercept E (Some k) h) (\<lambda>r w'. vw w' = vw w \<and> r = Inr (Some j)) w" if "doc = completed_doc (Some j)"
    using k calm lv that
    by (auto simp: intercept_def Let_def wp_simps completed_doc_def js_prop_def intro!: wp_fallible [OF get_law])
qed

lemma initiate_handler:
  assumes "unique_keys (payments (vw w))"
  shows "wp (await (initiatePayment E dto) (\<lambda>p. return (Some (payment_json p))))
    (\<lambda>r w'. same_redis (vw w) (vw w') \<and> (case r of Inl e \<Rightarrow> True | Inr resp \<Rightarrow> resp \<noteq> None)) w"
  unfolding wp_await
  by (rule wp_obeys [OF initiatePayment_law])
    (use assms in \<open>auto simp: wp_simps split: sum.splits dest: same_redis_initiate\<close>)

end

section \<open>Properties\<close>

lemma http_first:
  assumes "payment_world E vw" "payment_ok (vw w)" "p_calm (vw w)" "k \<noteq> []"
    and "live (p_clock (vw w)) (p_kv (vw w) (cache_key k)) = None"
    and "http_initiate E (Some k) dto w = (r, w')"
  shows "case r of Inl e \<Rightarrow> cached_as (vw w') k processing_doc (p_clock (vw w))
    | Inr resp \<Rightarrow> resp \<noteq> None \<and> cached_as (vw w') k (completed_doc resp) (p_clock (vw w))"
proof -
  have h: "wp (await (initiatePayment E dto) (\<lambda>p. return (Some (payment_json p)))) (\<lambda>r w1. same_redis (vw w0) (vw w1) \<and>
      (case r of Inl e \<Rightarrow> True | Inr resp \<Rightarrow> resp \<noteq> None)) w0"
    if "payments (vw w0) = payments (vw w)" for w0
    by (rule payment_world.initiate_handler [OF assms(1)]) (use that payment_ok_keys [OF assms(2)] in simp)
  show ?thesis
    using wpD [OF payment_world.intercept_first [OF assms(1,4,3,5) h]] assms(6)
    by (simp add: http_initiate_def)
qed

text \<open>
  C36.  A repeated request is answered from the cache.  After \<^verbatim>\<open>POST /payments\<close> with an idempotency key
  has returned a response, every request with the same key in the next hour gets the same response
  and has no effect at all.
\<close>

theorem http_retry_replays:
  assumes "payment_world E vw" "payment_ok (vw w)" "p_calm (vw w)" "k \<noteq> []"
    and "live (p_clock (vw w)) (p_kv (vw w) (cache_key k)) = None"
    and "http_initiate E (Some k) dto w = (Inr resp, w1)"
    and "p_calm (vw w2)" "p_kv (vw w2) = p_kv (vw w1)" "p_clock (vw w2) < p_clock (vw w) + 3600000"
    and "http_initiate E (Some k) dto' w2 = (r, w3)"
  shows "r = Inr resp \<and> vw w3 = vw w2"
proof -
  obtain j where resp: "resp = Some j" and "cached_as (vw w1) k (completed_doc (Some j)) (p_clock (vw w))"
    using http_first [OF assms(1-6)] by auto
  then have "cached_as (vw w2) k (completed_doc (Some j)) (p_clock (vw w))"
    using assms(8) by (simp add: cached_as_def)
  from wpD [OF payment_world.intercept_again(2) [OF assms(1,4,7) this assms(9) refl]] assms(10)
  show ?thesis by (auto simp: http_initiate_def resp)
qed

lemma demo_no_entry:
  "p_calm (payment_view demo_payments)" "live (p_clock (payment_view demo_payments)) (p_kv (payment_view demo_payments) k) = None"
  by (simp_all add: payment_view_def demo_payments_def seat_mem.extend_def demo_seats_def)

theorem http_retry_replays_witness:
  "\<exists>resp w1 w3. http_initiate mem_payment_env (Some ''h1'') demo_order demo_payments = (Inr resp, w1) \<and>
     http_initiate mem_payment_env (Some ''h1'') (demo_order\<lparr>ip_amount := Fin 7\<rparr>) w1 = (Inr resp, w3) \<and>
     payment_view w3 = payment_view w1"
proof -
  have "returns (http_initiate mem_payment_env (Some ''h1'') demo_order) demo_payments"
    and facts: "steady (snd (http_initiate mem_payment_env (Some ''h1'') demo_order demo_payments))"
      "mem_clock (snd (http_initiate mem_payment_env (Some ''h1'') demo_order demo_payments)) < mem_clock demo_payments + 3600000"
    by code_simp+
  then obtain resp w1 where run: "http_initiate mem_payment_env (Some ''h1'') demo_order demo_payments = (Inr resp, w1)"
    by (auto elim: returnsE)
  obtain r w3 where again: "http_initiate mem_payment_env (Some ''h1'') (demo_order\<lparr>ip_amount := Fin 7\<rparr>) w1 = (r, w3)"
    by fastforce
  have "p_calm (payment_view w1)" "p_clock (payment_view w1) < p_clock (payment_view demo_payments) + 3600000"
    using facts run by (simp_all add: payment_view_def)
  from http_retry_replays [OF mem_payments.payment_world_axioms demo_payment_ok demo_no_entry(1) _ demo_no_entry(2) run
      this(1) refl this(2) again]
  show ?thesis using run again by simp
qed

text \<open>
  C32.  A failed request blocks its key.  When the payment behind \<^verbatim>\<open>POST /payments\<close> throws, the cache
  entry stays \<open>processing\<close>: for an hour every request with that key is refused with \<open>Conflict\<close>, even
  a corrected one, and none has an effect.
\<close>

theorem http_failure_blocks:
  assumes "payment_world E vw" "payment_ok (vw w)" "p_calm (vw w)" "k \<noteq> []"
    and "live (p_clock (vw w)) (p_kv (vw w) (cache_key k)) = None"
    and "http_initiate E (Some k) dto w = (Inl x, w1)"
    and "p_calm (vw w2)" "p_kv (vw w2) = p_kv (vw w1)" "p_clock (vw w2) < p_clock (vw w) + 3600000"
    and "http_initiate E (Some k) dto' w2 = (r, w3)"
  shows "(\<exists>m. r = Inl (Conflict m)) \<and> vw w3 = vw w2"
proof -
  have "cached_as (vw w1) k processing_doc (p_clock (vw w))"
    using http_first [OF assms(1-6)] by simp
  then have "cached_as (vw w2) k processing_doc (p_clock (vw w))"
    using assms(8) by (simp add: cached_as_def)
  from wpD [OF payment_world.intercept_again(1) [OF assms(1,4,7) this assms(9) refl]] assms(10)
  show ?thesis by (auto simp: http_initiate_def)
qed

theorem http_failure_blocks_witness:
  "\<exists>x w1 m w3. http_initiate mem_payment_env (Some ''h1'') (demo_order\<lparr>ip_provider := Some ''mock''\<rparr>) demo_payments = (Inl x, w1) \<and>
     http_initiate mem_payment_env (Some ''h1'') demo_order w1 = (Inl (Conflict m), w3)"
proof -
  let ?first = "http_initiate mem_payment_env (Some ''h1'') (demo_order\<lparr>ip_provider := Some ''mock''\<rparr>) demo_payments"
  have "fst ?first = Inl (JsError ''Payment provider mock not support'')"
    and facts: "steady (snd ?first)" "mem_clock (snd ?first) < mem_clock demo_payments + 3600000"
    by code_simp+
  then obtain x w1 where run: "?first = (Inl x, w1)"
    by (metis prod.collapse)
  obtain r w3 where again: "http_initiate mem_payment_env (Some ''h1'') demo_order w1 = (r, w3)"
    by fastforce
  have "p_calm (payment_view w1)" "p_clock (payment_view w1) < p_clock (payment_view demo_payments) + 3600000"
    using facts run by (simp_all add: payment_view_def)
  from http_failure_blocks [OF mem_payments.payment_world_axioms demo_payment_ok demo_no_entry(1) _ demo_no_entry(2) run
      this(1) refl this(2) again]
  show ?thesis using run again by auto
qed

end
