(* ===== verification/Booking_Entities.thy ===== *)
theory Booking_Entities
  imports Seat_Controllers Refund_Service
begin

text \<open>
  The data of the booking service: the entities \<^verbatim>\<open>Booking\<close>, \<^verbatim>\<open>BookingItem\<close>, \<^verbatim>\<open>Outbox\<close>
  (booking/entities/*.entity.ts) and \<^verbatim>\<open>Ticket\<close> (ticket/entities/ticket.entity.ts), the enums, the request
  bodies, the observed state of the service and its environment: four tables, a transaction over three
  of them, Kafka, the clock, random identifiers, the QR code generator and the two gRPC peers.

  Nothing is assumed of the peers: they answer anything, or throw, and the observed state of the
  booking service only gets a record of the call with its answer (\<open>peer_calls\<close>).  The \<^verbatim>\<open>items\<close> of a
  booking are rows of their own table; loading a booking \<^verbatim>\<open>with relations: ['items']\<close> reads both.
\<close>

section \<open>Entities\<close>

datatype BookingStatus = PENDING | CONFIRMED | CANCELLED | REFUNDED

datatype OutboxStatus = PENDING | PROCESSING | COMPLETED | FAILED

datatype RefundState = REFUND_INITIATED | PAYMENT_REFUNDED | SEATS_RELEASED | COMPLETED | FAILED

datatype TicketStatus = ACTIVE | USED | CANCELLED | TRANSFERRED

fun booking_status_text :: "BookingStatus \<Rightarrow> string" where
  "booking_status_text BookingStatus.PENDING = ''pending''"
| "booking_status_text BookingStatus.CONFIRMED = ''confirmed''"
| "booking_status_text BookingStatus.CANCELLED = ''cancelled''"
| "booking_status_text BookingStatus.REFUNDED = ''refunded''"

record Booking =
  bk_id :: string
  bk_bookingNumber :: string
  bk_userId :: string
  bk_eventId :: string
  bk_status :: BookingStatus
  bk_totalAmount :: string
  bk_currency :: string
  bk_expiresAt :: int
  bk_confirmedAt :: "int option"
  bk_cancelledAt :: "int option"
  bk_cancellationReason :: "string option"
  bk_refundState :: "RefundState option"
  bk_refundIdempotencyKey :: "string option"
  bk_refundRetryCount :: nat
  bk_refundLastError :: "string option"
  bk_createdAt :: int

record BookingItem =
  bi_id :: string
  bi_bookingId :: string
  bi_seatInventoryId :: string
  bi_seatId :: string
  bi_ticketTypeId :: string
  bi_ticketTypeName :: string
  bi_sectionName :: string
  bi_row :: string
  bi_seatNumber :: string
  bi_unitPrice :: string
  bi_attendeeName :: "string option"
  bi_attendeeEmail :: "string option"

record Outbox =
  ob_id :: string
  ob_aggregateType :: string
  ob_aggregateId :: string
  ob_eventType :: string
  ob_payload :: json
  ob_status :: OutboxStatus
  ob_retryCount :: nat
  ob_maxRetries :: nat
  ob_lastError :: "string option"
  ob_processedAt :: "int option"
  ob_createdAt :: int

record Ticket =
  tk_id :: string
  tk_bookingId :: string
  tk_seatId :: string
  tk_bookingItemId :: string
  tk_ticketCode :: string
  tk_qrCodeData :: "string option"
  tk_status :: TicketStatus
  tk_sectionName :: string
  tk_row :: string
  tk_seatNumber :: string
  tk_attendeeName :: "string option"
  tk_attendeeEmail :: "string option"
  tk_checkedInAt :: "int option"
  tk_issuedAt :: int

record BookingItemDto =
  bid_seatId :: string
  bid_attendeeName :: "string option"
  bid_attendeeEmail :: "string option"

record CreateBookingDto =
  cb_userId :: string
  cb_eventId :: string
  cb_sessionId :: string
  cb_cardToken :: string
  cb_paymentIdempotencyKey :: string
  cb_paymentProvider :: "string option"
  cb_items :: "BookingItemDto list"

record CancelBookingDto =
  cc_reason :: "string option"
  cc_refundIdempotencyKey :: string

section \<open>The peers\<close>

text \<open>The methods of \<^verbatim>\<open>PaymentServiceClient\<close> the booking service calls.\<close>

record 'w PaymentClient =
  pc_initiatePayment :: "InitiatePaymentDto \<Rightarrow> ('w, PaymentInfo option) act"
  pc_refundPayment :: "string \<Rightarrow> string \<Rightarrow> string \<Rightarrow> ('w, RefundReply) act"

text \<open>A call to a peer with its outcome.\<close>

datatype peer_call =
    GetSeatsByEvent string "exn + SeatMessage list"
  | VerifyHold string "string list" string "exn + bool"
  | ReleaseSeats string "string list" string SeatLockReleaseReason "exn + bool"
  | MarkSeatsAsSold string "string list" string "exn + bool"
  | ReleaseSoldSeats string "string list" "exn + bool"
  | InitiatePayment InitiatePaymentDto "exn + PaymentInfo option"
  | RefundPayment string string string "exn + RefundReply"

locale peers_api =
  fixes C :: "'w SeatInventoryClient" and PC :: "'w PaymentClient"
    and vw :: "'w \<Rightarrow> 'v"
    and calls_upd :: "(peer_call list \<Rightarrow> peer_call list) \<Rightarrow> 'v \<Rightarrow> 'v"
  assumes seats_call:
      "obeys vw (sic_getSeatsByEvent C e) (\<lambda>v r v'. v' = calls_upd (\<lambda>l. l @ [GetSeatsByEvent e r]) v)"
    and verify_call:
      "obeys vw (sic_verifyHold C e ss u) (\<lambda>v r v'. v' = calls_upd (\<lambda>l. l @ [VerifyHold e ss u r]) v)"
    and release_call:
      "obeys vw (sic_releaseSeats C e ss u reason) (\<lambda>v r v'. v' = calls_upd (\<lambda>l. l @ [ReleaseSeats e ss u reason r]) v)"
    and sold_call:
      "obeys vw (sic_markSeatsAsSold C e ss u) (\<lambda>v r v'. v' = calls_upd (\<lambda>l. l @ [MarkSeatsAsSold e ss u r]) v)"
    and unsold_call:
      "obeys vw (sic_releaseSoldSeats C e ss) (\<lambda>v r v'. v' = calls_upd (\<lambda>l. l @ [ReleaseSoldSeats e ss r]) v)"
    and pay_call:
      "obeys vw (pc_initiatePayment PC req) (\<lambda>v r v'. v' = calls_upd (\<lambda>l. l @ [InitiatePayment req r]) v)"
    and refund_call:
      "obeys vw (pc_refundPayment PC b k why) (\<lambda>v r v'. v' = calls_upd (\<lambda>l. l @ [RefundPayment b k why r]) v)"

section \<open>The observed state\<close>

record booking_store =
  bookings :: "Booking list"
  booking_items :: "BookingItem list"
  outbox :: "Outbox list"
  tickets :: "Ticket list"
  bk_tx :: bool
  tx_bookings :: "Booking list"
  tx_items :: "BookingItem list"
  tx_outbox :: "Outbox list"
  bk_sent :: "kafka_message list"
  peer_calls :: "peer_call list"
  bk_clock :: int
  bk_calm :: bool

text \<open>The state with a transaction in progress that has written these rows, and without any.\<close>

definition in_tx :: "Booking list \<Rightarrow> BookingItem list \<Rightarrow> Outbox list \<Rightarrow> 'z booking_store_scheme \<Rightarrow> 'z booking_store_scheme" where
  "in_tx bs its os v = v\<lparr>bk_tx := True, tx_bookings := bs, tx_items := its, tx_outbox := os\<rparr>"

definition at_rest :: "'z booking_store_scheme \<Rightarrow> 'z booking_store_scheme" where
  "at_rest v = v\<lparr>bk_tx := False, tx_bookings := [], tx_items := [], tx_outbox := []\<rparr>"

definition bk_begin :: "'z booking_store_scheme \<Rightarrow> 'z booking_store_scheme" where
  "bk_begin v = in_tx [] [] [] v"

definition bk_publish :: "'z booking_store_scheme \<Rightarrow> 'z booking_store_scheme" where
  "bk_publish v = at_rest (v\<lparr>bookings := upserts bk_id (tx_bookings v) (bookings v),
     booking_items := upserts bi_id (tx_items v) (booking_items v),
     outbox := upserts ob_id (tx_outbox v) (outbox v)\<rparr>)"

text \<open>\<^verbatim>\<open>@Column({ unique: true }) bookingNumber\<close>.\<close>

definition unique_numbers :: "Booking list \<Rightarrow> bool" where
  "unique_numbers t \<longleftrightarrow> distinct (map bk_bookingNumber t)"

section \<open>The environment\<close>

record 'w booking_env =
  bookingRepo :: "('w, Booking) repo"
  bookingItemRepo :: "('w, BookingItem) repo"
  outboxRepo :: "('w, Outbox) repo"
  ticketRepo :: "('w, Ticket) repo"
  bookingManager :: "('w, Booking) manager"
  itemManager :: "('w, BookingItem) manager"
  outboxManager :: "('w, Outbox) manager"
  bookingRunner :: "'w query_runner"
  bookingKafka :: "'w kafka"
  bookingNow :: "('w, int) act"
  randomUUID :: "('w, string) act"
  toDataURL :: "rtext \<Rightarrow> ('w, string) act"
  seatClient :: "'w SeatInventoryClient"
  paymentClient :: "'w PaymentClient"
  bk_to_numeric :: "js_number \<Rightarrow> string"

locale booking_world =
  bks: table_api "bookingRepo E" vw bk_id bookings bookings_update bk_clock unique_numbers bk_calm +
  bis: table_api "bookingItemRepo E" vw bi_id booking_items booking_items_update bk_clock "\<lambda>_. True" bk_calm +
  obs: table_api "outboxRepo E" vw ob_id outbox outbox_update bk_clock "\<lambda>_. True" bk_calm +
  tks: table_api "ticketRepo E" vw tk_id tickets tickets_update bk_clock "\<lambda>_. True" bk_calm +
  txbk: manager_api "bookingManager E" vw bk_id bookings tx_bookings tx_bookings_update bk_clock bk_tx unique_numbers bk_calm +
  txbi: manager_api "itemManager E" vw bi_id booking_items tx_items tx_items_update bk_clock bk_tx "\<lambda>_. True" bk_calm +
  txob: manager_api "outboxManager E" vw ob_id outbox tx_outbox tx_outbox_update bk_clock bk_tx "\<lambda>_. True" bk_calm +
  tx: transaction_api "bookingRunner E" vw bk_tx bk_begin bk_publish at_rest bk_calm +
  kafka_api "bookingKafka E" vw bk_sent_update +
  clock_api "bookingNow E" vw bk_clock +
  peers_api "seatClient E" "paymentClient E" vw peer_calls_update
  for E :: "'w booking_env" and vw :: "'w \<Rightarrow> 'z booking_store_scheme" +
  assumes uuid_law: "obeys vw (randomUUID E) (\<lambda>v r v'. v' = v \<and> (\<exists>s. r = Inr s))"
    and qr_law: "obeys vw (toDataURL E x) (fallible bk_calm (\<lambda>v s v'. v' = v))"

section \<open>At rest and in a transaction\<close>

lemma at_rest_simps [simp]:
  "bookings (at_rest v) = bookings v" "booking_items (at_rest v) = booking_items v"
  "outbox (at_rest v) = outbox v" "tickets (at_rest v) = tickets v" "bk_sent (at_rest v) = bk_sent v"
  "peer_calls (at_rest v) = peer_calls v" "bk_clock (at_rest v) = bk_clock v" "bk_calm (at_rest v) = bk_calm v"
  "at_rest (at_rest v) = at_rest v" "at_rest (in_tx bs its os v) = at_rest v" "bk_tx (in_tx bs its os v)"
  "at_rest (bk_publish v) = bk_publish v" "at_rest (bk_begin v) = at_rest v"
  "at_rest (bookings_update f v) = bookings_update f (at_rest v)"
  "at_rest (booking_items_update g v) = booking_items_update g (at_rest v)"
  "at_rest (outbox_update h v) = outbox_update h (at_rest v)"
  "at_rest (tickets_update k v) = tickets_update k (at_rest v)"
  "at_rest (bk_sent_update l v) = bk_sent_update l (at_rest v)"
  "at_rest (peer_calls_update c v) = peer_calls_update c (at_rest v)"
  by (simp_all add: at_rest_def in_tx_def bk_publish_def bk_begin_def)

lemma in_tx_simps [simp]:
  "bookings (in_tx bs its os v) = bookings v" "booking_items (in_tx bs its os v) = booking_items v"
  "outbox (in_tx bs its os v) = outbox v" "tickets (in_tx bs its os v) = tickets v"
  "tx_bookings (in_tx bs its os v) = bs" "tx_items (in_tx bs its os v) = its" "tx_outbox (in_tx bs its os v) = os"
  "bk_clock (in_tx bs its os v) = bk_clock v" "bk_calm (in_tx bs its os v) = bk_calm v"
  "tx_bookings_update f (in_tx bs its os v) = in_tx (f bs) its os v"
  "tx_items_update g (in_tx bs its os v) = in_tx bs (g its) os v"
  "tx_outbox_update h (in_tx bs its os v) = in_tx bs its (h os) v"
  "tickets_update k (in_tx bs its os v) = in_tx bs its os (tickets_update k v)"
  by (simp_all add: in_tx_def)

lemma bk_begin_rest: "bk_begin v = in_tx [] [] [] (at_rest v)"
  by (simp add: bk_begin_def in_tx_def at_rest_def)

lemma bk_publish_in_tx: "bk_publish (in_tx bs its os v) =
    at_rest (v\<lparr>bookings := upserts bk_id bs (bookings v), booking_items := upserts bi_id its (booking_items v),
      outbox := upserts ob_id os (outbox v)\<rparr>)"
  by (simp add: bk_publish_def in_tx_def at_rest_def)

end
