(* ===== verification/Ticket_Service.thy ===== *)
theory Ticket_Service
  imports Booking_Entities
begin

text \<open>
  \<^verbatim>\<open>TicketService\<close> (ticket/ticket.service.ts) of the booking service, its contract \<open>ticket_api\<close> for the
  orchestrator and the outbox worker, and the life cycle of a ticket as a step relation.
\<close>

section \<open>Operations\<close>

text \<open>\<^verbatim>\<open>`TK-${Date.now().toString(36).toUpperCase()}-${randomUUID().slice(0, 6).toUpperCase()}`\<close>.\<close>

definition generateTicketCode :: "'w booking_env \<Rightarrow> ('w, string) act" where
  "generateTicketCode E =
     await (bookingNow E) (\<lambda>now.
     await (randomUUID E) (\<lambda>uuid.
     let timestamp = toUpperCase (toString 36 now); random = toUpperCase (take 6 uuid) in
     return (''TK'' @ ''-'' @ timestamp @ ''-'' @ random)))"

definition qr_payload :: "string \<Rightarrow> string \<Rightarrow> BookingItem \<Rightarrow> rtext" where
  "qr_payload ticketCode bookingId item = JSON_stringify (JObj
     [(''ticketCode'', JStr ticketCode), (''bookingId'', JStr bookingId), (''seatId'', JStr (bi_seatId item)),
      (''row'', JStr (bi_row item)), (''seatNumber'', JStr (bi_seatNumber item)),
      (''attendeeName'', opt_json (bi_attendeeName item))])"

definition new_ticket :: "string \<Rightarrow> BookingItem \<Rightarrow> string \<Rightarrow> string \<Rightarrow> string \<Rightarrow> int \<Rightarrow> Ticket" where
  "new_ticket bookingId item ticketCode qrCodeData = (\<lambda>id now.
     \<lparr>tk_id = id, tk_bookingId = bookingId, tk_seatId = bi_seatId item, tk_bookingItemId = bi_id item,
      tk_ticketCode = ticketCode, tk_qrCodeData = Some qrCodeData, tk_status = TicketStatus.ACTIVE,
      tk_sectionName = bi_sectionName item, tk_row = bi_row item, tk_seatNumber = bi_seatNumber item,
      tk_attendeeName = bi_attendeeName item, tk_attendeeEmail = bi_attendeeEmail item,
      tk_checkedInAt = None, tk_issuedAt = now\<rparr>)"

definition make_ticket :: "'w booking_env \<Rightarrow> string \<Rightarrow> BookingItem \<Rightarrow> ('w, string \<Rightarrow> int \<Rightarrow> Ticket) act" where
  "make_ticket E bookingId item =
     await (generateTicketCode E) (\<lambda>ticketCode.
     await (toDataURL E (qr_payload ticketCode bookingId item)) (\<lambda>qrCodeData.
     return (new_ticket bookingId item ticketCode qrCodeData)))"

definition generateTicket :: "'w booking_env \<Rightarrow> string \<Rightarrow> ('w, Ticket list) act" where
  "generateTicket E bookingId =
     await (repo_find (ticketRepo E) (\<lambda>t. tk_bookingId t = bookingId)) (\<lambda>existing.
     if length existing > 0 then return existing
     else
     await (repo_find (bookingItemRepo E) (\<lambda>i. bi_bookingId i = bookingId)) (\<lambda>bookingItems.
     if length bookingItems = 0 then return []
     else
     await (for_fold bookingItems (\<lambda>tickets item.
        await (make_ticket E bookingId item) (\<lambda>ticket. return (tickets @ [ticket]))) []) (\<lambda>tickets.
     repo_insert (ticketRepo E) tickets)))"

definition findByBooking :: "'w booking_env \<Rightarrow> string \<Rightarrow> ('w, Ticket list) act" where
  "findByBooking E bookingId = repo_find (ticketRepo E) (\<lambda>t. tk_bookingId t = bookingId)"

definition findByCode :: "'w booking_env \<Rightarrow> string \<Rightarrow> ('w, Ticket option) act" where
  "findByCode E ticketCode = repo_findOne (ticketRepo E) (\<lambda>t. tk_ticketCode t = ticketCode)"

definition checkIn :: "'w booking_env \<Rightarrow> string \<Rightarrow> ('w, Ticket) act" where
  "checkIn E ticketCode =
     await (findByCode E ticketCode) (\<lambda>found.
     case found of
       None \<Rightarrow> throw (NotFound (''Ticket with code '' @ ticketCode @ '' not found''))
     | Some ticket \<Rightarrow>
         if tk_status ticket = TicketStatus.USED
         then throw (BadRequest (''Ticket with code '' @ ticketCode @ '' has already been used''))
         else if tk_status ticket = TicketStatus.CANCELLED
         then throw (BadRequest (''Ticket with code '' @ ticketCode @ '' has been cancelled''))
         else
         await (bookingNow E) (\<lambda>now.
         let ticket = ticket\<lparr>tk_status := TicketStatus.USED, tk_checkedInAt := Some now\<rparr> in
         await (repo_save (ticketRepo E) [ticket]) (\<lambda>_. return ticket)))"

definition cancelByBooking :: "'w booking_env \<Rightarrow> string \<Rightarrow> ('w, unit) act" where
  "cancelByBooking E bookingId =
     repo_update (ticketRepo E) (\<lambda>t. tk_bookingId t = bookingId \<and> tk_status t = TicketStatus.ACTIVE)
       (\<lambda>t. t\<lparr>tk_status := TicketStatus.CANCELLED\<rparr>)"

text \<open>The methods other classes are constructed with.\<close>

record 'w TicketService =
  ts_generateTicket :: "string \<Rightarrow> ('w, Ticket list) act"
  ts_cancelByBooking :: "string \<Rightarrow> ('w, unit) act"

definition ticketService :: "'w booking_env \<Rightarrow> 'w TicketService" where
  "ticketService E = \<lparr>ts_generateTicket = generateTicket E, ts_cancelByBooking = cancelByBooking E\<rparr>"

text \<open>\<^verbatim>\<open>TicketController\<close> (ticket/ticket.controller.ts).\<close>

record 'w TicketController =
  tc_findByBooking :: "string \<Rightarrow> ('w, Ticket list) act"
  tc_findByCode :: "string \<Rightarrow> ('w, Ticket option) act"
  tc_checkIn :: "string \<Rightarrow> ('w, Ticket) act"

definition ticketController :: "'w booking_env \<Rightarrow> 'w TicketController" where
  "ticketController E = \<lparr>tc_findByBooking = findByBooking E, tc_findByCode = findByCode E, tc_checkIn = checkIn E\<rparr>"

section \<open>The contract\<close>

text \<open>One active ticket for each item of the booking, with fresh keys.\<close>

definition tickets_for :: "string \<Rightarrow> 'z booking_store_scheme \<Rightarrow> Ticket list \<Rightarrow> bool" where
  "tickets_for b v ts \<longleftrightarrow>
     mset (map tk_bookingItemId ts) = mset (map bi_id (filter (\<lambda>i. bi_bookingId i = b) (booking_items v))) \<and>
     distinct (map tk_id ts) \<and> tk_id ` set ts \<inter> tk_id ` set (tickets v) = {} \<and>
     (\<forall>t\<in>set ts. tk_bookingId t = b \<and> tk_status t = TicketStatus.ACTIVE)"

definition tickets_of :: "string \<Rightarrow> 'z booking_store_scheme \<Rightarrow> Ticket list" where
  "tickets_of b v = filter (\<lambda>t. tk_bookingId t = b) (tickets v)"

definition generate_spec :: "string \<Rightarrow> 'z booking_store_scheme \<Rightarrow> exn + Ticket list \<Rightarrow> 'z booking_store_scheme \<Rightarrow> bool" where
  "generate_spec b v r v' \<longleftrightarrow>
     fallible bk_calm (\<lambda>v ts v'.
       if tickets_of b v \<noteq> [] then v' = v \<and> mset ts = mset (tickets_of b v)
       else tickets_for b v ts \<and> v' = tickets_update (\<lambda>t. t @ ts) v) v r v'"

definition cancel_tickets :: "string \<Rightarrow> 'z booking_store_scheme \<Rightarrow> 'z booking_store_scheme" where
  "cancel_tickets b = tickets_update (map (\<lambda>t.
     if tk_bookingId t = b \<and> tk_status t = TicketStatus.ACTIVE then t\<lparr>tk_status := TicketStatus.CANCELLED\<rparr> else t))"

locale ticket_api =
  fixes T :: "'w TicketService" and vw :: "'w \<Rightarrow> 'z booking_store_scheme"
  assumes generate_law: "obeys vw (ts_generateTicket T b) (generate_spec b)"
    and cancel_law: "obeys vw (ts_cancelByBooking T b) (fallible bk_calm (\<lambda>v u v'. v' = cancel_tickets b v))"

lemma tickets_for_none [simp]:
  "filter (\<lambda>i. bi_bookingId i = b) (booking_items v) = [] \<Longrightarrow> tickets_for b v ts \<longleftrightarrow> ts = []"
  by (auto simp: tickets_for_def)

lemma new_ticket_id [simp]: "tk_id (new_ticket b item code qr i n) = i"
  by (simp add: new_ticket_def)

text \<open>The templates the loop builds for the items \<open>its\<close>.\<close>

definition ticket_templates :: "string \<Rightarrow> BookingItem list \<Rightarrow> (string \<Rightarrow> int \<Rightarrow> Ticket) list \<Rightarrow> bool" where
  "ticket_templates b its mks \<longleftrightarrow>
     list_all2 (\<lambda>item mk. \<exists>code qr. mk = new_ticket b item code qr) its mks"

lemma ticket_templates_nth:
  assumes "ticket_templates b its mks" "k < length mks"
  obtains code qr where "mks ! k = new_ticket b (its ! k) code qr"
  using assms unfolding ticket_templates_def by (auto dest: list_all2_nthD2)

lemma ticket_templates_created:
  assumes "ticket_templates b its mks" "created tk_id (tk_id ` set (tickets v)) now mks ts"
    and "mset its = mset (filter (\<lambda>i. bi_bookingId i = b) (booking_items v))"
  shows "tickets_for b v ts"
proof -
  have len: "length ts = length its"
    using assms(1) created_length [OF assms(2)] by (simp add: ticket_templates_def list_all2_lengthD)
  have row: "\<exists>code qr i. ts ! k = new_ticket b (its ! k) code qr i now" if "k < length ts" for k
  proof -
    have k: "k < length mks" using that created_length [OF assms(2)] by simp
    obtain code qr where "mks ! k = new_ticket b (its ! k) code qr"
      by (rule ticket_templates_nth [OF assms(1) k])
    then show ?thesis using created_nth [OF assms(2) k] by auto
  qed
  have "map tk_bookingItemId ts = map bi_id its"
  proof (rule nth_equalityI)
    fix k assume "k < length (map tk_bookingItemId ts)"
    then have k: "k < length ts" by simp
    then obtain code qr i where "ts ! k = new_ticket b (its ! k) code qr i now"
      using row by blast
    then show "map tk_bookingItemId ts ! k = map bi_id its ! k"
      using k len by (simp add: new_ticket_def)
  qed (simp add: len)
  then have "mset (map tk_bookingItemId ts) = mset (map bi_id (filter (\<lambda>i. bi_bookingId i = b) (booking_items v)))"
    using assms(3) by (metis mset_map)
  moreover have "\<forall>t\<in>set ts. tk_bookingId t = b \<and> tk_status t = TicketStatus.ACTIVE"
    using row by (fastforce simp: in_set_conv_nth new_ticket_def)
  ultimately show ?thesis
    using created_distinct [OF assms(2)] created_fresh [OF assms(2)] by (simp add: tickets_for_def)
qed

lemma ticket_templates_insertable:
  assumes "ticket_templates b its mks"
  shows "insertable tk_id used now mks (\<lambda>_. True)"
proof -
  have "tk_id (mk i n) = i" if m: "mk \<in> set mks" for mk i n
  proof -
    obtain k where k: "k < length mks" "mk = mks ! k"
      using m by (auto simp: in_set_conv_nth)
    obtain code qr where "mk = new_ticket b (its ! k) code qr"
      using ticket_templates_nth [OF assms k(1)] k(2) by metis
    then show ?thesis by simp
  qed
  then show ?thesis by (simp add: insertable_def keeps_ids_def)
qed

text \<open>Checking in: the ticket is found by its code, and it may be used.\<close>

definition checked_in :: "string \<Rightarrow> Ticket \<Rightarrow> 'z booking_store_scheme \<Rightarrow> Ticket \<Rightarrow> bool" where
  "checked_in code t v t' \<longleftrightarrow> t \<in> set (tickets v) \<and> tk_ticketCode t = code \<and>
     tk_status t \<notin> {TicketStatus.USED, TicketStatus.CANCELLED} \<and>
     t' = t\<lparr>tk_status := TicketStatus.USED, tk_checkedInAt := Some (bk_clock v)\<rparr>"

context booking_world
begin

lemma ticket_code_wp:
  "(\<And>code w'. vw w' = vw w \<Longrightarrow> Q (Inr code) w') \<Longrightarrow> wp (generateTicketCode E) Q w"
  unfolding generateTicketCode_def wp_await
  by (rule wp_obeys [OF now_law]) (auto simp: wp_simps Let_def intro!: wp_obeys [OF uuid_law])

lemma make_ticket_wp:
  assumes "\<And>m w'. vw w' = vw w \<Longrightarrow> \<not> bk_calm (vw w) \<Longrightarrow> Q (Inl (JsError m)) w'"
    and "\<And>code qr w'. vw w' = vw w \<Longrightarrow> Q (Inr (new_ticket b item code qr)) w'"
  shows "wp (make_ticket E b item) Q w"
  unfolding make_ticket_def wp_await
  by (rule ticket_code_wp) (auto simp: wp_simps intro!: wp_fallible [OF qr_law] assms)

lemma generateTicket_law: "obeys vw (generateTicket E b) (generate_spec b)"
proof (rule obeysI)
  fix w
  let ?v = "vw w"
  have stop: "generate_spec b ?v (Inl (JsError m)) (vw w')" if "vw w' = ?v" "\<not> bk_calm ?v" for m w'
    using that by (simp add: generate_spec_def)
  show "wp (generateTicket E b) (\<lambda>r w'. generate_spec b ?v r (vw w')) w"
    unfolding generateTicket_def wp_await
  proof (rule wp_fallible [OF tks.find_law], goal_cases)
    case (2 existing w1)
    show ?case
    proof (cases "existing = []")
      case False
      have m: "mset existing = mset (tickets_of b ?v)" using 2 by (simp add: tickets_of_def)
      with False have "tickets_of b ?v \<noteq> []" by auto
      then show ?thesis
        using 2 m False by (simp add: wp_simps generate_spec_def)
    next
      case True
      then have none: "tickets_of b ?v = []" and w1: "vw w1 = ?v" and e: "\<not> 0 < length existing"
        using 2 by (auto simp: tickets_of_def)
      show ?thesis
        unfolding sum.case if_not_P [OF e] wp_await
      proof (rule wp_fallible [OF bis.find_law], goal_cases)
        case (2 its w2)
        then have its: "mset its = mset (filter (\<lambda>i. bi_bookingId i = b) (booking_items ?v))" and w2: "vw w2 = ?v"
          using w1 by auto
        show ?case
        proof (cases "its = []")
          case True
          then show ?thesis using its none w2 by (auto simp: wp_simps generate_spec_def)
        next
          case False
          then show ?thesis
            unfolding sum.case wp_if wp_await length_0_conv if_not_P [OF False]
          proof (intro wp_for_fold [where I = "\<lambda>ys mks w'. vw w' = ?v \<and> ticket_templates b ys mks"
                and X = "\<lambda>e w'. vw w' = ?v \<and> \<not> bk_calm ?v \<and> (\<exists>m. e = JsError m)"], goal_cases)
            case (1 ys x zs mks w3)
            then show ?case
              unfolding wp_await
              by (intro make_ticket_wp) (auto simp: wp_simps ticket_templates_def intro!: list_all2_appendI)
          next
            case (4 mks w3)
            then show ?case
              unfolding sum.case
            proof (intro wp_fallible [OF tks.insert_law], goal_cases)
              case (1 m w4)
              then show ?case
                using stop ticket_templates_insertable by (auto simp: insertable_def)
            next
              case (2 ts w4)
              then show ?case
                using none ticket_templates_created [OF _ _ its] by (auto simp: generate_spec_def)
            qed
          qed (use w2 stop in \<open>auto simp: ticket_templates_def\<close>)
        qed
      qed (use stop w1 in simp)
    qed
  qed (use stop in simp)
qed

lemma cancelByBooking_law: "obeys vw (cancelByBooking E b) (fallible bk_calm (\<lambda>v u v'. v' = cancel_tickets b v))"
  unfolding cancelByBooking_def cancel_tickets_def by (rule tks.update_law)

lemma checkIn_law:
  "obeys vw (checkIn E code) (\<lambda>v r v'. case r of
      Inl e \<Rightarrow> v' = v \<and> ((\<exists>m. e = JsError m) \<and> \<not> bk_calm v \<or>
        (\<exists>m. e = NotFound m) \<and> (\<forall>t\<in>set (tickets v). tk_ticketCode t \<noteq> code) \<or>
        (\<exists>m. e = BadRequest m) \<and> (\<exists>t\<in>set (tickets v). tk_ticketCode t = code \<and>
           tk_status t \<in> {TicketStatus.USED, TicketStatus.CANCELLED}))
    | Inr t' \<Rightarrow> \<exists>t. checked_in code t v t' \<and> v' = tickets_update (upserts tk_id [t']) v)"
proof (rule obeysI)
  fix w
  show "wp (checkIn E code) (\<lambda>r w'. case r of
      Inl e \<Rightarrow> vw w' = vw w \<and> ((\<exists>m. e = JsError m) \<and> \<not> bk_calm (vw w) \<or>
        (\<exists>m. e = NotFound m) \<and> (\<forall>t\<in>set (tickets (vw w)). tk_ticketCode t \<noteq> code) \<or>
        (\<exists>m. e = BadRequest m) \<and> (\<exists>t\<in>set (tickets (vw w)). tk_ticketCode t = code \<and>
           tk_status t \<in> {TicketStatus.USED, TicketStatus.CANCELLED}))
    | Inr t' \<Rightarrow> \<exists>t. checked_in code t (vw w) t' \<and> vw w' = tickets_update (upserts tk_id [t']) (vw w)) w"
    unfolding checkIn_def findByCode_def wp_await
  proof (rule wp_fallible [OF tks.findOne_law], goal_cases)
    case (2 found w1)
    show ?case
    proof (cases found)
      case None
      then show ?thesis using 2 by (simp add: wp_simps)
    next
      case (Some t)
      then have t: "t \<in> set (tickets (vw w))" "tk_ticketCode t = code" "vw w1 = vw w" using 2 by auto
      show ?thesis
      proof (cases "tk_status t \<in> {TicketStatus.USED, TicketStatus.CANCELLED}")
        case True
        then show ?thesis using t by (auto simp: Some wp_simps)
      next
        case False
        then show ?thesis
          unfolding Some sum.case option.case wp_if wp_await
          by (auto simp: wp_simps Let_def t checked_in_def
              intro!: wp_obeys [OF now_law] wp_fallible [OF tks.save_law] exI [of _ t])
      qed
    qed
  qed simp
qed

end

sublocale booking_world \<subseteq> ticketing: ticket_api "ticketService E" vw
  by unfold_locales (simp_all add: ticketService_def generateTicket_law cancelByBooking_law)

section \<open>The life cycle of a ticket\<close>

inductive ticket_step :: "TicketStatus \<Rightarrow> TicketStatus \<Rightarrow> bool" where
  check_in: "s = TicketStatus.ACTIVE \<or> s = TicketStatus.TRANSFERRED \<Longrightarrow> ticket_step s TicketStatus.USED"
| cancel: "ticket_step TicketStatus.ACTIVE TicketStatus.CANCELLED"

code_pred ticket_step .

inductive_simps ticket_step_from [simp]:
  "ticket_step TicketStatus.USED s" "ticket_step TicketStatus.CANCELLED s"
inductive_cases ticket_stepE: "ticket_step s s'"

text \<open>A row along a step: only the status changes, and the time of the check-in with it.\<close>

definition ticket_moves :: "Ticket \<Rightarrow> Ticket \<Rightarrow> bool" where
  "ticket_moves a b \<longleftrightarrow> b = a \<or> (ticket_step (tk_status a) (tk_status b) \<and>
     b = a\<lparr>tk_status := tk_status b, tk_checkedInAt := tk_checkedInAt b\<rparr> \<and>
     (tk_status b = TicketStatus.CANCELLED \<longrightarrow> tk_checkedInAt b = tk_checkedInAt a))"

lemma ticket_moves_refl [simp]: "ticket_moves a a"
  by (simp add: ticket_moves_def)

lemma ticket_step_once: "ticket_step s s' \<Longrightarrow> \<not> ticket_step s' s''"
  by (auto elim!: ticket_stepE)

lemma ticket_moves_trans: "ticket_moves a b \<Longrightarrow> ticket_moves b c \<Longrightarrow> ticket_moves a c"
  unfolding ticket_moves_def by (metis ticket_step_once)

lemma ticket_moves_checked: "checked_in code t v t' \<Longrightarrow> ticket_moves t t'"
  unfolding checked_in_def ticket_moves_def
  by (cases "tk_status t") (auto intro: ticket_step.intros)

lemma ticket_moves_cancelled:
  "tk_status t = TicketStatus.ACTIVE \<Longrightarrow> ticket_moves t (t\<lparr>tk_status := TicketStatus.CANCELLED\<rparr>)"
  by (simp add: ticket_moves_def ticket_step.cancel)

end
