(* ===== verification/Booking_Orchestrator.thy ===== *)
theory Booking_Orchestrator
  imports Ticket_Service
begin

text \<open>
  \<^verbatim>\<open>BookingOrchestratorService\<close> (booking/booking-orchestrator.service.ts): creating a booking (checking the
  hold, persisting, paying, confirming through the outbox or cancelling) and cancelling one (the refund
  state machine).  The methods that assign to the fields of a loaded booking act on the world and that
  object.  A transaction of the sources is \<^const>\<open>transaction\<close>.
\<close>

section \<open>Reading and writing bookings\<close>

definition BOOKING_EXPIRY_MS :: int where
  "BOOKING_EXPIRY_MS = 10 * 60 * 1000"

text \<open>\<^verbatim>\<open>findOne({ where, relations: ['items'] })\<close>.\<close>

definition load_booking :: "'w booking_env \<Rightarrow> (Booking \<Rightarrow> bool) \<Rightarrow> ('w, (Booking \<times> BookingItem list) option) act" where
  "load_booking E P =
     await (repo_findOne (bookingRepo E) P) (\<lambda>found.
     case found of None \<Rightarrow> return None
     | Some b \<Rightarrow>
         await (repo_find (bookingItemRepo E) (\<lambda>i. bi_bookingId i = bk_id b)) (\<lambda>items.
         return (Some (b, items))))"

definition save_booking :: "'w booking_env \<Rightarrow> ('w \<times> Booking, unit) act" where
  "save_booking E = await get_object (\<lambda>booking. on_world (repo_save (bookingRepo E) [booking]))"

definition booking_findById :: "'w booking_env \<Rightarrow> string \<Rightarrow> ('w, Booking \<times> BookingItem list) act" where
  "booking_findById E i =
     await (load_booking E (\<lambda>b. bk_id b = i)) (\<lambda>booking.
     case booking of None \<Rightarrow> throw (NotFound ''Booking not found'') | Some b \<Rightarrow> return b)"

definition findByUserId :: "'w booking_env \<Rightarrow> string \<Rightarrow> ('w, (Booking \<times> BookingItem list) list) act" where
  "findByUserId E userId =
     await (repo_find_ordered (bookingRepo E) (\<lambda>b. bk_userId b = userId) (\<lambda>b. - bk_createdAt b) None) (\<lambda>found.
     for_fold found (\<lambda>acc b.
       await (repo_find (bookingItemRepo E) (\<lambda>i. bi_bookingId i = bk_id b)) (\<lambda>items.
       return (acc @ [(b, items)]))) [])"

section \<open>Persisting a booking\<close>

text \<open>\<^verbatim>\<open>`BK-${Date.now().toString(36).toUpperCase()}-${randomUUID().slice(0, 4).toUpperCase()}`\<close>.\<close>

definition booking_number :: "int \<Rightarrow> string \<Rightarrow> string" where
  "booking_number now uuid = ''BK-'' @ toUpperCase (toString 36 now) @ ''-'' @ toUpperCase (take 4 uuid)"

definition generateBookingNumber :: "'w booking_env \<Rightarrow> ('w, string) act" where
  "generateBookingNumber E =
     await (bookingNow E) (\<lambda>now. await (randomUUID E) (\<lambda>uuid. return (booking_number now uuid)))"

text \<open>\<^verbatim>\<open>selectedSeats[0].currency\<close>.\<close>

definition first_currency :: "SeatMessage list \<Rightarrow> ('w, string) act" where
  "first_currency seats = (case seats of
      [] \<Rightarrow> throw (JsError ''Cannot read properties of undefined'') | s # _ \<Rightarrow> return (sm_currency s))"

definition new_booking ::
  "'w booking_env \<Rightarrow> CreateBookingDto \<Rightarrow> string \<Rightarrow> js_number \<Rightarrow> string \<Rightarrow> int \<Rightarrow> string \<Rightarrow> int \<Rightarrow> Booking" where
  "new_booking E dto bookingNumber totalAmount currency expiry = (\<lambda>id now.
     \<lparr>bk_id = id, bk_bookingNumber = bookingNumber, bk_userId = cb_userId dto, bk_eventId = cb_eventId dto,
      bk_status = BookingStatus.PENDING, bk_totalAmount = bk_to_numeric E totalAmount, bk_currency = currency,
      bk_expiresAt = expiry, bk_confirmedAt = None, bk_cancelledAt = None, bk_cancellationReason = None,
      bk_refundState = None, bk_refundIdempotencyKey = None, bk_refundRetryCount = 0, bk_refundLastError = None,
      bk_createdAt = now\<rparr>)"

definition new_item :: "'w booking_env \<Rightarrow> string \<Rightarrow> SeatMessage \<Rightarrow> BookingItemDto \<Rightarrow> string \<Rightarrow> int \<Rightarrow> BookingItem" where
  "new_item E bookingId seat item = (\<lambda>id now.
     \<lparr>bi_id = id, bi_bookingId = bookingId, bi_seatInventoryId = sm_id seat, bi_seatId = sm_seatId seat,
      bi_ticketTypeId = sm_ticketTypeId seat, bi_ticketTypeName = sm_ticketTypeName seat,
      bi_sectionName = sm_sectionName seat, bi_row = sm_row seat, bi_seatNumber = sm_seatNumber seat,
      bi_unitPrice = bk_to_numeric E (parseFloat (sm_price seat)),
      bi_attendeeName = bid_attendeeName item, bi_attendeeEmail = bid_attendeeEmail item\<rparr>)"

primrec build_items ::
  "'w booking_env \<Rightarrow> string \<Rightarrow> SeatMessage list \<Rightarrow> BookingItemDto list \<Rightarrow> ('w, (string \<Rightarrow> int \<Rightarrow> BookingItem) list) act" where
  "build_items E bookingId seats [] = return []"
| "build_items E bookingId seats (item # items) =
     (case List.find (\<lambda>s. sm_seatId s = bid_seatId item) seats of
        None \<Rightarrow> throw (BadRequest (''Seat '' @ bid_seatId item @ '' not found in inventory''))
      | Some seat \<Rightarrow>
          await (build_items E bookingId seats items) (\<lambda>rest. return (new_item E bookingId seat item # rest)))"

definition persist_body :: "'w booking_env \<Rightarrow> CreateBookingDto \<Rightarrow> SeatMessage list \<Rightarrow> js_number \<Rightarrow> ('w, string) act" where
  "persist_body E dto selectedSeats totalAmount =
     await (generateBookingNumber E) (\<lambda>bookingNumber.
     await (first_currency selectedSeats) (\<lambda>currency.
     await (bookingNow E) (\<lambda>now.
     await (manager_insert (bookingManager E)
       [new_booking E dto bookingNumber totalAmount currency (now + BOOKING_EXPIRY_MS)]) (\<lambda>saved.
     let savedBooking = hd saved in
     await (build_items E (bk_id savedBooking) selectedSeats (cb_items dto)) (\<lambda>bookingItems.
     await (manager_insert (itemManager E) bookingItems) (\<lambda>_.
     await (qr_commitTransaction (bookingRunner E)) (\<lambda>_.
     return (bk_id savedBooking))))))))"

text \<open>\<^verbatim>\<open>return this.bookingRepo.findOne(...)\<close> is not awaited inside the \<^verbatim>\<open>try\<close>: its failure is not rolled back.\<close>

definition persistBooking ::
  "'w booking_env \<Rightarrow> CreateBookingDto \<Rightarrow> SeatMessage list \<Rightarrow> js_number \<Rightarrow> ('w, (Booking \<times> BookingItem list) option) act" where
  "persistBooking E dto selectedSeats totalAmount =
     await (transaction (\<lambda>m. m) (bookingRunner E) (persist_body E dto selectedSeats totalAmount)) (\<lambda>bookingId.
     load_booking E (\<lambda>b. bk_id b = bookingId))"

section \<open>Confirming a booking\<close>

definition new_outbox :: "string \<Rightarrow> string \<Rightarrow> json \<Rightarrow> string \<Rightarrow> int \<Rightarrow> Outbox" where
  "new_outbox aggregateId eventType payload = (\<lambda>id now.
     \<lparr>ob_id = id, ob_aggregateType = ''booking'', ob_aggregateId = aggregateId, ob_eventType = eventType,
      ob_payload = payload, ob_status = OutboxStatus.PENDING, ob_retryCount = 0, ob_maxRetries = 5,
      ob_lastError = None, ob_processedAt = None, ob_createdAt = now\<rparr>)"

definition sold_payload :: "string \<Rightarrow> string \<Rightarrow> string list \<Rightarrow> json" where
  "sold_payload eventId userId seatIds =
     JObj [(''eventId'', JStr eventId), (''userId'', JStr userId), (''seatIds'', JArr (map JStr seatIds))]"

definition attendee_fields :: "BookingItem \<Rightarrow> (string \<times> json) list" where
  "attendee_fields item =
     [(''sectionName'', JStr (bi_sectionName item)), (''row'', JStr (bi_row item)),
      (''seatNumber'', JStr (bi_seatNumber item)), (''attendeeName'', opt_json (bi_attendeeName item)),
      (''attendeeEmail'', opt_json (bi_attendeeEmail item))]"

definition item_json :: "BookingItem \<Rightarrow> json" where
  "item_json item = JObj ((''seatId'', JStr (bi_seatId item)) # attendee_fields item)"

definition booking_fields :: "Booking \<Rightarrow> string \<Rightarrow> (string \<times> json) list" where
  "booking_fields booking eventId =
     [(''bookingId'', JStr (bk_id booking)), (''bookingNumber'', JStr (bk_bookingNumber booking)),
      (''userId'', JStr (bk_userId booking)), (''eventId'', JStr eventId),
      (''totalAmount'', JStr (bk_totalAmount booking)), (''currency'', JStr (bk_currency booking))]"

definition confirmed_payload :: "Booking \<Rightarrow> string \<Rightarrow> BookingItem list \<Rightarrow> json" where
  "confirmed_payload booking eventId items =
     JObj (booking_fields booking eventId @ [(''items'', JArr (map item_json items))])"

definition confirm_body :: "'w booking_env \<Rightarrow> string \<Rightarrow> string \<Rightarrow> string list \<Rightarrow> ('w \<times> Booking, unit) act" where
  "confirm_body E eventId userId seatIds =
     await (on_world (bookingNow E)) (\<lambda>now.
     await (assign (\<lambda>b. b\<lparr>bk_status := BookingStatus.CONFIRMED, bk_confirmedAt := Some now\<rparr>)) (\<lambda>_.
     await get_object (\<lambda>booking.
     await (on_world (manager_save (bookingManager E) [booking])) (\<lambda>_.
     await (on_world (load_booking E (\<lambda>b. bk_id b = bk_id booking))) (\<lambda>bookingWithItems.
     case bookingWithItems of
       None \<Rightarrow> throw (InternalServerError ''Booking not found after confirmation'')
     | Some (_, items) \<Rightarrow>
         await (on_world (manager_insert (outboxManager E)
           [new_outbox (bk_id booking) ''seats.mark_sold'' (sold_payload eventId userId seatIds)])) (\<lambda>_.
         await (on_world (manager_insert (outboxManager E)
           [new_outbox (bk_id booking) ''booking.confirmed'' (confirmed_payload booking eventId items)])) (\<lambda>_.
         on_world (qr_commitTransaction (bookingRunner E)))))))))"

definition confirmBookingWithOutbox :: "'w booking_env \<Rightarrow> string \<Rightarrow> string \<Rightarrow> string list \<Rightarrow> ('w \<times> Booking, unit) act" where
  "confirmBookingWithOutbox E eventId userId seatIds =
     transaction on_world (bookingRunner E) (confirm_body E eventId userId seatIds)"

section \<open>Creating a booking\<close>

definition total_amount :: "SeatMessage list \<Rightarrow> js_number" where
  "total_amount seats = foldl (\<lambda>acc seat. js_add acc (parseFloat (sm_price seat))) (Fin 0) seats"

definition payment_request :: "CreateBookingDto \<Rightarrow> string \<Rightarrow> js_number \<Rightarrow> string \<Rightarrow> InitiatePaymentDto" where
  "payment_request dto bookingId totalAmount currency =
     \<lparr>ip_bookingId = bookingId, ip_idempotencyKey = cb_paymentIdempotencyKey dto, ip_amount = totalAmount,
      ip_currency = currency, ip_method = CREDIT_CARD, ip_cardToken = cb_cardToken dto,
      ip_provider = Some (or_empty (cb_paymentProvider dto))\<rparr>"

definition settle_payment ::
  "'w booking_env \<Rightarrow> CreateBookingDto \<Rightarrow> SeatMessage list \<Rightarrow> js_number \<Rightarrow> ('w \<times> Booking, unit) act" where
  "settle_payment E dto selectedSeats totalAmount =
     (let seatIds = map bid_seatId (cb_items dto) in
     await get_object (\<lambda>savedBooking.
     await (on_world (first_currency selectedSeats)) (\<lambda>currency.
     await (on_world (pc_initiatePayment (paymentClient E)
       (payment_request dto (bk_id savedBooking) totalAmount currency))) (\<lambda>reply.
     case reply of
       None \<Rightarrow> throw (InternalServerError ''Payment initiation failed'')
     | Some payment \<Rightarrow>
         if pi_status payment = ''succeeded''
         then confirmBookingWithOutbox E (cb_eventId dto) (cb_userId dto) seatIds
         else
         await (on_world (bookingNow E)) (\<lambda>now.
         await (assign (\<lambda>b. b\<lparr>bk_status := BookingStatus.CANCELLED, bk_cancelledAt := Some now,
           bk_cancellationReason := Some (if pi_failureReason payment = '''' then ''Payment failed''
             else pi_failureReason payment)\<rparr>)) (\<lambda>_.
         await (save_booking E) (\<lambda>_.
         await (on_world (sic_releaseSeats (seatClient E) (cb_eventId dto) seatIds (cb_userId dto) PAYMENT_FAILED)) (\<lambda>_.
         return ()))))))))"

definition cancelled_payload :: "Booking \<Rightarrow> BookingItem list \<Rightarrow> json" where
  "cancelled_payload booking items =
     JObj (booking_fields booking (bk_eventId booking) @
       [(''status'', JStr (booking_status_text (bk_status booking))), (''items'', JArr (map item_json items))])"

definition cancel_after_error :: "'w booking_env \<Rightarrow> exn \<Rightarrow> ('w \<times> Booking, unit) act" where
  "cancel_after_error E error =
     await (on_world (bookingNow E)) (\<lambda>now.
     await (assign (\<lambda>b. b\<lparr>bk_status := BookingStatus.CANCELLED, bk_cancelledAt := Some now,
       bk_cancellationReason := Some (''Payment error: '' @ message error)\<rparr>)) (\<lambda>_.
     await (save_booking E) (\<lambda>_.
     await get_object (\<lambda>savedBooking.
     await (on_world (load_booking E (\<lambda>b. bk_id b = bk_id savedBooking))) (\<lambda>bookingWithItems.
     case bookingWithItems of
       None \<Rightarrow> throw (InternalServerError ''Booking not found after cancellation'')
     | Some (_, items) \<Rightarrow>
         await (on_world (kafka_emit (bookingKafka E) ''booking.cancelled'' (bk_id savedBooking)
           (cancelled_payload savedBooking items))) (\<lambda>_.
         throw (BadRequest (''Payment failed: '' @ message error))))))))"

text \<open>The dash of the message is U+2014, in UTF-8.\<close>

definition hold_verification_failed :: string where
  "hold_verification_failed = ''Hold verification failed '' @ [CHR 0xE2, CHR 0x80, CHR 0x94] @
     '' seats not held by this user''"

definition createBooking ::
  "'w booking_env \<Rightarrow> CreateBookingDto \<Rightarrow> ('w, (Booking \<times> BookingItem list) option) act" where
  "createBooking E dto =
     (let seatIds = map bid_seatId (cb_items dto) in
     await (sic_getSeatsByEvent (seatClient E) (cb_eventId dto)) (\<lambda>seats.
     let selectedSeats = filter (\<lambda>s. sm_seatId s \<in> set seatIds) seats in
     if length selectedSeats \<noteq> length seatIds
     then (let found = map sm_seatId selectedSeats; missing = filter (\<lambda>i. i \<notin> set found) seatIds in
       throw (BadRequest (''Seats '' @ join '', '' missing @ '' not found in inventory'')))
     else
     let notHeld = filter (\<lambda>s. sm_status s \<noteq> ''held'') selectedSeats in
     if length notHeld > 0
     then throw (BadRequest (''Seats '' @ join '', '' (map sm_seatId notHeld) @ '' are not held''))
     else
     await (sic_verifyHold (seatClient E) (cb_eventId dto) seatIds (cb_userId dto)) (\<lambda>verified.
     if \<not> verified then throw (BadRequest hold_verification_failed)
     else
     let totalAmount = total_amount selectedSeats in
     await (persistBooking E dto selectedSeats totalAmount) (\<lambda>saved.
     case saved of
       None \<Rightarrow> throw (InternalServerError ''Booking could not be loaded after persistence'')
     | Some (savedBooking, _) \<Rightarrow>
         await (with_object savedBooking
           (try_catch (settle_payment E dto selectedSeats totalAmount) (cancel_after_error E))) (\<lambda>_.
         load_booking E (\<lambda>b. bk_id b = bk_id savedBooking))))))"

section \<open>Cancelling a booking\<close>

definition refund_money :: "'w booking_env \<Rightarrow> ('w \<times> Booking, Booking exit) act" where
  "refund_money E =
     await get_object (\<lambda>booking.
     await (on_world (pc_refundPayment (paymentClient E) (bk_id booking)
       (or_empty (bk_refundIdempotencyKey booking))
       (if or_empty (bk_cancellationReason booking) = '''' then ''User cancellation''
        else or_empty (bk_cancellationReason booking)))) (\<lambda>reply.
     if \<not> rr_success reply
     then
       await (assign (\<lambda>b. b\<lparr>bk_refundState := Some RefundState.FAILED,
         bk_refundLastError := Some (rr_failureReason reply)\<rparr>)) (\<lambda>_.
       await (save_booking E) (\<lambda>_.
       throw (BadRequest (''Refund failed: '' @ rr_failureReason reply))))
     else
       await (assign (\<lambda>b. b\<lparr>bk_refundState := Some PAYMENT_REFUNDED\<rparr>)) (\<lambda>_.
       await (save_booking E) (\<lambda>_.
       return Continue))))"

definition release_sold :: "'w booking_env \<Rightarrow> string list \<Rightarrow> ('w \<times> Booking, Booking exit) act" where
  "release_sold E seatIds =
     await get_object (\<lambda>booking.
     await (on_world (sic_releaseSoldSeats (seatClient E) (bk_eventId booking) seatIds)) (\<lambda>_.
     await (assign (\<lambda>b. b\<lparr>bk_refundState := Some SEATS_RELEASED\<rparr>)) (\<lambda>_.
     await (save_booking E) (\<lambda>_.
     return Continue))))"

definition refunded_payload :: "Booking \<Rightarrow> BookingItem list \<Rightarrow> json" where
  "refunded_payload booking items =
     JObj (booking_fields booking (bk_eventId booking) @
       [(''items'', JArr (map (\<lambda>item. JObj (attendee_fields item)) items))])"

definition complete_body :: "'w booking_env \<Rightarrow> 'w TicketService \<Rightarrow> BookingItem list \<Rightarrow> ('w \<times> Booking, unit) act" where
  "complete_body E T items =
     await get_object (\<lambda>booking.
     await (on_world (ts_cancelByBooking T (bk_id booking))) (\<lambda>_.
     await (on_world (bookingNow E)) (\<lambda>now.
     await (assign (\<lambda>b. b\<lparr>bk_status := BookingStatus.REFUNDED, bk_cancelledAt := Some now,
       bk_refundState := Some RefundState.COMPLETED\<rparr>)) (\<lambda>_.
     await get_object (\<lambda>booking.
     await (on_world (manager_save (bookingManager E) [booking])) (\<lambda>_.
     await (on_world (manager_insert (outboxManager E)
       [new_outbox (bk_id booking) ''booking.refunded'' (refunded_payload booking items)])) (\<lambda>_.
     on_world (qr_commitTransaction (bookingRunner E)))))))))"

definition complete_refund :: "'w booking_env \<Rightarrow> 'w TicketService \<Rightarrow> BookingItem list \<Rightarrow> ('w \<times> Booking, Booking exit) act" where
  "complete_refund E T items =
     await (transaction on_world (bookingRunner E) (complete_body E T items)) (\<lambda>_.
     await get_object (\<lambda>booking. return (Return booking)))"

text \<open>\<^verbatim>\<open>`...${x}`\<close> of a nullable column.\<close>

definition or_null :: "string option \<Rightarrow> string" where
  "or_null x = (case x of None \<Rightarrow> ''null'' | Some s \<Rightarrow> s)"

definition refund_switch :: "'w booking_env \<Rightarrow> 'w TicketService \<Rightarrow> BookingItem list \<Rightarrow> ('w \<times> Booking, Booking exit) act" where
  "refund_switch E T items =
     await get_object (\<lambda>booking.
     case bk_refundState booking of
       None \<Rightarrow> throw (BadRequest (''Invalid refund state: null''))
     | Some st \<Rightarrow>
        (case st of
           REFUND_INITIATED \<Rightarrow> refund_money E
         | PAYMENT_REFUNDED \<Rightarrow> release_sold E (map bi_seatId items)
         | SEATS_RELEASED \<Rightarrow> complete_refund E T items
         | RefundState.COMPLETED \<Rightarrow> return (Return booking)
         | RefundState.FAILED \<Rightarrow> throw (BadRequest (''Refund failed: '' @ or_null (bk_refundLastError booking)))))"

definition record_failure :: "'w booking_env \<Rightarrow> exn \<Rightarrow> ('w \<times> Booking, Booking exit) act" where
  "record_failure E error =
     await (assign (\<lambda>b. b\<lparr>bk_refundRetryCount := bk_refundRetryCount b + 1,
       bk_refundLastError := Some (message error)\<rparr>)) (\<lambda>_.
     await (save_booking E) (\<lambda>_. throw error))"

definition processRefundStateMachine ::
  "'w booking_env \<Rightarrow> 'w TicketService \<Rightarrow> BookingItem list \<Rightarrow> ('w \<times> Booking, Booking) act" where
  "processRefundStateMachine E T items =
     for_exit [0..<5] (\<lambda>step. try_catch (refund_switch E T items) (record_failure E)) get_object"

definition start_refund :: "'w booking_env \<Rightarrow> string \<Rightarrow> string option \<Rightarrow> ('w \<times> Booking, unit) act" where
  "start_refund E refundIdempotencyKey reason =
     await get_object (\<lambda>booking.
     if bk_refundState booking = None
     then
       await (assign (\<lambda>b. b\<lparr>bk_refundState := Some REFUND_INITIATED,
         bk_refundIdempotencyKey := Some refundIdempotencyKey,
         bk_cancellationReason := Some (if or_empty reason = '''' then ''User cancellation'' else or_empty reason)\<rparr>)) (\<lambda>_.
       save_booking E)
     else return ())"

definition cancelBooking ::
  "'w booking_env \<Rightarrow> 'w TicketService \<Rightarrow> string \<Rightarrow> string \<Rightarrow> string \<Rightarrow> string option \<Rightarrow> ('w, Booking) act" where
  "cancelBooking E T bookingId userId refundIdempotencyKey reason =
     await (load_booking E (\<lambda>b. bk_id b = bookingId)) (\<lambda>found.
     case found of
       None \<Rightarrow> throw (NotFound ''Booking not found'')
     | Some (booking, items) \<Rightarrow>
         if bk_userId booking \<noteq> userId
         then throw (BadRequest ''You are not allowed to cancel this booking'')
         else if bk_status booking \<noteq> BookingStatus.CONFIRMED
         then throw (BadRequest ''Booking is not confirmed and cannot be cancelled'')
         else with_object booking
           (await (start_refund E refundIdempotencyKey reason) (\<lambda>_. processRefundStateMachine E T items)))"

text \<open>\<^verbatim>\<open>BookingController\<close> (booking/booking.controller.ts); \<open>user\<close> is \<^verbatim>\<open>@CurrentUser('id')\<close>.\<close>

definition bookings_create :: "'w booking_env \<Rightarrow> CreateBookingDto \<Rightarrow> string \<Rightarrow> ('w, (Booking \<times> BookingItem list) option) act" where
  "bookings_create E dto user = createBooking E (dto\<lparr>cb_userId := user\<rparr>)"

definition bookings_findMyBookings :: "'w booking_env \<Rightarrow> string \<Rightarrow> ('w, (Booking \<times> BookingItem list) list) act" where
  "bookings_findMyBookings E user = findByUserId E user"

definition bookings_findById :: "'w booking_env \<Rightarrow> string \<Rightarrow> ('w, Booking \<times> BookingItem list) act" where
  "bookings_findById E i = booking_findById E i"

definition bookings_findByUser :: "'w booking_env \<Rightarrow> string \<Rightarrow> ('w, (Booking \<times> BookingItem list) list) act" where
  "bookings_findByUser E userId = findByUserId E userId"

definition bookings_cancel ::
  "'w booking_env \<Rightarrow> 'w TicketService \<Rightarrow> string \<Rightarrow> CancelBookingDto \<Rightarrow> string \<Rightarrow> ('w, Booking) act" where
  "bookings_cancel E T i dto user = cancelBooking E T i user (cc_refundIdempotencyKey dto) (cc_reason dto)"

end
