(* ===== verification/Booking_Create.thy ===== *)
theory Booking_Create
  imports Booking_Orchestrator
begin

text \<open>
  What \<^verbatim>\<open>createBooking\<close> does in every outcome, whatever the peers answer and whichever call fails: the
  contract \<open>create_spec\<close> and its proof along the stages of the method (load, persist, confirm, cancel).
\<close>

section \<open>Well-formed tables\<close>

definition booking_ok :: "'z booking_store_scheme \<Rightarrow> bool" where
  "booking_ok v \<longleftrightarrow> distinct (map bk_id (bookings v)) \<and> unique_numbers (bookings v) \<and>
     distinct (map bi_id (booking_items v)) \<and> distinct (map ob_id (outbox v)) \<and> distinct (map tk_id (tickets v)) \<and>
     (\<forall>i\<in>set (booking_items v). bi_bookingId i \<in> bk_id ` set (bookings v))"

text \<open>The state with one more booking, its items, its outbox entries, messages and calls.\<close>

definition placed ::
  "Booking \<Rightarrow> BookingItem list \<Rightarrow> Outbox list \<Rightarrow> kafka_message list \<Rightarrow> peer_call list \<Rightarrow>
   'z booking_store_scheme \<Rightarrow> 'z booking_store_scheme" where
  "placed b its obs es cs v = v\<lparr>bookings := bookings v @ [b], booking_items := booking_items v @ its,
     outbox := outbox v @ obs, bk_sent := bk_sent v @ es, peer_calls := peer_calls v @ cs\<rparr>"

definition called :: "peer_call list \<Rightarrow> 'z booking_store_scheme \<Rightarrow> 'z booking_store_scheme" where
  "called cs v = v\<lparr>peer_calls := peer_calls v @ cs\<rparr>"

lemma placed_simps [simp]:
  "bookings (placed b its obs es cs v) = bookings v @ [b]" "booking_items (placed b its obs es cs v) = booking_items v @ its"
  "outbox (placed b its obs es cs v) = outbox v @ obs" "tickets (placed b its obs es cs v) = tickets v"
  "bk_sent (placed b its obs es cs v) = bk_sent v @ es" "peer_calls (placed b its obs es cs v) = peer_calls v @ cs"
  "bk_clock (placed b its obs es cs v) = bk_clock v" "bk_calm (placed b its obs es cs v) = bk_calm v"
  "peer_calls_update (\<lambda>l. l @ [c]) (placed b its obs es cs v) = placed b its obs es (cs @ [c]) v"
  "bk_sent_update (\<lambda>l. l @ [m]) (placed b its obs es cs v) = placed b its obs (es @ [m]) cs v"
  "at_rest (placed b its obs es cs v) = placed b its obs es cs (at_rest v)"
  by (simp_all add: placed_def at_rest_def)

lemma called_simps [simp]:
  "bookings (called cs v) = bookings v" "booking_items (called cs v) = booking_items v" "outbox (called cs v) = outbox v"
  "tickets (called cs v) = tickets v" "bk_sent (called cs v) = bk_sent v" "bk_calm (called cs v) = bk_calm v"
  "bk_clock (called cs v) = bk_clock v" "peer_calls (called cs v) = peer_calls v @ cs"
  "at_rest (called cs v) = called cs (at_rest v)" "called [] v = v"
  "peer_calls_update (\<lambda>l. l @ [c]) (called cs v) = called (cs @ [c]) v"
  "placed b its obs es ds (called cs v) = placed b its obs es (cs @ ds) v"
  by (simp_all add: called_def placed_def at_rest_def)

lemma called_one: "peer_calls_update (\<lambda>l. l @ [c]) v = called [c] v"
  by (simp add: called_def)

lemma placed_save:
  "bk_id b' = bk_id b \<Longrightarrow> bk_id b \<notin> bk_id ` set (bookings v) \<Longrightarrow>
     bookings_update (upserts bk_id [b']) (placed b its obs es cs v) = placed b' its obs es cs v"
  using upsert_last [of bk_id b' b "bookings v"] by (simp add: placed_def)

lemma booking_ok_rest [simp]: "booking_ok (at_rest v) = booking_ok v"
  by (simp add: booking_ok_def)

lemma booking_ok_called [simp]: "booking_ok (called cs v) = booking_ok v"
  by (simp add: booking_ok_def)

text \<open>The items of a new booking are the ones it was placed with.\<close>

lemma placed_items:
  assumes "booking_ok v" "bk_id b \<notin> bk_id ` set (bookings v)" "\<forall>i\<in>set its. bi_bookingId i = bk_id b"
  shows "filter (\<lambda>i. bi_bookingId i = bk_id b) (booking_items (placed b its obs es cs v)) = its"
proof -
  have "bi_bookingId i \<noteq> bk_id b" if "i \<in> set (booking_items v)" for i
    using assms(1,2) that by (metis booking_ok_def)
  then show ?thesis
    using assms(3) by (simp add: filter_empty_conv filter_id_conv)
qed

lemma placed_found:
  assumes "bk_id b \<notin> bk_id ` set (bookings v)" "x \<in> set (bookings (placed b its obs es cs v))" "bk_id x = bk_id b"
  shows "x = b"
  using assms by (auto simp: image_iff)

section \<open>Loading and saving\<close>

context booking_world
begin

lemma load_booking_wp:
  assumes "\<And>m w'. vw w' = vw w \<Longrightarrow> \<not> bk_calm (vw w) \<Longrightarrow> Q (Inl (JsError m)) w'"
    and "\<And>w'. vw w' = vw w \<Longrightarrow> \<forall>b\<in>set (bookings (vw w)). \<not> P b \<Longrightarrow> Q (Inr None) w'"
    and "\<And>b its w'. vw w' = vw w \<Longrightarrow> b \<in> set (bookings (vw w)) \<Longrightarrow> P b \<Longrightarrow>
      mset its = mset (filter (\<lambda>i. bi_bookingId i = bk_id b) (booking_items (vw w))) \<Longrightarrow> Q (Inr (Some (b, its))) w'"
  shows "wp (load_booking E P) Q w"
  unfolding load_booking_def wp_await
proof (rule wp_fallible [OF bks.findOne_law], goal_cases)
  case (2 found w1)
  show ?case
  proof (cases found)
    case (Some b)
    then show ?thesis
      using 2 unfolding Some sum.case option.case wp_await
      by (intro wp_fallible [OF bis.find_law]) (auto simp: wp_simps assms(1) intro!: assms(3))
  qed (use 2 in \<open>auto simp: wp_simps intro!: assms(2)\<close>)
qed (use assms(1) in auto)

lemma save_booking_wp:
  assumes "\<And>m w'. vw w' = vw w \<Longrightarrow> \<not> bk_calm (vw w) \<Longrightarrow> Q (Inl (JsError m)) (w', b)"
    and "\<And>w'. vw w' = bookings_update (upserts bk_id [b]) (vw w) \<Longrightarrow> Q (Inr ()) (w', b)"
  shows "wp (save_booking E) Q (w, b)"
  unfolding save_booking_def wp_simps sum.case by (rule wp_fallible [OF bks.save_law]) (auto intro: assms)

text \<open>Loading the booking that was just placed.\<close>

lemma load_placed_wp:
  assumes v: "at_rest (vw w) = placed b its obs es cs V" and ok: "booking_ok V" "bk_id b \<notin> bk_id ` set (bookings V)"
    and its: "\<forall>i\<in>set its. bi_bookingId i = bk_id b"
    and "\<And>m w'. vw w' = vw w \<Longrightarrow> \<not> bk_calm V \<Longrightarrow> Q (Inl (JsError m)) w'"
    and "\<And>its' w'. vw w' = vw w \<Longrightarrow> mset its' = mset its \<Longrightarrow> Q (Inr (Some (b, its'))) w'"
  shows "wp (load_booking E (\<lambda>x. bk_id x = bk_id b)) Q w"
proof -
  have t: "bookings (vw w) = bookings (placed b its obs es cs V)" "bk_calm (vw w) = bk_calm V"
      "booking_items (vw w) = booking_items (placed b its obs es cs V)"
    using v by (metis at_rest_simps(1), metis at_rest_simps(8) placed_simps(8), metis at_rest_simps(2))
  show ?thesis
  proof (rule load_booking_wp)
    fix x xs w'
    assume "vw w' = vw w" "x \<in> set (bookings (vw w))" "bk_id x = bk_id b"
      and xs: "mset xs = mset (filter (\<lambda>i. bi_bookingId i = bk_id x) (booking_items (vw w)))"
    moreover from this have "x = b" using placed_found [OF ok(2)] t by auto
    moreover from this have "mset xs = mset its"
      unfolding xs t(3) by (metis placed_items [OF ok its])
    ultimately show "Q (Inr (Some (x, xs))) w'"
      using assms(6) by simp
  qed (use assms(5) t in auto)
qed

end

section \<open>Persisting\<close>

text \<open>A single row that was inserted.\<close>

lemma created_single:
  assumes "created rid used now [mk] xs"
  obtains i where "xs = [mk i now]" "rid (mk i now) = i" "i \<notin> used"
  using assms unfolding created_def by (auto simp: length_Suc_conv)

lemma new_booking_id [simp]: "bk_id (new_booking E dto number amt currency expiry i now) = i"
  by (simp add: new_booking_def)

text \<open>The rows of a new booking.\<close>

definition item_for :: "'w booking_env \<Rightarrow> string \<Rightarrow> int \<Rightarrow> SeatMessage list \<Rightarrow> BookingItemDto \<Rightarrow> BookingItem \<Rightarrow> bool" where
  "item_for E b now seats item i \<longleftrightarrow> (\<exists>seat\<in>set seats. sm_seatId seat = bid_seatId item \<and>
     i = new_item E b seat item (bi_id i) now)"

definition booked ::
  "'w booking_env \<Rightarrow> CreateBookingDto \<Rightarrow> SeatMessage list \<Rightarrow> 'z booking_store_scheme \<Rightarrow> Booking \<Rightarrow> BookingItem list \<Rightarrow> bool" where
  "booked E dto seats v b its \<longleftrightarrow> bk_id b \<notin> bk_id ` set (bookings v) \<and> seats \<noteq> [] \<and>
     (\<exists>number. b = new_booking E dto number (total_amount seats) (sm_currency (hd seats))
        (bk_clock v + BOOKING_EXPIRY_MS) (bk_id b) (bk_clock v)) \<and>
     unique_numbers (bookings v @ [b]) \<and>
     list_all2 (item_for E (bk_id b) (bk_clock v) seats) (cb_items dto) its \<and>
     distinct (map bi_id its) \<and> bi_id ` set its \<inter> bi_id ` set (booking_items v) = {}"

lemma booked_items: "booked E dto seats v b its \<Longrightarrow> \<forall>i\<in>set its. bi_bookingId i = bk_id b"
  by (auto simp: booked_def item_for_def new_item_def list_all2_conv_all_nth in_set_conv_nth)
    (metis BookingItem.select_convs(2))

definition item_templates :: "'w booking_env \<Rightarrow> string \<Rightarrow> SeatMessage list \<Rightarrow> BookingItemDto list \<Rightarrow> (string \<Rightarrow> int \<Rightarrow> BookingItem) list \<Rightarrow> bool" where
  "item_templates E b seats items mks \<longleftrightarrow>
     list_all2 (\<lambda>item mk. \<exists>seat\<in>set seats. sm_seatId seat = bid_seatId item \<and> mk = new_item E b seat item) items mks"

lemma build_items_wp:
  "wp (build_items E b seats items) (\<lambda>r w'. w' = w \<and>
     (case r of Inl e \<Rightarrow> \<exists>m. e = BadRequest m | Inr mks \<Rightarrow> item_templates E b seats items mks)) w"
proof (induction items)
  case Nil
  then show ?case by (simp add: wp_simps item_templates_def)
next
  case (Cons item items)
  show ?case
  proof (cases "List.find (\<lambda>s. sm_seatId s = bid_seatId item) seats")
    case None
    then show ?thesis by (simp add: wp_simps)
  next
    case (Some seat)
    then have "seat \<in> set seats" "sm_seatId seat = bid_seatId item"
      by (auto simp: find_Some_iff)
    then show ?thesis
      unfolding build_items.simps Some option.case wp_await
      by (intro wp_mono [OF Cons.IH]) (auto simp: wp_simps item_templates_def split: sum.splits)
  qed
qed

lemma item_templates_created:
  assumes "item_templates E b seats items mks" "created bi_id used now mks its"
  shows "list_all2 (item_for E b now seats) items its"
proof (rule list_all2_all_nthI)
  show "length items = length its"
    using assms(1) created_length [OF assms(2)] by (auto simp: item_templates_def dest: list_all2_lengthD)
  fix k assume k: "k < length items"
  then have km: "k < length mks" using assms(1) by (auto simp: item_templates_def dest: list_all2_lengthD)
  then obtain seat where "seat \<in> set seats" "sm_seatId seat = bid_seatId (items ! k)" "mks ! k = new_item E b seat (items ! k)"
    using assms(1) k by (auto simp: item_templates_def dest: list_all2_nthD)
  then show "item_for E b now seats (items ! k) (its ! k)"
    using created_nth [OF assms(2) km] unfolding item_for_def by metis
qed

text \<open>What is known after the transaction that places a booking in the state \<open>V\<close>.\<close>

definition persist_post ::
  "'w booking_env \<Rightarrow> CreateBookingDto \<Rightarrow> SeatMessage list \<Rightarrow> 'z booking_store_scheme \<Rightarrow> exn + string \<Rightarrow> 'z booking_store_scheme \<Rightarrow> bool" where
  "persist_post E dto seats V r v \<longleftrightarrow> (case r of
      Inl e \<Rightarrow> v = V \<or> \<not> bk_calm V \<and> (\<exists>m. e = JsError m) \<and> (\<exists>b its. booked E dto seats V b its \<and> v = placed b its [] [] [] V)
    | Inr i \<Rightarrow> \<exists>b its. booked E dto seats V b its \<and> bk_id b = i \<and> v = placed b its [] [] [] V)"

context booking_world
begin

lemma booking_number_wp:
  "(\<And>number w'. vw w' = vw w \<Longrightarrow> Q (Inr number) w') \<Longrightarrow> wp (generateBookingNumber E) Q w"
  unfolding generateBookingNumber_def wp_await
  by (rule wp_obeys [OF now_law]) (auto simp: wp_simps intro!: wp_obeys [OF uuid_law])

lemma first_currency_wp:
  assumes "\<And>m. seats = [] \<Longrightarrow> Q (Inl (JsError m)) w"
    and "seats \<noteq> [] \<Longrightarrow> Q (Inr (sm_currency (hd seats))) w"
  shows "wp (first_currency seats) Q w"
  using assms by (cases seats) (simp_all add: first_currency_def wp_simps)

text \<open>The rows written in the open transaction become the placed booking.\<close>

lemma persist_commit:
  assumes ok: "booking_ok V" and V: "at_rest V = V" and seats: "seats \<noteq> []"
    and b: "b = new_booking E dto number (total_amount seats) (sm_currency (hd seats)) (bk_clock V + BOOKING_EXPIRY_MS) i (bk_clock V)"
    and new: "i \<notin> bk_id ` set (bookings V)" and u: "unique_numbers (upserts bk_id [b] (bookings V))"
    and its: "created bi_id (bi_id ` set (booking_items V)) (bk_clock V) mks its" "item_templates E (bk_id b) seats (cb_items dto) mks"
  shows "booked E dto seats V b its \<and> at_rest (bk_publish (in_tx [b] its [] V)) = placed b its [] [] [] V"
proof -
  have i: "bk_id b = i" by (simp add: b new_booking_def)
  have ub: "upserts bk_id [b] (bookings V) = bookings V @ [b]"
    using new by (intro upserts_fresh) (auto simp: i)
  have ui: "upserts bi_id its (booking_items V) = booking_items V @ its"
    using created_distinct [OF its(1)] created_fresh [OF its(1)] by (rule upserts_fresh)
  have "at_rest (bk_publish (in_tx [b] its [] V)) = at_rest (placed b its [] [] [] V)"
    unfolding bk_publish_in_tx ub ui placed_def upserts_Nil append_Nil2 by (simp add: at_rest_def)
  moreover have "booked E dto seats V b its"
    unfolding booked_def i
    using new seats b u ub item_templates_created [OF its(2,1)] created_distinct [OF its(1)] created_fresh [OF its(1)]
    by (auto simp: i)
  ultimately show ?thesis by (simp add: V)
qed

lemma persist_body_wp:
  assumes ok: "booking_ok V" and V: "at_rest V = V" and w: "vw w = in_tx [] [] [] V"
  shows "wp (persist_body E dto seats (total_amount seats)) (\<lambda>r w'. case r of
      Inl e \<Rightarrow> at_rest (vw w') = V \<and> bk_tx (vw w')
    | Inr i \<Rightarrow> persist_post E dto seats V (Inr i) (vw w') \<and> at_rest (vw w') = vw w') w"
  unfolding persist_body_def wp_await
proof (rule booking_number_wp, unfold sum.case wp_await, rule first_currency_wp, goal_cases)
  case (1 number w1 m)
  then show ?case by (simp add: w V)
next
  case (2 number w1)
  note seats = 2(2)
  show ?case
    unfolding sum.case wp_await
  proof (rule wp_obeys [OF now_law], goal_cases)
    case (1 r w2)
    then have w2: "vw w2 = in_tx [] [] [] V" and r: "r = Inr (bk_clock V)" using 2 w by auto
    show ?case
      unfolding r sum.case wp_await
    proof (rule wp_fallible [OF txbk.minsert_law], goal_cases)
      case (1 m w3)
      then show ?case by (simp add: w2 V)
    next
      case (2 xs w3)
      then have xs: "created bk_id (bk_id ` set (bookings V)) (bk_clock V)
            [new_booking E dto number (total_amount seats) (sm_currency (hd seats)) (bk_clock V + BOOKING_EXPIRY_MS)] xs"
          and w3: "vw w3 = in_tx xs [] [] V" and u: "unique_numbers (upserts bk_id xs (bookings V))"
        using w2 by auto
      obtain i where b: "xs = [new_booking E dto number (total_amount seats) (sm_currency (hd seats))
          (bk_clock V + BOOKING_EXPIRY_MS) i (bk_clock V)]" and new: "i \<notin> bk_id ` set (bookings V)"
        by (rule created_single [OF xs])
      let ?b = "hd xs"
      have xs1: "xs = [?b]" using b by simp
      show ?case
        unfolding sum.case Let_def wp_await
      proof (rule wp_mono [OF build_items_wp], goal_cases)
        case (1 r w4)
        then have w4: "vw w4 = in_tx [?b] [] [] V" using w3 xs1 by auto
        show ?case
        proof (cases r)
          case (Inl e)
          then show ?thesis using w4 V by simp
        next
          case (Inr mks)
          then have mks: "item_templates E (bk_id ?b) seats (cb_items dto) mks" using 1 by simp
          show ?thesis
            unfolding Inr sum.case wp_await
          proof (rule wp_fallible [OF txbi.minsert_law], goal_cases)
            case (1 m w5)
            then show ?case by (simp add: w4 V)
          next
            case (2 its w5)
            then have its: "created bi_id (bi_id ` set (booking_items V)) (bk_clock V) mks its"
                and w5: "vw w5 = in_tx [?b] its [] V" using w4 by auto
            have done_b: "booked E dto seats V ?b its \<and> at_rest (bk_publish (in_tx [?b] its [] V)) = placed ?b its [] [] [] V"
              using b u xs1 by (intro persist_commit [OF ok V seats _ new _ its mks, where number = number]) auto
            show ?case
              unfolding sum.case wp_await
              by (rule wp_fallible [OF tx.commit_law])
                (use w5 done_b V in \<open>auto simp: wp_simps persist_post_def intro!: exI [of _ ?b] exI [of _ its]\<close>)
          qed
        qed
      qed
    qed
  qed
qed

lemma persist_tx_wp:
  assumes ok: "booking_ok V" and V: "at_rest (vw w) = V"
  shows "wp (transaction (\<lambda>m. m) (bookingRunner E) (persist_body E dto seats (total_amount seats)))
    (\<lambda>r w'. persist_post E dto seats V r (at_rest (vw w'))) w"
proof (rule tx.transaction_wp [OF lifts_id, where At = "\<lambda>v. at_rest v = V" and Tx = "\<lambda>v. at_rest v = V"], goal_cases)
  case (4 w1)
  have "at_rest V = V" using V by (metis at_rest_simps(9))
  moreover have "vw w1 = in_tx [] [] [] V" using 4 V by (simp add: bk_begin_rest)
  ultimately show ?case
    by (rule wp_mono [OF persist_body_wp [OF ok]]) (auto simp: persist_post_def split: sum.splits)
qed (use V in \<open>auto simp: persist_post_def\<close>)

end

section \<open>Confirming\<close>

definition confirmed_booking :: "Booking \<Rightarrow> int \<Rightarrow> Booking" where
  "confirmed_booking b now = b\<lparr>bk_status := BookingStatus.CONFIRMED, bk_confirmedAt := Some now\<rparr>"

definition cancelled_booking :: "Booking \<Rightarrow> int \<Rightarrow> string \<Rightarrow> Booking" where
  "cancelled_booking b now reason = b\<lparr>bk_status := BookingStatus.CANCELLED, bk_cancelledAt := Some now,
     bk_cancellationReason := Some reason\<rparr>"

text \<open>What these do not change.\<close>

definition order :: "Booking \<Rightarrow> Booking" where
  "order b = b\<lparr>bk_status := BookingStatus.PENDING, bk_confirmedAt := None, bk_cancelledAt := None, bk_cancellationReason := None\<rparr>"

lemma order_simps [simp]:
  "order (confirmed_booking b n) = order b" "order (cancelled_booking b n m) = order b"
  by (simp_all add: order_def confirmed_booking_def cancelled_booking_def)

lemma order_id: "order b = order b' \<Longrightarrow> bk_id b = bk_id b'"
  unfolding order_def by (drule arg_cong [of _ _ bk_id]) simp

lemma status_simps [simp]:
  "bk_status (confirmed_booking b n) = BookingStatus.CONFIRMED" "bk_status (cancelled_booking b n m) = BookingStatus.CANCELLED"
  "bk_id (confirmed_booking b n) = bk_id b" "bk_id (cancelled_booking b n m) = bk_id b"
  by (simp_all add: confirmed_booking_def cancelled_booking_def)

text \<open>The two entries a confirmation writes to the outbox.\<close>

definition sold_entry :: "CreateBookingDto \<Rightarrow> Booking \<Rightarrow> int \<Rightarrow> Outbox \<Rightarrow> bool" where
  "sold_entry dto b now o1 \<longleftrightarrow> o1 = new_outbox (bk_id b) ''seats.mark_sold''
     (sold_payload (cb_eventId dto) (cb_userId dto) (map bid_seatId (cb_items dto))) (ob_id o1) now"

definition confirmed_entry :: "CreateBookingDto \<Rightarrow> Booking \<Rightarrow> BookingItem list \<Rightarrow> int \<Rightarrow> Outbox \<Rightarrow> bool" where
  "confirmed_entry dto b its now o2 \<longleftrightarrow> (\<exists>its'. mset its' = mset its \<and>
     o2 = new_outbox (bk_id b) ''booking.confirmed'' (confirmed_payload b (cb_eventId dto) its') (ob_id o2) now)"

definition confirm_entries :: "CreateBookingDto \<Rightarrow> 'z booking_store_scheme \<Rightarrow> Booking \<Rightarrow> BookingItem list \<Rightarrow> Outbox list \<Rightarrow> bool" where
  "confirm_entries dto v b its obs \<longleftrightarrow> (\<exists>o1 o2. obs = [o1, o2] \<and> sold_entry dto b (bk_clock v) o1 \<and>
     confirmed_entry dto b its (bk_clock v) o2 \<and> ob_id o1 \<noteq> ob_id o2 \<and>
     {ob_id o1, ob_id o2} \<inter> ob_id ` set (outbox v) = {})"

lemma new_outbox_id [simp]: "ob_id (new_outbox a t p i n) = i"
  by (simp add: new_outbox_def)

lemma insertable_single: "(\<And>i n. rid (mk i n) = i) \<Longrightarrow> insertable rid used now [mk] (\<lambda>_. True)"
  by (simp add: insertable_def keeps_ids_def)

text \<open>A transaction that was committed with these rows.\<close>

lemma confirm_publish:
  assumes V: "at_rest V = V" and b: "bk_id b \<notin> bk_id ` set (bookings V)" "bk_id b' = bk_id b"
    and o: "confirm_entries dto V b' its obs"
  shows "bk_publish (in_tx [b'] [] obs (placed b its [] es cs V)) = placed b' its obs es cs V"
proof -
  have u: "upserts ob_id obs (outbox V) = outbox V @ obs"
    using o by (intro upserts_fresh) (auto simp: confirm_entries_def)
  have "upserts bk_id [b'] (bookings V @ [b]) = bookings V @ [b']"
    using upsert_last [of bk_id b' b "bookings V"] b by simp
  then have "bk_publish (in_tx [b'] [] obs (placed b its [] es cs V)) = at_rest (placed b' its obs es cs V)"
    using u by (simp add: bk_publish_in_tx placed_def)
  then show ?thesis by (simp add: V)
qed

definition confirm_post ::
  "CreateBookingDto \<Rightarrow> Booking \<Rightarrow> BookingItem list \<Rightarrow> peer_call list \<Rightarrow> 'z booking_store_scheme \<Rightarrow>
   exn + unit \<Rightarrow> 'z booking_store_scheme \<Rightarrow> Booking \<Rightarrow> bool" where
  "confirm_post dto b its cs V r v b' \<longleftrightarrow>
     (let c = confirmed_booking b (bk_clock V) in
      (case r of Inl e \<Rightarrow> \<not> bk_calm V \<and> (\<exists>m. e = JsError m) \<and> b' \<in> {b, c} \<and> v = placed b its [] [] cs V | Inr u \<Rightarrow> False) \<or>
      (case r of Inl e \<Rightarrow> \<not> bk_calm V \<and> (\<exists>m. e = JsError m) | Inr u \<Rightarrow> True) \<and>
        b' = c \<and> (\<exists>obs. confirm_entries dto V c its obs \<and> v = placed c its obs [] cs V))"

context booking_world
begin

lemma confirm_body_wp:
  assumes ok: "booking_ok V" and V: "at_rest V = V"
    and b: "bk_id b \<notin> bk_id ` set (bookings V)" "\<forall>i\<in>set its. bi_bookingId i = bk_id b"
    and w: "vw w = in_tx [] [] [] (placed b its [] [] cs V)"
    and S: "S = placed b its [] [] cs V" and c: "c = confirmed_booking b (bk_clock V)"
  shows "wp (confirm_body E (cb_eventId dto) (cb_userId dto) (map bid_seatId (cb_items dto))) (\<lambda>r (w', b'). b' \<in> {b, c} \<and> (case r of
      Inl e \<Rightarrow> at_rest (vw w') = S \<and> bk_tx (vw w') \<and> \<not> bk_calm V \<and> (\<exists>m. e = JsError m)
    | Inr u \<Rightarrow> b' = c \<and> (\<exists>obs. confirm_entries dto V c its obs \<and> vw w' = placed c its obs [] cs V))) (w, b)"
  unfolding confirm_body_def wp_await wp_on_world
proof (rule wp_obeys [OF now_law], goal_cases)
  case (1 r w1)
  then have w1: "vw w1 = in_tx [] [] [] S" and r: "r = Inr (bk_clock V)" using w S by auto
  have cid: "bk_id c = bk_id b" by (simp add: c)
  show ?case
    unfolding r sum.case wp_await wp_assign wp_get_object wp_on_world confirmed_booking_def [symmetric] c [symmetric]
  proof (rule wp_fallible [OF txbk.msave_law], goal_cases)
    case (1 m w2)
    then show ?case by (simp add: w1 S V)
  next
    case (2 u w2)
    then have w2: "vw w2 = in_tx [c] [] [] S" using w1 by simp
    have rest2: "at_rest (vw w2) = placed b its [] [] cs V" by (simp add: w2 S V)
    show ?case
      unfolding sum.case wp_await wp_on_world cid
    proof (rule load_placed_wp [OF rest2 ok b], goal_cases)
      case (1 m w3)
      then show ?case by (simp add: w2 S V)
    next
      case (2 its' w3)
      then have w3: "vw w3 = in_tx [c] [] [] S" and its': "mset its' = mset its" using w2 by auto
      show ?case
        unfolding sum.case option.case prod.case wp_await wp_on_world
      proof (rule wp_fallible [OF txob.minsert_law], goal_cases)
        case (1 m w4)
        then show ?case
          using insertable_single [of ob_id "new_outbox _ _ _"] by (simp add: w3 S V)
      next
        case (2 os w4)
        then have os: "created ob_id (ob_id ` set (outbox V)) (bk_clock V)
              [new_outbox (bk_id c) ''seats.mark_sold'' (sold_payload (cb_eventId dto) (cb_userId dto) (map bid_seatId (cb_items dto)))] os"
            and w4: "vw w4 = in_tx [c] [] os S" using w3 by (auto simp: S cid)
        obtain i where o1: "os = [new_outbox (bk_id c) ''seats.mark_sold''
            (sold_payload (cb_eventId dto) (cb_userId dto) (map bid_seatId (cb_items dto))) i (bk_clock V)]" "i \<notin> ob_id ` set (outbox V)"
          by (rule created_single [OF os])
        show ?case
          unfolding sum.case wp_await wp_on_world
        proof (rule wp_fallible [OF txob.minsert_law], goal_cases)
          case (1 m w5)
          then show ?case
            using insertable_single [of ob_id "new_outbox _ _ _"] by (simp add: w4 S V)
        next
          case (2 ps w5)
          then have ps: "created ob_id (ob_id ` set (outbox V) \<union> {i}) (bk_clock V)
                [new_outbox (bk_id c) ''booking.confirmed'' (confirmed_payload c (cb_eventId dto) its')] ps"
              and w5: "vw w5 = in_tx [c] [] (os @ ps) S" using w4 o1 by (auto simp: S cid)
          obtain j where o2: "ps = [new_outbox (bk_id c) ''booking.confirmed'' (confirmed_payload c (cb_eventId dto) its') j (bk_clock V)]"
              "j \<notin> ob_id ` set (outbox V)" "i \<noteq> j"
            by (rule created_single [OF ps]) auto
          have entries: "confirm_entries dto V c its (os @ ps)"
            unfolding confirm_entries_def sold_entry_def confirmed_entry_def
            using o1 o2 its' by auto
          show ?case
            unfolding sum.case wp_on_world
          proof (rule wp_fallible [OF tx.commit_law], goal_cases)
            case (1 m w6)
            then show ?case by (simp add: w5 S V)
          next
            case (2 u w6)
            then have "vw w6 = placed c its (os @ ps) [] cs V"
              using confirm_publish [OF V b(1) cid entries] w5 S by simp
            then show ?case using entries by auto
          qed
        qed
      qed
    qed
  qed
qed

lemma confirm_wp:
  assumes ok: "booking_ok V" and V: "at_rest V = V"
    and b: "bk_id b \<notin> bk_id ` set (bookings V)" "\<forall>i\<in>set its. bi_bookingId i = bk_id b"
    and w: "at_rest (vw w) = placed b its [] [] cs V"
  shows "wp (confirmBookingWithOutbox E (cb_eventId dto) (cb_userId dto) (map bid_seatId (cb_items dto)))
    (\<lambda>r (w', b'). confirm_post dto b its cs V r (at_rest (vw w')) b') (w, b)"
  unfolding confirmBookingWithOutbox_def
proof (rule tx.transaction_wp [OF lifts_on_world,
      where At = "\<lambda>v. at_rest v = placed b its [] [] cs V" and Tx = "\<lambda>v. at_rest v = placed b its [] [] cs V"], goal_cases)
  case (3 m w1)
  then have "\<not> bk_calm V" by (metis at_rest_simps(8) placed_simps(8))
  then show ?case using 3 by (auto simp: confirm_post_def Let_def)
next
  case (4 w1)
  then have w1: "vw w1 = in_tx [] [] [] (placed b its [] [] cs V)" using w by (simp add: bk_begin_rest)
  show ?case
    unfolding snd_conv
    by (rule wp_mono [OF confirm_body_wp [OF ok V b w1 refl refl]])
      (auto simp: confirm_post_def Let_def V split: sum.splits)
qed (use w V in auto)

end

section \<open>Paying and settling\<close>

text \<open>The calls after the booking was placed: the payment, and the release of the seats when it did not succeed.\<close>

definition paid :: "peer_call list \<Rightarrow> bool" where
  "paid cs \<longleftrightarrow> (\<exists>req p. cs = [InitiatePayment req (Inr (Some p))] \<and> pi_status p = ''succeeded'')"

definition declined :: "CreateBookingDto \<Rightarrow> peer_call list \<Rightarrow> bool" where
  "declined dto cs \<longleftrightarrow> (\<exists>req p a. pi_status p \<noteq> ''succeeded'' \<and> cs = [InitiatePayment req (Inr (Some p)),
     ReleaseSeats (cb_eventId dto) (map bid_seatId (cb_items dto)) (cb_userId dto) PAYMENT_FAILED (Inr a)])"

text \<open>
  The calls of a booking that fails while the database is up: the payment call threw or was answered without a
  payment; or the payment was declined, and then the call that releases the seats threw.
\<close>

definition unsettled :: "CreateBookingDto \<Rightarrow> InitiatePaymentDto \<Rightarrow> peer_call list \<Rightarrow> bool" where
  "unsettled dto req cs \<longleftrightarrow> (\<exists>x. cs = [InitiatePayment req (Inl x)]) \<or> cs = [InitiatePayment req (Inr None)] \<or>
     (\<exists>p x. pi_status p \<noteq> ''succeeded'' \<and> cs = [InitiatePayment req (Inr (Some p)),
        ReleaseSeats (cb_eventId dto) (map bid_seatId (cb_items dto)) (cb_userId dto) PAYMENT_FAILED (Inl x)])"

lemma unsettled_not_paid: "unsettled dto req cs \<Longrightarrow> \<not> paid cs"
  by (auto simp: unsettled_def paid_def)

text \<open>Only this payment was asked for, and when it succeeded nothing was called after it.\<close>

definition asked_for :: "InitiatePaymentDto \<Rightarrow> peer_call list \<Rightarrow> bool" where
  "asked_for req cs \<longleftrightarrow> (\<forall>q r. InitiatePayment q r \<in> set cs \<longrightarrow> q = req \<and>
     (\<forall>p. r = Inr (Some p) \<longrightarrow> pi_status p = ''succeeded'' \<longrightarrow> cs = [InitiatePayment q r]))"

text \<open>
  The booking \<open>b0\<close> was settled: it is confirmed, with its two outbox entries and only after a payment that
  succeeded, or it is not, without entries.
\<close>

definition consistent ::
  "CreateBookingDto \<Rightarrow> 'z booking_store_scheme \<Rightarrow> Booking \<Rightarrow> BookingItem list \<Rightarrow> peer_call list \<Rightarrow> Booking \<Rightarrow> Outbox list \<Rightarrow> bool" where
  "consistent dto V b0 its cs b obs \<longleftrightarrow> order b = order b0 \<and>
     (obs = [] \<or> paid cs \<and> confirm_entries dto V (confirmed_booking b0 (bk_clock V)) its obs) \<and>
     (bk_status b = BookingStatus.CONFIRMED \<longrightarrow> obs \<noteq> [] \<and> b = confirmed_booking b0 (bk_clock V)) \<and>
     (bk_status b = BookingStatus.CANCELLED \<longrightarrow> bk_calm V \<longrightarrow> obs = [] \<and> \<not> paid cs) \<and>
     (bk_status b = BookingStatus.PENDING \<longrightarrow> obs = []) \<and> bk_status b \<noteq> BookingStatus.REFUNDED"

definition settle_post ::
  "CreateBookingDto \<Rightarrow> InitiatePaymentDto \<Rightarrow> 'z booking_store_scheme \<Rightarrow> Booking \<Rightarrow> BookingItem list \<Rightarrow> peer_call list \<Rightarrow>
   exn + unit \<Rightarrow> 'z booking_store_scheme \<Rightarrow> Booking \<Rightarrow> bool" where
  "settle_post dto req V b0 its cs0 r v b' \<longleftrightarrow> order b' = order b0 \<and>
     (\<exists>b obs cs. consistent dto V b0 its cs b obs \<and> asked_for req cs \<and> v = placed b its obs [] (cs0 @ cs) V \<and>
       (case r of
          Inl e \<Rightarrow> bk_calm V \<longrightarrow> obs = [] \<and> unsettled dto req cs
        | Inr u \<Rightarrow> bk_status b = BookingStatus.CONFIRMED \<or> bk_status b = BookingStatus.CANCELLED \<and> obs = [] \<and> declined dto cs))"

definition create_post ::
  "CreateBookingDto \<Rightarrow> InitiatePaymentDto \<Rightarrow> 'z booking_store_scheme \<Rightarrow> Booking \<Rightarrow> BookingItem list \<Rightarrow> peer_call list \<Rightarrow>
   exn + unit \<Rightarrow> 'z booking_store_scheme \<Rightarrow> bool" where
  "create_post dto req V b0 its cs0 r v \<longleftrightarrow>
     (\<exists>b obs es cs. consistent dto V b0 its cs b obs \<and> asked_for req cs \<and> v = placed b its obs es (cs0 @ cs) V \<and>
       (case r of
          Inl e \<Rightarrow> bk_calm V \<longrightarrow> bk_status b = BookingStatus.CANCELLED \<and> (\<exists>m. e = BadRequest m) \<and> unsettled dto req cs \<and>
            (\<exists>its'. mset its' = mset its \<and> es = [(''booking.cancelled'', bk_id b, cancelled_payload b its')])
        | Inr u \<Rightarrow> es = [] \<and> (bk_status b = BookingStatus.CONFIRMED \<or>
            bk_status b = BookingStatus.CANCELLED \<and> obs = [] \<and> declined dto cs)))"

lemma create_post_error:
  assumes "consistent dto V b0 its cs b obs" "asked_for req cs" "bk_status b = BookingStatus.CANCELLED" "mset its' = mset its"
    and "v = placed b its obs [(''booking.cancelled'', bk_id b, cancelled_payload b its')] (cs0 @ cs) V"
    and "bk_calm V \<Longrightarrow> unsettled dto req cs"
  shows "create_post dto req V b0 its cs0 (Inl (BadRequest m)) v"
  unfolding create_post_def sum.case using assms by blast

lemma consistent_start: "bk_status b0 = BookingStatus.PENDING \<Longrightarrow> consistent dto V b0 its cs b0 []"
  by (simp add: consistent_def)

lemma consistent_cancel:
  assumes "order b = order b0" "obs = [] \<or> paid cs \<and> confirm_entries dto V (confirmed_booking b0 (bk_clock V)) its obs"
    and "bk_calm V \<Longrightarrow> obs = [] \<and> \<not> paid cs"
  shows "consistent dto V b0 its cs (cancelled_booking b n m) obs"
  using assms by (auto simp: consistent_def)

lemma confirmed_is_consistent:
  assumes "paid cs" "confirm_entries dto V (confirmed_booking b0 (bk_clock V)) its obs"
  shows "consistent dto V b0 its cs (confirmed_booking b0 (bk_clock V)) obs"
  using assms by (auto simp: consistent_def confirm_entries_def)

lemma settle_postI:
  assumes "order b' = order b0" "consistent dto V b0 its cs b obs" "asked_for req cs" "v = placed b its obs [] (cs0 @ cs) V"
    and "case r of Inl e \<Rightarrow> bk_calm V \<longrightarrow> obs = [] \<and> unsettled dto req cs
      | Inr u \<Rightarrow> bk_status b = BookingStatus.CONFIRMED \<or> bk_status b = BookingStatus.CANCELLED \<and> obs = [] \<and> declined dto cs"
  shows "settle_post dto req V b0 its cs0 r v b'"
  unfolding settle_post_def using assms by blast

lemma confirm_settles:
  assumes "confirm_post dto b0 its (cs0 @ cs) V r v b'" "paid cs" "asked_for req cs" "bk_status b0 = BookingStatus.PENDING"
  shows "settle_post dto req V b0 its cs0 r v b'"
  using assms(1) unfolding confirm_post_def Let_def
proof (elim disjE conjE exE)
  assume "case r of Inl e \<Rightarrow> \<not> bk_calm V \<and> (\<exists>m. e = JsError m) \<and> b' \<in> {b0, confirmed_booking b0 (bk_clock V)} \<and>
      v = placed b0 its [] [] (cs0 @ cs) V | Inr u \<Rightarrow> False"
  then show ?thesis
    by (intro settle_postI [OF _ consistent_start [OF assms(4)] assms(3)]) (auto split: sum.splits)
next
  fix obs
  assume "case r of Inl e \<Rightarrow> \<not> bk_calm V \<and> (\<exists>m. e = JsError m) | Inr u \<Rightarrow> True" "b' = confirmed_booking b0 (bk_clock V)"
    and e: "confirm_entries dto V (confirmed_booking b0 (bk_clock V)) its obs"
    and "v = placed (confirmed_booking b0 (bk_clock V)) its obs [] (cs0 @ cs) V"
  then show ?thesis
    by (intro settle_postI [OF _ confirmed_is_consistent [OF assms(2) e] assms(3)]) (auto split: sum.splits)
qed

context booking_world
begin

lemma cancel_after_error_wp:
  assumes ok: "booking_ok V" and b: "bk_id b0 \<notin> bk_id ` set (bookings V)" "\<forall>i\<in>set its. bi_bookingId i = bk_id b0"
    and pend: "settle_post dto req V b0 its cs0 (Inl e) (at_rest (vw w)) b'"
  shows "wp (cancel_after_error E e) (\<lambda>r (w', b'). create_post dto req V b0 its cs0 r (at_rest (vw w'))) (w, b')"
proof -
  obtain b obs cs where con: "consistent dto V b0 its cs b obs" and ask: "asked_for req cs"
    and w: "at_rest (vw w) = placed b its obs [] (cs0 @ cs) V" and calm: "bk_calm V \<Longrightarrow> obs = [] \<and> unsettled dto req cs"
    and b': "order b' = order b0"
    using pend unfolding settle_post_def by auto
  let ?x = "cancelled_booking b' (bk_clock V) (''Payment error: '' @ message e)"
  have ids: "bk_id ?x = bk_id b0" "bk_id b = bk_id b0"
    using order_id [OF b'] con by (auto simp: consistent_def dest: order_id)
  have conx: "consistent dto V b0 its cs ?x obs"
    using con calm b' unsettled_not_paid [of dto req cs] by (intro consistent_cancel) (auto simp: consistent_def)
  have cl: "bk_clock (vw w) = bk_clock V" "bk_calm (vw w) = bk_calm V"
    using w by (metis at_rest_simps(7) placed_simps(7), metis at_rest_simps(8) placed_simps(8))
  have down: "create_post dto req V b0 its cs0 (Inl e') v"
    if "v = placed y its obs es (cs0 @ cs) V" "consistent dto V b0 its cs y obs" "\<not> bk_calm V" for y e' v es
    using that ask unfolding create_post_def by auto
  show ?thesis
    unfolding cancel_after_error_def wp_await wp_on_world
  proof (rule wp_obeys [OF now_law], goal_cases)
    case (1 r w1)
    then have w1: "vw w1 = vw w" and r: "r = Inr (bk_clock V)" using cl by auto
    show ?case
      unfolding r sum.case wp_await wp_assign cancelled_booking_def [symmetric]
    proof (rule save_booking_wp, goal_cases)
      case (1 m w2)
      then show ?case using down [OF _ con] w1 w cl by simp
    next
      case (2 w2)
      then have w2: "at_rest (vw w2) = placed ?x its obs [] (cs0 @ cs) V"
        using w1 w placed_save [of ?x b V] ids b(1) by simp
      show ?case
        unfolding sum.case wp_await wp_get_object wp_on_world
      proof (rule load_placed_wp [OF w2 ok], goal_cases)
        case (3 m w3)
        then show ?case using down [OF _ conx] w2 by simp
      next
        case (4 its' w3)
        then have w3: "at_rest (vw w3) = placed ?x its obs [] (cs0 @ cs) V" using w2 by simp
        show ?case
          unfolding sum.case option.case prod.case wp_await wp_on_world
          by (rule wp_obeys [OF emit_law])
            (use w3 4(2) calm in \<open>auto simp: wp_simps simp del: append_Cons intro!: create_post_error [OF conx ask]\<close>)
      qed (use b ids in auto)
    qed
  qed
qed

lemma settle_payment_wp:
  assumes ok: "booking_ok V" and V: "at_rest V = V"
    and b: "bk_id b0 \<notin> bk_id ` set (bookings V)" "\<forall>i\<in>set its. bi_bookingId i = bk_id b0" "bk_status b0 = BookingStatus.PENDING"
    and seats: "seats \<noteq> []"
    and w: "at_rest (vw w) = placed b0 its [] [] cs0 V"
    and req: "req = payment_request dto (bk_id b0) amt (sm_currency (hd seats))"
  shows "wp (settle_payment E dto seats amt) (\<lambda>r (w', b'). settle_post dto req V b0 its cs0 r (at_rest (vw w')) b') (w, b0)"
proof -
  have start: "settle_post dto req V b0 its cs0 (Inl e) (placed b0 its [] [] (cs0 @ cs) V) b0"
    if "unsettled dto req cs \<or> \<not> bk_calm V" "asked_for req cs" for e cs
    unfolding settle_post_def using consistent_start [OF b(3)] that
    by (intro conjI refl exI [of _ b0] exI [of _ "[]"] exI [of _ cs]) auto
  show ?thesis
    unfolding settle_payment_def Let_def wp_await wp_get_object wp_on_world sum.case prod.case
  proof (rule first_currency_wp, goal_cases)
    case 2
    show ?case
      unfolding sum.case wp_await wp_on_world req [symmetric]
    proof (rule wp_obeys [OF pay_call], goal_cases)
      case (1 rep w1)
      let ?cs = "[InitiatePayment req rep]"
      have w1: "at_rest (vw w1) = placed b0 its [] [] (cs0 @ ?cs) V" using 1 w by simp
      have ask: "asked_for req ?cs" by (simp add: asked_for_def)
      consider (err) e where "rep = Inl e" | (none) "rep = Inr None"
        | (yes) p where "rep = Inr (Some p)" "pi_status p = ''succeeded''"
        | (no) p where "rep = Inr (Some p)" "pi_status p \<noteq> ''succeeded''"
        by (metis option.exhaust sum.exhaust)
      then show ?case
      proof cases
        case err
        then show ?thesis using start [OF _ ask] w1 by (simp add: unsettled_def)
      next
        case none
        then show ?thesis using start [OF _ ask] w1 by (simp add: unsettled_def wp_simps)
      next
        case yes
        have p: "paid ?cs" using yes by (simp add: paid_def)
        show ?thesis
          unfolding yes(1) sum.case option.case if_P [OF yes(2)]
          by (rule wp_mono [OF confirm_wp [OF ok V b(1,2) w1]]) (auto intro: confirm_settles [OF _ p ask b(3)])
      next
        case no
        let ?why = "if pi_failureReason p = '''' then ''Payment failed'' else pi_failureReason p"
        let ?x = "cancelled_booking b0 (bk_clock V) ?why"
        have np: "\<not> paid (InitiatePayment req (Inr (Some p)) # cs)" for cs using no by (auto simp: paid_def)
        have cl: "bk_clock (vw w1) = bk_clock V" using w1 by (metis at_rest_simps(7) placed_simps(7))
        have con: "consistent dto V b0 its cs ?x []" if "\<not> paid cs" for cs
          using that by (intro consistent_cancel) auto
        show ?thesis
          unfolding no(1) sum.case option.case if_not_P [OF no(2)] wp_await wp_on_world
        proof (rule wp_obeys [OF now_law], goal_cases)
          case (1 r w2)
          then have w2: "at_rest (vw w2) = placed b0 its [] [] (cs0 @ ?cs) V" and r: "r = Inr (bk_clock V)" using w1 cl by auto
          show ?case
            unfolding r sum.case wp_await wp_assign cancelled_booking_def [symmetric]
          proof (rule save_booking_wp, goal_cases)
            case (1 m w3)
            then have down: "\<not> bk_calm V" using w2 by (metis at_rest_simps(8) placed_simps(8))
            from 1 show ?case
              using start [of ?cs] ask w2 no down by (simp add: settle_post_def)
          next
            case (2 w3)
            then have w3: "at_rest (vw w3) = placed ?x its [] [] (cs0 @ ?cs) V"
              using w2 placed_save [of ?x b0 V] b(1) by simp
            show ?case
              unfolding sum.case wp_await wp_on_world
            proof (rule wp_obeys [OF release_call], goal_cases)
              case (1 a w4)
              let ?cs2 = "[InitiatePayment req (Inr (Some p)),
                ReleaseSeats (cb_eventId dto) (map bid_seatId (cb_items dto)) (cb_userId dto) PAYMENT_FAILED a]"
              have w4: "at_rest (vw w4) = placed ?x its [] [] (cs0 @ ?cs2) V" using 1 w3 no by simp
              have "asked_for req ?cs2" using no by (simp add: asked_for_def)
              then show ?case
                using w4 con [of ?cs2] np no
                by (auto simp: wp_simps settle_post_def declined_def unsettled_def split: sum.splits
                    intro!: exI [of _ ?x] exI [of _ "[]"] exI [of _ ?cs2])
            qed
          qed
        qed
      qed
    qed
  qed (use seats in simp)
qed

end

section \<open>The contract of createBooking\<close>

definition no_payment :: "peer_call list \<Rightarrow> bool" where
  "no_payment cs \<longleftrightarrow> (\<forall>q r. InitiatePayment q r \<notin> set cs)"

text \<open>The seats of the request among those the inventory answered, all held.\<close>

definition selected :: "CreateBookingDto \<Rightarrow> SeatMessage list \<Rightarrow> SeatMessage list" where
  "selected dto answer = filter (\<lambda>s. sm_seatId s \<in> set (map bid_seatId (cb_items dto))) answer"

definition held_seats :: "CreateBookingDto \<Rightarrow> SeatMessage list \<Rightarrow> bool" where
  "held_seats dto answer \<longleftrightarrow> length (selected dto answer) = length (cb_items dto) \<and>
     (\<forall>s\<in>set (selected dto answer). sm_status s = ''held'')"

definition checks :: "CreateBookingDto \<Rightarrow> SeatMessage list \<Rightarrow> peer_call list" where
  "checks dto answer = [GetSeatsByEvent (cb_eventId dto) (Inr answer),
     VerifyHold (cb_eventId dto) (map bid_seatId (cb_items dto)) (cb_userId dto) (Inr True)]"

definition create_done ::
  "CreateBookingDto \<Rightarrow> InitiatePaymentDto \<Rightarrow> 'z booking_store_scheme \<Rightarrow> Booking \<Rightarrow> BookingItem list \<Rightarrow> peer_call list \<Rightarrow>
   exn + (Booking \<times> BookingItem list) option \<Rightarrow> 'z booking_store_scheme \<Rightarrow> bool" where
  "create_done dto req V b0 its cs0 r v \<longleftrightarrow>
     (\<exists>b obs es cs. consistent dto V b0 its cs b obs \<and> asked_for req cs \<and> v = placed b its obs es (cs0 @ cs) V \<and>
       (case r of
          Inl e \<Rightarrow> bk_calm V \<longrightarrow> bk_status b = BookingStatus.CANCELLED \<and> (\<exists>m. e = BadRequest m) \<and> unsettled dto req cs \<and>
            (\<exists>its'. mset its' = mset its \<and> es = [(''booking.cancelled'', bk_id b, cancelled_payload b its')])
        | Inr x \<Rightarrow> es = [] \<and> (\<exists>its'. x = Some (b, its') \<and> mset its' = mset its) \<and>
            (bk_status b = BookingStatus.CONFIRMED \<or> bk_status b = BookingStatus.CANCELLED \<and> obs = [] \<and> declined dto cs)))"

text \<open>
  Either nothing happened but questions to the peers, and the request is refused; or a booking was placed
  for seats that are held and verified, and it was settled.
\<close>

definition create_spec ::
  "'w booking_env \<Rightarrow> CreateBookingDto \<Rightarrow> 'z booking_store_scheme \<Rightarrow> exn + (Booking \<times> BookingItem list) option \<Rightarrow>
   'z booking_store_scheme \<Rightarrow> bool" where
  "create_spec E dto V r v \<longleftrightarrow>
     (\<exists>cs e. r = Inl e \<and> no_payment cs \<and> v = called cs V) \<or>
     (\<exists>answer b0 its. held_seats dto answer \<and> booked E dto (selected dto answer) V b0 its \<and>
        create_done dto (payment_request dto (bk_id b0) (total_amount (selected dto answer))
          (sm_currency (hd (selected dto answer)))) V b0 its (checks dto answer) r v)"

lemma booked_pending: "booked E dto seats V b its \<Longrightarrow> bk_status b = BookingStatus.PENDING"
  by (auto simp: booked_def new_booking_def) (metis Booking.select_convs(5))

lemma booked_called [simp]: "booked E dto seats (called cs V) b its = booked E dto seats V b its"
  by (simp add: booked_def)

lemma consistent_called: "consistent dto (called cs0 V) b0 its cs b obs = consistent dto V b0 its cs b obs"
  by (simp add: consistent_def confirm_entries_def)

lemma create_done_called:
  "create_done dto req (called cs V) b0 its [] r v = create_done dto req V b0 its cs r v"
  unfolding create_done_def called_simps append_Nil consistent_called by (rule refl)

lemma create_crash:
  assumes "bk_status b0 = BookingStatus.PENDING" "\<not> bk_calm V"
  shows "create_done dto req V b0 its cs0 (Inl e) (placed b0 its [] [] cs0 V)"
  unfolding create_done_def using assms consistent_start [OF assms(1), of dto V its "[]"]
  by (intro exI [of _ b0] exI [of _ "[]"]) (auto simp: asked_for_def)

context booking_world
begin

text \<open>After the booking was placed.\<close>

lemma create_settle_wp:
  assumes ok: "booking_ok V" and V: "at_rest V = V" and bk: "booked E dto seats V b0 its"
    and w: "at_rest (vw w) = placed b0 its [] [] cs0 V"
    and req: "req = payment_request dto (bk_id b0) amt (sm_currency (hd seats))"
  shows "wp (await (with_object b0 (try_catch (settle_payment E dto seats amt) (cancel_after_error E))) (\<lambda>_.
      load_booking E (\<lambda>b. bk_id b = bk_id b0)))
    (\<lambda>r w'. create_done dto req V b0 its cs0 r (at_rest (vw w'))) w"
proof -
  note b = bk [unfolded booked_def, THEN conjunct1] booked_items [OF bk] booked_pending [OF bk]
  have seats: "seats \<noteq> []" using bk by (simp add: booked_def)
  have "wp (try_catch (settle_payment E dto seats amt) (cancel_after_error E))
      (\<lambda>r (w', b'). create_post dto req V b0 its cs0 r (at_rest (vw w'))) (w, b0)"
    unfolding wp_try_catch
  proof (rule wp_mono [OF settle_payment_wp [OF ok V b seats w req]], goal_cases)
    case (1 r x)
    obtain w1 b1 where x: "x = (w1, b1)" by fastforce
    show ?case
    proof (cases r)
      case (Inl e)
      then show ?thesis
        using 1(2) unfolding x Inl sum.case prod.case by (intro cancel_after_error_wp [OF ok b(1,2)])
    next
      case (Inr u)
      then show ?thesis
        using 1(2) unfolding x Inr sum.case prod.case settle_post_def create_post_def by blast
    qed
  qed
  then show ?thesis
    unfolding wp_await wp_with_object
  proof (rule wp_mono, goal_cases)
    case (1 r x)
    obtain w1 b1 where x: "x = (w1, b1)" by fastforce
    obtain b2 obs es cs where con: "consistent dto V b0 its cs b2 obs" and ask: "asked_for req cs"
        and w1: "at_rest (vw w1) = placed b2 its obs es (cs0 @ cs) V"
      using 1(2) unfolding x prod.case create_post_def by blast
    have id2: "bk_id b2 = bk_id b0" using con by (auto simp: consistent_def dest: order_id)
    show ?case
    proof (cases r)
      case (Inl e)
      then show ?thesis
        using 1(2) unfolding x Inl sum.case prod.case create_post_def create_done_def by blast
    next
      case (Inr u)
      obtain b3 obs es cs where con: "consistent dto V b0 its cs b3 obs" and ask: "asked_for req cs"
          and w1: "at_rest (vw w1) = placed b3 its obs es (cs0 @ cs) V"
          and fin: "es = [] \<and> (bk_status b3 = BookingStatus.CONFIRMED \<or>
            bk_status b3 = BookingStatus.CANCELLED \<and> obs = [] \<and> declined dto cs)"
        using 1(2) unfolding x Inr sum.case prod.case create_post_def by blast
      have id3: "bk_id b3 = bk_id b0" using con by (auto simp: consistent_def dest: order_id)
      show ?thesis
        unfolding x Inr sum.case prod.case id3 [symmetric]
      proof (rule load_placed_wp [OF w1 ok], goal_cases)
        case (3 m w2)
        then show ?case using con ask w1 unfolding create_done_def sum.case by (metis at_rest_simps(8))
      next
        case (4 its' w2)
        then show ?case using con ask w1 fin unfolding create_done_def sum.case by metis
      qed (use b id3 in auto)
    qed
  qed
qed

lemma persist_create_wp:
  assumes ok: "booking_ok V" and V: "at_rest V = V" and w: "at_rest (vw w) = called (checks dto answer) V"
    and held: "held_seats dto answer" and seats: "seats = selected dto answer"
  shows "wp (await (persistBooking E dto seats (total_amount seats)) (\<lambda>saved.
     case saved of
       None \<Rightarrow> throw (InternalServerError ''Booking could not be loaded after persistence'')
     | Some (savedBooking, _) \<Rightarrow>
         await (with_object savedBooking
           (try_catch (settle_payment E dto seats (total_amount seats)) (cancel_after_error E))) (\<lambda>_.
         load_booking E (\<lambda>b. bk_id b = bk_id savedBooking)))) (\<lambda>r w'. create_spec E dto V r (at_rest (vw w'))) w"
proof -
  let ?V = "called (checks dto answer) V"
  let ?req = "\<lambda>b0. payment_request dto (bk_id b0) (total_amount seats) (sm_currency (hd seats))"
  have ok': "booking_ok ?V" "at_rest ?V = ?V" using ok V by simp_all
  have spec: "create_spec E dto V r v"
    if "booked E dto seats ?V b0 its" "create_done dto (?req b0) ?V b0 its [] r v" for b0 its r v
    unfolding create_spec_def using that held seats by (auto simp: create_done_called)
  have none: "no_payment (checks dto answer)" by (simp add: no_payment_def checks_def)
  show ?thesis
    unfolding persistBooking_def wp_await
  proof (rule wp_mono [OF persist_tx_wp [OF ok'(1) w]], goal_cases)
    case (1 r w1)
    show ?case
    proof (cases r)
      case (Inl e)
      from 1(2) consider "at_rest (vw w1) = ?V"
        | b0 its where "\<not> bk_calm ?V" "booked E dto seats ?V b0 its" "at_rest (vw w1) = placed b0 its [] [] [] ?V"
        unfolding Inl sum.case persist_post_def by blast
      then show ?thesis
      proof cases
        case 1
        then show ?thesis unfolding Inl sum.case using none by (auto simp: create_spec_def)
      next
        case 2
        show ?thesis
          unfolding Inl sum.case 2(3) by (rule spec [OF 2(2) create_crash [OF booked_pending [OF 2(2)] 2(1)]])
      qed
    next
      case (Inr i)
      then obtain b0 its where bk: "booked E dto seats ?V b0 its" and i: "bk_id b0 = i"
          and w1: "at_rest (vw w1) = placed b0 its [] [] [] ?V"
        using 1(2) by (auto simp: persist_post_def)
      show ?thesis
        unfolding Inr sum.case wp_await i [symmetric]
      proof (rule load_placed_wp [OF w1 ok'(1)], goal_cases)
        case (3 m w2)
        then show ?case
          using spec [OF bk create_crash [OF booked_pending [OF bk]]] w1 by simp
      next
        case (4 its' w2)
        then have w2: "at_rest (vw w2) = placed b0 its [] [] [] ?V" using w1 by simp
        show ?case
          unfolding sum.case option.case prod.case
          by (rule wp_mono [OF create_settle_wp [OF ok' bk w2 refl]]) (rule spec [OF bk])
      qed (use bk booked_items [OF bk] in \<open>auto simp: booked_def\<close>)
    qed
  qed
qed

lemma createBooking_law:
  "obeys vw (createBooking E dto) (\<lambda>v r v'. booking_ok v \<longrightarrow> create_spec E dto (at_rest v) r (at_rest v'))"
proof (rule obeys_pre)
  fix w
  assume ok: "booking_ok (vw w)"
  let ?V = "at_rest (vw w)"
  have refuse: "create_spec E dto ?V (Inl e) (called cs ?V)" if "no_payment cs" for e cs
    using that by (auto simp: create_spec_def)
  show "wp (createBooking E dto) (\<lambda>r w'. create_spec E dto ?V r (at_rest (vw w'))) w"
    unfolding createBooking_def Let_def wp_await
  proof (rule wp_obeys [OF seats_call], goal_cases)
    case (1 r w1)
    then have w1: "at_rest (vw w1) = called [GetSeatsByEvent (cb_eventId dto) r] ?V" by (simp add: called_one)
    show ?case
    proof (cases r)
      case (Inl e)
      then show ?thesis using refuse w1 by (simp add: no_payment_def)
    next
      case (Inr answer)
      show ?thesis
        unfolding Inr sum.case selected_def [symmetric] wp_if
      proof (split if_split, intro conjI impI, goal_cases)
        case 1
        then show ?case using refuse w1 by (simp add: no_payment_def wp_simps)
      next
        case 2
        note len = 2
        show ?case
        proof (split if_split, intro conjI impI, goal_cases)
          case 1
          then show ?case using refuse w1 by (simp add: no_payment_def wp_simps)
        next
          case 2
          then have held: "held_seats dto answer"
            using len by (auto simp: held_seats_def filter_empty_conv)
          show ?case
            unfolding wp_await
          proof (rule wp_obeys [OF verify_call], goal_cases)
            case (1 a w2)
            then have w2: "at_rest (vw w2) = called [GetSeatsByEvent (cb_eventId dto) (Inr answer),
                VerifyHold (cb_eventId dto) (map bid_seatId (cb_items dto)) (cb_userId dto) a] ?V"
              using w1 Inr by simp
            show ?case
            proof (cases a)
              case (Inl e)
              then show ?thesis using refuse w2 by (simp add: no_payment_def)
            next
              case (Inr yes)
              show ?thesis
              proof (cases yes)
                case False
                then show ?thesis using refuse w2 Inr by (simp add: no_payment_def wp_simps)
              next
                case True
                have "at_rest (vw w2) = called (checks dto answer) ?V"
                  using w2 Inr True by (simp add: checks_def)
                from persist_create_wp [OF _ _ this held refl] show ?thesis
                  using ok Inr True by simp
              qed
            qed
          qed
        qed
      qed
    qed
  qed
qed

end

end
