(* ===== verification/Booking_Refund.thy ===== *)
theory Booking_Refund
  imports Booking_Create
begin

text \<open>
  The refund state machine of the orchestrator: the abstract step relation \<open>refund_step\<close> on refund states
  and peer calls, the contract \<open>refund_post\<close> of \<^verbatim>\<open>processRefundStateMachine\<close> (every run follows a path of the
  relation, in every outcome), and that of \<^verbatim>\<open>cancelBooking\<close>.
\<close>

section \<open>The abstract machine\<close>

definition refund_reason :: "Booking \<Rightarrow> string" where
  "refund_reason b = (if or_empty (bk_cancellationReason b) = '''' then ''User cancellation'' else or_empty (bk_cancellationReason b))"

definition money_call :: "Booking \<Rightarrow> exn + RefundReply \<Rightarrow> peer_call" where
  "money_call b r = RefundPayment (bk_id b) (or_empty (bk_refundIdempotencyKey b)) (refund_reason b) r"

definition unsell_call :: "Booking \<Rightarrow> string list \<Rightarrow> exn + bool \<Rightarrow> peer_call" where
  "unsell_call b ss r = ReleaseSoldSeats (bk_eventId b) ss r"

inductive refund_step :: "bool \<Rightarrow> Booking \<Rightarrow> string list \<Rightarrow> RefundState option \<Rightarrow> peer_call list \<Rightarrow> RefundState option \<Rightarrow> bool"
  for up b ss where
  pay_back: "rr_success rep \<Longrightarrow> refund_step up b ss (Some REFUND_INITIATED) [money_call b (Inr rep)] (Some PAYMENT_REFUNDED)"
| refuse: "\<not> rr_success rep \<Longrightarrow> refund_step up b ss (Some REFUND_INITIATED) [money_call b (Inr rep)] (Some RefundState.FAILED)"
| no_answer: "refund_step up b ss (Some REFUND_INITIATED) [money_call b (Inl e)] (Some REFUND_INITIATED)"
| seats_back: "refund_step up b ss (Some PAYMENT_REFUNDED) [unsell_call b ss (Inr ok)] (Some SEATS_RELEASED)"
| seats_error: "refund_step up b ss (Some PAYMENT_REFUNDED) [unsell_call b ss (Inl e)] (Some PAYMENT_REFUNDED)"
| unsaved_refund: "\<not> up \<Longrightarrow> refund_step up b ss (Some REFUND_INITIATED) [money_call b (Inr rep)] (Some REFUND_INITIATED)"
| unsaved_seats: "\<not> up \<Longrightarrow> refund_step up b ss (Some PAYMENT_REFUNDED) [unsell_call b ss (Inr ok)] (Some PAYMENT_REFUNDED)"
| finish: "refund_step up b ss (Some SEATS_RELEASED) [] (Some RefundState.COMPLETED)"

text \<open>
  When the systems are not \<open>up\<close>, a peer may have done its part and the new state could not be saved: then
  the step is taken again.
\<close>

inductive_cases refund_stepE: "refund_step up b ss s c s'"
inductive_simps refund_step_final [simp]:
  "refund_step up b ss (Some RefundState.COMPLETED) c s'" "refund_step up b ss (Some RefundState.FAILED) c s'" "refund_step up b ss None c s'"

inductive refund_path :: "bool \<Rightarrow> Booking \<Rightarrow> string list \<Rightarrow> RefundState option \<Rightarrow> peer_call list \<Rightarrow> RefundState option \<Rightarrow> bool"
  for up b ss where
  stay: "refund_path up b ss s [] s"
| go: "refund_step up b ss s c s' \<Longrightarrow> refund_path up b ss s' cs s'' \<Longrightarrow> refund_path up b ss s (c @ cs) s''"

lemma refund_path_trans: "refund_path up b ss s cs s' \<Longrightarrow> refund_path up b ss s' ds s'' \<Longrightarrow> refund_path up b ss s (cs @ ds) s''"
  by (induction rule: refund_path.induct) (auto intro: refund_path.go)

lemma refund_path_one: "refund_step up b ss s c s' \<Longrightarrow> refund_path up b ss s c s'"
  using refund_path.go [OF _ refund_path.stay] by fastforce

lemma refund_path_then: "refund_path up b ss s cs s' \<Longrightarrow> refund_step up b ss s' c s'' \<Longrightarrow> refund_path up b ss s (cs @ c) s''"
  by (rule refund_path_trans [OF _ refund_path_one])

text \<open>The final states are final, and a completed refund has paid the money back and released the seats.\<close>

lemma refund_path_final:
  "refund_path up b ss s cs s' \<Longrightarrow> s \<in> {Some RefundState.COMPLETED, Some RefundState.FAILED, None} \<Longrightarrow> s' = s \<and> cs = []"
  by (induction rule: refund_path.induct) auto

lemma refund_path_completed:
  assumes "refund_path up b ss s cs (Some RefundState.COMPLETED)"
  shows "(s = Some REFUND_INITIATED \<longrightarrow> (\<exists>rep. rr_success rep \<and> money_call b (Inr rep) \<in> set cs)) \<and>
    (s \<in> {Some REFUND_INITIATED, Some PAYMENT_REFUNDED} \<longrightarrow> (\<exists>ok. unsell_call b ss (Inr ok) \<in> set cs)) \<and>
    (s = Some PAYMENT_REFUNDED \<longrightarrow> (\<forall>c\<in>set cs. \<exists>r. c = unsell_call b ss r)) \<and>
    (s = Some SEATS_RELEASED \<longrightarrow> cs = []) \<and> s \<noteq> Some RefundState.FAILED \<and> s \<noteq> None"
  using assms
proof (induction s cs "Some RefundState.COMPLETED" rule: refund_path.induct)
  case (go s c s' cs)
  then show ?case
    by (elim refund_stepE) (auto dest: refund_path_final)
qed simp

section \<open>The state during a run\<close>

definition moved :: "Booking \<Rightarrow> peer_call list \<Rightarrow> 'z booking_store_scheme \<Rightarrow> 'z booking_store_scheme" where
  "moved b cs v = v\<lparr>bookings := upserts bk_id [b] (bookings v), peer_calls := peer_calls v @ cs\<rparr>"

lemma moved_simps [simp]:
  "bookings (moved b cs v) = upserts bk_id [b] (bookings v)" "booking_items (moved b cs v) = booking_items v"
  "outbox (moved b cs v) = outbox v" "tickets (moved b cs v) = tickets v" "bk_sent (moved b cs v) = bk_sent v"
  "peer_calls (moved b cs v) = peer_calls v @ cs" "bk_clock (moved b cs v) = bk_clock v" "bk_calm (moved b cs v) = bk_calm v"
  "at_rest (moved b cs v) = moved b cs (at_rest v)"
  "peer_calls_update (\<lambda>l. l @ [c]) (moved b cs v) = moved b (cs @ [c]) v"
  "cancel_tickets i (moved b cs v) = moved b cs (cancel_tickets i v)"
  by (simp_all add: moved_def at_rest_def cancel_tickets_def)

lemma cancel_tickets_simps [simp]:
  "at_rest (cancel_tickets i v) = cancel_tickets i (at_rest v)" "bk_clock (cancel_tickets i v) = bk_clock v"
  "bk_calm (cancel_tickets i v) = bk_calm v" "bookings (cancel_tickets i v) = bookings v" "outbox (cancel_tickets i v) = outbox v"
  "cancel_tickets i (in_tx bs its os v) = in_tx bs its os (cancel_tickets i v)"
  "booking_items (cancel_tickets i v) = booking_items v" "peer_calls (cancel_tickets i v) = peer_calls v"
  by (simp_all add: cancel_tickets_def at_rest_def in_tx_def)

lemma upsert_twice: "rid x = rid y \<Longrightarrow> upsert rid x (upsert rid y t) = upsert rid x t"
  by (auto simp: upsert_def image_iff intro!: map_idI)

lemma moved_save: "bk_id b' = bk_id b \<Longrightarrow> bookings_update (upserts bk_id [b']) (moved b cs v) = moved b' cs v"
  by (simp add: moved_def upsert_twice)

lemma moved_start: "b \<in> set (bookings v) \<Longrightarrow> distinct (map bk_id (bookings v)) \<Longrightarrow> moved b [] v = v"
  using upsert_present [of bk_id "bookings v" b "\<lambda>x. x"] by (simp add: moved_def)

text \<open>What the machine does not change of a booking.\<close>

definition core :: "Booking \<Rightarrow> Booking" where
  "core b = b\<lparr>bk_status := BookingStatus.PENDING, bk_cancelledAt := None, bk_refundState := None,
     bk_refundRetryCount := 0, bk_refundLastError := None\<rparr>"

lemma core_upd [simp]:
  "core (b\<lparr>bk_refundState := s\<rparr>) = core b" "core (b\<lparr>bk_refundLastError := x\<rparr>) = core b"
  "core (b\<lparr>bk_refundRetryCount := n\<rparr>) = core b" "core (b\<lparr>bk_cancelledAt := t\<rparr>) = core b" "core (b\<lparr>bk_status := st\<rparr>) = core b"
  by (simp_all add: core_def)

lemma core_fields:
  assumes "core b = core b'"
  shows "bk_id b = bk_id b'" "bk_eventId b = bk_eventId b'" "bk_refundIdempotencyKey b = bk_refundIdempotencyKey b'"
    "bk_cancellationReason b = bk_cancellationReason b'" "booking_fields b e = booking_fields b' e" "bk_userId b = bk_userId b'"
proof -
  have f: "f (core b) = f (core b')" for f :: "Booking \<Rightarrow> 'x" using assms by simp
  show "bk_id b = bk_id b'" "bk_eventId b = bk_eventId b'" "bk_refundIdempotencyKey b = bk_refundIdempotencyKey b'"
    "bk_cancellationReason b = bk_cancellationReason b'" "booking_fields b e = booking_fields b' e" "bk_userId b = bk_userId b'"
    using f [of bk_id] f [of bk_eventId] f [of bk_refundIdempotencyKey] f [of bk_cancellationReason]
      f [of "\<lambda>b. booking_fields b e"] f [of bk_userId]
    by (simp_all add: core_def booking_fields_def)
qed

lemma core_calls:
  assumes "core b = core b'"
  shows "money_call b = money_call b'" "unsell_call b = unsell_call b'" "refunded_payload b = refunded_payload b'"
  using core_fields [OF assms]
  by (auto simp: money_call_def unsell_call_def refund_reason_def refunded_payload_def fun_eq_iff)

text \<open>The entry a completed refund writes to the outbox.\<close>

definition refunded_entry :: "Booking \<Rightarrow> BookingItem list \<Rightarrow> 'z booking_store_scheme \<Rightarrow> Outbox \<Rightarrow> bool" where
  "refunded_entry b items v x \<longleftrightarrow> x = new_outbox (bk_id b) ''booking.refunded'' (refunded_payload b items) (ob_id x) (bk_clock v) \<and>
     ob_id x \<notin> ob_id ` set (outbox v)"

definition finished :: "Booking \<Rightarrow> BookingItem list \<Rightarrow> 'z booking_store_scheme \<Rightarrow> Booking \<Rightarrow> 'z booking_store_scheme \<Rightarrow> bool" where
  "finished b0 items V b W \<longleftrightarrow> bk_refundState b = Some RefundState.COMPLETED \<and> bk_status b = BookingStatus.REFUNDED \<and>
     (\<exists>x. refunded_entry b0 items V x \<and> W = outbox_update (\<lambda>l. l @ [x]) (cancel_tickets (bk_id b0) V))"

text \<open>
  The columns that follow the refund state: the retries only go up, a booking becomes \<open>REFUNDED\<close> exactly when its
  refund is completed, and otherwise keeps its status.
\<close>

definition advanced :: "Booking \<Rightarrow> Booking \<Rightarrow> bool" where
  "advanced b0 b \<longleftrightarrow> bk_refundRetryCount b0 \<le> bk_refundRetryCount b \<and>
     (if bk_refundState b = Some RefundState.COMPLETED \<and> bk_refundState b0 \<noteq> Some RefundState.COMPLETED
      then bk_status b = BookingStatus.REFUNDED
      else bk_status b = bk_status b0 \<and> bk_cancelledAt b = bk_cancelledAt b0)"

lemma advanced_refl [simp]: "advanced b b"
  by (simp add: advanced_def)

lemma advanced_same:
  assumes "advanced b0 b" "bk_refundState b \<noteq> Some RefundState.COMPLETED" "bk_refundState b' \<noteq> Some RefundState.COMPLETED"
    and "bk_status b' = bk_status b" "bk_cancelledAt b' = bk_cancelledAt b" "bk_refundRetryCount b' = bk_refundRetryCount b"
  shows "advanced b0 b'"
  using assms by (simp add: advanced_def)

text \<open>
  A run from the row \<open>b0\<close> in the state \<open>V\<close>: the row is \<open>b\<close>, the calls \<open>cs\<close> lead there along a path, and the
  rest of the state is as before, or the refund was finished (tickets cancelled, entry written).
\<close>

definition refund_run_to ::
  "Booking \<Rightarrow> BookingItem list \<Rightarrow> 'z booking_store_scheme \<Rightarrow> Booking \<Rightarrow> peer_call list \<Rightarrow> 'z booking_store_scheme \<Rightarrow> bool" where
  "refund_run_to b0 items V b cs W \<longleftrightarrow> core b = core b0 \<and> advanced b0 b \<and>
     refund_path (bk_calm V) b0 (map bi_seatId items) (bk_refundState b0) cs (bk_refundState b) \<and>
     (W = V \<or> \<not> bk_calm V \<and> W = cancel_tickets (bk_id b0) V \<or> finished b0 items V b W)"

definition refund_post ::
  "Booking \<Rightarrow> BookingItem list \<Rightarrow> 'z booking_store_scheme \<Rightarrow> exn + Booking \<Rightarrow> 'z booking_store_scheme \<Rightarrow> bool" where
  "refund_post b0 items V r v \<longleftrightarrow>
     (\<exists>b cs W. refund_run_to b0 items V b cs W \<and> v = moved b cs W \<and>
       (case r of
          Inr x \<Rightarrow> x = b \<and> bk_refundState b = Some RefundState.COMPLETED \<and>
            (if bk_refundState b0 = Some RefundState.COMPLETED then b = b0 \<and> W = V \<and> cs = [] else finished b0 items V b W)
        | Inl e \<Rightarrow> bk_calm V \<longrightarrow> W = V \<and> bk_status b = bk_status b0 \<and> bk_refundState b \<noteq> Some RefundState.COMPLETED \<and>
            bk_refundRetryCount b = bk_refundRetryCount b0 + 1 \<and> bk_refundLastError b = Some (message e)))"

section \<open>The steps of the method\<close>

text \<open>The object is the row, and the refund is on its way.\<close>

definition on_way :: "Booking \<Rightarrow> BookingItem list \<Rightarrow> 'z booking_store_scheme \<Rightarrow> Booking \<Rightarrow> peer_call list \<Rightarrow> bool" where
  "on_way b0 items V b cs \<longleftrightarrow> refund_run_to b0 items V b cs V \<and> bk_status b = bk_status b0 \<and>
     bk_refundRetryCount b = bk_refundRetryCount b0 \<and> bk_refundState b \<noteq> Some RefundState.COMPLETED"

lemma on_way_start: "on_way b0 items V b cs \<Longrightarrow> bk_refundState b0 \<noteq> Some RefundState.COMPLETED"
  by (auto simp: on_way_def refund_run_to_def dest: refund_path_final)

lemma on_way_advanced:
  assumes "on_way b0 items V b cs" "bk_refundState b' \<noteq> Some RefundState.COMPLETED"
    and "bk_status b' = bk_status b" "bk_cancelledAt b' = bk_cancelledAt b" "bk_refundRetryCount b' = bk_refundRetryCount b"
  shows "advanced b0 b'"
  using assms(1) by (intro advanced_same [OF _ _ assms(2-5)]) (simp_all add: on_way_def refund_run_to_def)

text \<open>An exception is about to be recorded: the object may be ahead of the row.\<close>

definition stuck :: "Booking \<Rightarrow> BookingItem list \<Rightarrow> 'z booking_store_scheme \<Rightarrow> 'z booking_store_scheme \<Rightarrow> Booking \<Rightarrow> bool" where
  "stuck b0 items V v b2 \<longleftrightarrow> (\<exists>b1 cs W. v = moved b1 cs W \<and> refund_run_to b0 items V b1 cs W \<and>
     refund_run_to b0 items V b2 cs W \<and> (bk_calm V \<longrightarrow> on_way b0 items V b2 cs \<and> W = V))"

lemma run_to_frame: "refund_run_to b0 items V b cs W \<Longrightarrow>
    bk_calm W = bk_calm V \<and> bk_clock W = bk_clock V \<and> bookings W = bookings V"
  by (auto simp: refund_run_to_def finished_def)

lemma run_to_upd:
  "refund_run_to b0 items V b cs W \<Longrightarrow> bk_refundRetryCount b \<le> n \<Longrightarrow>
     refund_run_to b0 items V (b\<lparr>bk_refundRetryCount := n, bk_refundLastError := x\<rparr>) cs W"
  by (auto simp: refund_run_to_def finished_def advanced_def)

lemma run_to_step:
  assumes "refund_run_to b0 items V b cs V" "core b' = core b" "advanced b0 b'"
    and "refund_step (bk_calm V) b (map bi_seatId items) (bk_refundState b) c (bk_refundState b')"
  shows "refund_run_to b0 items V b' (cs @ c) V"
proof -
  have cr: "core b = core b0" and p: "refund_path (bk_calm V) b0 (map bi_seatId items) (bk_refundState b0) cs (bk_refundState b)"
    using assms(1) by (simp_all add: refund_run_to_def)
  have "refund_step (bk_calm V) b0 (map bi_seatId items) (bk_refundState b) c (bk_refundState b')"
    using assms(4) core_calls [OF cr] by (auto elim!: refund_stepE intro: refund_step.intros)
  then show ?thesis
    using refund_path_then [OF p] assms(2,3) cr by (simp add: refund_run_to_def)
qed

lemma run_to_id: "refund_run_to b0 items V b cs W \<Longrightarrow> bk_id b = bk_id b0"
  by (auto simp: refund_run_to_def dest: core_fields(1))

lemma stuck_on_way: "on_way b0 items V b cs \<Longrightarrow> v = moved b cs V \<Longrightarrow> stuck b0 items V v b"
  unfolding stuck_def on_way_def by blast

lemma stuck_ahead:
  "on_way b0 items V b1 cs \<Longrightarrow> on_way b0 items V b2 cs \<Longrightarrow> v = moved b1 cs V \<Longrightarrow> stuck b0 items V v b2"
  unfolding stuck_def on_way_def by blast

lemma stuck_down:
  "\<not> bk_calm V \<Longrightarrow> refund_run_to b0 items V b1 cs W \<Longrightarrow> refund_run_to b0 items V b2 cs W \<Longrightarrow>
     stuck b0 items V (moved b1 cs W) b2"
  unfolding stuck_def by blast

lemma run_to_tickets:
  "\<not> bk_calm V \<Longrightarrow> refund_run_to b0 items V b cs V \<Longrightarrow> refund_run_to b0 items V b cs (cancel_tickets (bk_id b0) V)"
  by (auto simp: refund_run_to_def)

lemma refund_post_down:
  "refund_run_to b0 items V b cs W \<Longrightarrow> \<not> bk_calm V \<Longrightarrow> refund_post b0 items V (Inl e) (moved b cs W)"
  unfolding refund_post_def by auto

context booking_world
begin

lemma record_failure_wp:
  assumes "stuck b0 items V (at_rest (vw w)) b2"
  shows "wp (record_failure E e) (\<lambda>r (w', b'). \<exists>e'. r = Inl e' \<and> refund_post b0 items V (Inl e') (at_rest (vw w'))) (w, b2)"
proof -
  obtain b1 cs W where w: "at_rest (vw w) = moved b1 cs W" and r1: "refund_run_to b0 items V b1 cs W"
    and r2: "refund_run_to b0 items V b2 cs W" and calm: "bk_calm V \<Longrightarrow> on_way b0 items V b2 cs \<and> W = V"
    using assms unfolding stuck_def by blast
  have c: "bk_calm (vw w) = bk_calm V"
    using w run_to_frame [OF r1] by (metis at_rest_simps(8) moved_simps(8))
  let ?b = "b2\<lparr>bk_refundRetryCount := bk_refundRetryCount b2 + 1, bk_refundLastError := Some (message e)\<rparr>"
  have r3: "refund_run_to b0 items V ?b cs W" by (rule run_to_upd [OF r2]) simp
  show ?thesis
    unfolding record_failure_def wp_await wp_assign sum.case
  proof (rule save_booking_wp, goal_cases)
    case (1 m w')
    then show ?case using refund_post_down [OF r1] w c by simp
  next
    case (2 w')
    then have "at_rest (vw w') = moved ?b cs W"
      using w moved_save [of ?b b1 cs W] run_to_id [OF r1] run_to_id [OF r3] by simp
    moreover have "refund_post b0 items V (Inl e) (moved ?b cs W)"
      unfolding refund_post_def sum.case using r3 calm
      by (intro exI [of _ ?b] exI [of _ cs] exI [of _ W]) (auto simp: on_way_def)
    ultimately show ?case by (simp add: wp_simps)
  qed
qed

text \<open>Saving the object in a new state.\<close>

lemma advance_wp:
  assumes w: "at_rest (vw w) = moved b cs V" and run: "on_way b0 items V b cs" "on_way b0 items V b' cs"
    and fail: "\<And>m w'. stuck b0 items V (at_rest (vw w')) b' \<Longrightarrow> Q (Inl (JsError m)) (w', b')"
    and saved: "\<And>w'. at_rest (vw w') = moved b' cs V \<Longrightarrow> Q (Inr ()) (w', b')"
  shows "wp (save_booking E) Q (w, b')"
proof (rule save_booking_wp)
  fix m w' assume "vw w' = vw w"
  then show "Q (Inl (JsError m)) (w', b')"
    using w by (intro fail stuck_ahead [OF run]) simp
next
  fix w' assume "vw w' = bookings_update (upserts bk_id [b']) (vw w)"
  then show "Q (Inr ()) (w', b')"
    using w moved_save [of b' b cs V] run run_to_id [of b0 items V b cs V] run_to_id [of b0 items V b' cs V]
    by (intro saved) (simp add: on_way_def)
qed

text \<open>A peer was called, and its answer takes the object to a new state that is being saved.\<close>

lemma answered_wp:
  assumes w: "at_rest (vw w) = moved b (cs @ [c]) V" and run: "on_way b0 items V b cs"
    and b': "core b' = core b" "bk_status b' = bk_status b" "bk_cancelledAt b' = bk_cancelledAt b"
      "bk_refundRetryCount b' = bk_refundRetryCount b" "bk_refundState b' \<noteq> Some RefundState.COMPLETED"
    and moves: "refund_step (bk_calm V) b (map bi_seatId items) (bk_refundState b) [c] (bk_refundState b')"
    and stays: "\<not> bk_calm V \<Longrightarrow> refund_step (bk_calm V) b (map bi_seatId items) (bk_refundState b) [c] (bk_refundState b)"
    and fail: "\<And>m w'. stuck b0 items V (at_rest (vw w')) b' \<Longrightarrow> Q (Inl (JsError m)) (w', b')"
    and saved: "\<And>w'. at_rest (vw w') = moved b' (cs @ [c]) V \<Longrightarrow> on_way b0 items V b' (cs @ [c]) \<Longrightarrow> Q (Inr ()) (w', b')"
  shows "wp (save_booking E) Q (w, b')"
proof -
  have to: "refund_run_to b0 items V b cs V" using run by (simp add: on_way_def)
  have new: "on_way b0 items V b' (cs @ [c])"
    using run_to_step [OF to b'(1) on_way_advanced [OF run b'(5,2-4)] moves] run b' by (simp add: on_way_def)
  show ?thesis
  proof (rule save_booking_wp, goal_cases)
    case (1 m w')
    have "bk_calm (vw w) = bk_calm V" using w by (metis at_rest_simps(8) moved_simps(8))
    then have down: "\<not> bk_calm V" using 1 by simp
    have "refund_run_to b0 items V b (cs @ [c]) V"
      using stays [OF down] to by (intro run_to_step [OF to]) (simp_all add: refund_run_to_def)
    moreover have "refund_run_to b0 items V b' (cs @ [c]) V" using new by (simp add: on_way_def)
    ultimately show ?case
      using w 1 down unfolding stuck_def by (intro fail) (auto simp: stuck_def)
  next
    case (2 w')
    have "bk_id b' = bk_id b" using b'(1) by (rule core_fields)
    then have "at_rest (vw w') = moved b' (cs @ [c]) V"
      using 2 w moved_save [of b' b "cs @ [c]" V] by simp
    then show ?case by (rule saved [OF _ new])
  qed
qed

lemma refund_money_wp:
  assumes w: "at_rest (vw w) = moved b cs V" and run: "on_way b0 items V b cs" and st: "bk_refundState b = Some REFUND_INITIATED"
  shows "wp (refund_money E) (\<lambda>r (w', b'). case r of
      Inl e \<Rightarrow> stuck b0 items V (at_rest (vw w')) b'
    | Inr x \<Rightarrow> x = Continue \<and> bk_refundState b' = Some PAYMENT_REFUNDED \<and>
        (\<exists>cs'. on_way b0 items V b' cs' \<and> at_rest (vw w') = moved b' cs' V)) (w, b)"
proof -
  have to: "refund_run_to b0 items V b cs V" using run by (simp add: on_way_def)
  show ?thesis
    unfolding refund_money_def wp_await wp_get_object sum.case wp_on_world refund_reason_def [symmetric]
  proof (rule wp_obeys [OF refund_call], unfold money_call_def [symmetric], goal_cases)
    case (1 r w1)
    then have w1: "at_rest (vw w1) = moved b (cs @ [money_call b r]) V" using w by simp
    show ?case
    proof (cases r)
      case (Inl e)
      have "on_way b0 items V b (cs @ [money_call b (Inl e)])"
        using run to run_to_step [OF to, of b "[money_call b (Inl e)]"] st refund_step.no_answer
        by (simp add: on_way_def refund_run_to_def)
      then show ?thesis using w1 Inl by (auto intro: stuck_on_way)
    next
      case (Inr rep)
      show ?thesis
      proof (cases "rr_success rep")
        case False
        show ?thesis
          unfolding Inr sum.case wp_if if_P [OF False] wp_await wp_assign
          by (rule answered_wp [OF w1 run])
            (use run st Inr False in \<open>auto simp: on_way_def wp_throw intro: refund_step.intros stuck_on_way\<close>)
      next
        case True
        then have nf: "\<not> \<not> rr_success rep" by simp
        show ?thesis
          unfolding Inr sum.case wp_if if_not_P [OF nf] wp_await wp_assign
          by (rule answered_wp [OF w1 run])
            (use run st Inr True in \<open>auto simp: wp_return intro: refund_step.intros\<close>)
      qed
    qed
  qed
qed

lemma release_sold_wp:
  assumes w: "at_rest (vw w) = moved b cs V" and run: "on_way b0 items V b cs" and st: "bk_refundState b = Some PAYMENT_REFUNDED"
  shows "wp (release_sold E (map bi_seatId items)) (\<lambda>r (w', b'). case r of
      Inl e \<Rightarrow> stuck b0 items V (at_rest (vw w')) b'
    | Inr x \<Rightarrow> x = Continue \<and> bk_refundState b' = Some SEATS_RELEASED \<and>
        (\<exists>cs'. on_way b0 items V b' cs' \<and> at_rest (vw w') = moved b' cs' V)) (w, b)"
proof -
  have to: "refund_run_to b0 items V b cs V" using run by (simp add: on_way_def)
  show ?thesis
    unfolding release_sold_def wp_await wp_get_object sum.case wp_on_world
  proof (rule wp_obeys [OF unsold_call], unfold unsell_call_def [symmetric], goal_cases)
    case (1 r w1)
    then have w1: "at_rest (vw w1) = moved b (cs @ [unsell_call b (map bi_seatId items) r]) V" using w by simp
    show ?case
    proof (cases r)
      case (Inl e)
      have "on_way b0 items V b (cs @ [unsell_call b (map bi_seatId items) (Inl e)])"
        using run to run_to_step [OF to, of b "[unsell_call b (map bi_seatId items) (Inl e)]"] st refund_step.seats_error
        by (simp add: on_way_def refund_run_to_def)
      then show ?thesis using w1 Inl by (auto intro: stuck_on_way)
    next
      case (Inr a)
      show ?thesis
        unfolding Inr sum.case wp_await wp_assign
        by (rule answered_wp [OF w1 run])
          (use run st Inr in \<open>auto simp: wp_return intro: refund_step.intros\<close>)
    qed
  qed
qed

end

text \<open>The last step: tickets, row and outbox entry.\<close>

lemma complete_publish:
  assumes b': "bk_id b' = bk_id b" and V: "at_rest V = V" and x: "refunded_entry b0 items V x"
  shows "bk_publish (in_tx [b'] [] [x] (moved b cs (cancel_tickets i V))) =
    moved b' cs (outbox_update (\<lambda>l. l @ [x]) (cancel_tickets i V))"
proof -
  have "upserts ob_id [x] (outbox V) = outbox V @ [x]"
    using x by (intro upserts_fresh) (auto simp: refunded_entry_def)
  then have "bk_publish (in_tx [b'] [] [x] (moved b cs (cancel_tickets i V))) =
      at_rest (moved b' cs (outbox_update (\<lambda>l. l @ [x]) (cancel_tickets i V)))"
    using b' by (simp add: bk_publish_in_tx moved_def upsert_twice)
  then show ?thesis by (simp add: V)
qed

definition refunded_booking :: "Booking \<Rightarrow> int \<Rightarrow> Booking" where
  "refunded_booking b now = b\<lparr>bk_status := BookingStatus.REFUNDED, bk_cancelledAt := Some now,
     bk_refundState := Some RefundState.COMPLETED\<rparr>"

lemma refunded_booking_simps [simp]:
  "core (refunded_booking b n) = core b" "bk_id (refunded_booking b n) = bk_id b"
  "bk_refundState (refunded_booking b n) = Some RefundState.COMPLETED" "bk_status (refunded_booking b n) = BookingStatus.REFUNDED"
  by (simp_all add: refunded_booking_def core_def)

context booking_world
begin

lemma complete_body_wp:
  assumes V: "at_rest V = V" and w: "vw w = in_tx [] [] [] (moved b cs V)" and cr: "core b = core b0"
    and c: "c = refunded_booking b (bk_clock V)"
  shows "wp (complete_body E (ticketService E) items) (\<lambda>r (w', b'). case r of
      Inl e \<Rightarrow> at_rest (vw w') \<in> {moved b cs V, moved b cs (cancel_tickets (bk_id b0) V)} \<and> bk_tx (vw w') \<and> b' \<in> {b, c} \<and>
        \<not> bk_calm V \<and> (\<exists>m. e = JsError m)
    | Inr u \<Rightarrow> b' = c \<and> (\<exists>x. refunded_entry b0 items V x \<and>
        vw w' = moved c cs (outbox_update (\<lambda>l. l @ [x]) (cancel_tickets (bk_id b0) V)))) (w, b)"
proof -
  let ?i = "bk_id b0" and ?S = "moved b cs (cancel_tickets (bk_id b0) V)"
  have i: "bk_id b = ?i" "bk_id c = ?i" using core_fields(1) [OF cr] c by simp_all
  have rest: "at_rest ?S = ?S" using V by simp
  show ?thesis
    unfolding complete_body_def wp_await wp_get_object sum.case wp_on_world i(1)
  proof (rule wp_fallible [OF ticketing.cancel_law], goal_cases)
    case (1 m w1)
    then show ?case using w V by simp
  next
    case (2 u w1)
    then have w1: "vw w1 = in_tx [] [] [] ?S" using w by simp
    show ?case
      unfolding sum.case wp_await wp_on_world
    proof (rule wp_obeys [OF now_law], goal_cases)
      case (1 r w2)
      then have w2: "vw w2 = in_tx [] [] [] ?S" and r: "r = Inr (bk_clock V)" using w1 by auto
      show ?case
        unfolding r sum.case wp_await wp_assign wp_get_object wp_on_world refunded_booking_def [symmetric] c [symmetric] i(2)
      proof (rule wp_fallible [OF txbk.msave_law], goal_cases)
        case (1 m w3)
        then show ?case using w2 V by simp
      next
        case (2 u w3)
        then have w3: "vw w3 = in_tx [c] [] [] ?S" using w2 by simp
        show ?case
          unfolding sum.case wp_await wp_on_world
        proof (rule wp_fallible [OF txob.minsert_law], goal_cases)
          case (1 m w4)
          then show ?case
            using insertable_single [of ob_id "new_outbox _ _ _"] w3 V by simp
        next
          case (2 xs w4)
          then have xs: "created ob_id (ob_id ` set (outbox V)) (bk_clock V)
                [new_outbox ?i ''booking.refunded'' (refunded_payload c items)] xs"
              and w4: "vw w4 = in_tx [c] [] xs ?S" using w3 by auto
          obtain k where x: "xs = [new_outbox ?i ''booking.refunded'' (refunded_payload c items) k (bk_clock V)]"
              "k \<notin> ob_id ` set (outbox V)"
            by (rule created_single [OF xs])
          have "core c = core b0" using cr c by simp
          from core_calls(3) [OF this] have e: "refunded_entry b0 items V (hd xs)"
            using x by (simp add: refunded_entry_def)
          show ?case
            unfolding sum.case wp_on_world
          proof (rule wp_fallible [OF tx.commit_law], goal_cases)
            case (1 m w5)
            then show ?case using w4 V by simp
          next
            case (2 u w5)
            moreover have "xs = [hd xs]" using x by simp
            ultimately have "vw w5 = moved c cs (outbox_update (\<lambda>l. l @ [hd xs]) (cancel_tickets ?i V))"
              using complete_publish [OF _ V e, of c b cs ?i] w4 i by simp
            then show ?case using e by auto
          qed
        qed
      qed
    qed
  qed
qed

lemma complete_refund_wp:
  assumes V: "at_rest V = V" and w: "at_rest (vw w) = moved b cs V" and run: "on_way b0 items V b cs"
    and st: "bk_refundState b = Some SEATS_RELEASED"
  shows "wp (complete_refund E (ticketService E) items) (\<lambda>r (w', b'). case r of
      Inl e \<Rightarrow> stuck b0 items V (at_rest (vw w')) b'
    | Inr x \<Rightarrow> x = Return b' \<and> (\<exists>W. refund_run_to b0 items V b' cs W \<and> finished b0 items V b' W \<and>
        at_rest (vw w') = moved b' cs W)) (w, b)"
proof -
  let ?c = "refunded_booking b (bk_clock V)" and ?T = "cancel_tickets (bk_id b0) V"
  have to: "refund_run_to b0 items V b cs V" and cr: "core b = core b0"
    using run by (simp_all add: on_way_def refund_run_to_def)
  have "advanced b0 ?c"
    using run on_way_start [OF run] by (simp add: advanced_def refunded_booking_def on_way_def)
  then have toc: "refund_run_to b0 items V ?c cs V"
    using run_to_step [OF to, of ?c "[]"] st refund_step.finish by simp
  have fin: "finished b0 items V ?c (outbox_update (\<lambda>l. l @ [x]) ?T)" if "refunded_entry b0 items V x" for x
    using that by (auto simp: finished_def)
  have tof: "refund_run_to b0 items V ?c cs (outbox_update (\<lambda>l. l @ [x]) ?T)" if "refunded_entry b0 items V x" for x
    using toc fin [OF that] by (simp add: refund_run_to_def)
  have down: "stuck b0 items V v y" if "v \<in> {moved b cs V, moved b cs ?T}" "y \<in> {b, ?c}" "\<not> bk_calm V" for v y
    using that(1,2) stuck_down [OF that(3) to to] stuck_down [OF that(3) to toc]
      stuck_down [OF that(3) run_to_tickets [OF that(3) to] run_to_tickets [OF that(3) to]]
      stuck_down [OF that(3) run_to_tickets [OF that(3) to] run_to_tickets [OF that(3) toc]] by auto
  have late: "stuck b0 items V (moved ?c cs (outbox_update (\<lambda>l. l @ [x]) ?T)) ?c"
    if "refunded_entry b0 items V x" "\<not> bk_calm V" for x
    by (rule stuck_down [OF that(2) tof [OF that(1)] tof [OF that(1)]])
  have calmT: "at_rest v \<in> {moved b cs V, moved b cs ?T} \<Longrightarrow> bk_calm v = bk_calm V" for v
    by (metis at_rest_simps(8) cancel_tickets_simps(3) insertE moved_simps(8) singletonD)
  show ?thesis
    unfolding complete_refund_def wp_await
  proof (rule tx.transaction_wp [OF lifts_on_world,
        where At = "\<lambda>v. at_rest v \<in> {moved b cs V, moved b cs ?T}" and Tx = "\<lambda>v. at_rest v \<in> {moved b cs V, moved b cs ?T}"], goal_cases)
    case (3 m w1)
    then show ?case using down [of "at_rest (vw w1)" b] calmT by auto
  next
    case (4 w1)
    then have w1: "vw w1 = in_tx [] [] [] (moved b cs V)" using w by (simp add: bk_begin_rest)
    show ?case
      unfolding snd_conv
    proof (rule wp_mono [OF complete_body_wp [OF V w1 cr refl]], goal_cases)
      case (1 r x)
      obtain w2 b2 where x: "x = (w2, b2)" by fastforce
      show ?case
      proof (cases r)
        case (Inl e)
        then show ?thesis using 1(2) down unfolding x by auto
      next
        case (Inr u)
        then obtain y where y: "refunded_entry b0 items V y" "b2 = ?c"
            "vw w2 = moved ?c cs (outbox_update (\<lambda>l. l @ [y]) ?T)" using 1(2) unfolding x by auto
        then show ?thesis
          using tof [OF y(1)] fin [OF y(1)] late [OF y(1)] V unfolding x Inr sum.case
          by (auto simp: wp_simps)
      qed
    qed
  qed (use w V in auto)
qed

end

section \<open>The loop\<close>

text \<open>The iterations that are left from a state; the loop of the method has five.\<close>

fun steps_left :: "RefundState option \<Rightarrow> nat" where
  "steps_left (Some REFUND_INITIATED) = 3"
| "steps_left (Some PAYMENT_REFUNDED) = 2"
| "steps_left _ = 1"

lemma steps_left_bounds: "1 \<le> steps_left s" "steps_left s \<le> 3"
  by (cases s rule: steps_left.cases; simp)+

context booking_world
begin

lemma refund_switch_wp:
  assumes V: "at_rest V = V" and w: "at_rest (vw w) = moved b cs V" and run: "on_way b0 items V b cs"
  shows "wp (refund_switch E (ticketService E) items) (\<lambda>r (w', b'). case r of
      Inl e \<Rightarrow> stuck b0 items V (at_rest (vw w')) b'
    | Inr x \<Rightarrow> (case x of
          Return y \<Rightarrow> y = b' \<and> (\<exists>cs' W. refund_run_to b0 items V b' cs' W \<and> finished b0 items V b' W \<and> at_rest (vw w') = moved b' cs' W)
        | Continue \<Rightarrow> steps_left (bk_refundState b') < steps_left (bk_refundState b) \<and>
            (\<exists>cs'. on_way b0 items V b' cs' \<and> at_rest (vw w') = moved b' cs' V)
        | Break \<Rightarrow> False)) (w, b)"
  unfolding refund_switch_def wp_await wp_get_object sum.case
proof (cases "bk_refundState b", goal_cases)
  case 1
  then show ?case using w run by (simp add: wp_simps stuck_on_way)
next
  case (2 st)
  show ?case
  proof (cases st)
    case REFUND_INITIATED
    show ?thesis
      unfolding 2 option.case REFUND_INITIATED RefundState.case
    proof (rule wp_mono [OF refund_money_wp [OF w run 2 [unfolded REFUND_INITIATED]]], goal_cases)
      case (1 r x)
      then show ?case using 2 REFUND_INITIATED by (cases x; cases r) auto
    qed
  next
    case PAYMENT_REFUNDED
    show ?thesis
      unfolding 2 option.case PAYMENT_REFUNDED RefundState.case
    proof (rule wp_mono [OF release_sold_wp [OF w run 2 [unfolded PAYMENT_REFUNDED]]], goal_cases)
      case (1 r x)
      then show ?case using 2 PAYMENT_REFUNDED by (cases x; cases r) auto
    qed
  next
    case SEATS_RELEASED
    show ?thesis
      unfolding 2 option.case SEATS_RELEASED RefundState.case
    proof (rule wp_mono [OF complete_refund_wp [OF V w run 2 [unfolded SEATS_RELEASED]]], goal_cases)
      case (1 r x)
      then show ?case by (cases x; cases r) auto
    qed
  next
    case COMPLETED
    then show ?thesis using run 2 by (simp add: on_way_def)
  next
    case FAILED
    then show ?thesis using w run 2 by (simp add: wp_simps stuck_on_way)
  qed
qed

lemma refund_loop_wp:
  assumes V: "at_rest V = V" and w: "at_rest (vw w) = moved b cs V" and run: "on_way b0 items V b cs"
    and enough: "steps_left (bk_refundState b) \<le> length xs"
  shows "wp (for_exit xs (\<lambda>step. try_catch (refund_switch E (ticketService E) items) (record_failure E)) get_object)
    (\<lambda>r (w', b'). refund_post b0 items V r (at_rest (vw w'))) (w, b)"
  using w run enough
proof (induction xs arbitrary: w b cs)
  case Nil
  then show ?case using steps_left_bounds(1) [of "bk_refundState b"] by simp
next
  case (Cons x xs)
  show ?case
    unfolding for_exit.simps wp_await wp_try_catch
  proof (rule wp_mono [OF refund_switch_wp [OF V Cons.prems(1,2)]], goal_cases)
    case (1 r y)
    obtain w1 b1 where y: "y = (w1, b1)" by fastforce
    show ?case
    proof (cases r)
      case (Inl e)
      then have "stuck b0 items V (at_rest (vw w1)) b1" using 1(2) y by simp
      from record_failure_wp [OF this] show ?thesis
        unfolding Inl sum.case y by (rule wp_mono) auto
    next
      case (Inr z)
      show ?thesis
      proof (cases z)
        case (Return q)
        then show ?thesis
          using 1(2) on_way_start [OF Cons.prems(2)] unfolding y Inr Return sum.case exit.case prod.case wp_return
          by (auto simp: refund_post_def finished_def)
      next
        case Break
        then show ?thesis using 1(2) Inr y by simp
      next
        case Continue
        then obtain cs' where "on_way b0 items V b1 cs'" "at_rest (vw w1) = moved b1 cs' V"
            "steps_left (bk_refundState b1) \<le> length xs"
          using 1(2) Inr y Cons.prems(3) by auto
        then show ?thesis
          unfolding y Inr Continue sum.case exit.case by (intro Cons.IH)
      qed
    qed
  qed
qed

lemma process_wp:
  assumes V: "at_rest (vw w) = V" and b: "b \<in> set (bookings V)" "distinct (map bk_id (bookings V))"
  shows "wp (processRefundStateMachine E (ticketService E) items) (\<lambda>r (w', b'). refund_post b items V r (at_rest (vw w'))) (w, b)"
proof (cases "bk_refundState b = Some RefundState.COMPLETED")
  case True
  have "[0..<5] = (0 :: nat) # [1..<5]" by (simp add: upt_rec)
  then have loop: "processRefundStateMachine E (ticketService E) items =
      await (try_catch (refund_switch E (ticketService E) items) (record_failure E)) (\<lambda>e. case e of
        Return r \<Rightarrow> return r | Break \<Rightarrow> get_object
      | Continue \<Rightarrow> for_exit [1..<5] (\<lambda>step. try_catch (refund_switch E (ticketService E) items) (record_failure E)) get_object)"
    unfolding processRefundStateMachine_def by (simp only: for_exit.simps)
  have "refund_post b items V (Inr b) V"
    unfolding refund_post_def sum.case refund_run_to_def using moved_start [OF b] True
    by (intro exI [of _ b] exI [of _ "[]"] exI [of _ V]) (auto intro: refund_path.stay)
  then show ?thesis
    unfolding loop wp_await wp_try_catch refund_switch_def wp_get_object sum.case True option.case RefundState.case wp_return exit.case prod.case V .
next
  case False
  have "at_rest V = V" using V by (metis at_rest_simps(9))
  moreover have "on_way b items V b []"
    using False by (simp add: on_way_def refund_run_to_def refund_path.stay)
  moreover have "at_rest (vw w) = moved b [] V" using moved_start [OF b] V by simp
  moreover have "steps_left (bk_refundState b) \<le> length [0..<5]"
    using steps_left_bounds(2) [of "bk_refundState b"] by simp
  ultimately show ?thesis
    unfolding processRefundStateMachine_def by (intro refund_loop_wp)
qed

end

section \<open>Cancelling\<close>

definition started_refund :: "Booking \<Rightarrow> string \<Rightarrow> string option \<Rightarrow> Booking" where
  "started_refund b key reason = (if bk_refundState b = None
     then b\<lparr>bk_refundState := Some REFUND_INITIATED, bk_refundIdempotencyKey := Some key,
       bk_cancellationReason := Some (if or_empty reason = '''' then ''User cancellation'' else or_empty reason)\<rparr>
     else b)"

text \<open>Who may cancel what: the booking is the user's, and confirmed.\<close>

definition cancellable :: "string \<Rightarrow> Booking \<Rightarrow> bool" where
  "cancellable u b \<longleftrightarrow> bk_userId b = u \<and> bk_status b = BookingStatus.CONFIRMED"

definition cancel_spec ::
  "string \<Rightarrow> string \<Rightarrow> string \<Rightarrow> string option \<Rightarrow> 'z booking_store_scheme \<Rightarrow> exn + Booking \<Rightarrow> 'z booking_store_scheme \<Rightarrow> bool" where
  "cancel_spec i u key reason V r v \<longleftrightarrow>
     v = V \<and> (case r of Inl e \<Rightarrow> \<not> bk_calm V \<and> (\<exists>m. e = JsError m) \<or>
         (\<exists>m. e = NotFound m) \<and> (\<forall>b\<in>set (bookings V). bk_id b \<noteq> i) \<or>
         (\<exists>m. e = BadRequest m) \<and> (\<exists>b\<in>set (bookings V). bk_id b = i \<and> \<not> cancellable u b) | Inr b \<Rightarrow> False) \<or>
     (\<exists>b0 items. b0 \<in> set (bookings V) \<and> bk_id b0 = i \<and> cancellable u b0 \<and>
        mset items = mset (filter (\<lambda>x. bi_bookingId x = i) (booking_items V)) \<and>
        (let b1 = started_refund b0 key reason in
         refund_post b1 items (bookings_update (upserts bk_id [b1]) V) r v))"

lemma started_refund_id [simp]: "bk_id (started_refund b key reason) = bk_id b"
  by (simp add: started_refund_def)

lemma upsert_in: "x \<in> set (upserts rid [x] t)"
  by (auto simp: upsert_def image_iff)

lemma upsert_distinct: "distinct (map rid t) \<Longrightarrow> distinct (map rid (upserts rid [x] t))"
proof -
  have "map rid (map (\<lambda>r. if rid r = rid x then x else r) t) = map rid t"
    by (auto intro!: map_cong)
  then show "distinct (map rid t) \<Longrightarrow> distinct (map rid (upserts rid [x] t))"
    by (auto simp: upsert_def image_iff simp del: map_map)
qed

context booking_world
begin

lemma start_refund_wp:
  assumes w: "at_rest (vw w) = V" and b: "b \<in> set (bookings V)" "distinct (map bk_id (bookings V))"
    and fail: "\<And>m w' b'. at_rest (vw w') = V \<Longrightarrow> \<not> bk_calm V \<Longrightarrow> Q (Inl (JsError m)) (w', b')"
    and ok: "\<And>w'. at_rest (vw w') = bookings_update (upserts bk_id [started_refund b key reason]) V \<Longrightarrow>
      Q (Inr ()) (w', started_refund b key reason)"
  shows "wp (start_refund E key reason) Q (w, b)"
proof (cases "bk_refundState b = None")
  case True
  have c: "bk_calm (vw w) = bk_calm V" using w by (metis at_rest_simps(8))
  have started: "b\<lparr>bk_refundState := Some REFUND_INITIATED, bk_refundIdempotencyKey := Some key,
       bk_cancellationReason := Some (if or_empty reason = '''' then ''User cancellation'' else or_empty reason)\<rparr> =
      started_refund b key reason" unfolding started_refund_def if_P [OF True] by (rule refl)
  show ?thesis
    unfolding start_refund_def wp_await wp_get_object sum.case if_P [OF True] wp_assign started
    using w c by (intro save_booking_wp) (auto intro: fail ok)
next
  case False
  have "bookings_update (upserts bk_id [b]) V = V"
    using upsert_present [of bk_id "bookings V" b "\<lambda>x. x"] b by (cases V) simp
  then show ?thesis
    unfolding start_refund_def wp_await wp_get_object sum.case if_not_P [OF False] wp_return
    using ok [of w] w False by (simp add: started_refund_def)
qed

lemma cancelBooking_law:
  "obeys vw (cancelBooking E (ticketService E) i u key reason)
     (\<lambda>v r v'. booking_ok v \<longrightarrow> cancel_spec i u key reason (at_rest v) r (at_rest v'))"
proof (rule obeys_pre)
  fix w
  assume ok: "booking_ok (vw w)"
  let ?V = "at_rest (vw w)"
  have ids: "distinct (map bk_id (bookings ?V))" using ok by (simp add: booking_ok_def)
  show "wp (cancelBooking E (ticketService E) i u key reason) (\<lambda>r w'. cancel_spec i u key reason ?V r (at_rest (vw w'))) w"
    unfolding cancelBooking_def wp_await
  proof (rule load_booking_wp, goal_cases)
    case (3 b items w1)
    note b = 3(2,3) and items = 3(4)
    have w1: "at_rest (vw w1) = ?V" using 3(1) by simp
    show ?case
    proof (cases "cancellable u b")
      case False
      then show ?thesis
        using b w1 by (auto simp: wp_simps cancel_spec_def cancellable_def)
    next
      case True
      then have guards: "\<not> bk_userId b \<noteq> u" "\<not> bk_status b \<noteq> BookingStatus.CONFIRMED"
        by (simp_all add: cancellable_def)
      let ?b = "started_refund b key reason" and ?V1 = "bookings_update (upserts bk_id [started_refund b key reason]) ?V"
      have b1: "?b \<in> set (bookings ?V1)" "distinct (map bk_id (bookings ?V1))"
        using upsert_in [of ?b bk_id] upsert_distinct [OF ids, of ?b] by simp_all
      have accepted: "cancel_spec i u key reason ?V r v" if "refund_post ?b items ?V1 r v" for r v
        unfolding cancel_spec_def Let_def using that b items True
        by (intro disjI2 exI [of _ b] exI [of _ items]) simp
      show ?thesis
        unfolding sum.case option.case prod.case if_not_P [OF guards(1)] if_not_P [OF guards(2)] wp_with_object wp_await
      proof (rule start_refund_wp [OF w1 _ ids], goal_cases)
        case 1
        show ?case using b by simp
      next
        case (2 m w2 b2)
        then show ?case by (simp add: cancel_spec_def)
      next
        case (3 w2)
        from process_wp [OF 3 b1, of items] show ?case
          unfolding sum.case by (rule wp_mono) (auto intro: accepted)
      qed
    qed
  qed (auto simp: wp_simps cancel_spec_def)
qed

end

end
