(* ===== verification/Outbox_Worker.thy ===== *)
theory Outbox_Worker
  imports Booking_Refund
begin

text \<open>
  \<^verbatim>\<open>OutboxWorker\<close> (booking/outbox.worker.ts), which delivers the entries of the outbox: at least once, with
  a bounded number of retries, and one ticket for each item.  A run of the schedule is one call.
\<close>

section \<open>The outbox worker\<close>

text \<open>
  What the RPC sends for a property of the payload: the text, or the empty text of a missing field
  (proto3).
\<close>

definition rpc_text :: "json option \<Rightarrow> string" where
  "rpc_text x = or_empty (json_str x)"

fun rpc_texts :: "json option \<Rightarrow> string list" where
  "rpc_texts (Some (JArr js)) = map (\<lambda>j. rpc_text (Some j)) js"
| "rpc_texts _ = []"

definition handleSeatsSold :: "'w booking_env \<Rightarrow> Outbox \<Rightarrow> ('w, unit) act" where
  "handleSeatsSold E entry =
     await (js_prop (ob_payload entry) ''eventId'') (\<lambda>eventId.
     await (js_prop (ob_payload entry) ''userId'') (\<lambda>userId.
     await (js_prop (ob_payload entry) ''seatIds'') (\<lambda>seatIds.
     await (sic_markSeatsAsSold (seatClient E) (rpc_text eventId) (rpc_texts seatIds) (rpc_text userId)) (\<lambda>success.
     if \<not> success then throw (JsError ''markSeatsAsSold gRPC call failed'')
     else if seatIds = None then throw (JsError ''Cannot read properties of undefined'')
     else return ()))))"

definition handleBookingConfirmed :: "'w booking_env \<Rightarrow> 'w TicketService \<Rightarrow> Outbox \<Rightarrow> ('w, unit) act" where
  "handleBookingConfirmed E T entry =
     await (ts_generateTicket T (ob_aggregateId entry)) (\<lambda>_.
     kafka_emit (bookingKafka E) ''booking.confirmed'' (ob_aggregateId entry) (ob_payload entry))"

definition handleBookingRefunded :: "'w booking_env \<Rightarrow> Outbox \<Rightarrow> ('w, unit) act" where
  "handleBookingRefunded E entry =
     kafka_emit (bookingKafka E) ''booking.refunded'' (ob_aggregateId entry) (ob_payload entry)"

definition processEntry :: "'w booking_env \<Rightarrow> 'w TicketService \<Rightarrow> Outbox \<Rightarrow> ('w, unit) act" where
  "processEntry E T entry =
     (if ob_eventType entry = ''seats.mark_sold'' then handleSeatsSold E entry
      else if ob_eventType entry = ''booking.confirmed'' then handleBookingConfirmed E T entry
      else if ob_eventType entry = ''booking.refunded'' then handleBookingRefunded E entry
      else return ())"

definition save_entry :: "'w booking_env \<Rightarrow> ('w \<times> Outbox, unit) act" where
  "save_entry E = await get_object (\<lambda>entry. on_world (repo_save (outboxRepo E) [entry]))"

definition deliver :: "'w booking_env \<Rightarrow> 'w TicketService \<Rightarrow> ('w \<times> Outbox, unit) act" where
  "deliver E T =
     await get_object (\<lambda>entry.
     await (on_world (processEntry E T entry)) (\<lambda>_.
     await (on_world (bookingNow E)) (\<lambda>now.
     await (assign (\<lambda>e. e\<lparr>ob_status := OutboxStatus.COMPLETED, ob_processedAt := Some now\<rparr>)) (\<lambda>_.
     save_entry E))))"

definition retry_later :: "'w booking_env \<Rightarrow> exn \<Rightarrow> ('w \<times> Outbox, unit) act" where
  "retry_later E error =
     await (assign (\<lambda>e. e\<lparr>ob_retryCount := ob_retryCount e + 1, ob_lastError := Some (message error)\<rparr>)) (\<lambda>_.
     await get_object (\<lambda>entry.
     await (if ob_maxRetries entry \<le> ob_retryCount entry
       then assign (\<lambda>e. e\<lparr>ob_status := OutboxStatus.FAILED\<rparr>)
       else assign (\<lambda>e. e\<lparr>ob_status := OutboxStatus.PENDING\<rparr>)) (\<lambda>_.
     save_entry E)))"

definition process_pending :: "'w booking_env \<Rightarrow> 'w TicketService \<Rightarrow> ('w \<times> Outbox, unit) act" where
  "process_pending E T =
     await (assign (\<lambda>e. e\<lparr>ob_status := OutboxStatus.PROCESSING\<rparr>)) (\<lambda>_.
     await (save_entry E) (\<lambda>_.
     try_catch (deliver E T) (retry_later E)))"

definition processOutbox :: "'w booking_env \<Rightarrow> 'w TicketService \<Rightarrow> ('w, unit) act" where
  "processOutbox E T =
     await (repo_find_ordered (outboxRepo E) (\<lambda>e. ob_status e = OutboxStatus.PENDING) ob_createdAt (Some 10)) (\<lambda>pendingEntries.
     if length pendingEntries = 0 then return ()
     else for_each pendingEntries (\<lambda>entry. with_object entry (process_pending E T)))"

section \<open>Delivering an entry\<close>

text \<open>What a handler may add: calls to peers, tickets and messages.\<close>

definition effect :: "peer_call list \<Rightarrow> Ticket list \<Rightarrow> kafka_message list \<Rightarrow> 'z booking_store_scheme \<Rightarrow> 'z booking_store_scheme" where
  "effect cs ts ms v = v\<lparr>peer_calls := peer_calls v @ cs, tickets := tickets v @ ts, bk_sent := bk_sent v @ ms\<rparr>"

lemma effect_simps [simp]:
  "bookings (effect cs ts ms v) = bookings v" "booking_items (effect cs ts ms v) = booking_items v"
  "outbox (effect cs ts ms v) = outbox v" "tickets (effect cs ts ms v) = tickets v @ ts"
  "bk_sent (effect cs ts ms v) = bk_sent v @ ms" "peer_calls (effect cs ts ms v) = peer_calls v @ cs"
  "bk_calm (effect cs ts ms v) = bk_calm v" "bk_clock (effect cs ts ms v) = bk_clock v"
  "effect cs ts ms (outbox_update f v) = outbox_update f (effect cs ts ms v)" "effect [] [] [] v = v"
  by (simp_all add: effect_def)

definition sold_call :: "Outbox \<Rightarrow> exn + bool \<Rightarrow> peer_call" where
  "sold_call e r = MarkSeatsAsSold (rpc_text (json_get (ob_payload e) ''eventId''))
     (rpc_texts (json_get (ob_payload e) ''seatIds'')) (rpc_text (json_get (ob_payload e) ''userId'')) r"

text \<open>
  Why an entry for the inventory fails with \<open>x\<close>: its payload is null and nothing was asked; or the inventory was asked and
  threw \<open>x\<close>, or answered \<^verbatim>\<open>false\<close>, or the payload has no \<^verbatim>\<open>seatIds\<close>, whose length is read for the log.
\<close>

definition sale_refused :: "Outbox \<Rightarrow> exn \<Rightarrow> peer_call list \<Rightarrow> bool" where
  "sale_refused e x cs \<longleftrightarrow> ob_payload e = JNull \<and> cs = [] \<or>
     (\<exists>a. cs = [sold_call e a] \<and> (case a of Inl y \<Rightarrow> y = x | Inr ok \<Rightarrow> \<not> ok \<or> json_get (ob_payload e) ''seatIds'' = None))"

definition handled ::
  "Outbox \<Rightarrow> 'z booking_store_scheme \<Rightarrow> exn + unit \<Rightarrow> peer_call list \<Rightarrow> Ticket list \<Rightarrow> kafka_message list \<Rightarrow> bool" where
  "handled e v r cs ts ms \<longleftrightarrow>
     (if ob_eventType e = ''seats.mark_sold'' then ts = [] \<and> ms = [] \<and>
        (case r of Inl x \<Rightarrow> sale_refused e x cs | Inr u \<Rightarrow> cs = [sold_call e (Inr True)])
      else if ob_eventType e = ''booking.confirmed'' then cs = [] \<and>
        (case r of Inl x \<Rightarrow> \<not> bk_calm v \<and> ts = [] \<and> ms = []
         | Inr u \<Rightarrow> ms = [(''booking.confirmed'', ob_aggregateId e, ob_payload e)] \<and>
             (if tickets_of (ob_aggregateId e) v \<noteq> [] then ts = [] else tickets_for (ob_aggregateId e) v ts))
      else if ob_eventType e = ''booking.refunded'' then cs = [] \<and> ts = [] \<and> r = Inr () \<and>
        ms = [(''booking.refunded'', ob_aggregateId e, ob_payload e)]
      else cs = [] \<and> ts = [] \<and> ms = [] \<and> r = Inr ())"

lemma outbox_update_tickets:
  "tickets_of b (outbox_update f v) = tickets_of b v" "tickets_for b (outbox_update f v) ts = tickets_for b v ts"
  "bk_calm (outbox_update f v) = bk_calm v"
  by (simp_all add: tickets_of_def tickets_for_def)

lemma handled_outbox [simp]: "handled e (outbox_update f v) r cs ts ms = handled e v r cs ts ms"
  unfolding handled_def outbox_update_tickets ..

lemma status_fields:
  "ob_eventType (e\<lparr>ob_status := s\<rparr>) = ob_eventType e" "ob_aggregateId (e\<lparr>ob_status := s\<rparr>) = ob_aggregateId e"
  "ob_payload (e\<lparr>ob_status := s\<rparr>) = ob_payload e" "sold_call (e\<lparr>ob_status := s\<rparr>) = sold_call e"
  by (simp_all add: sold_call_def fun_eq_iff)

lemma handled_fields [simp]: "handled (e\<lparr>ob_status := s\<rparr>) v r cs ts ms = handled e v r cs ts ms"
  unfolding handled_def sale_refused_def status_fields ..

context booking_world
begin

lemma processEntry_law:
  "obeys vw (processEntry E (ticketService E) e) (\<lambda>v r v'. \<exists>cs ts ms. v' = effect cs ts ms v \<and> handled e v r cs ts ms)"
proof (rule obeysI)
  fix w
  let ?S = "\<lambda>r v'. \<exists>cs ts ms. v' = effect cs ts ms (vw w) \<and> handled e (vw w) r cs ts ms"
  consider (sold) "ob_eventType e = ''seats.mark_sold''" | (conf) "ob_eventType e = ''booking.confirmed''"
    | (ref) "ob_eventType e = ''booking.refunded''"
    | (other) "ob_eventType e \<notin> {''seats.mark_sold'', ''booking.confirmed'', ''booking.refunded''}"
    by blast
  then show "wp (processEntry E (ticketService E) e) (\<lambda>r w'. ?S r (vw w')) w"
  proof cases
    case sold
    have idle: "?S (Inl x) (vw w)" if "ob_payload e = JNull" for x
      using sold that by (intro exI [of _ "[]"]) (simp add: handled_def sale_refused_def)
    have asked: "?S (Inl x) v" if "v = peer_calls_update (\<lambda>l. l @ [sold_call e a]) (vw w)"
        "case a of Inl y \<Rightarrow> y = x | Inr ok \<Rightarrow> \<not> ok \<or> json_get (ob_payload e) ''seatIds'' = None" for a x v
      using sold that by (intro exI [of _ "[sold_call e a]"] exI [of _ "[]"]) (simp add: handled_def sale_refused_def effect_def, blast)
    have sure: "?S (Inr u) v" if "v = peer_calls_update (\<lambda>l. l @ [sold_call e (Inr True)]) (vw w)" for u v
      using sold that by (intro exI [of _ "[sold_call e (Inr True)]"] exI [of _ "[]"]) (auto simp: handled_def effect_def)
    show ?thesis
    proof (cases "ob_payload e = JNull")
      case True
      then show ?thesis
        using sold idle by (simp add: processEntry_def handleSeatsSold_def js_prop_def wp_simps)
    next
      case False
      show ?thesis
        unfolding processEntry_def handleSeatsSold_def if_P [OF sold] js_prop_def if_not_P [OF False] wp_await wp_return sum.case
      proof (rule wp_obeys [OF sold_call], unfold sold_call_def [symmetric], goal_cases)
        case (1 r w1)
        then show ?case
          by (cases r; cases "json_get (ob_payload e) ''seatIds'' = None"; cases "r = Inr True")
            (auto simp: wp_simps intro: asked sure)
      qed
    qed
  next
    case conf
    show ?thesis
      using conf unfolding processEntry_def handleBookingConfirmed_def
      apply (simp add: wp_await)
      apply (rule wp_obeys [OF ticketing.generate_law])
      subgoal for r w1
      proof (cases r)
        case (Inl x)
        assume "generate_spec (ob_aggregateId e) (vw w) r (vw w1)"
        then show ?thesis
          using conf Inl by (auto simp: generate_spec_def handled_def intro!: exI [of _ "[]"])
      next
        case (Inr ts)
        assume g: "generate_spec (ob_aggregateId e) (vw w) r (vw w1)"
        let ?m = "[(''booking.confirmed'', ob_aggregateId e, ob_payload e)]"
        let ?ts = "if tickets_of (ob_aggregateId e) (vw w) \<noteq> [] then [] else ts"
        have "bk_sent_update (\<lambda>l. l @ ?m) (vw w1) = effect [] ?ts ?m (vw w)"
          using g Inr by (auto simp: generate_spec_def effect_def)
        moreover have "handled e (vw w) (Inr ()) [] ?ts ?m"
          using g Inr conf by (auto simp: generate_spec_def handled_def)
        ultimately have "?S (Inr ()) (bk_sent_update (\<lambda>l. l @ ?m) (vw w1))" by blast
        then show ?thesis
          unfolding Inr sum.case by (intro wp_obeys [OF emit_law]) (simp del: ex_simps)
      qed
      done
  next
    case ref
    then show ?thesis
      unfolding processEntry_def handleBookingRefunded_def
      by (auto simp: handled_def effect_def intro!: wp_obeys [OF emit_law])
  next
    case other
    then show ?thesis
      by (auto simp: processEntry_def wp_simps handled_def intro!: exI [of _ "[]"])
  qed
qed

end

section \<open>One entry\<close>

text \<open>The row after a delivery, and after a failure.\<close>

definition delivered :: "int \<Rightarrow> Outbox \<Rightarrow> Outbox" where
  "delivered now e = e\<lparr>ob_status := OutboxStatus.COMPLETED, ob_processedAt := Some now\<rparr>"

definition retried :: "exn \<Rightarrow> Outbox \<Rightarrow> Outbox" where
  "retried x e = e\<lparr>ob_retryCount := ob_retryCount e + 1, ob_lastError := Some (message x),
     ob_status := (if ob_maxRetries e \<le> ob_retryCount e + 1 then OutboxStatus.FAILED else OutboxStatus.PENDING)\<rparr>"

abbreviation taken :: "Outbox \<Rightarrow> Outbox" where
  "taken e \<equiv> e\<lparr>ob_status := OutboxStatus.PROCESSING\<rparr>"

text \<open>
  The entry \<open>e\<close> has been processed: it was delivered; or its handler failed, or its new state could not be
  saved, and the failure was recorded (in an object that already has its \<^verbatim>\<open>processedAt\<close>).
\<close>

definition entry_done :: "Outbox \<Rightarrow> 'z booking_store_scheme \<Rightarrow> Outbox \<Rightarrow> 'z booking_store_scheme \<Rightarrow> bool" where
  "entry_done e v x v' \<longleftrightarrow> (\<exists>cs ts ms. v' = outbox_update (upserts ob_id [x]) (effect cs ts ms v) \<and>
     (x = delivered (bk_clock v) e \<and> handled e v (Inr ()) cs ts ms \<or>
      (\<exists>err. x = retried err e \<and> handled e v (Inl err) cs ts ms) \<or>
      (\<exists>err. \<not> bk_calm v \<and> x = retried err (delivered (bk_clock v) e) \<and> handled e v (Inr ()) cs ts ms)))"

text \<open>The database went down: the entry is left as it was, or in process.\<close>

definition entry_lost :: "Outbox \<Rightarrow> 'z booking_store_scheme \<Rightarrow> 'z booking_store_scheme \<Rightarrow> bool" where
  "entry_lost e v v' \<longleftrightarrow> \<not> bk_calm v \<and> (v' = v \<or>
     (\<exists>cs ts ms r. v' = outbox_update (upserts ob_id [taken e]) (effect cs ts ms v) \<and> handled e v r cs ts ms))"

lemma taken_upsert: "ob_id x = ob_id e \<Longrightarrow> upserts ob_id [x] (upserts ob_id [taken e] t) = upserts ob_id [x] t"
  by (simp add: upsert_twice)

lemma entry_done_same [simp]:
  "delivered now (taken e) = delivered now e" "retried x (taken e) = retried x e"
  "ob_id (delivered now e) = ob_id e" "ob_id (retried x e) = ob_id e"
  by (cases e; simp add: delivered_def retried_def)+

lemma entry_failed:
  "v' = outbox_update (upserts ob_id [retried err e]) (effect cs ts ms v) \<Longrightarrow> handled e v (Inl err) cs ts ms \<Longrightarrow>
     entry_done e v (retried err e) v'"
  unfolding entry_done_def by blast

lemma entry_unsaved:
  "v' = outbox_update (upserts ob_id [retried err (delivered (bk_clock v) e)]) (effect cs ts ms v) \<Longrightarrow> \<not> bk_calm v \<Longrightarrow>
     handled e v (Inr ()) cs ts ms \<Longrightarrow> entry_done e v (retried err (delivered (bk_clock v) e)) v'"
  unfolding entry_done_def by blast

context booking_world
begin

lemma save_entry_wp:
  assumes "\<And>m w'. vw w' = vw w \<Longrightarrow> \<not> bk_calm (vw w) \<Longrightarrow> Q (Inl (JsError m)) (w', e)"
    and "\<And>w'. vw w' = outbox_update (upserts ob_id [e]) (vw w) \<Longrightarrow> Q (Inr ()) (w', e)"
  shows "wp (save_entry E) Q (w, e)"
  unfolding save_entry_def wp_simps sum.case by (rule wp_fallible [OF obs.save_law]) (auto intro: assms)

lemma retry_later_wp:
  assumes w: "vw w = outbox_update (upserts ob_id [taken e]) (effect cs ts ms v)" and h: "handled e v r cs ts ms"
    and x: "ob_id x = ob_id e" and ok: "\<And>v'. v' = outbox_update (upserts ob_id [retried err x]) (effect cs ts ms v) \<Longrightarrow>
      entry_done e v (retried err x) v'"
  shows "wp (retry_later E err) (\<lambda>r (w', y). case r of Inl z \<Rightarrow> entry_lost e v (vw w') | Inr u \<Rightarrow> entry_done e v y (vw w')) (w, x)"
proof -
  have "wp (retry_later E err) Q (w, x) = wp (save_entry E) Q (w, retried err x)" for Q
    by (simp add: retry_later_def wp_simps retried_def)
  then show ?thesis
  proof (simp only:, intro save_entry_wp, goal_cases)
    case (1 m w')
    then have "\<not> bk_calm v" using w by simp
    then show ?case using 1 w h unfolding sum.case prod.case entry_lost_def by metis
  next
    case (2 w')
    then show ?case
      using w x taken_upsert [of "retried err x" e] unfolding sum.case prod.case by (intro ok) simp
  qed
qed

lemma process_pending_wp:
  "wp (process_pending E (ticketService E)) (\<lambda>r (w', y). case r of
     Inl z \<Rightarrow> entry_lost e (vw w) (vw w') | Inr u \<Rightarrow> entry_done e (vw w) y (vw w')) (w, e)"
  unfolding process_pending_def wp_await wp_assign sum.case
proof (rule save_entry_wp, goal_cases)
  case (1 m w1)
  then show ?case by (simp add: entry_lost_def)
next
  case (2 w1)
  let ?v = "vw w"
  show ?case
    unfolding sum.case wp_try_catch deliver_def wp_await wp_get_object wp_on_world
  proof (rule wp_obeys [OF processEntry_law], goal_cases)
    case (1 r w2)
    then obtain cs ts ms where w2: "vw w2 = outbox_update (upserts ob_id [taken e]) (effect cs ts ms ?v)"
        and h: "handled e ?v r cs ts ms" using 2 by auto
    show ?case
    proof (cases r)
      case (Inl err)
      show ?thesis
        unfolding Inl sum.case
        by (rule retry_later_wp [OF w2 h]) (use h Inl in \<open>auto intro: entry_failed\<close>)
    next
      case (Inr u)
      show ?thesis
        unfolding Inr sum.case wp_await wp_on_world wp_assign
      proof (rule wp_obeys [OF now_law], goal_cases)
        case (1 r w3)
        then have w3: "vw w3 = outbox_update (upserts ob_id [taken e]) (effect cs ts ms ?v)" and r: "r = Inr (bk_clock ?v)"
          using w2 by auto
        have d: "taken e\<lparr>ob_status := OutboxStatus.COMPLETED, ob_processedAt := Some (bk_clock ?v)\<rparr> = delivered (bk_clock ?v) e"
          by (simp add: delivered_def)
        show ?case
          unfolding r sum.case wp_assign d
        proof (rule save_entry_wp, goal_cases)
          case (1 m w4)
          then show ?case
            using h Inr w3 unfolding sum.case prod.case
            by (intro retry_later_wp [OF _ h]) (auto intro: entry_unsaved)
        next
          case (2 w4)
          then have "vw w4 = outbox_update (upserts ob_id [delivered (bk_clock ?v) e]) (effect cs ts ms ?v)"
            using w3 taken_upsert [of "delivered (bk_clock ?v) e" e] by simp
          moreover have "handled e ?v (Inr ()) cs ts ms" using h Inr by simp
          ultimately show ?case unfolding sum.case prod.case entry_done_def by blast
        qed
      qed
    qed
  qed
qed

end

section \<open>A run of the outbox worker\<close>

text \<open>The ten oldest pending entries.\<close>

definition batch :: "'z booking_store_scheme \<Rightarrow> Outbox list \<Rightarrow> bool" where
  "batch v es \<longleftrightarrow> (\<exists>ys. mset ys = mset (filter (\<lambda>e. ob_status e = OutboxStatus.PENDING) (outbox v)) \<and>
     sorted (map ob_createdAt ys) \<and> es = take 10 ys)"

text \<open>The entries \<open>es\<close> are processed one after the other and end as the rows \<open>xs\<close>.\<close>

inductive outbox_run :: "'z booking_store_scheme \<Rightarrow> Outbox list \<Rightarrow> Outbox list \<Rightarrow> 'z booking_store_scheme \<Rightarrow> bool" for v where
  start: "outbox_run v [] [] v"
| go: "outbox_run v es xs v1 \<Longrightarrow> entry_done e v1 x v2 \<Longrightarrow> outbox_run v (es @ [e]) (xs @ [x]) v2"

definition outbox_post :: "'z booking_store_scheme \<Rightarrow> exn + unit \<Rightarrow> 'z booking_store_scheme \<Rightarrow> bool" where
  "outbox_post v r v' \<longleftrightarrow> (case r of
      Inr u \<Rightarrow> \<exists>es xs. batch v es \<and> outbox_run v es xs v'
    | Inl x \<Rightarrow> \<not> bk_calm v \<and> (v' = v \<or>
        (\<exists>es e zs xs v1. batch v (es @ e # zs) \<and> outbox_run v es xs v1 \<and> entry_lost e v1 v')))"

lemma batch_pending:
  assumes "batch v es" "e \<in> set es"
  shows "e \<in> set (outbox v) \<and> ob_status e = OutboxStatus.PENDING"
proof -
  obtain ys where ys: "mset ys = mset (filter (\<lambda>e. ob_status e = OutboxStatus.PENDING) (outbox v))" "es = take 10 ys"
    using assms(1) unfolding batch_def by blast
  have "e \<in> set ys" using assms(2) unfolding ys(2) by (rule in_set_takeD)
  then show ?thesis using mset_eq_setD [OF ys(1)] by simp
qed

lemma batch_length: "batch v es \<Longrightarrow> length es = min 10 (length (filter (\<lambda>e. ob_status e = OutboxStatus.PENDING) (outbox v)))"
  unfolding batch_def by (metis length_take min.commute mset_eq_length)

lemma entry_done_frame:
  "entry_done e v x v' \<Longrightarrow> bk_calm v' = bk_calm v \<and> bk_clock v' = bk_clock v \<and> booking_items v' = booking_items v \<and> bookings v' = bookings v"
  by (auto simp: entry_done_def)

lemma outbox_run_frame:
  "outbox_run v es xs v' \<Longrightarrow> bk_calm v' = bk_calm v \<and> bk_clock v' = bk_clock v \<and> booking_items v' = booking_items v \<and> bookings v' = bookings v"
  by (induction rule: outbox_run.induct) (simp_all add: entry_done_frame)

context booking_world
begin

lemma processOutbox_law: "obeys vw (processOutbox E (ticketService E)) outbox_post"
proof (rule obeysI)
  fix w
  show "wp (processOutbox E (ticketService E)) (\<lambda>r w'. outbox_post (vw w) r (vw w')) w"
    unfolding processOutbox_def wp_await
  proof (rule wp_fallible [OF obs.find_ordered_law], goal_cases)
    case (1 m w1)
    then show ?case by (simp add: outbox_post_def)
  next
    case (2 es w1)
    then have w1: "vw w1 = vw w" and es: "batch (vw w) es" by (auto simp: page_def batch_def)
    show ?case
    proof (cases "es = []")
      case True
      then show ?thesis
        using es w1 outbox_run.start by (auto simp: wp_simps outbox_post_def)
    next
      case False
      then have ne: "length es \<noteq> 0" by simp
      show ?thesis
        unfolding sum.case if_not_P [OF ne]
      proof (rule wp_for_each [where I = "\<lambda>ys w'. \<exists>xs. outbox_run (vw w) ys xs (vw w')"
            and X = "\<lambda>x w'. outbox_post (vw w) (Inl x) (vw w')"], goal_cases)
        case (1 ys e zs w2)
        then obtain xs where run: "outbox_run (vw w) ys xs (vw w2)" by blast
        have calm: "bk_calm (vw w2) = bk_calm (vw w)" using outbox_run_frame [OF run] by blast
        show ?case
          unfolding wp_with_object
        proof (rule wp_mono [OF process_pending_wp], goal_cases)
          case (1 r y)
          obtain w3 x where y: "y = (w3, x)" by fastforce
          show ?case
          proof (cases r)
            case (Inl err)
            then have "entry_lost e (vw w2) (vw w3)" using 1 y by simp
            moreover from this have "\<not> bk_calm (vw w)" using calm by (simp add: entry_lost_def)
            ultimately show ?thesis
              using run es \<open>es = ys @ e # zs\<close> unfolding y Inl sum.case prod.case outbox_post_def by blast
          next
            case (Inr u)
            then have "entry_done e (vw w2) x (vw w3)" using 1 y by simp
            then show ?thesis
              using outbox_run.go [OF run] unfolding y Inr sum.case prod.case by blast
          qed
        qed
      qed (use w1 es outbox_run.start in \<open>auto simp: outbox_post_def\<close>)
    qed
  qed
qed

end

section \<open>Invariants of the outbox and of the tickets\<close>

definition entry_ok :: "Outbox \<Rightarrow> bool" where
  "entry_ok e \<longleftrightarrow> ob_retryCount e \<le> ob_maxRetries e \<and>
     (ob_status e \<in> {OutboxStatus.PENDING, OutboxStatus.PROCESSING} \<longrightarrow> ob_retryCount e < ob_maxRetries e) \<and>
     (ob_status e = OutboxStatus.FAILED \<longrightarrow> ob_retryCount e = ob_maxRetries e \<and> ob_lastError e \<noteq> None) \<and>
     (ob_status e = OutboxStatus.COMPLETED \<longrightarrow> ob_processedAt e \<noteq> None)"

definition outbox_ok :: "'z booking_store_scheme \<Rightarrow> bool" where
  "outbox_ok v \<longleftrightarrow> distinct (map ob_id (outbox v)) \<and> (\<forall>e\<in>set (outbox v). entry_ok e)"

text \<open>A ticket belongs to an item of its booking, and no two tickets to the same item.\<close>

definition tickets_ok :: "'z booking_store_scheme \<Rightarrow> bool" where
  "tickets_ok v \<longleftrightarrow> distinct (map tk_id (tickets v)) \<and> distinct (map tk_bookingItemId (tickets v)) \<and>
     (\<forall>t\<in>set (tickets v). \<exists>i\<in>set (booking_items v). bi_id i = tk_bookingItemId t \<and> bi_bookingId i = tk_bookingId t)"

lemma new_outbox_ok: "entry_ok (new_outbox a t p i n)"
  by (simp add: new_outbox_def entry_ok_def)

lemma upsert_sub: "set (upserts rid [x] t) \<subseteq> insert x (set t)"
  by (auto simp: upsert_def)

lemma outbox_ok_save: "outbox_ok v \<Longrightarrow> entry_ok x \<Longrightarrow> outbox_ok (outbox_update (upserts ob_id [x]) v)"
  using upsert_sub [of ob_id x "outbox v"] upsert_distinct [of ob_id "outbox v" x]
  by (auto simp: outbox_ok_def simp del: upserts_Cons)

lemma entry_steps_ok:
  assumes "entry_ok e" "ob_status e = OutboxStatus.PENDING"
  shows "entry_ok (taken e)" "entry_ok (delivered now e)" "entry_ok (retried x e)" "entry_ok (retried x (delivered now e))"
  using assms by (auto simp: entry_ok_def delivered_def retried_def)

lemma outbox_ok_effect: "outbox_ok (effect cs ts ms v) = outbox_ok v"
  by (simp add: outbox_ok_def)

lemma outbox_ok_done:
  assumes "entry_done e v x v'" "entry_ok e" "ob_status e = OutboxStatus.PENDING" "outbox_ok v"
  shows "outbox_ok v'"
  using assms outbox_ok_save entry_steps_ok [OF assms(2,3)] unfolding entry_done_def
  by (metis outbox_ok_effect)

lemma outbox_ok_lost:
  assumes "entry_lost e v v'" "entry_ok e" "ob_status e = OutboxStatus.PENDING" "outbox_ok v"
  shows "outbox_ok v'"
  using assms outbox_ok_save entry_steps_ok [OF assms(2,3)] unfolding entry_lost_def
  by (metis outbox_ok_effect)

lemma outbox_ok_run:
  "outbox_run v es xs v' \<Longrightarrow> \<forall>e\<in>set es. entry_ok e \<and> ob_status e = OutboxStatus.PENDING \<Longrightarrow> outbox_ok v \<Longrightarrow> outbox_ok v'"
  by (induction rule: outbox_run.induct) (auto intro: outbox_ok_done)

lemma outbox_ok_post:
  assumes "outbox_post v r v'" "outbox_ok v"
  shows "outbox_ok v'"
proof -
  have b: "\<forall>e\<in>set es. entry_ok e \<and> ob_status e = OutboxStatus.PENDING" if "batch v es" for es
    using batch_pending [OF that] assms(2) by (auto simp: outbox_ok_def)
  show ?thesis
  proof (cases r)
    case (Inl x)
    then consider "v' = v" | es e zs xs v1 where "batch v (es @ e # zs)" "outbox_run v es xs v1" "entry_lost e v1 v'"
      using assms(1) by (auto simp: outbox_post_def)
    then show ?thesis
    proof cases
      case 2
      then show ?thesis using b [OF 2(1)] outbox_ok_run [OF 2(2) _ assms(2)] by (auto intro: outbox_ok_lost)
    qed (simp add: assms(2))
  next
    case (Inr u)
    then obtain es xs where "batch v es" "outbox_run v es xs v'"
      using assms(1) by (auto simp: outbox_post_def)
    then show ?thesis using outbox_ok_run b assms(2) by blast
  qed
qed

text \<open>Tickets are only added, for a booking without tickets, one for each of its items.\<close>

lemma tickets_ok_outbox [simp]: "tickets_ok (outbox_update f v) = tickets_ok v"
  by (simp add: tickets_ok_def)

lemma tickets_ok_added:
  assumes ok: "tickets_ok v" and items: "distinct (map bi_id (booking_items v))"
    and ts: "tickets_for b v ts" and none: "tickets_of b v = []"
  shows "tickets_ok (effect cs ts ms v)"
proof -
  let ?its = "filter (\<lambda>i. bi_bookingId i = b) (booking_items v)"
  have m: "mset (map tk_bookingItemId ts) = mset (map bi_id ?its)" using ts by (simp add: tickets_for_def)
  have "distinct (map bi_id ?its)" using items by (simp add: distinct_map_filter)
  then have d: "distinct (map tk_bookingItemId ts)" using m by (metis mset_eq_imp_distinct_iff)
  have s: "tk_bookingItemId ` set ts = bi_id ` set ?its" using m by (metis list.set_map mset_eq_setD)
  have old: "tk_bookingItemId t \<notin> bi_id ` set ?its" if t: "t \<in> set (tickets v)" for t
  proof
    assume "tk_bookingItemId t \<in> bi_id ` set ?its"
    then obtain i where i: "i \<in> set (booking_items v)" "bi_bookingId i = b" "bi_id i = tk_bookingItemId t" by auto
    obtain j where j: "j \<in> set (booking_items v)" "bi_id j = tk_bookingItemId t" "bi_bookingId j = tk_bookingId t"
      using ok t by (auto simp: tickets_ok_def)
    have "i = j" using items i j by (metis distinct_map inj_on_def)
    then show False using none t i j by (auto simp: tickets_of_def filter_empty_conv)
  qed
  have new: "\<exists>i\<in>set (booking_items v). bi_id i = tk_bookingItemId t \<and> bi_bookingId i = tk_bookingId t" if "t \<in> set ts" for t
  proof -
    have "tk_bookingItemId t \<in> bi_id ` set ?its" using s that by blast
    then show ?thesis using ts that by (auto simp: tickets_for_def)
  qed
  have "tk_bookingItemId ` set (tickets v) \<inter> tk_bookingItemId ` set ts = {}" using old unfolding s by blast
  then show ?thesis
    using ok ts d new by (auto simp: tickets_ok_def tickets_for_def)
qed

lemma tickets_ok_handled:
  assumes "handled e v r cs ts ms" "tickets_ok v" "distinct (map bi_id (booking_items v))"
  shows "tickets_ok (effect cs ts ms v)"
proof (cases "ts = []")
  case True
  then show ?thesis using assms(2) by (simp add: tickets_ok_def)
next
  case False
  then have "tickets_of (ob_aggregateId e) v = []" "tickets_for (ob_aggregateId e) v ts"
    using assms(1) by (cases r; simp add: handled_def split: if_splits)+
  then show ?thesis using tickets_ok_added [OF assms(2,3)] by blast
qed

lemma tickets_ok_done:
  "entry_done e v x v' \<Longrightarrow> tickets_ok v \<Longrightarrow> distinct (map bi_id (booking_items v)) \<Longrightarrow> tickets_ok v'"
  by (auto simp: entry_done_def dest: tickets_ok_handled)

lemma tickets_ok_lost:
  "entry_lost e v v' \<Longrightarrow> tickets_ok v \<Longrightarrow> distinct (map bi_id (booking_items v)) \<Longrightarrow> tickets_ok v'"
  by (auto simp: entry_lost_def dest: tickets_ok_handled)

lemma tickets_ok_run:
  "outbox_run v es xs v' \<Longrightarrow> tickets_ok v \<Longrightarrow> distinct (map bi_id (booking_items v)) \<Longrightarrow> tickets_ok v'"
  by (induction rule: outbox_run.induct) (metis tickets_ok_done outbox_run_frame)+

lemma tickets_ok_post:
  "outbox_post v r v' \<Longrightarrow> tickets_ok v \<Longrightarrow> distinct (map bi_id (booking_items v)) \<Longrightarrow> tickets_ok v'"
  unfolding outbox_post_def
  by (auto split: sum.splits) (metis tickets_ok_run tickets_ok_lost outbox_run_frame)+

end
