(* ===== verification/Refund_Recovery.thy ===== *)
theory Refund_Recovery
  imports Booking_Refund
begin

text \<open>
  \<^verbatim>\<open>RefundRecoveryWorker\<close> (booking/refund-recovery.worker.ts), which takes up refunds that stopped half-way.
  A run of the schedule is one call.
\<close>

section \<open>The refund recovery worker\<close>

definition REFUND_MAX_RETRIES :: nat where
  "REFUND_MAX_RETRIES = 5"

definition stuck_refund :: "Booking \<Rightarrow> bool" where
  "stuck_refund b \<longleftrightarrow> bk_refundState b \<in> {Some REFUND_INITIATED, Some PAYMENT_REFUNDED, Some SEATS_RELEASED}"

text \<open>\<^verbatim>\<open>relations: ['items']\<close> of a list of bookings.\<close>

definition load_items :: "'w booking_env \<Rightarrow> Booking list \<Rightarrow> ('w, (Booking \<times> BookingItem list) list) act" where
  "load_items E found =
     for_fold found (\<lambda>acc b.
       await (repo_find (bookingItemRepo E) (\<lambda>i. bi_bookingId i = bk_id b)) (\<lambda>items.
       return (acc @ [(b, items)]))) []"

definition recover_one :: "'w booking_env \<Rightarrow> 'w TicketService \<Rightarrow> Booking \<times> BookingItem list \<Rightarrow> ('w, unit) act" where
  "recover_one E T = (\<lambda>(booking, items).
     if REFUND_MAX_RETRIES \<le> bk_refundRetryCount booking then return ()
     else try_catch
       (await (with_object booking (processRefundStateMachine E T items)) (\<lambda>_. return ()))
       (\<lambda>error. return ()))"

definition recover_refunds :: "'w booking_env \<Rightarrow> 'w TicketService \<Rightarrow> ('w, unit) act" where
  "recover_refunds E T =
     await (repo_find (bookingRepo E) stuck_refund) (\<lambda>found.
     await (load_items E found) (\<lambda>stuckBookings.
     if length stuckBookings = 0 then return ()
     else for_each stuckBookings (recover_one E T)))"

definition recoveryStuckRefunds :: "'w booking_env \<Rightarrow> 'w TicketService \<Rightarrow> ('w \<times> bool, unit) act" where
  "recoveryStuckRefunds E T =
     await get_flag (\<lambda>isProcessing. if isProcessing then return () else
     await (set_flag True) (\<lambda>_.
     try_finally (on_world (recover_refunds E T)) (set_flag False)))"

section \<open>A run of the recovery worker\<close>

text \<open>What a run of the state machine does to the table.\<close>

lemma refund_post_rows:
  assumes p: "refund_post b items V r v" and b: "b \<in> set (bookings V)" "distinct (map bk_id (bookings V))"
  shows "distinct (map bk_id (bookings v))" and "\<And>y. y \<in> set (bookings V) \<Longrightarrow> bk_id y \<noteq> bk_id b \<Longrightarrow> y \<in> set (bookings v)"
    and "\<And>y. y \<in> set (bookings v) \<Longrightarrow> y \<in> set (bookings V) \<and> bk_id y \<noteq> bk_id b \<or>
      core y = core b \<and> (\<exists>cs. refund_path (bk_calm V) b (map bi_seatId items) (bk_refundState b) cs (bk_refundState y) \<and>
        peer_calls v = peer_calls V @ cs)"
    and "bk_calm v = bk_calm V"
proof -
  obtain x cs W where run: "refund_run_to b items V x cs W" and v: "v = moved x cs W"
    using p by (auto simp: refund_post_def)
  have x: "bk_id x = bk_id b" by (rule run_to_id [OF run])
  have W: "bookings W = bookings V" "bk_calm W = bk_calm V" "peer_calls W = peer_calls V"
    using run by (auto simp: refund_run_to_def finished_def)
  have t: "bookings v = map (\<lambda>r. if bk_id r = bk_id b then x else r) (bookings V)"
    using b W x by (auto simp: v upsert_def image_iff)
  show "distinct (map bk_id (bookings v))"
    using upsert_distinct [OF b(2), of x] by (simp add: v W)
  show "y \<in> set (bookings v)" if "y \<in> set (bookings V)" "bk_id y \<noteq> bk_id b" for y
    using that by (force simp: t)
  show "y \<in> set (bookings V) \<and> bk_id y \<noteq> bk_id b \<or> core y = core b \<and>
      (\<exists>cs. refund_path (bk_calm V) b (map bi_seatId items) (bk_refundState b) cs (bk_refundState y) \<and>
        peer_calls v = peer_calls V @ cs)" if "y \<in> set (bookings v)" for y
  proof -
    obtain z where z: "z \<in> set (bookings V)" "y = (if bk_id z = bk_id b then x else z)" using \<open>y \<in> _\<close> t by auto
    show ?thesis
    proof (cases "bk_id z = bk_id b")
      case True
      then show ?thesis using run z W(3) by (auto simp: v refund_run_to_def)
    qed (use z in auto)
  qed
  show "bk_calm v = bk_calm V" by (simp add: v W)
qed

text \<open>The bookings \<open>ls\<close> (with their items) are taken one after the other.\<close>

inductive recovery_run :: "'z booking_store_scheme \<Rightarrow> (Booking \<times> BookingItem list) list \<Rightarrow> 'z booking_store_scheme \<Rightarrow> bool" for v where
  start: "recovery_run v [] v"
| skip: "recovery_run v ls v1 \<Longrightarrow> REFUND_MAX_RETRIES \<le> bk_refundRetryCount b \<Longrightarrow> recovery_run v (ls @ [(b, items)]) v1"
| retry: "recovery_run v ls v1 \<Longrightarrow> bk_refundRetryCount b < REFUND_MAX_RETRIES \<Longrightarrow> refund_post b items v1 r v2 \<Longrightarrow>
     recovery_run v (ls @ [(b, items)]) v2"

definition stuck_list :: "'z booking_store_scheme \<Rightarrow> (Booking \<times> BookingItem list) list \<Rightarrow> bool" where
  "stuck_list v ls \<longleftrightarrow> mset (map fst ls) = mset (filter stuck_refund (bookings v)) \<and>
     (\<forall>(b, items)\<in>set ls. mset items = mset (filter (\<lambda>i. bi_bookingId i = bk_id b) (booking_items v)))"

definition recovery_post :: "'z booking_store_scheme \<Rightarrow> exn + unit \<Rightarrow> 'z booking_store_scheme \<Rightarrow> bool" where
  "recovery_post v r v' \<longleftrightarrow> (case r of
      Inr u \<Rightarrow> \<exists>ls. stuck_list v ls \<and> recovery_run v ls v'
    | Inl x \<Rightarrow> v' = v \<and> \<not> bk_calm v \<and> (\<exists>m. x = JsError m))"

lemma stuck_list_rows:
  assumes "stuck_list v ls" "distinct (map bk_id (bookings v))"
  shows "distinct (map (bk_id \<circ> fst) ls)" "(b, items) \<in> set ls \<Longrightarrow> b \<in> set (bookings v) \<and> stuck_refund b"
proof -
  have m: "mset (map fst ls) = mset (filter stuck_refund (bookings v))" using assms(1) by (simp add: stuck_list_def)
  then have "mset (map bk_id (map fst ls)) = mset (map bk_id (filter stuck_refund (bookings v)))" by (metis mset_map)
  moreover have "distinct (map bk_id (filter stuck_refund (bookings v)))" using assms(2) by (rule distinct_map_filter)
  ultimately show "distinct (map (bk_id \<circ> fst) ls)" by (metis map_map mset_eq_imp_distinct_iff)
  show "b \<in> set (bookings v) \<and> stuck_refund b" if "(b, items) \<in> set ls"
  proof -
    have "b \<in> set (map fst ls)" using that by force
    then show ?thesis using mset_eq_setD [OF m] by simp
  qed
qed

text \<open>During the loop: the rows that are still to come are as they were loaded.\<close>

definition rows_left :: "(Booking \<times> 'i) list \<Rightarrow> 'z booking_store_scheme \<Rightarrow> bool" where
  "rows_left ls v \<longleftrightarrow> distinct (map bk_id (bookings v)) \<and> fst ` set ls \<subseteq> set (bookings v)"

lemma rows_left_next:
  assumes "refund_post b items V r v" "rows_left ((b, items) # ls) V" "distinct (map (bk_id \<circ> fst) ((b, items) # ls))"
  shows "rows_left ls v"
proof -
  have b: "b \<in> set (bookings V)" "distinct (map bk_id (bookings V))" using assms(2) by (auto simp: rows_left_def)
  have "fst x \<in> set (bookings v)" if x: "x \<in> set ls" for x
    using refund_post_rows(2) [OF assms(1) b, of "fst x"] x assms(2,3) by (force simp: rows_left_def)
  then show ?thesis using refund_post_rows(1) [OF assms(1) b] by (auto simp: rows_left_def)
qed

context booking_world
begin

lemma load_items_wp:
  assumes "\<And>m w'. vw w' = vw w \<Longrightarrow> \<not> bk_calm (vw w) \<Longrightarrow> Q (Inl (JsError m)) w'"
    and "\<And>ls w'. vw w' = vw w \<Longrightarrow> map fst ls = found \<Longrightarrow>
      \<forall>(b, items)\<in>set ls. mset items = mset (filter (\<lambda>i. bi_bookingId i = bk_id b) (booking_items (vw w))) \<Longrightarrow> Q (Inr ls) w'"
  shows "wp (load_items E found) Q w"
  unfolding load_items_def
proof (rule wp_for_fold [where I = "\<lambda>ys ls w'. vw w' = vw w \<and> map fst ls = ys \<and>
        (\<forall>(b, items)\<in>set ls. mset items = mset (filter (\<lambda>i. bi_bookingId i = bk_id b) (booking_items (vw w))))"
      and X = "\<lambda>e w'. vw w' = vw w \<and> \<not> bk_calm (vw w) \<and> (\<exists>m. e = JsError m)"], goal_cases)
  case (1 ys b zs acc w1)
  then show ?case
    unfolding wp_await by (intro wp_fallible [OF bis.find_law]) (auto simp: wp_simps)
qed (use assms in auto)

lemma recover_one_wp:
  assumes "rows_left [(b, items)] (at_rest (vw w))"
  shows "wp (recover_one E (ticketService E) (b, items)) (\<lambda>r w'. r = Inr () \<and>
    (if REFUND_MAX_RETRIES \<le> bk_refundRetryCount b then w' = w
     else \<exists>r'. refund_post b items (at_rest (vw w)) r' (at_rest (vw w')))) w"
proof (cases "REFUND_MAX_RETRIES \<le> bk_refundRetryCount b")
  case True
  then show ?thesis by (simp add: recover_one_def wp_simps)
next
  case False
  have b: "b \<in> set (bookings (at_rest (vw w)))" "distinct (map bk_id (bookings (at_rest (vw w))))"
    using assms by (auto simp: rows_left_def)
  show ?thesis
    unfolding recover_one_def prod.case if_not_P [OF False] wp_try_catch wp_await wp_with_object
    by (rule wp_mono [OF process_wp [OF refl b]]) (auto simp: wp_simps split: sum.splits)
qed

lemma recover_refunds_law:
  "obeys vw (recover_refunds E (ticketService E)) (\<lambda>v r v'. distinct (map bk_id (bookings v)) \<longrightarrow>
     recovery_post (at_rest v) r (at_rest v'))"
proof (rule obeys_pre)
  fix w
  let ?V = "at_rest (vw w)"
  assume ids: "distinct (map bk_id (bookings (vw w)))"
  have down: "recovery_post ?V (Inl (JsError m)) (at_rest (vw w'))" if "vw w' = vw w" "\<not> bk_calm (vw w)" for m w'
    using that by (simp add: recovery_post_def)
  show "wp (recover_refunds E (ticketService E)) (\<lambda>r w'. recovery_post ?V r (at_rest (vw w'))) w"
    unfolding recover_refunds_def wp_await
  proof (rule wp_fallible [OF bks.find_law], goal_cases)
    case (2 found w1)
    then have w1: "vw w1 = vw w" by simp
    show ?case
      unfolding sum.case wp_await
    proof (rule load_items_wp, goal_cases)
      case (2 ls w2)
      then have w2: "vw w2 = vw w" and sl: "stuck_list ?V ls"
        using \<open>vw w1 = vw w \<and> mset found = mset (filter stuck_refund (bookings (vw w)))\<close> by (auto simp: stuck_list_def)
      note rows = stuck_list_rows [OF sl, simplified, OF ids]
      show ?case
      proof (cases "ls = []")
        case True
        then show ?thesis using sl w2 recovery_run.start by (auto simp: wp_simps recovery_post_def)
      next
        case False
        then have ne: "length ls \<noteq> 0" by simp
        show ?thesis
          unfolding sum.case if_not_P [OF ne]
        proof (rule wp_for_each [where X = "\<lambda>e w'. False" and
              I = "\<lambda>ys w'. recovery_run ?V ys (at_rest (vw w')) \<and> rows_left (drop (length ys) ls) (at_rest (vw w'))"], goal_cases)
          case (1 ys x zs w3)
          obtain b items where x: "x = (b, items)" by fastforce
          have left: "rows_left ((b, items) # zs) (at_rest (vw w3))" using 1 x by simp
          then have l1: "rows_left [(b, items)] (at_rest (vw w3))" by (auto simp: rows_left_def)
          have d: "distinct (map (bk_id \<circ> fst) ((b, items) # zs))" using rows(1) 1(1) x by simp
          show ?case
            unfolding x
          proof (rule wp_mono [OF recover_one_wp [OF l1]], goal_cases)
            case (1 r w4)
            have z: "drop (length (ys @ [(b, items)])) ls = zs" using \<open>ls = ys @ x # zs\<close> by simp
            show ?case
            proof (cases "REFUND_MAX_RETRIES \<le> bk_refundRetryCount b")
              case True
              then show ?thesis
                using 1 left \<open>recovery_run ?V ys _ \<and> _\<close> unfolding z by (auto intro: recovery_run.skip simp: rows_left_def)
            next
              case False
              then obtain r' where r': "refund_post b items (at_rest (vw w3)) r' (at_rest (vw w4))" and r: "r = Inr ()"
                using 1 by auto
              show ?thesis
                using recovery_run.retry [OF _ _ r'] False rows_left_next [OF r' left d] \<open>recovery_run ?V ys _ \<and> _\<close>
                unfolding z r sum.case by simp
            qed
          qed
        next
          case 2
          have "fst x \<in> set (bookings (vw w))" if "x \<in> set ls" for x
            using rows(2) [of "fst x" "snd x"] that by simp
          then show ?case using w2 ids recovery_run.start by (auto simp: rows_left_def)
        next
          case (4 w3)
          then show ?case using sl by (auto simp: recovery_post_def)
        qed simp
      qed
    qed (use down w1 in simp)
  qed (use down in simp)
qed

end

text \<open>Each booking is as before, or was stuck with retries left and went along the machine.\<close>

definition taken_up :: "bool \<Rightarrow> (Booking \<times> BookingItem list) list \<Rightarrow> peer_call list \<Rightarrow> Booking \<Rightarrow> bool" where
  "taken_up up ls calls y \<longleftrightarrow> (\<exists>b items cs. (b, items) \<in> set ls \<and> bk_refundRetryCount b < REFUND_MAX_RETRIES \<and>
     core y = core b \<and> set cs \<subseteq> set calls \<and>
     refund_path up b (map bi_seatId items) (bk_refundState b) cs (bk_refundState y))"

lemma taken_up_mono:
  "taken_up up ls calls y \<Longrightarrow> set ls \<subseteq> set ls' \<Longrightarrow> set calls \<subseteq> set calls' \<Longrightarrow> taken_up up ls' calls' y"
  unfolding taken_up_def by blast

lemma recovery_run_rows:
  assumes "recovery_run v ls v'" "rows_left (ls @ zs) v" "distinct (map (bk_id \<circ> fst) (ls @ zs))"
  shows "rows_left zs v' \<and> bk_calm v' = bk_calm v \<and> set (peer_calls v) \<subseteq> set (peer_calls v') \<and>
    (\<forall>y\<in>set (bookings v'). y \<in> set (bookings v) \<or> taken_up (bk_calm v) ls (peer_calls v') y)"
  using assms
proof (induction arbitrary: zs rule: recovery_run.induct)
  case start
  then show ?case by simp
next
  case (skip ls v1 b items)
  have ih: "rows_left ((b, items) # zs) v1 \<and> bk_calm v1 = bk_calm v \<and> set (peer_calls v) \<subseteq> set (peer_calls v1) \<and>
      (\<forall>y\<in>set (bookings v1). y \<in> set (bookings v) \<or> taken_up (bk_calm v) ls (peer_calls v1) y)"
    using skip.prems by (intro skip.IH) simp_all
  have "rows_left zs v1" using ih by (simp add: rows_left_def)
  moreover have "taken_up (bk_calm v) (ls @ [(b, items)]) (peer_calls v1) y" if "taken_up (bk_calm v) ls (peer_calls v1) y" for y
    by (rule taken_up_mono [OF that]) auto
  ultimately show ?case using ih by blast
next
  case (retry ls v1 b items r v2)
  have ih: "rows_left ((b, items) # zs) v1 \<and> bk_calm v1 = bk_calm v \<and> set (peer_calls v) \<subseteq> set (peer_calls v1) \<and>
      (\<forall>y\<in>set (bookings v1). y \<in> set (bookings v) \<or> taken_up (bk_calm v) ls (peer_calls v1) y)"
    using retry.prems by (intro retry.IH) simp_all
  have b: "b \<in> set (bookings v1)" "distinct (map bk_id (bookings v1))" using ih by (auto simp: rows_left_def)
  note rows = refund_post_rows [OF retry.hyps(3) b]
  have "rows_left zs v2"
    using rows_left_next [OF retry.hyps(3) conjunct1 [OF ih]] retry.prems by (simp add: comp_def)
  moreover have more: "set (peer_calls v1) \<subseteq> set (peer_calls v2)"
    using retry.hyps(3) by (auto simp: refund_post_def refund_run_to_def finished_def)
  moreover have "y \<in> set (bookings v) \<or> taken_up (bk_calm v) (ls @ [(b, items)]) (peer_calls v2) y"
    if y: "y \<in> set (bookings v2)" for y
    using rows(3) [OF y]
  proof (elim disjE conjE exE, goal_cases)
    case 1
    then have "y \<in> set (bookings v) \<or> taken_up (bk_calm v) ls (peer_calls v1) y" using ih by blast
    then show ?case using taken_up_mono [of _ ls _ y "ls @ [(b, items)]", OF _ _ more] by auto
  next
    case (2 cs)
    then show ?case
      using retry.hyps(2) ih unfolding taken_up_def
      by (intro disjI2 exI [of _ b] exI [of _ items] exI [of _ cs]) simp
  qed
  ultimately show ?case using rows(4) ih by auto
qed

end
