(* ===== verification/Booking_Memory.thy ===== *)
theory Booking_Memory
  imports Booking_Entities Payment_Memory
begin

text \<open>
  The booking service on the in-memory instance of its external systems.  The world extends that of
  the payment service (which extends that of the seat-inventory service), so that the three services
  can be run together.  The gRPC peers are a parameter: stubs with fixed answers, which may fail as the
  schedule of faults says, or the other services.
\<close>

record booking_mem = payment_mem +
  m_bookings :: "Booking list"
  m_items :: "BookingItem list"
  m_outbox :: "Outbox list"
  m_tickets :: "Ticket list"
  m_bk_tx :: bool
  m_tx_bookings :: "Booking list"
  m_tx_items :: "BookingItem list"
  m_tx_outbox :: "Outbox list"
  m_bk_sent :: "kafka_message list"
  m_calls :: "peer_call list"
  m_uuids :: "string list"

definition booking_view :: "'z booking_mem_scheme \<Rightarrow> 'z booking_store_scheme" where
  "booking_view w = \<lparr>bookings = m_bookings w, booking_items = m_items w, outbox = m_outbox w,
     tickets = m_tickets w, bk_tx = m_bk_tx w, tx_bookings = m_tx_bookings w, tx_items = m_tx_items w,
     tx_outbox = m_tx_outbox w, bk_sent = m_bk_sent w, peer_calls = m_calls w, bk_clock = mem_clock w,
     bk_calm = steady w, \<dots> = booking_mem.more w\<rparr>"

definition mem_uuid :: "('z booking_mem_scheme, string) act" where
  "mem_uuid w = (case m_uuids w of [] \<Rightarrow> (Inr ''00000000-0000'', w) | u # us \<Rightarrow> (Inr u, w\<lparr>m_uuids := us\<rparr>))"

definition recorded :: "(exn + 'a \<Rightarrow> peer_call) \<Rightarrow> ('z booking_mem_scheme, 'a) act \<Rightarrow> ('z booking_mem_scheme, 'a) act" where
  "recorded call m w = (case m w of (r, w') \<Rightarrow> (r, m_calls_update (\<lambda>l. l @ [call r]) w'))"

definition mem_booking_env ::
  "'z booking_mem_scheme SeatInventoryClient \<Rightarrow> 'z booking_mem_scheme PaymentClient \<Rightarrow> 'z booking_mem_scheme booking_env" where
  "mem_booking_env C PC = \<lparr>
     bookingRepo = mem_repo bk_id m_bookings m_bookings_update unique_numbers,
     bookingItemRepo = mem_repo bi_id m_items m_items_update (\<lambda>_. True),
     outboxRepo = mem_repo ob_id m_outbox m_outbox_update (\<lambda>_. True),
     ticketRepo = mem_repo tk_id m_tickets m_tickets_update (\<lambda>_. True),
     bookingManager = mem_manager bk_id m_bookings m_tx_bookings m_tx_bookings_update unique_numbers,
     itemManager = mem_manager bi_id m_items m_tx_items m_tx_items_update (\<lambda>_. True),
     outboxManager = mem_manager ob_id m_outbox m_tx_outbox m_tx_outbox_update (\<lambda>_. True),
     bookingRunner = mem_runner m_bk_tx
       (\<lambda>w. w\<lparr>m_bk_tx := True, m_tx_bookings := [], m_tx_items := [], m_tx_outbox := []\<rparr>)
       (\<lambda>w. w\<lparr>m_bookings := upserts bk_id (m_tx_bookings w) (m_bookings w),
          m_items := upserts bi_id (m_tx_items w) (m_items w),
          m_outbox := upserts ob_id (m_tx_outbox w) (m_outbox w),
          m_bk_tx := False, m_tx_bookings := [], m_tx_items := [], m_tx_outbox := []\<rparr>)
       (\<lambda>w. w\<lparr>m_bk_tx := False, m_tx_bookings := [], m_tx_items := [], m_tx_outbox := []\<rparr>),
     bookingKafka = mem_kafka m_bk_sent_update,
     bookingNow = mem_now,
     randomUUID = mem_uuid,
     toDataURL = (\<lambda>x. mem_step (\<lambda>w. (Inr ''data:image/png'', w))),
     seatClient = \<lparr>
       sic_getSeatsByEvent = (\<lambda>e. recorded (GetSeatsByEvent e) (sic_getSeatsByEvent C e)),
       sic_verifyHold = (\<lambda>e ss u. recorded (VerifyHold e ss u) (sic_verifyHold C e ss u)),
       sic_releaseSeats = (\<lambda>e ss u reason. recorded (ReleaseSeats e ss u reason) (sic_releaseSeats C e ss u reason)),
       sic_markSeatsAsSold = (\<lambda>e ss u. recorded (MarkSeatsAsSold e ss u) (sic_markSeatsAsSold C e ss u)),
       sic_releaseSoldSeats = (\<lambda>e ss. recorded (ReleaseSoldSeats e ss) (sic_releaseSoldSeats C e ss))\<rparr>,
     paymentClient = \<lparr>
       pc_initiatePayment = (\<lambda>req. recorded (InitiatePayment req) (pc_initiatePayment PC req)),
       pc_refundPayment = (\<lambda>b k why. recorded (RefundPayment b k why) (pc_refundPayment PC b k why))\<rparr>,
     bk_to_numeric = number_text\<rparr>"

section \<open>Peers with fixed answers\<close>

definition stub_seats :: "SeatMessage list \<Rightarrow> 'z mem_base_scheme SeatInventoryClient" where
  "stub_seats seats = \<lparr>
     sic_getSeatsByEvent = (\<lambda>e. mem_step (\<lambda>w. (Inr seats, w))),
     sic_verifyHold = (\<lambda>e ss u. mem_step (\<lambda>w. (Inr True, w))),
     sic_releaseSeats = (\<lambda>e ss u reason. mem_step (\<lambda>w. (Inr True, w))),
     sic_markSeatsAsSold = (\<lambda>e ss u. mem_step (\<lambda>w. (Inr True, w))),
     sic_releaseSoldSeats = (\<lambda>e ss. mem_step (\<lambda>w. (Inr True, w)))\<rparr>"

definition stub_payment :: "string \<Rightarrow> InitiatePaymentDto \<Rightarrow> PaymentInfo" where
  "stub_payment status req = \<lparr>pi_id = ''p1'', pi_bookingId = ip_bookingId req, pi_idempotencyKey = ip_idempotencyKey req,
     pi_amount = number_text (ip_amount req), pi_currency = ip_currency req, pi_method = ''credit_card'',
     pi_status = status, pi_provider = ''stripe'', pi_providerTxId = ''pi_1'', pi_failureReason = '''', pi_paidAt = ''''\<rparr>"

definition stub_payments :: "string \<Rightarrow> bool \<Rightarrow> 'z mem_base_scheme PaymentClient" where
  "stub_payments status refunded = \<lparr>
     pc_initiatePayment = (\<lambda>req. mem_step (\<lambda>w. (Inr (Some (stub_payment status req)), w))),
     pc_refundPayment = (\<lambda>b k why. mem_step (\<lambda>w.
       (Inr \<lparr>rr_success = refunded, rr_refundId = ''r1'', rr_failureReason = if refunded then '''' else ''declined''\<rparr>, w)))\<rparr>"

section \<open>The instance satisfies the laws\<close>

lemma booking_view_blind: "blind booking_view bk_calm"
  by (simp add: blind_def booking_view_def)

interpretation mem_bks: mem_table booking_view bk_id m_bookings m_bookings_update
  bookings bookings_update bk_clock unique_numbers bk_calm
  by unfold_locales (simp_all add: booking_view_blind, simp_all add: booking_view_def)

interpretation mem_bis: mem_table booking_view bi_id m_items m_items_update
  booking_items booking_items_update bk_clock "\<lambda>_. True" bk_calm
  by unfold_locales (simp_all add: booking_view_blind, simp_all add: booking_view_def)

interpretation mem_obs: mem_table booking_view ob_id m_outbox m_outbox_update
  outbox outbox_update bk_clock "\<lambda>_. True" bk_calm
  by unfold_locales (simp_all add: booking_view_blind, simp_all add: booking_view_def)

interpretation mem_tks: mem_table booking_view tk_id m_tickets m_tickets_update
  tickets tickets_update bk_clock "\<lambda>_. True" bk_calm
  by unfold_locales (simp_all add: booking_view_blind, simp_all add: booking_view_def)

interpretation mem_txbk: mem_pending booking_view bk_id m_bookings m_tx_bookings m_tx_bookings_update
  bookings tx_bookings tx_bookings_update bk_clock bk_tx unique_numbers bk_calm
  by unfold_locales (simp_all add: booking_view_blind, simp_all add: booking_view_def)

interpretation mem_txbi: mem_pending booking_view bi_id m_items m_tx_items m_tx_items_update
  booking_items tx_items tx_items_update bk_clock bk_tx "\<lambda>_. True" bk_calm
  by unfold_locales (simp_all add: booking_view_blind, simp_all add: booking_view_def)

interpretation mem_txob: mem_pending booking_view ob_id m_outbox m_tx_outbox m_tx_outbox_update
  outbox tx_outbox tx_outbox_update bk_clock bk_tx "\<lambda>_. True" bk_calm
  by unfold_locales (simp_all add: booking_view_blind, simp_all add: booking_view_def)

interpretation mem_bk_tx: mem_transaction booking_view m_bk_tx
  "\<lambda>w. w\<lparr>m_bk_tx := True, m_tx_bookings := [], m_tx_items := [], m_tx_outbox := []\<rparr>"
  "\<lambda>w. w\<lparr>m_bookings := upserts bk_id (m_tx_bookings w) (m_bookings w),
     m_items := upserts bi_id (m_tx_items w) (m_items w),
     m_outbox := upserts ob_id (m_tx_outbox w) (m_outbox w),
     m_bk_tx := False, m_tx_bookings := [], m_tx_items := [], m_tx_outbox := []\<rparr>"
  "\<lambda>w. w\<lparr>m_bk_tx := False, m_tx_bookings := [], m_tx_items := [], m_tx_outbox := []\<rparr>"
  bk_tx bk_begin bk_publish at_rest bk_calm
  by unfold_locales
    (simp_all add: booking_view_blind, simp_all add: booking_view_def bk_begin_def bk_publish_def in_tx_def at_rest_def)

interpretation mem_bk_kafka: mem_producer booking_view m_bk_sent_update bk_sent_update
  by unfold_locales (simp add: booking_view_def)

interpretation mem_bk_clock: mem_time booking_view bk_clock
  by unfold_locales (simp add: booking_view_def)

text \<open>A recorded call to a peer that leaves the booking service alone.\<close>

lemma obeys_recorded:
  assumes "\<And>w. booking_view (snd (m w)) = booking_view w"
  shows "obeys booking_view (recorded call m) (\<lambda>v r v'. v' = peer_calls_update (\<lambda>l. l @ [call r]) v)"
proof (rule obeysI)
  fix w
  obtain r w' where m: "m w = (r, w')" by fastforce
  have upd: "booking_view (m_calls_update f w') = peer_calls_update f (booking_view w')" for f
    by (simp add: booking_view_def)
  show "wp (recorded call m) (\<lambda>r w'. booking_view w' = peer_calls_update (\<lambda>l. l @ [call r]) (booking_view w)) w"
    using assms [of w] by (simp add: wp_def recorded_def m upd)
qed

lemma mem_step_quiet: "(\<And>w. snd (f w) = w) \<Longrightarrow> booking_view (snd (mem_step f w)) = booking_view w"
  by (simp add: mem_step_def booking_view_def split: list.splits option.splits)

interpretation mem_peers: peers_api
  "seatClient (mem_booking_env (stub_seats seats) (stub_payments status ok))"
  "paymentClient (mem_booking_env (stub_seats seats) (stub_payments status ok))"
  booking_view peer_calls_update for seats status ok
  by unfold_locales
    (simp_all add: mem_booking_env_def stub_seats_def stub_payments_def, auto intro!: obeys_recorded mem_step_quiet)

lemma mem_uuid_law: "obeys booking_view mem_uuid (\<lambda>v r v'. v' = v \<and> (\<exists>s. r = Inr s))"
  by (rule obeysI) (simp add: wp_def mem_uuid_def booking_view_def split: list.splits)

interpretation mem_bookings: booking_world "mem_booking_env (stub_seats seats) (stub_payments status ok)" booking_view
  for seats status ok
  using mem_peers.peers_api_axioms [of seats status ok]
  by (simp add: booking_world_def booking_world_axioms_def mem_booking_env_def mem_bks.table_api_axioms mem_bis.table_api_axioms
      mem_obs.table_api_axioms mem_tks.table_api_axioms mem_txbk.manager_api_axioms mem_txbi.manager_api_axioms
      mem_txob.manager_api_axioms mem_bk_tx.transaction_api_axioms mem_bk_kafka.kafka_api_axioms
      mem_bk_clock.clock_api_axioms mem_uuid_law obeys_mem_step [OF booking_view_blind])

section \<open>A concrete world\<close>

text \<open>Two held seats, and a request for one of them.\<close>

definition demo_message :: "string \<Rightarrow> SeatMessage" where
  "demo_message s = (seat_message (demo_seat s HELD))"

definition demo_bookings :: booking_mem where
  "demo_bookings = payment_mem.extend demo_payments
     \<lparr>m_bookings = [], m_items = [], m_outbox = [], m_tickets = [], m_bk_tx = False, m_tx_bookings = [],
      m_tx_items = [], m_tx_outbox = [], m_bk_sent = [], m_calls = [], m_uuids = []\<rparr>"

definition demo_request :: CreateBookingDto where
  "demo_request = \<lparr>cb_userId = ''u1'', cb_eventId = ''e1'', cb_sessionId = ''s1'', cb_cardToken = ''tok'',
     cb_paymentIdempotencyKey = ''k1'', cb_paymentProvider = None,
     cb_items = [\<lparr>bid_seatId = ''A1'', bid_attendeeName = Some ''Ada'', bid_attendeeEmail = None\<rparr>]\<rparr>"

definition demo_env :: "booking_mem booking_env" where
  "demo_env = mem_booking_env (stub_seats [demo_message ''A1'', demo_message ''A2'']) (stub_payments ''succeeded'' True)"

end
