(* ===== verification/Booking_Invariant.thy ===== *)
theory Booking_Invariant
  imports Outbox_Worker Refund_Recovery Booking_Memory
begin

text \<open>
  The invariant of the booking service, kept by all its operations, and the contracts of the operations as
  facts about runs.
\<close>

section \<open>The invariant\<close>

text \<open>Only a confirmed booking has a refund, and it is \<open>REFUNDED\<close> exactly when its refund is completed.\<close>

definition refund_status_ok :: "Booking \<Rightarrow> bool" where
  "refund_status_ok b \<longleftrightarrow> (bk_refundState b = None \<or> bk_status b \<in> {BookingStatus.CONFIRMED, BookingStatus.REFUNDED}) \<and>
     (bk_refundState b = Some RefundState.COMPLETED \<longleftrightarrow> bk_status b = BookingStatus.REFUNDED)"

definition desk_ok :: "'z booking_store_scheme \<Rightarrow> bool" where
  "desk_ok v \<longleftrightarrow> booking_ok v \<and> outbox_ok v \<and> tickets_ok v \<and> (\<forall>b\<in>set (bookings v). refund_status_ok b)"

lemma desk_ok_rest [simp]: "desk_ok (at_rest v) = desk_ok v"
  by (simp add: desk_ok_def outbox_ok_def tickets_ok_def)

lemma desk_ok_called [simp]: "desk_ok (called cs v) = desk_ok v"
  by (simp add: desk_ok_def outbox_ok_def tickets_ok_def)

lemma desk_ok_ids: "desk_ok v \<Longrightarrow> distinct (map bk_id (bookings v))"
  by (simp add: desk_ok_def booking_ok_def)

text \<open>Creating a booking.\<close>

lemma sold_entry_ok: "sold_entry dto b now e \<Longrightarrow> entry_ok e"
  unfolding sold_entry_def by (metis new_outbox_ok)

lemma confirmed_entry_ok: "confirmed_entry dto b its now e \<Longrightarrow> entry_ok e"
  unfolding confirmed_entry_def by (metis new_outbox_ok)

lemma confirm_entries_ok:
  assumes "confirm_entries dto v b its obs" "outbox_ok v"
  shows "distinct (map ob_id (outbox v @ obs)) \<and> (\<forall>e\<in>set obs. entry_ok e)"
proof -
  obtain o1 o2 where o: "obs = [o1, o2]" "entry_ok o1" "entry_ok o2" "ob_id o1 \<noteq> ob_id o2"
      "{ob_id o1, ob_id o2} \<inter> ob_id ` set (outbox v) = {}"
    using assms(1) sold_entry_ok confirmed_entry_ok unfolding confirm_entries_def by metis
  then have "ob_id o1 \<notin> ob_id ` set (outbox v)" "ob_id o2 \<notin> ob_id ` set (outbox v)" by auto
  then show ?thesis using o assms(2) by (simp add: outbox_ok_def)
qed

lemma order_fields: "order b = order b' \<Longrightarrow> bk_id b = bk_id b' \<and> bk_bookingNumber b = bk_bookingNumber b'"
  unfolding order_def by (auto dest: arg_cong [of _ _ bk_id] arg_cong [of _ _ bk_bookingNumber])

lemma create_spec_ok:
  assumes "create_spec E dto V r v" "desk_ok V"
  shows "desk_ok v"
  using assms(1) unfolding create_spec_def
proof (elim disjE exE conjE)
  fix cs
  assume "v = called cs V"
  then show ?thesis using assms(2) by simp
next
  fix answer b0 its
  assume bk: "booked E dto (selected dto answer) V b0 its"
    and post: "create_done dto (payment_request dto (bk_id b0) (total_amount (selected dto answer))
      (sm_currency (hd (selected dto answer)))) V b0 its (checks dto answer) r v"
  obtain b obs es cs where con: "consistent dto V b0 its cs b obs" and v: "v = placed b its obs es (checks dto answer @ cs) V"
    using post unfolding create_done_def by blast
  have b: "bk_id b = bk_id b0" "bk_bookingNumber b = bk_bookingNumber b0"
    using con order_fields [of b b0] unfolding consistent_def by blast+
  have obs: "distinct (map ob_id (outbox V @ obs)) \<and> (\<forall>e\<in>set obs. entry_ok e)"
    using con assms(2) confirm_entries_ok [of dto V _ its obs] unfolding consistent_def desk_ok_def outbox_ok_def
    by (metis append_Nil2 empty_iff list.set(1))
  have f: "bk_id b0 \<notin> bk_id ` set (bookings V)" "unique_numbers (bookings V @ [b0])" "distinct (map bi_id its)"
      "bi_id ` set its \<inter> bi_id ` set (booking_items V) = {}"
    using bk unfolding booked_def by blast+
  have ok: "booking_ok V" using assms(2) by (simp add: desk_ok_def)
  have "unique_numbers (bookings V @ [b])" using f(2) b(2) by (simp add: unique_numbers_def)
  moreover have "\<forall>i\<in>set (booking_items V @ its). bi_bookingId i \<in> bk_id ` set (bookings V @ [b])"
    using ok booked_items [OF bk] b(1) by (auto simp: booking_ok_def)
  ultimately have "booking_ok v"
    using f ok obs b(1) unfolding booking_ok_def v placed_simps by (simp add: Int_commute)
  moreover have "refund_status_ok b"
  proof -
    have "bk_refundState (order b) = bk_refundState (order b0)" using con unfolding consistent_def by simp
    then have "bk_refundState b = bk_refundState b0" by (simp add: order_def)
    moreover have "bk_refundState b0 = None" using bk unfolding booked_def new_booking_def by (metis Booking.select_convs(12))
    moreover have "bk_status b \<noteq> BookingStatus.REFUNDED" using con unfolding consistent_def by blast
    ultimately show ?thesis by (simp add: refund_status_ok_def)
  qed
  then have "\<forall>b\<in>set (bookings v). refund_status_ok b" using assms(2) by (simp add: v desk_ok_def)
  moreover have "outbox_ok v" using obs assms(2) by (auto simp: v desk_ok_def outbox_ok_def)
  moreover have "tickets_ok v" using assms(2) by (auto simp: v desk_ok_def tickets_ok_def)
  ultimately show ?thesis by (simp add: desk_ok_def)
qed

text \<open>Moving one booking.\<close>

lemma upsert_columns:
  assumes "b \<in> set t" "distinct (map bk_id t)" "bk_id x = bk_id b" "bk_bookingNumber x = bk_bookingNumber b"
  shows "map bk_id (upserts bk_id [x] t) = map bk_id t" "map bk_bookingNumber (upserts bk_id [x] t) = map bk_bookingNumber t"
proof -
  have eq: "y = b" if "y \<in> set t" "bk_id y = bk_id b" for y
    using assms(1,2) that by (auto simp: distinct_map inj_on_def)
  have u: "upserts bk_id [x] t = map (\<lambda>r. if bk_id r = bk_id b then x else r) t"
    using assms(1,3) by (auto simp: upsert_def image_iff)
  show "map bk_id (upserts bk_id [x] t) = map bk_id t" "map bk_bookingNumber (upserts bk_id [x] t) = map bk_bookingNumber t"
    unfolding u using eq assms(3,4) by auto
qed

lemma core_number: "core b = core b' \<Longrightarrow> bk_bookingNumber b = bk_bookingNumber b'"
  unfolding core_def by (drule arg_cong [of _ _ bk_bookingNumber]) simp

lemma desk_ok_moved:
  assumes "b \<in> set (bookings v)" "core x = core b" "desk_ok v" "refund_status_ok x"
  shows "desk_ok (moved x cs v)"
proof -
  note ids = desk_ok_ids [OF assms(3)]
  have cols: "map bk_id (upserts bk_id [x] (bookings v)) = map bk_id (bookings v)"
      "map bk_bookingNumber (upserts bk_id [x] (bookings v)) = map bk_bookingNumber (bookings v)"
    using upsert_columns [OF assms(1) ids] core_fields(1) [OF assms(2)] core_number [OF assms(2)] by simp_all
  have "bk_id ` set (upserts bk_id [x] (bookings v)) = bk_id ` set (bookings v)"
    using cols(1) by (metis list.set_map)
  moreover have "\<forall>y\<in>set (upserts bk_id [x] (bookings v)). refund_status_ok y"
    using upsert_sub [of bk_id x "bookings v"] assms(3,4) by (auto simp: desk_ok_def simp del: upserts_Cons)
  ultimately show ?thesis
    using assms(3) cols by (simp add: desk_ok_def booking_ok_def unique_numbers_def outbox_ok_def tickets_ok_def)
qed

lemma desk_ok_cancelled [simp]: "desk_ok v \<Longrightarrow> desk_ok (cancel_tickets i v)"
proof -
  let ?f = "\<lambda>t. if tk_bookingId t = i \<and> tk_status t = TicketStatus.ACTIVE then t\<lparr>tk_status := TicketStatus.CANCELLED\<rparr> else t"
  have m: "map tk_id (map ?f ts) = map tk_id ts" "map tk_bookingItemId (map ?f ts) = map tk_bookingItemId ts" for ts by auto
  assume "desk_ok v"
  then show ?thesis
    unfolding desk_ok_def booking_ok_def outbox_ok_def tickets_ok_def cancel_tickets_def
    by (simp add: m del: map_map) auto
qed

lemma desk_ok_refunded:
  assumes "refunded_entry b items v x" "desk_ok v"
  shows "desk_ok (outbox_update (\<lambda>l. l @ [x]) v)"
proof -
  have "entry_ok x" using assms(1) new_outbox_ok unfolding refunded_entry_def by metis
  then show ?thesis
    using assms by (auto simp: desk_ok_def booking_ok_def outbox_ok_def tickets_ok_def refunded_entry_def)
qed

lemma refund_status_run:
  assumes "refund_run_to b items V x cs W" "refund_status_ok b"
  shows "refund_status_ok x"
proof -
  have a: "advanced b x" and p: "refund_path (bk_calm V) b (map bi_seatId items) (bk_refundState b) cs (bk_refundState x)"
    using assms(1) by (simp_all add: refund_run_to_def)
  have "bk_refundState b \<in> {Some RefundState.COMPLETED, Some RefundState.FAILED, None} \<Longrightarrow> bk_refundState x = bk_refundState b"
    using refund_path_final [OF p] by blast
  then show ?thesis
    using a assms(2) by (auto simp: advanced_def refund_status_ok_def split: if_splits)
qed

lemma desk_ok_refund:
  assumes "refund_post b items V r v" "desk_ok V" "b \<in> set (bookings V)"
  shows "desk_ok v"
proof -
  obtain x cs W where run: "refund_run_to b items V x cs W" and v: "v = moved x cs W"
    using assms(1) by (auto simp: refund_post_def)
  have W: "bookings W = bookings V" using run_to_frame [OF run] by simp
  have entry: "refunded_entry b items (cancel_tickets i V) y = refunded_entry b items V y" for i y
    by (simp add: refunded_entry_def)
  have "desk_ok W"
    using run assms(2) desk_ok_refunded [of b items "cancel_tickets (bk_id b) V"]
    by (auto simp: refund_run_to_def finished_def entry)
  then show ?thesis
    unfolding v using run assms(2,3) W refund_status_run [OF run]
    by (intro desk_ok_moved [of b]) (auto simp: refund_run_to_def desk_ok_def)
qed

lemma desk_ok_cancel:
  assumes "cancel_spec i u key reason V r v" "desk_ok V" "at_rest V = V"
  shows "desk_ok v"
  using assms(1) unfolding cancel_spec_def Let_def
proof (elim disjE exE conjE)
  fix b0 items
  let ?b = "started_refund b0 key reason"
  let ?V = "bookings_update (upserts bk_id [?b]) V"
  assume b0: "b0 \<in> set (bookings V)" and p: "refund_post ?b items ?V r v" and can: "cancellable u b0"
  have n: "bk_bookingNumber ?b = bk_bookingNumber b0" by (simp add: started_refund_def)
  note cols = upsert_columns [OF b0 desk_ok_ids [OF assms(2)] started_refund_id n]
  have "bk_id ` set (upserts bk_id [?b] (bookings V)) = bk_id ` set (bookings V)"
    using cols(1) by (metis list.set_map)
  moreover have "refund_status_ok ?b"
    using can b0 assms(2) by (auto simp: started_refund_def cancellable_def refund_status_ok_def desk_ok_def)
  then have "\<forall>y\<in>set (upserts bk_id [?b] (bookings V)). refund_status_ok y"
    using upsert_sub [of bk_id ?b "bookings V"] assms(2) by (auto simp: desk_ok_def simp del: upserts_Cons)
  ultimately have "desk_ok ?V"
    using assms(2) cols by (simp add: desk_ok_def booking_ok_def unique_numbers_def outbox_ok_def tickets_ok_def)
  then show ?thesis
    by (rule desk_ok_refund [OF p]) (simp add: upsert_in del: upserts_Cons)
qed (simp add: assms(2))

lemma desk_ok_outbox:
  assumes "outbox_post v r v'" "desk_ok v"
  shows "desk_ok v'"
proof -
  have f: "bookings v' = bookings v \<and> booking_items v' = booking_items v"
  proof (cases r)
    case (Inl x)
    then show ?thesis
      using assms(1) outbox_run_frame by (fastforce simp: outbox_post_def entry_lost_def)
  next
    case (Inr u)
    then show ?thesis
      using assms(1) outbox_run_frame by (fastforce simp: outbox_post_def)
  qed
  have "outbox_ok v'" "tickets_ok v'"
    using assms outbox_ok_post tickets_ok_post by (auto simp: desk_ok_def booking_ok_def)
  then show ?thesis
    using assms(2) f by (simp add: desk_ok_def booking_ok_def unique_numbers_def outbox_ok_def tickets_ok_def)
qed

lemma desk_ok_checked:
  assumes "checked_in code t v t'" "desk_ok v"
  shows "desk_ok (tickets_update (upserts tk_id [t']) v)"
proof -
  have t: "t \<in> set (tickets v)" and ids: "distinct (map tk_id (tickets v))" and t': "tk_id t' = tk_id t"
      "tk_bookingItemId t' = tk_bookingItemId t" "tk_bookingId t' = tk_bookingId t"
    using assms by (auto simp: checked_in_def desk_ok_def tickets_ok_def)
  have u: "upserts tk_id [t'] (tickets v) = map (\<lambda>r. if tk_id r = tk_id t then t' else r) (tickets v)"
    using t t' by (auto simp: upsert_def image_iff)
  have eq: "y = t" if "y \<in> set (tickets v)" "tk_id y = tk_id t" for y
    using t ids that by (auto simp: distinct_map inj_on_def)
  have m: "map f (upserts tk_id [t'] (tickets v)) = map f (tickets v)" if "f t' = f t" for f :: "Ticket \<Rightarrow> string"
    unfolding u using eq that by auto
  have ok: "tickets_ok v" using assms(2) by (simp add: desk_ok_def)
  have "\<exists>i\<in>set (booking_items v). bi_id i = tk_bookingItemId x \<and> bi_bookingId i = tk_bookingId x"
    if x: "x \<in> set (upserts tk_id [t'] (tickets v))" for x
  proof -
    have "x = t' \<or> x \<in> set (tickets v)" using x upsert_sub [of tk_id t' "tickets v"] by blast
    then show ?thesis using ok t t'(2,3) unfolding tickets_ok_def by metis
  qed
  then have "tickets_ok (tickets_update (upserts tk_id [t']) v)"
    using ok m [of tk_id] m [of tk_bookingItemId] t'(1,2) by (simp add: tickets_ok_def)
  then show ?thesis
    using assms(2) m [of tk_id] t' by (simp add: desk_ok_def booking_ok_def outbox_ok_def)
qed

lemma desk_ok_recovery:
  assumes "recovery_run v ls v'" "rows_left (ls @ zs) v" "distinct (map (bk_id \<circ> fst) (ls @ zs))" "desk_ok v"
  shows "desk_ok v'"
  using assms
proof (induction arbitrary: zs rule: recovery_run.induct)
  case (skip ls v1 b items)
  then show ?case using skip.IH [of "(b, items) # zs"] by simp
next
  case (retry ls v1 b items r v2)
  have "b \<in> set (bookings v1)"
    using recovery_run_rows [OF retry.hyps(1), of "(b, items) # zs"] retry.prems by (simp add: rows_left_def comp_def)
  then show ?case using desk_ok_refund [OF retry.hyps(3)] retry.IH [of "(b, items) # zs"] retry.prems by simp
qed simp

section \<open>Runs of the operations\<close>

lemma createBooking_runs:
  assumes "booking_world E vw" "booking_ok (vw w)" "createBooking E dto w = (r, w')"
  shows "create_spec E dto (at_rest (vw w)) r (at_rest (vw w'))"
  using obeysD [OF booking_world.createBooking_law [OF assms(1)] assms(3)] assms(2) by blast

lemma cancelBooking_runs:
  assumes "booking_world E vw" "booking_ok (vw w)" "cancelBooking E (ticketService E) i u key reason w = (r, w')"
  shows "cancel_spec i u key reason (at_rest (vw w)) r (at_rest (vw w'))"
  using obeysD [OF booking_world.cancelBooking_law [OF assms(1)] assms(3)] assms(2) by blast

lemma processOutbox_runs:
  assumes "booking_world E vw" "processOutbox E (ticketService E) w = (r, w')"
  shows "outbox_post (vw w) r (vw w')"
  using obeysD [OF booking_world.processOutbox_law [OF assms(1)] assms(2)] .

lemma checkIn_runs:
  assumes "booking_world E vw" "checkIn E code w = (r, w')"
  shows "case r of
      Inl e \<Rightarrow> vw w' = vw w \<and> ((\<exists>m. e = JsError m) \<and> \<not> bk_calm (vw w) \<or>
        (\<exists>m. e = NotFound m) \<and> (\<forall>t\<in>set (tickets (vw w)). tk_ticketCode t \<noteq> code) \<or>
        (\<exists>m. e = BadRequest m) \<and> (\<exists>t\<in>set (tickets (vw w)). tk_ticketCode t = code \<and>
           tk_status t \<in> {TicketStatus.USED, TicketStatus.CANCELLED}))
    | Inr t' \<Rightarrow> \<exists>t. checked_in code t (vw w) t' \<and> vw w' = tickets_update (upserts tk_id [t']) (vw w)"
  using obeysD [OF booking_world.checkIn_law [OF assms(1)] assms(2)] .

text \<open>A run of the recovery worker, with its flag.\<close>

lemma recovery_runs:
  assumes "booking_world E vw" "distinct (map bk_id (bookings (vw w)))"
    and "recoveryStuckRefunds E (ticketService E) (w, False) = (r, (w', busy))"
  shows "recovery_post (at_rest (vw w)) r (at_rest (vw w')) \<and> \<not> busy"
proof -
  have "fst (recover_refunds E (ticketService E) w) = r" "snd (recover_refunds E (ticketService E) w) = w'" "\<not> busy"
    using assms(3) unfolding recoveryStuckRefunds_def guarded_worker by simp_all
  then show ?thesis
    using obeysD [OF booking_world.recover_refunds_law [OF assms(1)]] assms(2) by (metis prod.collapse)
qed

section \<open>The demo world\<close>

lemma demo_bookings_ok: "desk_ok (booking_view demo_bookings)"
  by code_simp

lemma demo_booking_ok: "booking_ok (booking_view demo_bookings)"
  using demo_bookings_ok by (simp add: desk_ok_def)

lemma demo_calm: "bk_calm (booking_view demo_bookings)"
  by code_simp

lemma demo_world: "booking_world demo_env booking_view"
  unfolding demo_env_def by (rule mem_bookings.booking_world_axioms)

end
