(* ===== verification/Booking_Properties.thy ===== *)
theory Booking_Properties
  imports Booking_Invariant
begin

text \<open>
  The properties of creating a booking: what a booking that returns consists of, that nobody is confirmed
  without having paid, and what a failure leaves behind.
\<close>

section \<open>Creating a booking\<close>

lemma new_booking_columns:
  assumes "booked E dto seats V b0 its" "order b = order b0"
  shows "bk_userId b = cb_userId dto" "bk_eventId b = cb_eventId dto" "bk_totalAmount b = bk_to_numeric E (total_amount seats)"
    "bk_expiresAt b = bk_clock V + 600000"
proof -
  have "b0 = new_booking E dto (bk_bookingNumber b0) (total_amount seats) (sm_currency (hd seats))
      (bk_clock V + BOOKING_EXPIRY_MS) (bk_id b0) (bk_clock V)"
    using assms(1) unfolding booked_def new_booking_def by (metis Booking.select_convs(2))
  moreover have "f (order b) = f (order b0)" for f :: "Booking \<Rightarrow> 'x" using assms(2) by simp
  from this [of bk_userId] this [of bk_eventId] this [of bk_totalAmount] this [of bk_expiresAt]
  show "bk_userId b = cb_userId dto" "bk_eventId b = cb_eventId dto" "bk_totalAmount b = bk_to_numeric E (total_amount seats)"
    "bk_expiresAt b = bk_clock V + 600000"
    by (simp_all add: order_def) (subst calculation, simp add: new_booking_def BOOKING_EXPIRY_MS_def)+
qed

lemma entry_fields:
  "sold_entry dto b now e \<Longrightarrow> ob_eventType e = ''seats.mark_sold'' \<and> ob_aggregateId e = bk_id b \<and> ob_status e = OutboxStatus.PENDING"
  "confirmed_entry dto b its now e \<Longrightarrow> ob_eventType e = ''booking.confirmed'' \<and> ob_aggregateId e = bk_id b \<and> ob_status e = OutboxStatus.PENDING"
  unfolding sold_entry_def confirmed_entry_def by (erule ssubst, simp add: new_outbox_def)
    (elim exE conjE, erule ssubst, simp add: new_outbox_def)

lemma confirm_entries_fields:
  "confirm_entries dto v b its obs \<Longrightarrow> map ob_eventType obs = [''seats.mark_sold'', ''booking.confirmed''] \<and>
     (\<forall>e\<in>set obs. ob_aggregateId e = bk_id b \<and> ob_status e = OutboxStatus.PENDING)"
  unfolding confirm_entries_def using entry_fields by fastforce

text \<open>
  C1.  A booking that was created.  When \<^verbatim>\<open>createBooking\<close> returns, exactly one booking was added: of the
  user of the request, for its event, with one item for each requested seat, over the total of the prices
  the inventory answered.  All its seats were answered as held, the hold of the user was verified, and the
  payment of this total under the key of the request was asked for, once.  If the payment succeeded the
  booking is confirmed and the outbox has its two entries; otherwise the booking is cancelled, the outbox
  is as before, and the inventory was asked to release the seats.
\<close>

theorem createBooking_success:
  assumes "booking_world E vw" "booking_ok (vw w)" "createBooking E dto w = (Inr x, w')"
  shows "\<exists>b its its' answer p obs rest. x = Some (b, its) \<and> mset its = mset its' \<and>
     bookings (vw w') = bookings (vw w) @ [b] \<and> booking_items (vw w') = booking_items (vw w) @ its' \<and>
     outbox (vw w') = outbox (vw w) @ obs \<and> tickets (vw w') = tickets (vw w) \<and> bk_sent (vw w') = bk_sent (vw w) \<and>
     bk_userId b = cb_userId dto \<and> bk_eventId b = cb_eventId dto \<and>
     bk_totalAmount b = bk_to_numeric E (total_amount (selected dto answer)) \<and>
     list_all2 (item_for E (bk_id b) (bk_clock (vw w)) (selected dto answer)) (cb_items dto) its' \<and>
     held_seats dto answer \<and>
     peer_calls (vw w') = peer_calls (vw w) @ checks dto answer @
       InitiatePayment (payment_request dto (bk_id b) (total_amount (selected dto answer))
         (sm_currency (hd (selected dto answer)))) (Inr (Some p)) # rest \<and>
     (if pi_status p = ''succeeded''
      then bk_status b = BookingStatus.CONFIRMED \<and> rest = [] \<and>
        map ob_eventType obs = [''seats.mark_sold'', ''booking.confirmed''] \<and>
        (\<forall>e\<in>set obs. ob_aggregateId e = bk_id b \<and> ob_status e = OutboxStatus.PENDING)
      else bk_status b = BookingStatus.CANCELLED \<and> obs = [] \<and>
        (\<exists>a. rest = [ReleaseSeats (cb_eventId dto) (map bid_seatId (cb_items dto)) (cb_userId dto) PAYMENT_FAILED (Inr a)]))"
proof -
  obtain answer b0 its' where held: "held_seats dto answer" and bk: "booked E dto (selected dto answer) (at_rest (vw w)) b0 its'"
    and cd: "create_done dto (payment_request dto (bk_id b0) (total_amount (selected dto answer))
        (sm_currency (hd (selected dto answer)))) (at_rest (vw w)) b0 its' (checks dto answer) (Inr x) (at_rest (vw w'))"
    using createBooking_runs [OF assms] unfolding create_spec_def by blast
  let ?req = "payment_request dto (bk_id b0) (total_amount (selected dto answer)) (sm_currency (hd (selected dto answer)))"
  obtain b obs cs its where con: "consistent dto (at_rest (vw w)) b0 its' cs b obs" and ask: "asked_for ?req cs"
    and v: "at_rest (vw w') = placed b its' obs [] (checks dto answer @ cs) (at_rest (vw w))"
    and x: "x = Some (b, its)" "mset its = mset its'"
    and st: "bk_status b = BookingStatus.CONFIRMED \<or> bk_status b = BookingStatus.CANCELLED \<and> obs = [] \<and> declined dto cs"
    using cd unfolding create_done_def sum.case by blast
  have ord: "order b = order b0" using con by (simp add: consistent_def)
  note cols = new_booking_columns [OF bk ord] and i = order_id [OF ord]
  have f: "bookings (vw w') = bookings (vw w) @ [b]" "booking_items (vw w') = booking_items (vw w) @ its'"
      "outbox (vw w') = outbox (vw w) @ obs" "tickets (vw w') = tickets (vw w)" "bk_sent (vw w') = bk_sent (vw w)"
      "peer_calls (vw w') = peer_calls (vw w) @ checks dto answer @ cs"
    using arg_cong [OF v, of bookings] arg_cong [OF v, of booking_items] arg_cong [OF v, of outbox]
      arg_cong [OF v, of tickets] arg_cong [OF v, of bk_sent] arg_cong [OF v, of peer_calls] by simp_all
  have items: "list_all2 (item_for E (bk_id b) (bk_clock (vw w)) (selected dto answer)) (cb_items dto) its'"
    using bk unfolding booked_def i by simp
  have "\<exists>p rest. cs = InitiatePayment ?req (Inr (Some p)) # rest \<and> (if pi_status p = ''succeeded''
      then bk_status b = BookingStatus.CONFIRMED \<and> rest = [] \<and>
        map ob_eventType obs = [''seats.mark_sold'', ''booking.confirmed''] \<and>
        (\<forall>e\<in>set obs. ob_aggregateId e = bk_id b \<and> ob_status e = OutboxStatus.PENDING)
      else bk_status b = BookingStatus.CANCELLED \<and> obs = [] \<and>
        (\<exists>a. rest = [ReleaseSeats (cb_eventId dto) (map bid_seatId (cb_items dto)) (cb_userId dto) PAYMENT_FAILED (Inr a)]))"
    using st
  proof (elim disjE conjE)
    assume c: "bk_status b = BookingStatus.CONFIRMED"
    then have "paid cs" "confirm_entries dto (at_rest (vw w)) b its' obs"
      using con unfolding consistent_def by metis+
    moreover have "map ob_eventType obs = [''seats.mark_sold'', ''booking.confirmed'']"
      "\<forall>e\<in>set obs. ob_aggregateId e = bk_id b \<and> ob_status e = OutboxStatus.PENDING"
      using confirm_entries_fields [OF calculation(2)] by blast+
    ultimately show ?thesis using c ask by (auto simp: paid_def asked_for_def)
  next
    assume "bk_status b = BookingStatus.CANCELLED" "obs = []" "declined dto cs"
    then show ?thesis using ask by (auto simp: declined_def asked_for_def)
  qed
  then obtain p rest where "cs = InitiatePayment ?req (Inr (Some p)) # rest" "if pi_status p = ''succeeded''
      then bk_status b = BookingStatus.CONFIRMED \<and> rest = [] \<and>
        map ob_eventType obs = [''seats.mark_sold'', ''booking.confirmed''] \<and>
        (\<forall>e\<in>set obs. ob_aggregateId e = bk_id b \<and> ob_status e = OutboxStatus.PENDING)
      else bk_status b = BookingStatus.CANCELLED \<and> obs = [] \<and>
        (\<exists>a. rest = [ReleaseSeats (cb_eventId dto) (map bid_seatId (cb_items dto)) (cb_userId dto) PAYMENT_FAILED (Inr a)])" by blast
  then show ?thesis
    using x f cols(1-3) items held i by metis
qed

theorem createBooking_success_witness:
  "\<exists>x w'. createBooking demo_env demo_request demo_bookings = (Inr x, w') \<and> length (bookings (booking_view w')) = 1"
proof -
  have "returns (createBooking demo_env demo_request) demo_bookings" by code_simp
  then obtain x w' where run: "createBooking demo_env demo_request demo_bookings = (Inr x, w')" by (rule returnsE)
  from createBooking_success [OF demo_world demo_booking_ok run]
  have "\<exists>b. bookings (booking_view w') = bookings (booking_view demo_bookings) @ [b]"
    by (elim exE conjE) (rule exI)
  moreover have "length (bookings (booking_view demo_bookings)) = 0" by code_simp
  ultimately show ?thesis using run by fastforce
qed

text \<open>What is known of every booking a run of \<^verbatim>\<open>createBooking\<close> has added.\<close>

lemma created_booking:
  assumes "booking_world E vw" "booking_ok (vw w)" "createBooking E dto w = (r, w')"
    and "b \<in> set (bookings (vw w'))" "b \<notin> set (bookings (vw w))"
  obtains answer b0 its es cs obs where "held_seats dto answer" "booked E dto (selected dto answer) (at_rest (vw w)) b0 its"
    "consistent dto (at_rest (vw w)) b0 its cs b obs" "bk_id b = bk_id b0"
    "asked_for (payment_request dto (bk_id b0) (total_amount (selected dto answer)) (sm_currency (hd (selected dto answer)))) cs"
    "at_rest (vw w') = placed b its obs es (checks dto answer @ cs) (at_rest (vw w))"
proof -
  note spec = createBooking_runs [OF assms(1-3), unfolded create_spec_def]
  have "bookings (at_rest (vw w')) \<noteq> bookings (at_rest (vw w))" using assms(4,5) by auto
  then obtain answer b0 its where held: "held_seats dto answer" and bk: "booked E dto (selected dto answer) (at_rest (vw w)) b0 its"
    and cd: "create_done dto (payment_request dto (bk_id b0) (total_amount (selected dto answer))
        (sm_currency (hd (selected dto answer)))) (at_rest (vw w)) b0 its (checks dto answer) r (at_rest (vw w'))"
    using spec by (metis called_simps(1))
  obtain b1 obs es cs where con: "consistent dto (at_rest (vw w)) b0 its cs b1 obs"
    and ask: "asked_for (payment_request dto (bk_id b0) (total_amount (selected dto answer)) (sm_currency (hd (selected dto answer)))) cs"
    and v: "at_rest (vw w') = placed b1 its obs es (checks dto answer @ cs) (at_rest (vw w))"
    using cd unfolding create_done_def by blast
  have "b = b1" using assms(4,5) arg_cong [OF v, of bookings] by simp
  moreover have "bk_id b1 = bk_id b0" using con by (auto simp: consistent_def dest: order_id)
  ultimately show thesis using that held bk con ask v by blast
qed

text \<open>
  C2.  Nobody gets a booking without having paid.  In every outcome of \<^verbatim>\<open>createBooking\<close>, failures of the
  database and of the peers included: a confirmed booking that was not there before was preceded by the
  check that its seats are held, by the verification of the hold, and by one payment of its total for its
  id that succeeded; and its two outbox entries were written with it.
\<close>

theorem booking_confirmed_only_if_paid:
  assumes "booking_world E vw" "booking_ok (vw w)" "createBooking E dto w = (r, w')"
    and "b \<in> set (bookings (vw w'))" "b \<notin> set (bookings (vw w))" "bk_status b = BookingStatus.CONFIRMED"
  shows "\<exists>answer p o1 o2. held_seats dto answer \<and> pi_status p = ''succeeded'' \<and>
     peer_calls (vw w') = peer_calls (vw w) @
       [GetSeatsByEvent (cb_eventId dto) (Inr answer),
        VerifyHold (cb_eventId dto) (map bid_seatId (cb_items dto)) (cb_userId dto) (Inr True),
        InitiatePayment (payment_request dto (bk_id b) (total_amount (selected dto answer))
          (sm_currency (hd (selected dto answer)))) (Inr (Some p))] \<and>
     outbox (vw w') = outbox (vw w) @ [o1, o2] \<and>
     ob_eventType o1 = ''seats.mark_sold'' \<and> ob_aggregateId o1 = bk_id b \<and>
     ob_eventType o2 = ''booking.confirmed'' \<and> ob_aggregateId o2 = bk_id b"
proof -
  obtain answer b0 its es cs obs where held: "held_seats dto answer" and con: "consistent dto (at_rest (vw w)) b0 its cs b obs"
    and i: "bk_id b = bk_id b0"
    and ask: "asked_for (payment_request dto (bk_id b0) (total_amount (selected dto answer)) (sm_currency (hd (selected dto answer)))) cs"
    and v: "at_rest (vw w') = placed b its obs es (checks dto answer @ cs) (at_rest (vw w))"
    by (rule created_booking [OF assms(1-5)])
  have p: "paid cs" "confirm_entries dto (at_rest (vw w)) b its obs"
    using con assms(6) unfolding consistent_def by metis+
  obtain o1 o2 where o: "obs = [o1, o2]" using p(2) by (auto simp: confirm_entries_def)
  have of: "ob_eventType o1 = ''seats.mark_sold''" "ob_aggregateId o1 = bk_id b"
      "ob_eventType o2 = ''booking.confirmed''" "ob_aggregateId o2 = bk_id b"
    using confirm_entries_fields [OF p(2)] by (simp_all add: o)
  obtain p where "cs = [InitiatePayment (payment_request dto (bk_id b) (total_amount (selected dto answer))
      (sm_currency (hd (selected dto answer)))) (Inr (Some p))]" "pi_status p = ''succeeded''"
    using p(1) ask unfolding paid_def asked_for_def i by (metis list.set_intros(1))
  then have "peer_calls (vw w') = peer_calls (vw w) @ checks dto answer @ [InitiatePayment (payment_request dto (bk_id b)
      (total_amount (selected dto answer)) (sm_currency (hd (selected dto answer)))) (Inr (Some p))]"
      "outbox (vw w') = outbox (vw w) @ [o1, o2]" "pi_status p = ''succeeded''"
    using arg_cong [OF v, of peer_calls] arg_cong [OF v, of outbox] o by simp_all
  then show ?thesis
    using held of unfolding checks_def append.simps by blast
qed

lemma demo_created:
  "returns (createBooking demo_env demo_request) demo_bookings"
  "map bk_status (bookings (booking_view (snd (createBooking demo_env demo_request demo_bookings)))) = [BookingStatus.CONFIRMED]"
  "bookings (booking_view demo_bookings) = []"
  by code_simp+

theorem booking_confirmed_only_if_paid_witness:
  "\<exists>r w' b. createBooking demo_env demo_request demo_bookings = (r, w') \<and> b \<in> set (bookings (booking_view w')) \<and>
     length (outbox (booking_view w')) = length (outbox (booking_view demo_bookings)) + 2"
proof -
  obtain r w' where run: "createBooking demo_env demo_request demo_bookings = (r, w')" by fastforce
  obtain b where b: "bookings (booking_view w') = [b]" "bk_status b = BookingStatus.CONFIRMED"
    using demo_created(2) by (auto simp: run)
  have "b \<in> set (bookings (booking_view w'))" "b \<notin> set (bookings (booking_view demo_bookings))"
    using b by (simp_all add: demo_created(3))
  from booking_confirmed_only_if_paid [OF demo_world demo_booking_ok run this b(2)]
  obtain o1 o2 where "outbox (booking_view w') = outbox (booking_view demo_bookings) @ [o1, o2]" by (elim exE conjE) (rule that)
  then show ?thesis using run b by (intro exI [of _ r] exI [of _ w'] exI [of _ b]) simp
qed




section \<open>A paid booking that is cancelled\<close>

fun succeeded_payment :: "peer_call \<Rightarrow> bool" where
  "succeeded_payment (InitiatePayment q (Inr (Some p))) = (pi_status p = ''succeeded'')"
| "succeeded_payment _ = False"

fun gives_back :: "peer_call \<Rightarrow> bool" where
  "gives_back (RefundPayment b k why r) = True"
| "gives_back (ReleaseSeats e ss u why r) = True"
| "gives_back (ReleaseSoldSeats e ss r) = True"
| "gives_back _ = False"

text \<open>The demo world in which one call, the twelfth, of the database fails.\<close>

definition failing_demo :: booking_mem where
  "failing_demo = demo_bookings\<lparr>steady := False, faults := replicate 11 None @ [Some ''connection lost'']\<rparr>"

definition traces :: "'z booking_store_scheme \<Rightarrow> BookingStatus list \<times> bool \<times> bool \<times> nat" where
  "traces v = (map bk_status (bookings v), list_ex succeeded_payment (peer_calls v), list_ex gives_back (peer_calls v),
     length (outbox v))"

text \<open>
  C39.  A customer can lose the money.  When the database fails once after the payment succeeded, while the
  booking is being confirmed, \<^verbatim>\<open>createBooking\<close> cancels the booking without asking for a refund of the payment
  and without releasing the seats; nothing is left in the outbox that would do it later.
\<close>

theorem booking_paid_but_cancelled:
  "traces (booking_view (snd (createBooking demo_env demo_request failing_demo))) = ([BookingStatus.CANCELLED], True, False, 0)"
  by code_simp

end
