(* ===== verification/Cancel_Properties.thy ===== *)
theory Cancel_Properties
  imports Booking_Invariant
begin

text \<open>
  The properties of cancelling a booking: the refund machine as a refinement of its abstract steps, its
  bound, what a refund that completed has done, what a refusal leaves behind, and the recovery worker.
\<close>

section \<open>The loop is long enough\<close>

lemma wp_any: "(\<And>r w'. Q r w') \<Longrightarrow> wp m Q w"
  by (rule wpI)

lemma save_booking_object: "(\<And>r w'. Q r (w', b)) \<Longrightarrow> wp (save_booking E) Q (w, b)"
  unfolding save_booking_def wp_await wp_get_object sum.case wp_on_world by (rule wp_any)

text \<open>Whatever the external systems do, an iteration that goes on has come closer to the end.\<close>

lemma refund_switch_closer:
  "wp (refund_switch E T items) (\<lambda>r (w', b'). case r of Inl e \<Rightarrow> True
     | Inr x \<Rightarrow> x \<noteq> Break \<and> (x = Continue \<longrightarrow> steps_left (bk_refundState b') < steps_left (bk_refundState b))) (w, b)"
proof -
  have money: "wp (refund_money E) (\<lambda>r (w', b'). case r of Inl e \<Rightarrow> True
      | Inr x \<Rightarrow> x = Continue \<and> bk_refundState b' = Some PAYMENT_REFUNDED) (w, b)"
    unfolding refund_money_def wp_await wp_get_object sum.case wp_on_world
    by (rule wp_any) (auto simp: wp_simps split: sum.splits intro!: save_booking_object)
  have seats: "wp (release_sold E ss) (\<lambda>r (w', b'). case r of Inl e \<Rightarrow> True
      | Inr x \<Rightarrow> x = Continue \<and> bk_refundState b' = Some SEATS_RELEASED) (w, b)" for ss
    unfolding release_sold_def wp_await wp_get_object sum.case wp_on_world
    by (rule wp_any) (auto simp: wp_simps split: sum.splits intro!: save_booking_object)
  have fin: "wp (complete_refund E T items) (\<lambda>r x. case r of Inl e \<Rightarrow> True
      | Inr y \<Rightarrow> y \<noteq> Break \<and> y \<noteq> Continue) (w, b)"
    unfolding complete_refund_def wp_await by (rule wp_any) (auto simp: wp_simps split: sum.splits)
  show ?thesis
    unfolding refund_switch_def wp_await wp_get_object sum.case
  proof (cases "bk_refundState b", goal_cases)
    case 1
    then show ?case by (simp add: wp_simps)
  next
    case (2 st)
    show ?case
      unfolding 2 option.case
      by (cases st) (auto simp: wp_simps split: sum.splits intro: wp_mono [OF money] wp_mono [OF seats] wp_mono [OF fin])
  qed
qed

definition refund_iteration :: "'w booking_env \<Rightarrow> 'w TicketService \<Rightarrow> BookingItem list \<Rightarrow> ('w \<times> Booking, Booking exit) act" where
  "refund_iteration E T items = try_catch (refund_switch E T items) (record_failure E)"

lemma refund_iteration_closer:
  assumes "refund_iteration E T items (w, b) = (Inr x, (w', b'))"
  shows "x \<noteq> Break \<and> (x = Continue \<longrightarrow> steps_left (bk_refundState b') < steps_left (bk_refundState b))"
proof -
  have fails: "wp (record_failure E e) (\<lambda>r y. \<exists>z. r = Inl z) y" for e y
    by (cases y) (auto simp: record_failure_def wp_simps split: sum.splits intro!: save_booking_object)
  have "wp (refund_iteration E T items) (\<lambda>r (w', b'). case r of Inl e \<Rightarrow> True
     | Inr x \<Rightarrow> x \<noteq> Break \<and> (x = Continue \<longrightarrow> steps_left (bk_refundState b') < steps_left (bk_refundState b))) (w, b)"
    unfolding refund_iteration_def wp_try_catch
    by (rule wp_mono [OF refund_switch_closer]) (auto split: sum.splits intro!: wp_mono [OF fails])
  from wpD [OF this assms] show ?thesis by simp
qed

lemma refund_loop_stable:
  assumes "steps_left (bk_refundState b) \<le> length xs" "steps_left (bk_refundState b) \<le> length ys"
  shows "for_exit xs (\<lambda>_. refund_iteration E T items) after (w, b) = for_exit ys (\<lambda>_. refund_iteration E T items) after (w, b)"
  using assms
proof (induction xs arbitrary: ys w b)
  case Nil
  then show ?case using steps_left_bounds(1) [of "bk_refundState b"] by simp
next
  case (Cons x xs)
  then obtain y zs where ys: "ys = y # zs"
    using steps_left_bounds(1) [of "bk_refundState b"] by (cases ys) auto
  obtain r w1 b1 where run: "refund_iteration E T items (w, b) = (r, (w1, b1))" by (metis prod.collapse)
  show ?case
  proof (cases r)
    case (Inl e)
    then show ?thesis by (simp add: ys await_def run)
  next
    case (Inr z)
    show ?thesis
    proof (cases "z = Continue")
      case True
      then have "steps_left (bk_refundState b1) < steps_left (bk_refundState b)"
        using refund_iteration_closer [OF run [unfolded Inr True]] by simp
      then have "for_exit xs (\<lambda>_. refund_iteration E T items) after (w1, b1) =
          for_exit zs (\<lambda>_. refund_iteration E T items) after (w1, b1)"
        using Cons.prems ys by (intro Cons.IH) auto
      then show ?thesis by (simp add: ys await_def run Inr True)
    next
      case False
      then show ?thesis by (cases z) (simp_all add: ys await_def run Inr)
    qed
  qed
qed

text \<open>
  C29.  Five iterations are enough, and so are three.  The loop of \<^verbatim>\<open>processRefundStateMachine\<close> is bounded by
  \<^verbatim>\<open>maxSteps = 5\<close>: whatever the peers, the database and the ticket service do, and whatever the state of
  the booking, the loop with any bound of at least three has the same outcome and leaves the same state, so
  the bound is never what ends a refund.
\<close>

theorem refund_loop_terminates:
  assumes "3 \<le> n"
  shows "for_exit [0..<n] (\<lambda>step. try_catch (refund_switch E T items) (record_failure E)) get_object (w, b) =
    processRefundStateMachine E T items (w, b)"
  unfolding processRefundStateMachine_def refund_iteration_def [symmetric]
  by (rule refund_loop_stable) (use steps_left_bounds(2) [of "bk_refundState b"] assms in simp_all)

theorem refund_loop_terminates_witness:
  "\<forall>b. for_exit [0..<3] (\<lambda>step. try_catch (refund_switch demo_env (ticketService demo_env) []) (record_failure demo_env)) get_object (demo_bookings, b) =
    processRefundStateMachine demo_env (ticketService demo_env) [] (demo_bookings, b)"
  by (intro allI refund_loop_terminates) simp

section \<open>Cancelling\<close>

lemma started_refund_core: "bk_id (started_refund b key reason) = bk_id b" "bk_userId (started_refund b key reason) = bk_userId b"
  "bk_status (started_refund b key reason) = bk_status b" "bk_refundRetryCount (started_refund b key reason) = bk_refundRetryCount b"
  "bk_refundState b = None \<Longrightarrow> bk_refundState (started_refund b key reason) = Some REFUND_INITIATED"
  "bk_refundState b = Some st \<Longrightarrow> started_refund b key reason = b"
  by (simp_all add: started_refund_def)

text \<open>A run of \<^verbatim>\<open>cancelBooking\<close> that gets past the guards, as a run of the machine.\<close>

lemma cancel_run:
  assumes "refund_post (started_refund b0 key reason) items (bookings_update (upserts bk_id [started_refund b0 key reason]) V) r v"
    and "b0 \<in> set (bookings V)" "distinct (map bk_id (bookings V))"
  obtains b cs W where "refund_run_to (started_refund b0 key reason) items (bookings_update (upserts bk_id [started_refund b0 key reason]) V) b cs W"
    "bookings v = map (\<lambda>x. if bk_id x = bk_id b0 then b else x) (bookings V)" "peer_calls v = peer_calls V @ cs"
    "outbox v = outbox W" "tickets v = tickets W" "bk_sent v = bk_sent V" "booking_items v = booking_items V"
    "case r of
       Inr x \<Rightarrow> x = b \<and> bk_refundState b = Some RefundState.COMPLETED \<and>
         (bk_refundState b0 \<noteq> Some RefundState.COMPLETED \<longrightarrow> finished (started_refund b0 key reason) items
            (bookings_update (upserts bk_id [started_refund b0 key reason]) V) b W)
     | Inl e \<Rightarrow> bk_calm V \<longrightarrow> outbox W = outbox V \<and> tickets W = tickets V \<and> bk_status b = bk_status b0 \<and>
         bk_refundState b \<noteq> Some RefundState.COMPLETED \<and>
         bk_refundRetryCount b = bk_refundRetryCount b0 + 1 \<and> bk_refundLastError b = Some (message e)"
proof -
  let ?b = "started_refund b0 key reason"
  let ?V = "bookings_update (upserts bk_id [?b]) V"
  obtain b cs W where run: "refund_run_to ?b items ?V b cs W" and v: "v = moved b cs W"
    and res: "case r of
          Inr x \<Rightarrow> x = b \<and> bk_refundState b = Some RefundState.COMPLETED \<and>
            (if bk_refundState ?b = Some RefundState.COMPLETED then b = ?b \<and> W = ?V \<and> cs = [] else finished ?b items ?V b W)
        | Inl e \<Rightarrow> bk_calm ?V \<longrightarrow> W = ?V \<and> bk_status b = bk_status ?b \<and> bk_refundState b \<noteq> Some RefundState.COMPLETED \<and>
            bk_refundRetryCount b = bk_refundRetryCount ?b + 1 \<and> bk_refundLastError b = Some (message e)"
    using assms(1) unfolding refund_post_def by blast
  have W: "bookings W = upserts bk_id [?b] (bookings V)" "peer_calls W = peer_calls V" "bk_sent W = bk_sent V"
      "booking_items W = booking_items V"
    using run by (auto simp: refund_run_to_def finished_def cancel_tickets_def)
  have i: "bk_id b = bk_id b0" using run_to_id [OF run] by simp
  have "bookings v = upserts bk_id [b] (bookings V)"
    using upsert_twice [of bk_id b ?b] i by (simp add: v W)
  also have "\<dots> = map (\<lambda>x. if bk_id x = bk_id b0 then b else x) (bookings V)"
    using assms(2) i by (auto simp: upsert_def image_iff)
  finally have rows: "bookings v = map (\<lambda>x. if bk_id x = bk_id b0 then b else x) (bookings V)" .
  have state: "bk_refundState ?b = Some RefundState.COMPLETED \<longleftrightarrow> bk_refundState b0 = Some RefundState.COMPLETED"
    by (simp add: started_refund_def)
  show thesis
  proof (rule that [OF run rows])
    show "case r of
       Inr x \<Rightarrow> x = b \<and> bk_refundState b = Some RefundState.COMPLETED \<and>
         (bk_refundState b0 \<noteq> Some RefundState.COMPLETED \<longrightarrow> finished ?b items ?V b W)
     | Inl e \<Rightarrow> bk_calm V \<longrightarrow> outbox W = outbox V \<and> tickets W = tickets V \<and> bk_status b = bk_status b0 \<and>
         bk_refundState b \<noteq> Some RefundState.COMPLETED \<and>
         bk_refundRetryCount b = bk_refundRetryCount b0 + 1 \<and> bk_refundLastError b = Some (message e)"
      using res state by (cases r) (auto simp: started_refund_core)
  qed (simp_all add: v W)
qed


text \<open>The world after the demo request was booked.\<close>

definition booked_demo :: booking_mem where
  "booked_demo = snd (createBooking demo_env demo_request demo_bookings)"

lemma booked_demo_ok: "desk_ok (booking_view booked_demo)"
proof -
  have "create_spec demo_env demo_request (at_rest (booking_view demo_bookings)) (fst (createBooking demo_env demo_request demo_bookings))
      (at_rest (booking_view booked_demo))"
    by (rule createBooking_runs [OF demo_world demo_booking_ok]) (simp add: booked_demo_def)
  from create_spec_ok [OF this] show ?thesis using demo_bookings_ok by simp
qed

lemma booked_demo_booking_ok: "booking_ok (booking_view booked_demo)"
  using booked_demo_ok by (simp add: desk_ok_def)

lemma booked_demo_facts:
  "map (\<lambda>b. (bk_id b, bk_userId b, bk_refundState b)) (bookings (booking_view booked_demo)) = [(''i'', ''u1'', None)]"
  "bk_calm (booking_view booked_demo)"
  "returns (cancelBooking demo_env (ticketService demo_env) ''i'' ''u1'' ''rk'' None) booked_demo"
  "throws (cancelBooking demo_env (ticketService demo_env) ''i'' ''u2'' ''rk'' None) booked_demo"
  by code_simp+


text \<open>
  C15.  A cancellation that failed.  While the database is up, a \<^verbatim>\<open>cancelBooking\<close> that throws has either
  changed nothing and called nobody, because there is no such booking, or because it is not the caller's or
  not confirmed; or the refund stopped on its way: the booking is still confirmed, its retry count went up by
  one, it carries the message of the error, and tickets, outbox and messages are as before.
\<close>

theorem cancelBooking_failure:
  assumes "booking_world E vw" "booking_ok (vw w)" "bk_calm (vw w)"
    and "cancelBooking E (ticketService E) i u key reason w = (Inl e, w')"
  shows "tickets (vw w') = tickets (vw w) \<and> outbox (vw w') = outbox (vw w) \<and> bk_sent (vw w') = bk_sent (vw w) \<and>
    (bookings (vw w') = bookings (vw w) \<and> peer_calls (vw w') = peer_calls (vw w) \<and>
       ((\<exists>m. e = NotFound m) \<and> (\<forall>b\<in>set (bookings (vw w)). bk_id b \<noteq> i) \<or>
        (\<exists>m. e = BadRequest m) \<and> (\<exists>b\<in>set (bookings (vw w)). bk_id b = i \<and> (bk_userId b \<noteq> u \<or> bk_status b \<noteq> BookingStatus.CONFIRMED))) \<or>
     (\<exists>b0\<in>set (bookings (vw w)). \<exists>b cs. bk_id b0 = i \<and> bk_userId b0 = u \<and>
       bookings (vw w') = map (\<lambda>x. if bk_id x = i then b else x) (bookings (vw w)) \<and>
       bk_status b = BookingStatus.CONFIRMED \<and> bk_refundState b \<noteq> Some RefundState.COMPLETED \<and>
       bk_refundRetryCount b = bk_refundRetryCount b0 + 1 \<and> bk_refundLastError b = Some (message e) \<and>
       peer_calls (vw w') = peer_calls (vw w) @ cs))"
  using cancelBooking_runs [OF assms(1,2,4), unfolded cancel_spec_def Let_def sum.case]
proof (elim disjE exE conjE, goal_cases)
  case (4 b0 items)
  have ids: "distinct (map bk_id (bookings (at_rest (vw w))))" using assms(2) by (simp add: booking_ok_def)
  obtain b cs W where "refund_run_to (started_refund b0 key reason) items (bookings_update (upserts bk_id [started_refund b0 key reason]) (at_rest (vw w))) b cs W"
    and "bookings (at_rest (vw w')) = map (\<lambda>x. if bk_id x = bk_id b0 then b else x) (bookings (at_rest (vw w)))"
    and "peer_calls (at_rest (vw w')) = peer_calls (at_rest (vw w)) @ cs"
    and "outbox (at_rest (vw w')) = outbox W" "tickets (at_rest (vw w')) = tickets W"
    and "bk_sent (at_rest (vw w')) = bk_sent (at_rest (vw w))" "booking_items (at_rest (vw w')) = booking_items (at_rest (vw w))"
    and fin: "bk_calm (at_rest (vw w)) \<longrightarrow> outbox W = outbox (at_rest (vw w)) \<and> tickets W = tickets (at_rest (vw w)) \<and>
      bk_status b = bk_status b0 \<and> bk_refundState b \<noteq> Some RefundState.COMPLETED \<and>
      bk_refundRetryCount b = bk_refundRetryCount b0 + 1 \<and> bk_refundLastError b = Some (message e)"
    by (rule cancel_run [OF 4(5,1) ids, unfolded sum.case])
  then show ?case
    using assms(3) 4(1-3) by (auto simp: cancellable_def intro!: bexI [of _ b0])
qed (use assms(3) in \<open>auto simp: cancellable_def dest: arg_cong [of _ _ bookings] arg_cong [of _ _ peer_calls]
    arg_cong [of _ _ tickets] arg_cong [of _ _ outbox] arg_cong [of _ _ bk_sent]\<close>)

theorem cancelBooking_failure_witness:
  "\<exists>e w'. cancelBooking demo_env (ticketService demo_env) ''i'' ''u2'' ''rk'' None booked_demo = (Inl e, w') \<and>
     tickets (booking_view w') = tickets (booking_view booked_demo)"
proof -
  obtain e w' where run: "cancelBooking demo_env (ticketService demo_env) ''i'' ''u2'' ''rk'' None booked_demo = (Inl e, w')"
    using booked_demo_facts(4) by (rule throwsE)
  then show ?thesis
    using cancelBooking_failure [OF demo_world booked_demo_booking_ok booked_demo_facts(2) run] by blast
qed

text \<open>
  C11.  The refund machine refines its abstract steps.  In every outcome of \<^verbatim>\<open>cancelBooking\<close>, with any answers
  of the peers and any failures: either no booking has changed, or exactly the booking of the request has,
  only in the columns of the refund, and its refund state was reached from the one before along a path of
  \<^const>\<open>refund_step\<close> whose calls are exactly the calls that were made.
\<close>

theorem cancelBooking_refines_machine:
  assumes "booking_world E vw" "booking_ok (vw w)" "cancelBooking E (ticketService E) i u key reason w = (r, w')"
  shows "bookings (vw w') = bookings (vw w) \<and> peer_calls (vw w') = peer_calls (vw w) \<or>
    (\<exists>b0\<in>set (bookings (vw w)). \<exists>b1 b items cs. bk_id b0 = i \<and> b1 = started_refund b0 key reason \<and>
       mset items = mset (filter (\<lambda>x. bi_bookingId x = i) (booking_items (vw w))) \<and>
       bookings (vw w') = map (\<lambda>x. if bk_id x = i then b else x) (bookings (vw w)) \<and> core b = core b1 \<and>
       peer_calls (vw w') = peer_calls (vw w) @ cs \<and>
       refund_path (bk_calm (vw w)) b1 (map bi_seatId items) (bk_refundState b1) cs (bk_refundState b))"
  using cancelBooking_runs [OF assms, unfolded cancel_spec_def Let_def]
proof (elim disjE exE conjE, goal_cases)
  case 1
  then show ?case by (auto dest: arg_cong [of _ _ bookings] arg_cong [of _ _ peer_calls])
next
  case (2 b0 items)
  have ids: "distinct (map bk_id (bookings (at_rest (vw w))))" using assms(2) by (simp add: booking_ok_def)
  let ?b = "started_refund b0 key reason"
  obtain b cs W where run: "refund_run_to ?b items (bookings_update (upserts bk_id [?b]) (at_rest (vw w))) b cs W"
    and rows: "bookings (at_rest (vw w')) = map (\<lambda>x. if bk_id x = bk_id b0 then b else x) (bookings (at_rest (vw w)))"
    and calls: "peer_calls (at_rest (vw w')) = peer_calls (at_rest (vw w)) @ cs"
    by (rule cancel_run [OF 2(5,1) ids])
  have "core b = core ?b" "refund_path (bk_calm (vw w)) ?b (map bi_seatId items) (bk_refundState ?b) cs (bk_refundState b)"
    using run by (simp_all add: refund_run_to_def)
  then show ?case
    using rows calls 2(1,2,4) unfolding at_rest_simps by blast
qed

theorem cancelBooking_refines_machine_witness:
  "\<exists>r w'. cancelBooking demo_env (ticketService demo_env) ''i'' ''u1'' ''rk'' None booked_demo = (r, w') \<and>
     length (bookings (booking_view w')) = length (bookings (booking_view booked_demo))"
proof -
  obtain r w' where run: "cancelBooking demo_env (ticketService demo_env) ''i'' ''u1'' ''rk'' None booked_demo = (r, w')" by fastforce
  have "length (bookings (booking_view w')) = length (bookings (booking_view booked_demo))"
    using cancelBooking_refines_machine [OF demo_world booked_demo_booking_ok run] by (elim disjE bexE exE conjE) simp_all
  then show ?thesis using run by blast
qed

section \<open>The recovery worker\<close>

text \<open>
  The recovery of refunds.  A run of the worker that was not running yet never stays marked as running;
  while the database is up it does not throw.  In every outcome each booking is as before, or it was stuck in
  one of the three intermediate states with fewer than five retries, has changed only in the columns of the
  refund, and has moved along a path of the refund machine by calls that were made.
\<close>

theorem recovery_moves_stuck_refunds:
  assumes "booking_world E vw" "booking_ok (vw w)" "recoveryStuckRefunds E (ticketService E) (w, False) = (r, (w', busy))"
  shows "\<not> busy \<and> (bk_calm (vw w) \<longrightarrow> r = Inr ()) \<and>
    (\<forall>y\<in>set (bookings (vw w')). y \<in> set (bookings (vw w)) \<or>
      (\<exists>b\<in>set (bookings (vw w)). \<exists>items cs. bk_refundState b \<in> {Some REFUND_INITIATED, Some PAYMENT_REFUNDED, Some SEATS_RELEASED} \<and>
         bk_refundRetryCount b < 5 \<and> core y = core b \<and> set cs \<subseteq> set (peer_calls (vw w')) \<and>
         mset items = mset (filter (\<lambda>x. bi_bookingId x = bk_id b) (booking_items (vw w))) \<and>
         refund_path (bk_calm (vw w)) b (map bi_seatId items) (bk_refundState b) cs (bk_refundState y)))"
proof -
  let ?V = "at_rest (vw w)"
  have ids: "distinct (map bk_id (bookings (vw w)))" using assms(2) by (simp add: booking_ok_def)
  note post = recovery_runs [OF assms(1) ids assms(3)]
  show ?thesis
  proof (cases r)
    case (Inl x)
    then show ?thesis using post by (auto simp: recovery_post_def dest: arg_cong [of _ _ bookings])
  next
    case (Inr u)
    then obtain ls where ls: "stuck_list ?V ls" "recovery_run ?V ls (at_rest (vw w'))"
      using post by (auto simp: recovery_post_def)
    have ids': "distinct (map bk_id (bookings ?V))" using ids by simp
    note rows = stuck_list_rows [OF ls(1) ids']
    have left: "rows_left (ls @ []) ?V" using rows(2) ids by (auto simp: rows_left_def)
    have "y \<in> set (bookings (vw w)) \<or> taken_up (bk_calm (vw w)) ls (peer_calls (vw w')) y" if "y \<in> set (bookings (vw w'))" for y
      using recovery_run_rows [OF ls(2) left] rows(1) that by simp
    moreover have "b \<in> set (bookings (vw w)) \<and> stuck_refund b \<and>
        mset items = mset (filter (\<lambda>x. bi_bookingId x = bk_id b) (booking_items (vw w)))" if "(b, items) \<in> set ls" for b items
      using rows(2) [OF that] ls(1) that by (auto simp: stuck_list_def)
    ultimately show ?thesis
      using post Inr unfolding taken_up_def stuck_refund_def REFUND_MAX_RETRIES_def
      by (intro conjI ballI) (simp, simp, meson)
  qed
qed

theorem recovery_moves_stuck_refunds_witness:
  "\<exists>r w'. recoveryStuckRefunds demo_env (ticketService demo_env) (booked_demo, False) = (r, (w', False)) \<and> r = Inr ()"
proof -
  obtain r w' busy where run: "recoveryStuckRefunds demo_env (ticketService demo_env) (booked_demo, False) = (r, (w', busy))"
    by (metis prod.collapse)
  then show ?thesis
    using recovery_moves_stuck_refunds [OF demo_world booked_demo_booking_ok run] booked_demo_facts(2) by simp
qed

end
