(* ===== verification/Table_History.thy ===== *)
theory Table_History
  imports Storage
begin

text \<open>
  How a table changes over time when rows are only added and moved along a relation; the histories of the
  services are stated with \<open>grows\<close>.
\<close>

section \<open>Tables that grow\<close>

text \<open>Rows are only added at the end, and the old ones have moved along \<open>R\<close>.\<close>

definition grows :: "('a \<Rightarrow> 'a \<Rightarrow> bool) \<Rightarrow> 'a list \<Rightarrow> 'a list \<Rightarrow> bool" where
  "grows R t t' \<longleftrightarrow> (\<exists>u new. t' = u @ new \<and> list_all2 R t u)"

lemma grows_add: "(\<And>x. R x x) \<Longrightarrow> grows R t (t @ new)"
  unfolding grows_def by (metis list_all2_refl)

lemma grows_refl: "(\<And>x. R x x) \<Longrightarrow> grows R t t"
  using grows_add [of R t "[]"] by simp

lemma grows_trans:
  assumes "\<And>x y z. R x y \<Longrightarrow> R y z \<Longrightarrow> R x z" "grows R t t'" "grows R t' t''"
  shows "grows R t t''"
proof -
  obtain u n u' n' where t: "t' = u @ n" "list_all2 R t u" "t'' = u' @ n'" "list_all2 R t' u'"
    using assms(2,3) unfolding grows_def by blast
  then obtain u1 u2 where u: "u' = u1 @ u2" "list_all2 R u u1" by (auto simp: list_all2_append1)
  have "list_all2 R t u1" using list_all2_trans [OF assms(1) t(2) u(2)] .
  then show ?thesis using t(3) u(1) unfolding grows_def by auto
qed

lemma grows_map: "(\<And>x. x \<in> set t \<Longrightarrow> R x (f x)) \<Longrightarrow> grows R t (map f t)"
  unfolding grows_def by (intro exI [of _ "map f t"] exI [of _ "[]"]) (simp add: list_all2_conv_all_nth)

lemma upsert_row: "b \<in> set t \<Longrightarrow> rid x = rid b \<Longrightarrow> upserts rid [x] t = map (\<lambda>r. if rid r = rid b then x else r) t"
  by (auto simp: upsert_def image_iff)

lemma row_by_id: "distinct (map rid t) \<Longrightarrow> b \<in> set t \<Longrightarrow> y \<in> set t \<Longrightarrow> rid y = rid b \<Longrightarrow> y = b"
  by (auto simp: distinct_map inj_on_def)

lemma grows_upsert:
  assumes "\<And>x. R x x" "b \<in> set t" "distinct (map rid t)" "rid x = rid b" "R b x"
  shows "grows R t (upserts rid [x] t)"
  unfolding upsert_row [OF assms(2,4)]
  by (rule grows_map) (use assms row_by_id [OF assms(3,2)] in auto)

lemma grows_in: "grows R t t' \<Longrightarrow> a \<in> set t \<Longrightarrow> \<exists>b\<in>set t'. R a b"
  unfolding grows_def by (metis Un_iff in_set_conv_nth list_all2_conv_all_nth set_append)

end
