(* ===== verification/Booking_History.thy ===== *)
theory Booking_History
  imports Booking_Invariant Table_History
begin

text \<open>
  The booking service over time: any sequence of its operations keeps the invariant and the tickets of every
  booking complete, removes nothing, and moves the rows of its tables only along their life cycles.
\<close>

section \<open>How rows move\<close>

fun refund_rank :: "RefundState option \<Rightarrow> nat" where
  "refund_rank None = 0"
| "refund_rank (Some REFUND_INITIATED) = 1"
| "refund_rank (Some PAYMENT_REFUNDED) = 2"
| "refund_rank (Some SEATS_RELEASED) = 3"
| "refund_rank (Some RefundState.COMPLETED) = 4"
| "refund_rank (Some RefundState.FAILED) = 4"

lemma refund_rank_none: "refund_rank s = 0 \<longleftrightarrow> s = None"
  by (cases s rule: refund_rank.cases) simp_all

text \<open>
  A booking keeps what was ordered.  Its status only changes from confirmed to refunded, with the completion of its
  refund, which also sets the time of the cancellation; pending, cancelled and refunded bookings stay what they are.  Its
  refund only goes forward, keeps its key and reason once it has begun, and ends where it was completed or failed.
\<close>

definition booking_moves :: "Booking \<Rightarrow> Booking \<Rightarrow> bool" where
  "booking_moves a b \<longleftrightarrow> bk_id b = bk_id a \<and> bk_bookingNumber b = bk_bookingNumber a \<and> bk_userId b = bk_userId a \<and>
     bk_eventId b = bk_eventId a \<and> bk_totalAmount b = bk_totalAmount a \<and> bk_currency b = bk_currency a \<and>
     bk_expiresAt b = bk_expiresAt a \<and> bk_confirmedAt b = bk_confirmedAt a \<and> bk_createdAt b = bk_createdAt a \<and>
     (bk_status b = bk_status a \<and> bk_cancelledAt b = bk_cancelledAt a \<or>
      bk_status a = BookingStatus.CONFIRMED \<and> bk_status b = BookingStatus.REFUNDED \<and> bk_refundState b = Some RefundState.COMPLETED) \<and>
     refund_rank (bk_refundState a) \<le> refund_rank (bk_refundState b) \<and>
     (bk_refundState a \<in> {Some RefundState.COMPLETED, Some RefundState.FAILED} \<longrightarrow> bk_refundState b = bk_refundState a) \<and>
     (bk_refundState a \<noteq> None \<longrightarrow> bk_refundIdempotencyKey b = bk_refundIdempotencyKey a \<and>
        bk_cancellationReason b = bk_cancellationReason a) \<and>
     bk_refundRetryCount a \<le> bk_refundRetryCount b"

lemma booking_moves_refl [simp]: "booking_moves a a"
  by (simp add: booking_moves_def)

lemma booking_moves_trans:
  assumes "booking_moves a b" "booking_moves b c"
  shows "booking_moves a c"
proof -
  have "bk_refundState b \<noteq> None" if "bk_refundState a \<noteq> None"
    using that assms(1) refund_rank_none [of "bk_refundState a"] refund_rank_none [of "bk_refundState b"]
    by (auto simp: booking_moves_def)
  then show ?thesis using assms by (auto simp: booking_moves_def)
qed

definition entry_moves :: "Outbox \<Rightarrow> Outbox \<Rightarrow> bool" where
  "entry_moves a b \<longleftrightarrow> ob_id b = ob_id a \<and> ob_aggregateId b = ob_aggregateId a \<and> ob_eventType b = ob_eventType a \<and>
     ob_payload b = ob_payload a \<and> ob_maxRetries b = ob_maxRetries a \<and> ob_retryCount a \<le> ob_retryCount b \<and>
     (ob_status a \<noteq> OutboxStatus.PENDING \<longrightarrow> b = a)"

lemma entry_moves_refl [simp]: "entry_moves a a"
  by (simp add: entry_moves_def)

lemma entry_moves_trans: "entry_moves a b \<Longrightarrow> entry_moves b c \<Longrightarrow> entry_moves a c"
  by (auto simp: entry_moves_def)

lemma entry_moves_steps:
  assumes "ob_status e = OutboxStatus.PENDING"
  shows "entry_moves e (taken e)" "entry_moves e (delivered n e)" "entry_moves e (retried x e)"
    "entry_moves e (retried x (delivered n e))"
  using assms by (simp_all add: entry_moves_def delivered_def retried_def)

definition history :: "'z booking_store_scheme \<Rightarrow> 'z booking_store_scheme \<Rightarrow> bool" where
  "history v v' \<longleftrightarrow> grows booking_moves (bookings v) (bookings v') \<and> grows (=) (booking_items v) (booking_items v') \<and>
     grows entry_moves (outbox v) (outbox v') \<and> grows ticket_moves (tickets v) (tickets v')"

lemma history_refl [simp]: "history v v"
  by (simp add: history_def grows_refl)

lemma history_trans:
  assumes "history v v'" "history v' v''"
  shows "history v v''"
  unfolding history_def
proof (intro conjI)
  show "grows booking_moves (bookings v) (bookings v'')"
    by (rule grows_trans [where t' = "bookings v'", OF booking_moves_trans]) (use assms in \<open>auto simp: history_def\<close>)
  show "grows (=) (booking_items v) (booking_items v'')"
    by (rule grows_trans [where t' = "booking_items v'", OF trans]) (use assms in \<open>auto simp: history_def\<close>)
  show "grows entry_moves (outbox v) (outbox v'')"
    by (rule grows_trans [where t' = "outbox v'", OF entry_moves_trans]) (use assms in \<open>auto simp: history_def\<close>)
  show "grows ticket_moves (tickets v) (tickets v'')"
    by (rule grows_trans [where t' = "tickets v'", OF ticket_moves_trans]) (use assms in \<open>auto simp: history_def\<close>)
qed

lemma history_rest [simp]: "history (at_rest v) v' = history v v'" "history v (at_rest v') = history v v'"
  by (simp_all add: history_def)

section \<open>One operation\<close>

lemma history_create:
  assumes "create_spec E dto V r v"
  shows "history V v"
  using assms unfolding create_spec_def
proof (elim disjE exE conjE)
  fix cs
  assume "v = called cs V"
  then show ?thesis by (simp add: history_def grows_refl)
next
  fix answer b0 its
  assume "create_done dto (payment_request dto (bk_id b0) (total_amount (selected dto answer))
      (sm_currency (hd (selected dto answer)))) V b0 its (checks dto answer) r v"
  then obtain b obs es cs where "v = placed b its obs es (checks dto answer @ cs) V" unfolding create_done_def by blast
  then show ?thesis by (simp add: history_def grows_refl grows_add)
qed

lemma grows_cancelled [simp]: "grows ticket_moves (tickets v) (tickets (cancel_tickets i v))"
  unfolding cancel_tickets_def by (simp add: grows_map ticket_moves_cancelled)

lemma refund_rank_step:
  "refund_step up b ss s c s' \<Longrightarrow> refund_rank s \<le> refund_rank s' \<and> s \<notin> {Some RefundState.COMPLETED, Some RefundState.FAILED}"
  by (auto elim!: refund_stepE)

lemma refund_rank_path:
  "refund_path up b ss s cs s' \<Longrightarrow> refund_rank s \<le> refund_rank s' \<and>
     (s \<in> {Some RefundState.COMPLETED, Some RefundState.FAILED} \<longrightarrow> s' = s)"
  by (induction rule: refund_path.induct) (use refund_rank_step in fastforce)+

lemma booking_moves_core:
  assumes "core b = core b0" "refund_path up b0 ss (bk_refundState b0) cs (bk_refundState b)"
    and "advanced b0 b" "refund_status_ok b0"
  shows "booking_moves b0 b"
proof -
  have f: "f (core b) = f (core b0)" for f :: "Booking \<Rightarrow> 'x" using assms(1) by simp
  have "bk_refundState b0 \<noteq> None" if "bk_refundState b = Some RefundState.COMPLETED"
    using refund_path_final [OF assms(2)] that by (cases "bk_refundState b0") auto
  then have status: "bk_status b = bk_status b0 \<and> bk_cancelledAt b = bk_cancelledAt b0 \<or>
      bk_status b0 = BookingStatus.CONFIRMED \<and> bk_status b = BookingStatus.REFUNDED \<and> bk_refundState b = Some RefundState.COMPLETED"
    using assms(3,4) by (auto simp: advanced_def refund_status_ok_def split: if_splits)
  show ?thesis
    using refund_rank_path [OF assms(2)] f [of bk_id] f [of bk_bookingNumber] f [of bk_userId] f [of bk_eventId]
      f [of bk_totalAmount] f [of bk_currency] f [of bk_expiresAt] f [of bk_confirmedAt] f [of bk_createdAt]
      f [of bk_refundIdempotencyKey] f [of bk_cancellationReason] assms(3) status
    unfolding booking_moves_def by (simp add: core_def advanced_def)
qed

lemma booking_moves_started: "booking_moves b (started_refund b key reason)"
  by (simp add: booking_moves_def started_refund_def)

lemma started_status_ok: "refund_status_ok b \<Longrightarrow> cancellable u b \<Longrightarrow> refund_status_ok (started_refund b key reason)"
  by (auto simp: started_refund_def cancellable_def refund_status_ok_def)

lemma history_refund:
  assumes "refund_post b items V r v" "b \<in> set (bookings V)" "distinct (map bk_id (bookings V))" "refund_status_ok b"
  shows "history V v"
proof -
  obtain x cs W where run: "refund_run_to b items V x cs W" and v: "v = moved x cs W"
    using assms(1) by (auto simp: refund_post_def)
  have W: "bookings W = bookings V" "booking_items W = booking_items V" "grows entry_moves (outbox V) (outbox W)"
      "grows ticket_moves (tickets V) (tickets W)"
    using run by (auto simp: refund_run_to_def finished_def grows_refl grows_add)
  have m: "booking_moves b x" using run booking_moves_core [OF _ _ _ assms(4)] unfolding refund_run_to_def by blast
  then have "grows booking_moves (bookings V) (upserts bk_id [x] (bookings V))"
    by (intro grows_upsert [OF booking_moves_refl assms(2,3)]) (simp_all add: booking_moves_def)
  then show ?thesis using W by (simp add: v history_def grows_refl del: upserts_Cons)
qed

lemma history_cancel:
  assumes "cancel_spec i u key reason V r v" "desk_ok V"
  shows "history V v"
  using assms(1) unfolding cancel_spec_def Let_def
proof (elim disjE exE conjE)
  fix b0 items
  let ?b = "started_refund b0 key reason"
  let ?V = "bookings_update (upserts bk_id [?b]) V"
  note ids = desk_ok_ids [OF assms(2)]
  assume b0: "b0 \<in> set (bookings V)" and p: "refund_post ?b items ?V r v" and can: "cancellable u b0"
  have "history V ?V"
    using grows_upsert [where R = booking_moves and rid = bk_id, OF booking_moves_refl b0 ids started_refund_id booking_moves_started]
    by (simp add: history_def grows_refl del: upserts_Cons)
  moreover have "refund_status_ok ?b"
    using started_status_ok [OF _ can] b0 assms(2) by (simp add: desk_ok_def)
  then have "history ?V v"
    using upsert_distinct [OF ids, of ?b] by (intro history_refund [OF p]) (simp_all add: upsert_in del: upserts_Cons)
  ultimately show ?thesis by (rule history_trans)
qed simp

lemma history_checked:
  assumes "checked_in code t v t'" "distinct (map tk_id (tickets v))"
  shows "history v (tickets_update (upserts tk_id [t']) v)"
proof -
  have "t \<in> set (tickets v)" "tk_id t' = tk_id t" using assms(1) by (auto simp: checked_in_def)
  then have "grows ticket_moves (tickets v) (upserts tk_id [t'] (tickets v))"
    by (intro grows_upsert [where R = ticket_moves and rid = tk_id, OF ticket_moves_refl _ assms(2) _ ticket_moves_checked [OF assms(1)]]) simp_all
  then show ?thesis by (simp add: history_def grows_refl del: upserts_Cons)
qed

lemma history_recovery:
  assumes "recovery_run v ls v'" "rows_left (ls @ zs) v" "distinct (map (bk_id \<circ> fst) (ls @ zs))" "desk_ok v"
  shows "history v v'"
  using assms
proof (induction arbitrary: zs rule: recovery_run.induct)
  case (skip ls v1 b items)
  then show ?case using skip.IH [of "(b, items) # zs"] by simp
next
  case (retry ls v1 b items r v2)
  have "rows_left ((b, items) # zs) v1"
    using recovery_run_rows [OF retry.hyps(1), of "(b, items) # zs"] retry.prems by (simp add: comp_def)
  moreover have "desk_ok v1" using desk_ok_recovery [OF retry.hyps(1), of "(b, items) # zs"] retry.prems by (simp add: comp_def)
  ultimately have "history v1 v2" by (intro history_refund [OF retry.hyps(3)]) (auto simp: rows_left_def desk_ok_def)
  moreover have "history v v1" using retry.IH [of "(b, items) # zs"] retry.prems by simp
  ultimately show ?case using history_trans by blast
qed simp

subsection \<open>The outbox worker\<close>

text \<open>The entries that are still to come are as they were loaded.\<close>

definition entries_left :: "Outbox list \<Rightarrow> 'z booking_store_scheme \<Rightarrow> bool" where
  "entries_left es v \<longleftrightarrow> distinct (map ob_id (outbox v)) \<and> set es \<subseteq> set (outbox v) \<and> distinct (map ob_id es) \<and>
     (\<forall>e\<in>set es. ob_status e = OutboxStatus.PENDING)"

lemma batch_left:
  assumes "batch v es" "distinct (map ob_id (outbox v))"
  shows "entries_left es v"
proof -
  obtain ys where ys: "mset ys = mset (filter (\<lambda>e. ob_status e = OutboxStatus.PENDING) (outbox v))" "es = take 10 ys"
    using assms(1) unfolding batch_def by blast
  have "distinct (map ob_id (filter (\<lambda>e. ob_status e = OutboxStatus.PENDING) (outbox v)))"
    using assms(2) by (rule distinct_map_filter)
  then have "distinct (map ob_id ys)" using ys(1) by (metis mset_eq_imp_distinct_iff mset_map)
  then have "distinct (map ob_id es)" unfolding ys(2) by (metis distinct_take take_map)
  then show ?thesis using batch_pending [OF assms(1)] assms(2) by (auto simp: entries_left_def)
qed

lemma entry_done_moves: "entry_done e v x v' \<Longrightarrow> ob_status e = OutboxStatus.PENDING \<Longrightarrow> entry_moves e x"
  unfolding entry_done_def using entry_moves_steps by metis

lemma entry_moves_id: "entry_moves a b \<Longrightarrow> ob_id b = ob_id a"
  by (simp add: entry_moves_def)

lemma history_entry:
  assumes "v' = outbox_update (upserts ob_id [x]) (effect cs ts ms v)" "entry_moves e x" "e \<in> set (outbox v)"
    and "distinct (map ob_id (outbox v))"
  shows "history v v'"
  unfolding assms(1) history_def
  using grows_upsert [OF entry_moves_refl assms(3,4) entry_moves_id [OF assms(2)] assms(2)]
  by (simp add: grows_refl grows_add del: upserts_Cons)

lemma entries_left_next:
  assumes "entries_left (e # zs) v" "v' = outbox_update (upserts ob_id [x]) (effect cs ts ms v)" "ob_id x = ob_id e"
  shows "entries_left zs v'"
proof -
  have "ob_id z \<noteq> ob_id e" if "z \<in> set zs" for z using assms(1) that by (auto simp: entries_left_def) (metis imageI)
  then have "set zs \<subseteq> set (upserts ob_id [x] (outbox v))"
    using assms(1) upsert_row [of e "outbox v" ob_id x] assms(3) by (fastforce simp: entries_left_def image_iff simp del: upserts_Cons)
  then show ?thesis
    using assms(1,2) upsert_distinct [of ob_id "outbox v" x] by (auto simp: entries_left_def simp del: upserts_Cons)
qed

lemma entry_done_fields:
  assumes "entry_done e v x v'" "entries_left (e # zs) v"
  shows "entry_moves e x" "history v v'" "entries_left zs v'"
proof -
  have e: "e \<in> set (outbox v)" "distinct (map ob_id (outbox v))" "ob_status e = OutboxStatus.PENDING"
    using assms(2) by (auto simp: entries_left_def)
  show m: "entry_moves e x" by (rule entry_done_moves [OF assms(1) e(3)])
  obtain cs ts ms where v': "v' = outbox_update (upserts ob_id [x]) (effect cs ts ms v)"
    using assms(1) unfolding entry_done_def by blast
  show "history v v'" by (rule history_entry [OF v' m e(1,2)])
  show "entries_left zs v'" by (rule entries_left_next [OF assms(2) v' entry_moves_id [OF m]])
qed

lemma outbox_run_history:
  assumes "outbox_run v es xs v'" "entries_left (es @ zs) v"
  shows "history v v' \<and> entries_left zs v'"
  using assms
proof (induction arbitrary: zs rule: outbox_run.induct)
  case (go es xs v1 e x v2)
  then have "history v v1" "entries_left (e # zs) v1" by simp_all
  then show ?case using entry_done_fields [OF go.hyps(2)] history_trans by blast
qed simp

lemma history_outbox:
  assumes "outbox_post v r v'" "distinct (map ob_id (outbox v))"
  shows "history v v'"
proof (cases r)
  case (Inl y)
  then consider "v' = v" | es e zs xs v1 where "batch v (es @ e # zs)" "outbox_run v es xs v1" "entry_lost e v1 v'"
    using assms(1) by (auto simp: outbox_post_def)
  then show ?thesis
  proof cases
    case 2
    have h: "history v v1" "entries_left (e # zs) v1"
      using outbox_run_history [OF 2(2) batch_left [OF 2(1) assms(2)]] by blast+
    then have e: "e \<in> set (outbox v1)" "distinct (map ob_id (outbox v1))" "ob_status e = OutboxStatus.PENDING"
      by (auto simp: entries_left_def)
    have "history v1 v'"
      using 2(3) history_entry [OF _ entry_moves_steps(1) [OF e(3)] e(1,2)] history_refl unfolding entry_lost_def by blast
    then show ?thesis using h(1) history_trans by blast
  qed simp
next
  case (Inr u)
  then obtain es xs where "batch v es" "outbox_run v es xs v'" using assms(1) by (auto simp: outbox_post_def)
  then show ?thesis using outbox_run_history [of v es xs v' "[]"] batch_left [OF _ assms(2)] by simp
qed

section \<open>The tickets of a booking are complete\<close>

text \<open>No ticket, or one for each item.\<close>

definition complete_tickets :: "'z booking_store_scheme \<Rightarrow> string \<Rightarrow> bool" where
  "complete_tickets v b \<longleftrightarrow> tickets_of b v = [] \<or>
     mset (map tk_bookingItemId (tickets_of b v)) = mset (map bi_id (filter (\<lambda>i. bi_bookingId i = b) (booking_items v)))"

abbreviation pairs :: "'z booking_store_scheme \<Rightarrow> (string \<times> string) list" where
  "pairs v \<equiv> map (\<lambda>t. (tk_bookingId t, tk_bookingItemId t)) (tickets v)"

lemma complete_pairs:
  "complete_tickets v b \<longleftrightarrow> (let ps = filter (\<lambda>p. fst p = b) (pairs v) in ps = [] \<or>
     mset (map snd ps) = mset (map bi_id (filter (\<lambda>i. bi_bookingId i = b) (booking_items v))))"
  by (simp add: complete_tickets_def tickets_of_def filter_map comp_def Let_def multiset.map_comp)

lemma complete_same: "pairs v' = pairs v \<Longrightarrow> booking_items v' = booking_items v \<Longrightarrow> complete_tickets v' b = complete_tickets v b"
  by (simp only: complete_pairs)

lemma complete_rest [simp]: "complete_tickets (at_rest v) b = complete_tickets v b"
  by (rule complete_same) simp_all

lemma pairs_cancelled [simp]: "pairs (cancel_tickets i v) = pairs v"
  by (auto simp: cancel_tickets_def)

lemma complete_placed:
  assumes "complete_tickets v i" "tickets_ok v" "booking_ok v" "bk_id b \<notin> bk_id ` set (bookings v)" "\<forall>x\<in>set its. bi_bookingId x = bk_id b"
  shows "complete_tickets (placed b its obs es cs v) i"
proof (cases "i = bk_id b")
  case True
  have "tk_bookingId t \<noteq> i" if t: "t \<in> set (tickets v)" for t
  proof
    assume "tk_bookingId t = i"
    then obtain x where "x \<in> set (booking_items v)" "bi_bookingId x = i"
      using assms(2) t by (auto simp: tickets_ok_def)
    then have "i \<in> bk_id ` set (bookings v)" using assms(3) by (auto simp: booking_ok_def)
    then show False using assms(4) True by simp
  qed
  then have "tickets_of i v = []" by (simp add: tickets_of_def filter_empty_conv)
  then show ?thesis by (simp add: complete_tickets_def tickets_of_def)
next
  case False
  then have "filter (\<lambda>x. bi_bookingId x = i) its = []" using assms(5) by (auto simp: filter_empty_conv)
  then show ?thesis using assms(1) by (simp add: complete_tickets_def tickets_of_def)
qed

lemma complete_create:
  assumes "create_spec E dto V r v" "complete_tickets V i" "desk_ok V"
  shows "complete_tickets v i"
  using assms(1) unfolding create_spec_def
proof (elim disjE exE conjE)
  fix cs
  assume v: "v = called cs V"
  have "complete_tickets v i = complete_tickets V i" by (rule complete_same) (simp_all add: v)
  then show ?thesis using assms(2) by simp
next
  fix answer b0 its
  assume bk: "booked E dto (selected dto answer) V b0 its"
    and "create_done dto (payment_request dto (bk_id b0) (total_amount (selected dto answer))
      (sm_currency (hd (selected dto answer)))) V b0 its (checks dto answer) r v"
  then obtain b obs es cs where con: "consistent dto V b0 its cs b obs" and v: "v = placed b its obs es (checks dto answer @ cs) V"
    unfolding create_done_def by blast
  have b: "bk_id b = bk_id b0" using con order_id unfolding consistent_def by blast
  have "bk_id b0 \<notin> bk_id ` set (bookings V)" using bk unfolding booked_def by blast
  then show ?thesis
    using assms(2,3) booked_items [OF bk] unfolding v desk_ok_def by (intro complete_placed) (simp_all add: b)
qed

lemma complete_refund:
  assumes "refund_post b items V r v" "complete_tickets V i"
  shows "complete_tickets v i"
proof -
  obtain x cs W where run: "refund_run_to b items V x cs W" and v: "v = moved x cs W"
    using assms(1) by (auto simp: refund_post_def)
  have "pairs W = pairs V" "booking_items W = booking_items V"
    using run pairs_cancelled [of "bk_id b" V] by (auto simp: refund_run_to_def finished_def simp del: pairs_cancelled)
  then have "complete_tickets v i = complete_tickets V i" unfolding v by (intro complete_same) simp_all
  then show ?thesis using assms(2) by simp
qed

lemma complete_cancel: "cancel_spec u i key reason V r v \<Longrightarrow> complete_tickets V b \<Longrightarrow> complete_tickets v b"
  unfolding cancel_spec_def Let_def
proof (elim disjE exE conjE, goal_cases)
  case (2 b0 items)
  have "complete_tickets (bookings_update f V) b = complete_tickets V b" for f by (rule complete_same) simp_all
  then show ?case using 2(1) complete_refund [OF 2(6)] by simp
qed simp

lemma complete_recovery: "recovery_run v ls v' \<Longrightarrow> complete_tickets v b \<Longrightarrow> complete_tickets v' b"
  by (induction rule: recovery_run.induct) (auto intro: complete_refund)

lemma complete_checked:
  assumes "checked_in code t v t'" "distinct (map tk_id (tickets v))" "complete_tickets v b"
  shows "complete_tickets (tickets_update (upserts tk_id [t']) v) b"
proof -
  have t: "t \<in> set (tickets v)" "tk_id t' = tk_id t" "tk_bookingId t' = tk_bookingId t" "tk_bookingItemId t' = tk_bookingItemId t"
    using assms(1) by (auto simp: checked_in_def)
  have "pairs (tickets_update (upserts tk_id [t']) v) = pairs v"
    using upsert_row [OF t(1,2)] row_by_id [OF assms(2) t(1)] t(3,4) by auto
  then have "complete_tickets (tickets_update (upserts tk_id [t']) v) b = complete_tickets v b" by (rule complete_same) simp
  then show ?thesis using assms(3) by simp
qed

lemma complete_effect:
  assumes "handled e v r cs ts ms" "complete_tickets v b"
  shows "complete_tickets (effect cs ts ms v) b"
proof (cases "ts = []")
  case True
  then show ?thesis using assms(2) complete_same [of "effect cs ts ms v" v b] by simp
next
  case False
  then have n: "tickets_of (ob_aggregateId e) v = []" and ts: "tickets_for (ob_aggregateId e) v ts"
    using assms(1) by (cases r; simp add: handled_def split: if_splits)+
  have own: "filter (\<lambda>t. tk_bookingId t = b) ts = (if b = ob_aggregateId e then ts else [])"
    using ts by (auto simp: tickets_for_def filter_empty_conv intro: filter_True)
  then show ?thesis
    using assms(2) n ts by (cases "b = ob_aggregateId e") (simp_all add: complete_tickets_def tickets_of_def tickets_for_def)
qed

lemma complete_done: "entry_done e v x v' \<Longrightarrow> complete_tickets v b \<Longrightarrow> complete_tickets v' b"
  unfolding entry_done_def
proof (elim exE conjE, goal_cases)
  case (1 cs ts ms)
  then have "complete_tickets (effect cs ts ms v) b" using complete_effect by blast
  then show ?case using 1 complete_same [of v' "effect cs ts ms v" b] by simp
qed

lemma complete_lost: "entry_lost e v v' \<Longrightarrow> complete_tickets v b \<Longrightarrow> complete_tickets v' b"
  unfolding entry_lost_def
proof (elim conjE disjE exE, goal_cases)
  case (2 cs ts ms r)
  then have "complete_tickets (effect cs ts ms v) b" using complete_effect by blast
  then show ?case using 2 complete_same [of v' "effect cs ts ms v" b] by simp
qed simp

lemma complete_outbox_run: "outbox_run v es xs v' \<Longrightarrow> complete_tickets v b \<Longrightarrow> complete_tickets v' b"
  by (induction rule: outbox_run.induct) (auto intro: complete_done)

lemma complete_outbox: "outbox_post v r v' \<Longrightarrow> complete_tickets v b \<Longrightarrow> complete_tickets v' b"
  unfolding outbox_post_def by (auto split: sum.splits intro: complete_outbox_run complete_lost)

section \<open>Any sequence of operations\<close>

text \<open>
  One call of the service: of the HTTP interface, or of one of its two schedules, which find no run in progress; or time
  passes between two calls, and the external systems fail or come back.
\<close>

inductive desk_step :: "'w booking_env \<Rightarrow> ('w \<Rightarrow> 'z booking_store_scheme) \<Rightarrow> 'w \<Rightarrow> 'w \<Rightarrow> bool" for E vw where
  create: "bookings_create E dto u w = (r, w') \<Longrightarrow> desk_step E vw w w'"
| cancel: "bookings_cancel E (ticketService E) i dto u w = (r, w') \<Longrightarrow> desk_step E vw w w'"
| check_in: "tc_checkIn (ticketController E) code w = (r', w') \<Longrightarrow> desk_step E vw w w'"
| outbox: "processOutbox E (ticketService E) w = (r'', w') \<Longrightarrow> desk_step E vw w w'"
| recovery: "recoveryStuckRefunds E (ticketService E) (w, False) = (r'', (w', busy)) \<Longrightarrow> desk_step E vw w w'"
| time: "bk_clock (vw w) \<le> t \<Longrightarrow> vw w' = (vw w)\<lparr>bk_clock := t, bk_calm := up\<rparr> \<Longrightarrow> desk_step E vw w w'"

abbreviation desk_run :: "'w booking_env \<Rightarrow> ('w \<Rightarrow> 'z booking_store_scheme) \<Rightarrow> 'w \<Rightarrow> 'w \<Rightarrow> bool" where
  "desk_run E vw \<equiv> (desk_step E vw)\<^sup>*\<^sup>*"

lemma desk_ok_time [simp]: "desk_ok (v\<lparr>bk_clock := t, bk_calm := c\<rparr>) = desk_ok v"
  by (simp add: desk_ok_def booking_ok_def outbox_ok_def tickets_ok_def)

lemma history_time [simp]: "history v (v\<lparr>bk_clock := t, bk_calm := c\<rparr>)"
  by (simp add: history_def grows_refl)

lemma complete_time [simp]: "complete_tickets (v\<lparr>bk_clock := t, bk_calm := c\<rparr>) b = complete_tickets v b"
  by (rule complete_same) simp_all

lemma desk_step_post:
  assumes "booking_world E vw" "desk_step E vw w w'" "desk_ok (vw w)"
  shows "desk_ok (vw w') \<and> history (vw w) (vw w') \<and> (\<forall>b. complete_tickets (vw w) b \<longrightarrow> complete_tickets (vw w') b)"
  using assms(2)
proof cases
  case (create dto u r)
  have ok: "booking_ok (vw w)" using assms(3) by (simp add: desk_ok_def)
  have "create_spec E (dto\<lparr>cb_userId := u\<rparr>) (at_rest (vw w)) r (at_rest (vw w'))"
    by (rule createBooking_runs [OF assms(1) ok]) (use create in \<open>simp add: bookings_create_def\<close>)
  then show ?thesis using create_spec_ok complete_create history_create assms(3) by fastforce
next
  case (cancel i dto u r)
  have ok: "booking_ok (vw w)" using assms(3) by (simp add: desk_ok_def)
  have p: "cancel_spec i u (cc_refundIdempotencyKey dto) (cc_reason dto) (at_rest (vw w)) r (at_rest (vw w'))"
    by (rule cancelBooking_runs [OF assms(1) ok]) (use cancel in \<open>simp add: bookings_cancel_def\<close>)
  have "desk_ok (at_rest (vw w'))" by (rule desk_ok_cancel [OF p]) (simp_all add: assms(3))
  moreover have "history (at_rest (vw w)) (at_rest (vw w'))" 
    by (rule history_cancel [OF p]) (simp add: assms(3))
  ultimately show ?thesis using complete_cancel [OF p] by simp
next
  case (check_in code r)
  have run: "checkIn E code w = (r, w')" using check_in by (simp add: ticketController_def)
  have ids: "distinct (map tk_id (tickets (vw w)))" using assms(3) by (simp add: desk_ok_def tickets_ok_def)
  show ?thesis
  proof (cases r)
    case (Inl e)
    then show ?thesis using checkIn_runs [OF assms(1) run] assms(3) by auto
  next
    case (Inr t')
    then obtain t where "checked_in code t (vw w) t'" "vw w' = tickets_update (upserts tk_id [t']) (vw w)"
      using checkIn_runs [OF assms(1) run] by auto
    then show ?thesis
      using desk_ok_checked [OF _ assms(3)] history_checked [OF _ ids] complete_checked [OF _ ids] by metis
  qed
next
  case (outbox r)
  note p = processOutbox_runs [OF assms(1) outbox]
  have ids: "distinct (map ob_id (outbox (vw w)))" using assms(3) by (simp add: desk_ok_def outbox_ok_def)
  show ?thesis using desk_ok_outbox [OF p assms(3)] history_outbox [OF p ids] complete_outbox [OF p] by blast
next
  case (recovery r busy)
  note ids = desk_ok_ids [OF assms(3)]
  have p: "recovery_post (at_rest (vw w)) r (at_rest (vw w'))" using recovery_runs [OF assms(1) ids recovery] by blast
  show ?thesis
  proof (cases r)
    case (Inl x)
    then have "at_rest (vw w') = at_rest (vw w)" using p by (simp add: recovery_post_def)
    then show ?thesis using assms(3) history_rest history_refl desk_ok_rest complete_rest by metis
  next
    case (Inr u)
    then obtain ls where ls: "stuck_list (at_rest (vw w)) ls" "recovery_run (at_rest (vw w)) ls (at_rest (vw w'))"
      using p by (auto simp: recovery_post_def)
    have ids': "distinct (map bk_id (bookings (at_rest (vw w))))" using ids by simp
    note rows = stuck_list_rows [OF ls(1) ids']
    have left: "rows_left (ls @ []) (at_rest (vw w))" using rows(2) ids by (auto simp: rows_left_def)
    have d: "distinct (map (bk_id \<circ> fst) (ls @ []))" using rows(1) by simp
    have ok: "desk_ok (at_rest (vw w))" using assms(3) by simp
    show ?thesis
      using desk_ok_recovery [OF ls(2) left d ok] history_recovery [OF ls(2) left d ok] complete_recovery [OF ls(2)] by simp
  qed
next
  case (time t up)
  then show ?thesis using assms(3) by simp
qed

lemma desk_run_post:
  assumes "desk_run E vw w w'" "booking_world E vw" "desk_ok (vw w)"
  shows "desk_ok (vw w') \<and> history (vw w) (vw w') \<and> (\<forall>b. complete_tickets (vw w) b \<longrightarrow> complete_tickets (vw w') b)"
  using assms(1,3)
proof (induction rule: converse_rtranclp_induct)
  case (step w w1)
  then show ?case using desk_step_post [OF assms(2) step.hyps(1)] history_trans by blast
qed simp

end
