(* ===== verification/Outbox_Properties.thy ===== *)
theory Outbox_Properties
  imports Booking_History Cancel_Properties Payment_Gateways
begin

text \<open>
  The properties of the booking service over time: the invariant, the histories of its tables, the delivery
  of the outbox, the admission of tickets; and what its numbers mean: the amount that reaches the payment
  provider and the numbers of bookings.
\<close>

section \<open>The service over time\<close>

lemma booked_demo_complete: "complete_tickets (booking_view booked_demo) b"
proof -
  have "tickets (booking_view booked_demo) = []" by code_simp
  then show ?thesis by (simp add: complete_tickets_def tickets_of_def)
qed

text \<open>
  C8.  The invariant of the booking service.  Any sequence of bookings, cancellations, check-ins, runs of the
  outbox worker and of the recovery worker, with any time between them and whatever fails in them, keeps the keys and
  booking numbers unique, every item in a booking, every ticket on its own item of its booking, every outbox entry within
  its retries and consistent with its status; only confirmed bookings have refunds, and a booking is refunded exactly
  when its refund is completed; and every booking has either no ticket or one for each item.
\<close>

theorem booking_service_invariant:
  assumes "booking_world E vw" "desk_run E vw w w'" "desk_ok (vw w)" "\<forall>b. complete_tickets (vw w) b"
  shows "desk_ok (vw w') \<and> (\<forall>b. complete_tickets (vw w') b)"
  using desk_run_post [OF assms(2,1,3)] assms(4) by blast

lemma demo_outbox_run:
  "\<exists>r w'. processOutbox demo_env (ticketService demo_env) booked_demo = (r, w') \<and> desk_run demo_env booking_view booked_demo w'"
  using desk_step.outbox [of demo_env booked_demo] by (metis r_into_rtranclp prod.collapse)

theorem booking_service_invariant_witness:
  "\<exists>w'. desk_run demo_env booking_view booked_demo w' \<and> desk_ok (booking_view w')"
proof -
  obtain w' where "desk_run demo_env booking_view booked_demo w'" using demo_outbox_run by blast
  then show ?thesis using booking_service_invariant [OF demo_world _ booked_demo_ok] booked_demo_complete by blast
qed

text \<open>
  C30.  The life cycles of the rows.  Over any sequence of operations and any time nothing is removed from the tables.  A
  booking keeps its number, user, event, amount, currency and expiry.  Its status only ever changes from confirmed to
  refunded, and only with the completion of its refund: a pending, cancelled or refunded booking stays what it is, also with
  the time of its cancellation.  Its refund never goes back and keeps its key and reason, a completed or
  failed refund stays as it is, and its retries only go up.  An item never changes.  An outbox entry keeps its event and
  payload, its retries only go up, and once it is no longer pending it never changes.  A ticket only changes from active
  or transferred to used, or from active to cancelled; a used or cancelled ticket never changes.
\<close>

theorem booking_service_history:
  assumes "booking_world E vw" "desk_run E vw w w'" "desk_ok (vw w)"
  shows "grows booking_moves (bookings (vw w)) (bookings (vw w')) \<and> grows (=) (booking_items (vw w)) (booking_items (vw w')) \<and>
    grows entry_moves (outbox (vw w)) (outbox (vw w')) \<and> grows ticket_moves (tickets (vw w)) (tickets (vw w'))"
  using desk_run_post [OF assms(2,1,3)] unfolding history_def by blast

theorem booking_service_history_witness:
  "\<exists>w'. desk_run demo_env booking_view booked_demo w' \<and> grows booking_moves (bookings (booking_view booked_demo)) (bookings (booking_view w'))"
proof -
  obtain w' where "desk_run demo_env booking_view booked_demo w'" using demo_outbox_run by blast
  then show ?thesis using booking_service_history [OF demo_world _ booked_demo_ok] by blast
qed

section \<open>Admission\<close>

text \<open>
  C36.  A ticket admits once.  After a check-in that returned the ticket \<open>t\<close>, whatever the service does afterwards and
  however much time passes, no check-in with any code returns this ticket again, and its row stays used, with
  the time of the check-in.
\<close>

theorem checkIn_once:
  assumes "booking_world E vw" "desk_ok (vw w)" "checkIn E code w = (Inr t, w1)" "desk_run E vw w1 w2"
    and "checkIn E code' w2 = (r, w3)"
  shows "tk_status t = TicketStatus.USED \<and> tk_ticketCode t = code \<and> tk_checkedInAt t = Some (bk_clock (vw w)) \<and> t \<in> set (tickets (vw w3)) \<and> (\<forall>t'. r = Inr t' \<longrightarrow> tk_id t' \<noteq> tk_id t)"
proof -
  have step: "desk_step E vw v v'" if "checkIn E c v = (x, v')" for c v x v'
    by (rule desk_step.check_in) (use that in \<open>simp add: ticketController_def\<close>)
  obtain t0 where t0: "checked_in code t0 (vw w) t" "vw w1 = tickets_update (upserts tk_id [t]) (vw w)"
    using checkIn_runs [OF assms(1,3)] by auto
  then have t: "tk_status t = TicketStatus.USED" "tk_ticketCode t = code" "tk_checkedInAt t = Some (bk_clock (vw w))" "t \<in> set (tickets (vw w1))"
    by (auto simp: checked_in_def upsert_in simp del: upserts_Cons)
  have stays: "t \<in> set u'" if g: "grows ticket_moves u u'" "t \<in> set u" for u u'
  proof -
    obtain y where "y \<in> set u'" "ticket_moves t y" using grows_in [OF g] by blast
    then show ?thesis using t(1) by (simp add: ticket_moves_def)
  qed
  have ok1: "desk_ok (vw w1)" using desk_step_post [OF assms(1) step [OF assms(3)] assms(2)] by blast
  have ok2: "desk_ok (vw w2)" and h2: "history (vw w1) (vw w2)" using desk_run_post [OF assms(4,1) ok1] by blast+
  have h3: "history (vw w2) (vw w3)" using desk_step_post [OF assms(1) step [OF assms(5)] ok2] by blast
  have t2: "t \<in> set (tickets (vw w2))"
    by (rule stays [of "tickets (vw w1)"]) (use h2 t(4) in \<open>simp_all add: history_def\<close>)
  have t3: "t \<in> set (tickets (vw w3))"
    by (rule stays [of "tickets (vw w2)"]) (use h3 t2 in \<open>simp_all add: history_def\<close>)
  have "tk_id t' \<noteq> tk_id t" if r: "r = Inr t'" for t'
  proof
    assume eq: "tk_id t' = tk_id t"
    obtain x where "checked_in code' x (vw w2) t'" using checkIn_runs [OF assms(1,5)] r by auto
    then have x: "x \<in> set (tickets (vw w2))" "tk_status x \<noteq> TicketStatus.USED" "tk_id x = tk_id t"
      using eq by (auto simp: checked_in_def)
    have "distinct (map tk_id (tickets (vw w2)))" using ok2 by (simp add: desk_ok_def tickets_ok_def)
    then have "x = t" by (rule row_by_id [where rid = tk_id, OF _ t2 x(1,3)])
    then show False using x(2) t(1) by simp
  qed
  then show ?thesis using t t3 by blast
qed

text \<open>The world after the outbox worker has run once more.\<close>

definition issued_demo :: booking_mem where
  "issued_demo = snd (processOutbox demo_env (ticketService demo_env) booked_demo)"

lemma issued_demo_ok: "desk_ok (booking_view issued_demo)"
proof -
  have "desk_step demo_env booking_view booked_demo issued_demo"
    unfolding issued_demo_def by (rule desk_step.outbox [OF prod.collapse [symmetric]])
  then show ?thesis using desk_step_post [OF demo_world _ booked_demo_ok] by blast
qed

lemma issued_demo_facts:
  "map (\<lambda>t. (tk_ticketCode t, tk_status t)) (tickets (booking_view issued_demo)) = [(''TK-RS-000000'', TicketStatus.ACTIVE)]"
  "map ob_status (outbox (booking_view issued_demo)) = [OutboxStatus.COMPLETED, OutboxStatus.COMPLETED]"
  "returns (checkIn demo_env ''TK-RS-000000'') issued_demo"
  by code_simp+

theorem checkIn_once_witness:
  "\<exists>t w1 r w2. checkIn demo_env ''TK-RS-000000'' issued_demo = (Inr t, w1) \<and>
     (let later = mem_clock_update (\<lambda>n. n + 86400000) w1 in checkIn demo_env ''TK-RS-000000'' later = (r, w2)) \<and>
     t \<in> set (tickets (booking_view w2))"
proof -
  obtain t w1 where run: "checkIn demo_env ''TK-RS-000000'' issued_demo = (Inr t, w1)"
    using issued_demo_facts(3) by (rule returnsE)
  let ?later = "mem_clock_update (\<lambda>n. n + 86400000) w1"
  obtain r w2 where again: "checkIn demo_env ''TK-RS-000000'' ?later = (r, w2)" by fastforce
  have "booking_view ?later = (booking_view w1)\<lparr>bk_clock := bk_clock (booking_view w1) + 86400000, bk_calm := bk_calm (booking_view w1)\<rparr>"
    by (simp add: booking_view_def)
  then have "desk_step demo_env booking_view w1 ?later" by (rule desk_step.time [rotated]) simp
  then have "desk_run demo_env booking_view w1 ?later" by (rule r_into_rtranclp)
  from checkIn_once [OF demo_world issued_demo_ok run this again] show ?thesis using run again by (auto simp: Let_def)
qed

section \<open>Delivery\<close>

text \<open>
  What a delivered entry stands for, with the calls \<open>cs\<close> and messages \<open>ms\<close> of the run: the inventory has
  confirmed the sale of the seats; the booking has its tickets and the confirmation was sent; the refund was sent.
\<close>

definition delivery :: "Outbox \<Rightarrow> peer_call list \<Rightarrow> kafka_message list \<Rightarrow> 'z booking_store_scheme \<Rightarrow> bool" where
  "delivery e cs ms v \<longleftrightarrow>
     (ob_eventType e = ''seats.mark_sold'' \<longrightarrow> sold_call e (Inr True) \<in> set cs) \<and>
     (ob_eventType e = ''booking.confirmed'' \<longrightarrow>
        mset (map tk_bookingItemId (tickets_of (ob_aggregateId e) v)) =
          mset (map bi_id (filter (\<lambda>i. bi_bookingId i = ob_aggregateId e) (booking_items v))) \<and>
        (''booking.confirmed'', ob_aggregateId e, ob_payload e) \<in> set ms) \<and>
     (ob_eventType e = ''booking.refunded'' \<longrightarrow> (''booking.refunded'', ob_aggregateId e, ob_payload e) \<in> set ms)"

text \<open>
  Why an entry is tried again with the error \<open>err\<close>: the inventory was asked during the run to sell its seats and threw
  \<open>err\<close> or refused, or (for a payload that the service does not write) the payload could not be read.
\<close>

definition not_sold :: "Outbox \<Rightarrow> exn \<Rightarrow> peer_call list \<Rightarrow> bool" where
  "not_sold e err cs \<longleftrightarrow> ob_eventType e = ''seats.mark_sold'' \<and>
     (sold_call e (Inl err) \<in> set cs \<or> sold_call e (Inr False) \<in> set cs \<or>
      ob_payload e = JNull \<or> json_get (ob_payload e) ''seatIds'' = None)"

lemma handled_delivery:
  assumes "handled e v (Inr ()) cs ts ms" "complete_tickets v (ob_aggregateId e)"
  shows "delivery e cs ms (effect cs ts ms v)"
proof -
  have "mset (map tk_bookingItemId (tickets_of b v @ filter (\<lambda>t. tk_bookingId t = b) ts)) =
      mset (map bi_id (filter (\<lambda>i. bi_bookingId i = b) (booking_items v)))"
    if "ob_eventType e = ''booking.confirmed''" "b = ob_aggregateId e" for b
  proof (cases "tickets_of b v = []")
    case True
    then have ts: "tickets_for b v ts" using assms(1) that by (simp add: handled_def)
    then have "filter (\<lambda>t. tk_bookingId t = b) ts = ts" by (auto simp: tickets_for_def)
    then show ?thesis using True ts by (simp add: tickets_for_def)
  next
    case False
    then show ?thesis using assms that by (simp add: handled_def complete_tickets_def)
  qed
  then show ?thesis
    using assms(1) by (auto simp: handled_def delivery_def tickets_of_def)
qed

lemma handled_not_sold:
  assumes "handled e v (Inl err) cs ts ms" "bk_calm v"
  shows "not_sold e err cs"
proof -
  have t: "ob_eventType e = ''seats.mark_sold''" using assms by (auto simp: handled_def split: if_splits)
  then have "ob_payload e = JNull \<or> (\<exists>a. cs = [sold_call e a] \<and>
      (case a of Inl y \<Rightarrow> y = err | Inr ok \<Rightarrow> \<not> ok \<or> json_get (ob_payload e) ''seatIds'' = None))"
    using assms(1) by (auto simp: handled_def sale_refused_def)
  then show ?thesis
  proof (elim disjE exE conjE)
    fix a
    assume "cs = [sold_call e a]" "case a of Inl y \<Rightarrow> y = err | Inr ok \<Rightarrow> \<not> ok \<or> json_get (ob_payload e) ''seatIds'' = None"
    then show ?thesis using t by (cases a) (auto simp: not_sold_def)
  qed (simp add: not_sold_def t)
qed

text \<open>Deliveries stay delivered.\<close>

lemma delivery_effect:
  assumes "delivery e cs0 ms0 v" "handled e' v r cs ts ms"
  shows "delivery e (cs0 @ cs) (ms0 @ ms) (effect cs ts ms v)"
proof (cases "ts = []")
  case True
  then show ?thesis using assms(1) by (auto simp: delivery_def tickets_of_def)
next
  case False
  let ?b = "ob_aggregateId e'"
  have n: "tickets_of ?b v = []" and ts: "tickets_for ?b v ts"
    using assms(2) False by (cases r; simp add: handled_def split: if_splits)+
  have "filter (\<lambda>t. tk_bookingId t = b) ts = []"
    if "mset (map tk_bookingItemId (tickets_of b v)) = mset (map bi_id (filter (\<lambda>i. bi_bookingId i = b) (booking_items v)))" for b
  proof (cases "b = ?b")
    case True
    then have "filter (\<lambda>i. bi_bookingId i = ?b) (booking_items v) = []" using that n by simp
    then show ?thesis using ts by simp
  next
    case False
    then show ?thesis using ts by (auto simp: tickets_for_def filter_empty_conv)
  qed
  then show ?thesis using assms(1) by (auto simp: delivery_def tickets_of_def)
qed

lemma delivery_save [simp]: "delivery e cs ms (outbox_update f v) = delivery e cs ms v"
  by (simp add: delivery_def tickets_of_def)

lemma delivery_more: "delivery e cs ms v \<Longrightarrow> delivery e (cs0 @ cs) (ms0 @ ms) v"
  by (auto simp: delivery_def)

definition entry_settled :: "int \<Rightarrow> peer_call list \<Rightarrow> kafka_message list \<Rightarrow> Outbox \<Rightarrow> 'z booking_store_scheme \<Rightarrow> bool" where
  "entry_settled now cs ms e v \<longleftrightarrow> delivered now e \<in> set (outbox v) \<and> delivery e cs ms v \<or>
     (\<exists>err. retried err e \<in> set (outbox v) \<and> not_sold e err cs)"

lemma entry_settled_more: "entry_settled now cs ms e v \<Longrightarrow> entry_settled now (cs0 @ cs) (ms0 @ ms) e v"
  unfolding entry_settled_def using delivery_more [of e cs ms v] by (auto simp: not_sold_def)

text \<open>One entry: what it adds to the calls and messages.\<close>

lemma entry_done_settled:
  assumes "entry_done e v x v'" "bk_calm v" "complete_tickets v (ob_aggregateId e)"
  obtains cs ts ms r where "v' = outbox_update (upserts ob_id [x]) (effect cs ts ms v)" "handled e v r cs ts ms"
    "entry_settled (bk_clock v) cs ms e v'"
  using assms(1) unfolding entry_done_def
proof (elim exE conjE disjE, goal_cases)
  case (1 cs ts ms)
  have "x \<in> set (outbox v')" unfolding 1(2) by (simp add: upsert_in del: upserts_Cons)
  moreover have "delivery e cs ms v'" using handled_delivery [OF 1(4) assms(3)] by (simp add: 1(2))
  ultimately show ?case using 1 by (simp add: entry_settled_def)
next
  case (2 cs ts ms err)
  have "x \<in> set (outbox v')" unfolding 2(2) by (simp add: upsert_in del: upserts_Cons)
  moreover have "not_sold e err cs" by (rule handled_not_sold [OF 2(4) assms(2)])
  ultimately have "entry_settled (bk_clock v) cs ms e v'" unfolding entry_settled_def 2(3) by blast
  then show ?case by (rule 2(1) [OF 2(2,4)])
next
  case (3 cs ts ms err)
  then show ?case using assms(2) by simp
qed

lemma upsert_other: "y \<in> set t \<Longrightarrow> rid y \<noteq> rid x \<Longrightarrow> y \<in> set (upserts rid [x] t)"
  by (auto simp: upsert_def image_iff)

lemma settled_later:
  assumes "entry_settled now cs0 ms0 e v" "handled e' v r cs ts ms" "ob_id e \<noteq> ob_id e'" "entry_moves e' x"
    and v': "v' = outbox_update (upserts ob_id [x]) (effect cs ts ms v)"
  shows "entry_settled now (cs0 @ cs) (ms0 @ ms) e v'"
proof -
  have i: "ob_id e \<noteq> ob_id x" using assms(3,4) by (simp add: entry_moves_def)
  have "y \<in> set (outbox v')" if "y \<in> set (outbox v)" "ob_id y = ob_id e" for y
    unfolding v' using upsert_other [of y "outbox v" ob_id x] that i by (simp del: upserts_Cons)
  then have "delivered now e \<in> set (outbox v) \<Longrightarrow> delivered now e \<in> set (outbox v')"
    "retried err e \<in> set (outbox v) \<Longrightarrow> retried err e \<in> set (outbox v')" for err by simp_all
  moreover have "delivery e cs0 ms0 v \<Longrightarrow> delivery e (cs0 @ cs) (ms0 @ ms) v'"
    using delivery_effect [OF _ assms(2)] by (simp add: v')
  moreover have "not_sold e err cs0 \<Longrightarrow> not_sold e err (cs0 @ cs)" for err by (auto simp: not_sold_def)
  ultimately show ?thesis using assms(1) unfolding entry_settled_def by blast
qed

lemma outbox_run_settles:
  assumes "outbox_run v es xs v'" "entries_left (es @ zs) v" "bk_calm v" "\<forall>b. complete_tickets v b"
  shows "map ob_id (outbox v') = map ob_id (outbox v) \<and>
    (\<forall>y\<in>set (outbox v). y \<notin> set es \<longrightarrow> y \<in> set (outbox v')) \<and>
    (\<exists>cs ms. peer_calls v' = peer_calls v @ cs \<and> bk_sent v' = bk_sent v @ ms \<and>
      (\<forall>e\<in>set es. entry_settled (bk_clock v) cs ms e v'))"
  using assms
proof (induction arbitrary: zs rule: outbox_run.induct)
  case (go es xs v1 e x v2)
  have left: "entries_left (es @ e # zs) v" using go.prems by simp
  note ih = go.IH [OF left go.prems(2,3)]
  obtain cs0 ms0 where ih': "peer_calls v1 = peer_calls v @ cs0" "bk_sent v1 = bk_sent v @ ms0"
      "\<forall>e\<in>set es. entry_settled (bk_clock v) cs0 ms0 e v1" using ih by blast
  have left1: "entries_left (e # zs) v1" using outbox_run_history [OF go.hyps(1) left] by blast
  have e: "e \<in> set (outbox v1)" "distinct (map ob_id (outbox v1))" using left1 by (auto simp: entries_left_def)
  have m: "entry_moves e x" by (rule entry_done_fields(1) [OF go.hyps(2) left1])
  have frame: "bk_calm v1" "bk_clock v1 = bk_clock v" using outbox_run_frame [OF go.hyps(1)] go.prems(2) by simp_all
  have "complete_tickets v1 (ob_aggregateId e)" using complete_outbox_run [OF go.hyps(1)] go.prems(3) by blast
  then obtain cs ts ms r where v2: "v2 = outbox_update (upserts ob_id [x]) (effect cs ts ms v1)" and h: "handled e v1 r cs ts ms"
    and now: "entry_settled (bk_clock v) cs ms e v2"
    using entry_done_settled [OF go.hyps(2) frame(1)] frame(2) by metis
  have rows: "outbox v2 = map (\<lambda>r. if ob_id r = ob_id e then x else r) (outbox v1)"
    using upsert_row [of e "outbox v1" ob_id x] e(1) entry_moves_id [OF m] by (simp add: v2 del: upserts_Cons)
  have "map ob_id (outbox v2) = map ob_id (outbox v1)"
    unfolding rows using entry_moves_id [OF m] by auto
  then have ids: "map ob_id (outbox v2) = map ob_id (outbox v)" using ih by simp
  have keep: "y \<in> set (outbox v2)" if "y \<in> set (outbox v)" "y \<notin> set (es @ [e])" for y
  proof -
    have y: "y \<in> set (outbox v1)" "y \<noteq> e" using ih that by auto
    then have "ob_id y \<noteq> ob_id e" using row_by_id [where rid = ob_id, OF e(2,1)] by blast
    then show ?thesis using y(1) unfolding rows by force
  qed
  have "entry_settled (bk_clock v) (cs0 @ cs) (ms0 @ ms) e' v2" if "e' \<in> set es" for e'
  proof -
    have "ob_id e' \<noteq> ob_id e" using left that by (auto simp: entries_left_def) (metis imageI)
    then show ?thesis using settled_later [OF _ h _ m v2] ih'(3) that by blast
  qed
  moreover have "entry_settled (bk_clock v) (cs0 @ cs) (ms0 @ ms) e v2" by (rule entry_settled_more [OF now])
  moreover have "peer_calls v2 = peer_calls v @ cs0 @ cs" "bk_sent v2 = bk_sent v @ ms0 @ ms" by (simp_all add: v2 ih')
  ultimately show ?case
    using ids keep by (intro conjI exI [of _ "cs0 @ cs"] exI [of _ "ms0 @ ms"]) auto
qed simp

text \<open>
  C7.  The outbox is delivered.  A run of the worker while the systems are up returns.  It takes the oldest
  pending entries, ten at most; each of them is then completed and stands for what has happened in this run (the sale
  confirmed by the inventory, the tickets complete and the confirmation sent, the refund sent), or it is an
  entry for the inventory, which was asked in this run to sell the seats of the entry and threw or answered that it
  could not, and counts one retry more, with the error (an entry whose payload is null or has no seats, which the
  service never writes, is retried too).  All other entries are as before.
\<close>

theorem processOutbox_delivers:
  assumes "booking_world E vw" "desk_ok (vw w)" "\<forall>b. complete_tickets (vw w) b" "bk_calm (vw w)"
    and "processOutbox E (ticketService E) w = (r, w')"
  shows "r = Inr () \<and> (\<exists>es cs ms. batch (vw w) es \<and> map ob_id (outbox (vw w')) = map ob_id (outbox (vw w)) \<and>
    peer_calls (vw w') = peer_calls (vw w) @ cs \<and> bk_sent (vw w') = bk_sent (vw w) @ ms \<and>
    (\<forall>e\<in>set (outbox (vw w)). e \<notin> set es \<longrightarrow> e \<in> set (outbox (vw w'))) \<and>
    (\<forall>e\<in>set es. delivered (bk_clock (vw w)) e \<in> set (outbox (vw w')) \<and> delivery e cs ms (vw w') \<or>
       (\<exists>err. retried err e \<in> set (outbox (vw w')) \<and> ob_eventType e = ''seats.mark_sold'' \<and>
          (sold_call e (Inl err) \<in> set cs \<or> sold_call e (Inr False) \<in> set cs \<or>
           ob_payload e = JNull \<or> json_get (ob_payload e) ''seatIds'' = None))))"
proof -
  note post = processOutbox_runs [OF assms(1,5)]
  have r: "r = Inr ()" using post assms(4) by (cases r) (auto simp: outbox_post_def)
  obtain es xs where es: "batch (vw w) es" and run: "outbox_run (vw w) es xs (vw w')"
    using post r by (auto simp: outbox_post_def)
  have "entries_left (es @ []) (vw w)"
    using batch_left [OF es] assms(2) by (simp add: desk_ok_def outbox_ok_def)
  from outbox_run_settles [OF run this assms(4,3)] show ?thesis
    using r es unfolding entry_settled_def not_sold_def by blast
qed

theorem processOutbox_delivers_witness:
  "\<exists>w'. processOutbox demo_env (ticketService demo_env) booked_demo = (Inr (), w')"
proof -
  obtain r w' where run: "processOutbox demo_env (ticketService demo_env) booked_demo = (r, w')" by fastforce
  have "\<forall>b. complete_tickets (booking_view booked_demo) b" by (simp add: booked_demo_complete)
  from processOutbox_delivers [OF demo_world booked_demo_ok this booked_demo_facts(2) run] show ?thesis using run by blast
qed

end
