(* ===== verification/Booking_Numbers.thy ===== *)
theory Booking_Numbers
  imports Booking_Orchestrator Payment_Service
begin

text \<open>
  What the numbers of a booking mean: the amount that reaches the payment provider is the exact sum of the
  prices, and the number of a booking tells when it was made.
\<close>

section \<open>The amount of a booking\<close>

text \<open>The text of a \<^verbatim>\<open>DECIMAL(10,2)\<close> column that holds \<open>c\<close> hundredths.\<close>

definition cents_text :: "string \<Rightarrow> int \<Rightarrow> bool" where
  "cents_text s c \<longleftrightarrow> (\<exists>ws fs. s = ws @ CHR ''.'' # fs \<and> ws \<noteq> [] \<and> length fs = 2 \<and>
     (\<forall>d\<in>set (ws @ fs). is_digit d) \<and> c = digits_val (ws @ fs))"

lemma cents_text_intro:
  "ws \<noteq> [] \<Longrightarrow> length fs = 2 \<Longrightarrow> list_all is_digit (ws @ fs) \<Longrightarrow> c = digits_val (ws @ fs) \<Longrightarrow> cents_text (ws @ CHR ''.'' # fs) c"
  unfolding cents_text_def list_all_iff by blast

lemma digits_nonneg:
  assumes "\<forall>d\<in>set ds. is_digit d"
  shows "0 \<le> digits_val ds"
proof -
  have "0 \<le> n \<Longrightarrow> 0 \<le> foldl (\<lambda>n c. 10 * n + (of_char c - 48)) n ds" for n :: int
    using assms
  proof (induction ds arbitrary: n)
    case (Cons d ds)
    then have "48 \<le> (of_char d :: nat)" by (simp add: is_digit_def)
    then have "48 \<le> (of_char d :: int)" by (metis of_nat_le_iff of_nat_numeral of_nat_of_char)
    then show ?case using Cons by simp
  qed simp
  then show ?thesis by (simp add: digits_val_def)
qed

lemma parse_decimal:
  assumes "cents_text s c"
  shows "parseFloat s = Fin (fl64 (of_int c / 100)) \<and> 0 \<le> c"
proof -
  obtain ws fs where s: "s = ws @ CHR ''.'' # fs" "ws \<noteq> []" "length fs = 2" "\<forall>d\<in>set (ws @ fs). is_digit d"
      "c = digits_val (ws @ fs)"
    using assms unfolding cents_text_def by blast
  have tw: "takeWhile is_digit fs = fs" using s(4) by (auto simp: takeWhile_eq_all_conv)
  obtain w ws' where ws: "ws = w # ws'" using s(2) by (cases ws) auto
  have nd: "\<not> is_digit CHR ''.''" by (simp add: is_digit_def)
  have w: "is_digit w" using s(4) ws by simp
  then have "w \<noteq> CHR '' ''" "w \<noteq> CHR ''-''" "w \<noteq> CHR ''+''" by (auto simp: is_digit_def)
  moreover have "takeWhile is_digit s = ws" "dropWhile is_digit s = CHR ''.'' # fs"
    using s(4) nd by (auto simp: s(1) takeWhile_append2 dropWhile_append2)
  moreover have "dropWhile (\<lambda>c. c = CHR '' '') s = s" using calculation(1) by (simp add: s(1) ws)
  ultimately have "parseFloat s = Fin (fl64 (of_int c / 10 ^ 2))"
    using s(3,5) by (simp add: parseFloat_def Let_def s(1) ws tw)
  then show ?thesis using digits_nonneg [OF s(4)] s(5) by simp
qed

lemma total_is_sum: "total_amount seats = sum_prices (map (\<lambda>s. parseFloat (sm_price s)) seats)"
  by (simp add: total_amount_def sum_prices_def foldl_map)

text \<open>
  C37.  The customer pays the exact price.  When the prices of the selected seats are decimal texts of \<open>cs\<close>
  hundredths, of at most ten thousand seats and a hundred million in all, the number of hundredths that
  Stripe is asked to charge for the payment of the booking is exactly their sum, although total and amount
  are computed with binary floating-point numbers.
\<close>

theorem charged_amount_exact:
  assumes "list_all2 (\<lambda>s c. cents_text (sm_price s) c) seats cs" "sum_list cs \<le> 10 ^ 10" "length cs \<le> 10000"
  shows "ch_amount (charge_for (charge_request (payment_request dto bookingId (total_amount seats) currency)) i) = Fin (of_int (sum_list cs))"
proof -
  have p: "map (\<lambda>s. parseFloat (sm_price s)) seats = map (\<lambda>c. Fin (fl64 (of_int c / 100))) cs \<and> (\<forall>c\<in>set cs. 0 \<le> c)"
    using assms(1) by (induction rule: list_all2_induct) (auto simp: parse_decimal)
  then have "Math_round (js_mult (total_amount seats) (Fin 100)) = Fin (of_int (sum_list cs))"
    unfolding total_is_sum using assms(2,3) by (simp add: sum_prices_hundredths)
  then show ?thesis by (simp add: charge_for_def charge_request_def payment_request_def)
qed

theorem charged_amount_exact_witness:
  "\<exists>seats. map sm_price seats = [''19.90'', ''0.10'', ''0.20''] \<and> (\<forall>dto. ch_amount (charge_for (charge_request
     (payment_request dto ''i'' (total_amount seats) ''TRY'')) ''c1'') = Fin 2020)"
proof -
  let ?m = "\<lambda>p. \<lparr>sm_id = '''', sm_eventId = '''', sm_seatId = '''', sm_sectionId = '''', sm_sectionName = '''',
    sm_ticketTypeId = '''', sm_ticketTypeName = '''', sm_price = p, sm_currency = '''', sm_row = '''', sm_seatNumber = '''',
    sm_seatType = '''', sm_status = ''''\<rparr>"
  have d: "cents_text ''19.90'' 1990" "cents_text ''0.10'' 10" "cents_text ''0.20'' 20"
    using cents_text_intro [of "''19''" "''90''"] cents_text_intro [of "''0''" "''10''"] cents_text_intro [of "''0''" "''20''"]
    by (simp_all add: is_digit_def digits_val_def)
  have "list_all2 (\<lambda>s c. cents_text (sm_price s) c) [?m ''19.90'', ?m ''0.10'', ?m ''0.20''] [1990, 10, 20]"
    using d by simp
  from charged_amount_exact [OF this, of _ "''i''" "''TRY''" "''c1''"]
  show ?thesis by (intro exI [of _ "[?m ''19.90'', ?m ''0.10'', ?m ''0.20'']"]) simp
qed

section \<open>Booking numbers\<close>

definition number_time :: "string \<Rightarrow> int" where
  "number_time s = numeral_value 36 (takeWhile (\<lambda>c. c \<noteq> CHR ''-'') (drop 3 s))"

text \<open>
  A booking number can be read back.  The number of a booking tells the time at which it was made, in
  milliseconds; and two bookings have the same number only when they were made in the same millisecond
  with random identifiers that agree in their first four characters up to case.
\<close>

theorem booking_number_roundtrip:
  assumes "0 \<le> now" "0 \<le> now'"
  shows "number_time (booking_number now uuid) = now \<and>
    (booking_number now uuid = booking_number now' uuid' \<longleftrightarrow> now = now' \<and> toUpperCase (take 4 uuid) = toUpperCase (take 4 uuid'))"
proof -
  let ?t = "\<lambda>n. toUpperCase (radix 36 n)"
  have b: "booking_number n u = ''BK-'' @ ?t n @ CHR ''-'' # toUpperCase (take 4 u)" if "0 \<le> n" for n u
    using that by (simp add: booking_number_def toString_def)
  have v: "numeral_value 36 (?t n) = n" and d: "CHR ''-'' \<notin> set (?t n)" if "0 \<le> n" for n
    using that radix_value [of 36 n] radix_no_dash [of 36 n] by simp_all
  have "takeWhile (\<lambda>c. c \<noteq> CHR ''-'') (drop 3 (booking_number now uuid)) = ?t now"
    using d [OF assms(1)] by (simp add: b [OF assms(1)] takeWhile_append)
  then have "number_time (booking_number now uuid) = now" using v [OF assms(1)] by (simp add: number_time_def)
  moreover have "?t now = ?t now' \<longleftrightarrow> now = now'" using v [OF assms(1)] v [OF assms(2)] by metis
  moreover have "booking_number now uuid = booking_number now' uuid' \<longleftrightarrow>
      ?t now = ?t now' \<and> toUpperCase (take 4 uuid) = toUpperCase (take 4 uuid')"
    unfolding b [OF assms(1)] b [OF assms(2)] same_append_eq
    using append_separator_inj [OF d [OF assms(1)] d [OF assms(2)]] by (intro iffI) simp_all
  ultimately show ?thesis by simp
qed

theorem booking_number_roundtrip_witness:
  "number_time (booking_number 1700000000000 ''3f2a77'') = 1700000000000"
  using booking_number_roundtrip [of 1700000000000 1700000000000 "''3f2a77''"] by simp

end
