(* ===== verification/Auth_Entities.thy ===== *)
theory Auth_Entities
  imports Storage JS_Text
begin

text \<open>
  The auth service: its entities (user/entities), the payload of its access tokens, its requests, its
  environment, and what it relies on.

  bcrypt, SHA-256 and the signing of tokens are library code: \<open>bcrypt_hash\<close>, \<open>bcrypt_compare\<close>, \<open>sha256\<close> and
  \<open>jwt_sign\<close> are fields of the environment.  What is assumed of them is documented: a bcrypt hash is opened
  by the password it was made from and starts with a dollar sign, a comparison tells whether the password
  opens the hash, and the digest is written in hexadecimal.
\<close>

section \<open>Data\<close>

datatype UserRole = USER | ADMIN | ORGANIZER

fun user_role_text :: "UserRole \<Rightarrow> string" where
  "user_role_text USER = ''user''"
| "user_role_text ADMIN = ''admin''"
| "user_role_text ORGANIZER = ''organizer''"

record User =
  us_id :: string
  us_email :: string
  us_passwordHash :: string
  us_fullName :: string
  us_phone :: "string option"
  us_role :: UserRole
  us_emailVerified :: bool
  us_emailVerificationToken :: "string option"
  us_emailVerificationExpires :: "int option"
  us_passwordResetToken :: "string option"
  us_passwordResetExpires :: "int option"
  us_createdAt :: int

text \<open>\<^verbatim>\<open>@Column({ unique: true }) email\<close>.\<close>

definition unique_emails :: "User list \<Rightarrow> bool" where
  "unique_emails t \<longleftrightarrow> distinct (map us_email t)"

record RefreshToken =
  rt_id :: string
  rt_userId :: string
  rt_tokenHash :: string
  rt_deviceInfo :: "string option"
  rt_expiresAt :: int
  rt_revokedAt :: "int option"
  rt_createdAt :: int

record JwtPayload =
  jp_sub :: string
  jp_email :: string
  jp_role :: string
  jp_emailVerified :: bool

record CreateUserDto =
  cu_email :: string
  cu_password :: string
  cu_fullName :: string
  cu_phone :: "string option"

record LoginDto =
  ld_email :: string
  ld_password :: string

record RefreshTokenDto =
  rd_refreshToken :: string

record ForgotPasswordDto =
  fd_email :: string

record ResetPasswordDto =
  pd_token :: string
  pd_newPassword :: string

section \<open>Configuration\<close>

text \<open>
  \<^verbatim>\<open>configService.get(key, default)\<close> is the number of the default, or the text of the environment variable:
  nothing converts it.
\<close>

datatype setting = Default int | Variable string

section \<open>The environment\<close>

record 'w auth_env =
  userRepo :: "('w, User) repo"
  refreshTokenRepo :: "('w, RefreshToken) repo"
  authKafka :: "'w kafka"
  authNow :: "('w, int) act"
  authUUID :: "('w, string) act"
  bcrypt_hash :: "string \<Rightarrow> nat \<Rightarrow> ('w, string) act"
  bcrypt_compare :: "string \<Rightarrow> string \<Rightarrow> ('w, bool) act"
  sha256 :: "string \<Rightarrow> string"
  jwt_sign :: "JwtPayload \<Rightarrow> string \<Rightarrow> ('w, string) act"
  refreshTokenExpiryDays :: setting
  jwtAccessExpiry :: string
  appUrl :: string

record auth_store =
  users :: "User list"
  refresh_tokens :: "RefreshToken list"
  auth_sent :: "kafka_message list"
  auth_clock :: int
  auth_calm :: bool

text \<open>\<open>opens p h\<close>: the password \<open>p\<close> is accepted for the bcrypt hash \<open>h\<close>.\<close>

locale auth_world =
  usr: table_api "userRepo E" vw us_id users users_update auth_clock unique_emails auth_calm +
  rts: table_api "refreshTokenRepo E" vw rt_id refresh_tokens refresh_tokens_update auth_clock "\<lambda>_. True" auth_calm +
  kafka_api "authKafka E" vw auth_sent_update +
  clock_api "authNow E" vw auth_clock
  for E :: "'w auth_env" and vw :: "'w \<Rightarrow> 'z auth_store_scheme" +
  fixes opens :: "string \<Rightarrow> string \<Rightarrow> bool"
  assumes uuid_law: "obeys vw (authUUID E) (\<lambda>v r v'. v' = v \<and> (\<exists>s. r = Inr s))"
    and hash_law: "obeys vw (bcrypt_hash E p n) (fallible auth_calm (\<lambda>v h v'. v' = v \<and> opens p h \<and> (\<exists>s. h = CHR ''$'' # s)))"
    and compare_law: "obeys vw (bcrypt_compare E p h) (fallible auth_calm (\<lambda>v b v'. v' = v \<and> b = opens p h))"
    and digest_law: "list_all is_hex (sha256 E s)"
    and sign_law: "obeys vw (jwt_sign E pl expiresIn) (fallible auth_calm (\<lambda>v t v'. v' = v))"

lemma digest_not_hash: "list_all is_hex (CHR ''$'' # s) \<longleftrightarrow> False"
  by (simp add: is_hex_def)

end
