(* ===== verification/Auth_Service.thy ===== *)
theory Auth_Service
  imports Auth_Entities
begin

text \<open>
  \<^verbatim>\<open>UserService\<close> (user/user.service.ts), \<^verbatim>\<open>AuthService\<close> (auth/auth.service.ts) and \<^verbatim>\<open>AuthController\<close>
  (auth/auth.controller.ts), with a contract for each operation.

  The clock runs in UTC, as in the containers of the platform: \<^verbatim>\<open>setHours\<close> and \<^verbatim>\<open>setDate\<close> are then arithmetic
  on milliseconds.
\<close>

section \<open>Users\<close>

text \<open>\<^verbatim>\<open>userWithoutPassword\<close>: the row without the property.\<close>

record UserView =
  uv_id :: string
  uv_email :: string
  uv_fullName :: string
  uv_phone :: "string option"
  uv_role :: UserRole
  uv_emailVerified :: bool
  uv_emailVerificationToken :: "string option"
  uv_emailVerificationExpires :: "int option"
  uv_passwordResetToken :: "string option"
  uv_passwordResetExpires :: "int option"
  uv_createdAt :: int

definition userWithoutPassword :: "User \<Rightarrow> UserView" where
  "userWithoutPassword user =
     \<lparr>uv_id = us_id user, uv_email = us_email user, uv_fullName = us_fullName user, uv_phone = us_phone user,
      uv_role = us_role user, uv_emailVerified = us_emailVerified user,
      uv_emailVerificationToken = us_emailVerificationToken user,
      uv_emailVerificationExpires = us_emailVerificationExpires user,
      uv_passwordResetToken = us_passwordResetToken user, uv_passwordResetExpires = us_passwordResetExpires user,
      uv_createdAt = us_createdAt user\<rparr>"

definition new_user :: "CreateUserDto \<Rightarrow> string \<Rightarrow> string \<Rightarrow> int \<Rightarrow> User" where
  "new_user dto passwordHash = (\<lambda>id now.
     \<lparr>us_id = id, us_email = cu_email dto, us_passwordHash = passwordHash, us_fullName = cu_fullName dto,
      us_phone = cu_phone dto, us_role = USER, us_emailVerified = False, us_emailVerificationToken = None,
      us_emailVerificationExpires = None, us_passwordResetToken = None, us_passwordResetExpires = None,
      us_createdAt = now\<rparr>)"

definition findByEmail :: "'w auth_env \<Rightarrow> string \<Rightarrow> ('w, User option) act" where
  "findByEmail E email = repo_findOne (userRepo E) (\<lambda>u. us_email u = email)"

definition user_findById :: "'w auth_env \<Rightarrow> string \<Rightarrow> ('w, User option) act" where
  "user_findById E i = repo_findOne (userRepo E) (\<lambda>u. us_id u = i)"

definition user_create :: "'w auth_env \<Rightarrow> CreateUserDto \<Rightarrow> ('w, UserView) act" where
  "user_create E dto =
     await (findByEmail E (cu_email dto)) (\<lambda>existing.
     if existing \<noteq> None then throw (Conflict ''User with this email already exists'')
     else
     await (bcrypt_hash E (cu_password dto) 12) (\<lambda>passwordHash.
     await (repo_insert (userRepo E) [new_user dto passwordHash]) (\<lambda>saved.
     return (userWithoutPassword (hd saved)))))"

definition findByEmailVerificationToken :: "'w auth_env \<Rightarrow> string \<Rightarrow> ('w, User option) act" where
  "findByEmailVerificationToken E tokenHash = repo_findOne (userRepo E) (\<lambda>u. us_emailVerificationToken u = Some tokenHash)"

definition markEmailVerified :: "'w auth_env \<Rightarrow> string \<Rightarrow> ('w, unit) act" where
  "markEmailVerified E userId = repo_update (userRepo E) (\<lambda>u. us_id u = userId)
     (\<lambda>u. u\<lparr>us_emailVerified := True, us_emailVerificationToken := None, us_emailVerificationExpires := None\<rparr>)"

definition setPasswordResetToken :: "'w auth_env \<Rightarrow> string \<Rightarrow> string \<Rightarrow> int \<Rightarrow> ('w, unit) act" where
  "setPasswordResetToken E userId tokenHash expires = repo_update (userRepo E) (\<lambda>u. us_id u = userId)
     (\<lambda>u. u\<lparr>us_passwordResetToken := Some tokenHash, us_passwordResetExpires := Some expires\<rparr>)"

definition findByPasswordResetToken :: "'w auth_env \<Rightarrow> string \<Rightarrow> ('w, User option) act" where
  "findByPasswordResetToken E tokenHash = repo_findOne (userRepo E) (\<lambda>u. us_passwordResetToken u = Some tokenHash)"

definition updatePassword :: "'w auth_env \<Rightarrow> string \<Rightarrow> string \<Rightarrow> ('w, unit) act" where
  "updatePassword E userId newPassword =
     await (bcrypt_hash E newPassword 12) (\<lambda>passwordHash.
     repo_update (userRepo E) (\<lambda>u. us_id u = userId)
       (\<lambda>u. u\<lparr>us_passwordHash := passwordHash, us_passwordResetToken := None, us_passwordResetExpires := None\<rparr>))"

definition validatePassword :: "'w auth_env \<Rightarrow> User \<Rightarrow> string \<Rightarrow> ('w, bool) act" where
  "validatePassword E user password = bcrypt_compare E password (us_passwordHash user)"

definition setEmailVerificationToken :: "'w auth_env \<Rightarrow> string \<Rightarrow> string \<Rightarrow> int \<Rightarrow> ('w, unit) act" where
  "setEmailVerificationToken E userId tokenHash expires = repo_update (userRepo E) (\<lambda>u. us_id u = userId)
     (\<lambda>u. u\<lparr>us_emailVerificationToken := Some tokenHash, us_emailVerificationExpires := Some expires\<rparr>)"

section \<open>Tokens\<close>

definition hashToken :: "'w auth_env \<Rightarrow> string \<Rightarrow> string" where
  "hashToken E token = sha256 E token"

text \<open>\<^verbatim>\<open>expires.setHours(expires.getHours() + n)\<close>.\<close>

definition in_hours :: "int \<Rightarrow> int \<Rightarrow> int" where
  "in_hours n now = now + n * 3600000"

text \<open>
  \<^verbatim>\<open>expiresAt.getDate() + this.refreshTokenExpiryDays\<close>: a sum with a number, and the concatenation of the
  decimals with a text; \<^verbatim>\<open>setDate\<close> reads it as a number and moves to that day of the month.  A text that is not
  made of digits is \<^verbatim>\<open>NaN\<close>, and gives an invalid date, which the database refuses.
\<close>

definition getDate :: "int \<Rightarrow> int" where
  "getDate now = (case civil (now div 86400000) of (y, m, d) \<Rightarrow> d)"

fun plus_days :: "int \<Rightarrow> setting \<Rightarrow> int option" where
  "plus_days d (Default k) = Some (d + k)"
| "plus_days d (Variable s) = (let t = toString 10 d @ s in if list_all is_digit t then Some (digits_val t) else None)"

definition setDate :: "int \<Rightarrow> int \<Rightarrow> int" where
  "setDate now day = now + (day - getDate now) * 86400000"

definition new_refresh_token :: "string \<Rightarrow> string \<Rightarrow> int \<Rightarrow> string \<Rightarrow> int \<Rightarrow> RefreshToken" where
  "new_refresh_token userId tokenHash expires = (\<lambda>id now.
     \<lparr>rt_id = id, rt_userId = userId, rt_tokenHash = tokenHash, rt_deviceInfo = None, rt_expiresAt = expires,
      rt_revokedAt = None, rt_createdAt = now\<rparr>)"

record Tokens =
  accessToken :: string
  refreshToken :: string

definition generateTokens :: "'w auth_env \<Rightarrow> string \<Rightarrow> string \<Rightarrow> string \<Rightarrow> bool \<Rightarrow> ('w, Tokens) act" where
  "generateTokens E userId email role emailVerified =
     (let payload = \<lparr>jp_sub = userId, jp_email = email, jp_role = role, jp_emailVerified = emailVerified\<rparr> in
     await (jwt_sign E payload (jwtAccessExpiry E)) (\<lambda>access.
     await (authUUID E) (\<lambda>refresh.
     let refreshTokenHash = hashToken E refresh in
     await (authNow E) (\<lambda>now.
     case plus_days (getDate now) (refreshTokenExpiryDays E) of
       None \<Rightarrow> throw (JsError ''invalid input syntax for type timestamp with time zone'')
     | Some day \<Rightarrow>
         await (repo_insert (refreshTokenRepo E) [new_refresh_token userId refreshTokenHash (setDate now day)]) (\<lambda>_.
         return \<lparr>accessToken = access, refreshToken = refresh\<rparr>)))))"

section \<open>Registering and logging in\<close>

definition mail_payload :: "string \<Rightarrow> string \<Rightarrow> string \<Rightarrow> string \<Rightarrow> string \<Rightarrow> int \<Rightarrow> json" where
  "mail_payload userId email fullName urlField url expires = JObj
     [(''userId'', JStr userId), (''email'', JStr email), (''fullName'', JStr fullName), (urlField, JStr url),
      (''expiresAt'', JStr (toISOString expires))]"

definition verification_url :: "'w auth_env \<Rightarrow> string \<Rightarrow> string" where
  "verification_url E token = appUrl E @ ''/auth/verify-email?token='' @ token"

definition reset_url :: "'w auth_env \<Rightarrow> string \<Rightarrow> string" where
  "reset_url E token = appUrl E @ ''/reset-password?token='' @ token"

text \<open>The statements that three methods share: a new token, its hash in the row, the mail.\<close>

definition send_verification :: "'w auth_env \<Rightarrow> string \<Rightarrow> string \<Rightarrow> string \<Rightarrow> ('w, unit) act" where
  "send_verification E userId email fullName =
     await (authUUID E) (\<lambda>token.
     let tokenHash = hashToken E token in
     await (authNow E) (\<lambda>now.
     let expires = in_hours 24 now in
     await (setEmailVerificationToken E userId tokenHash expires) (\<lambda>_.
     kafka_emit (authKafka E) ''auth.email_verification'' userId
       (mail_payload userId email fullName ''verificationUrl'' (verification_url E token) expires))))"

definition register :: "'w auth_env \<Rightarrow> string \<Rightarrow> string \<Rightarrow> string \<Rightarrow> ('w, UserView) act" where
  "register E email password fullName =
     await (user_create E \<lparr>cu_email = email, cu_password = password, cu_fullName = fullName, cu_phone = None\<rparr>) (\<lambda>user.
     await (send_verification E (uv_id user) (uv_email user) (uv_fullName user)) (\<lambda>_.
     return user))"

record LoginUser =
  lu_id :: string
  lu_email :: string
  lu_role :: UserRole
  lu_fullName :: string
  lu_emailVerified :: bool

definition login :: "'w auth_env \<Rightarrow> string \<Rightarrow> string \<Rightarrow> ('w, LoginUser \<times> Tokens) act" where
  "login E email password =
     await (findByEmail E email) (\<lambda>found.
     case found of
       None \<Rightarrow> throw (Unauthorized ''Invalid credentials'')
     | Some user \<Rightarrow>
         await (validatePassword E user password) (\<lambda>isPasswordValid.
         if \<not> isPasswordValid then throw (Unauthorized ''Invalid credentials'')
         else
         await (generateTokens E (us_id user) (us_email user) (user_role_text (us_role user)) (us_emailVerified user)) (\<lambda>tokens.
         return (\<lparr>lu_id = us_id user, lu_email = us_email user, lu_role = us_role user, lu_fullName = us_fullName user,
           lu_emailVerified = us_emailVerified user\<rparr>, tokens))))"

text \<open>
  \<^verbatim>\<open>refresh\<close> looks for a bcrypt hash of the token.  A property of a \<^verbatim>\<open>where\<close> clause that is \<^verbatim>\<open>null\<close> is skipped by
  TypeORM, so the query does not ask for \<^verbatim>\<open>revokedAt\<close>.
\<close>

definition refresh :: "'w auth_env \<Rightarrow> string \<Rightarrow> ('w, Tokens) act" where
  "refresh E token =
     await (bcrypt_hash E token 10) (\<lambda>tokenHash.
     await (repo_findOne (refreshTokenRepo E) (\<lambda>t. rt_tokenHash t = tokenHash)) (\<lambda>found.
     case found of
       None \<Rightarrow> throw (Unauthorized ''Invalid refresh token'')
     | Some storedTokens \<Rightarrow>
         await (authNow E) (\<lambda>now.
         if rt_expiresAt storedTokens < now then throw (Unauthorized ''Refresh token expired'')
         else
         await (authNow E) (\<lambda>now.
         await (repo_save (refreshTokenRepo E) [storedTokens\<lparr>rt_revokedAt := Some now\<rparr>]) (\<lambda>_.
         await (user_findById E (rt_userId storedTokens)) (\<lambda>found.
         case found of
           None \<Rightarrow> throw (Unauthorized ''User not found'')
         | Some user \<Rightarrow>
             generateTokens E (us_id user) (us_email user) (user_role_text (us_role user)) (us_emailVerified user)))))))"

definition logout :: "'w auth_env \<Rightarrow> string \<Rightarrow> ('w, unit) act" where
  "logout E token =
     (let tokenHash = hashToken E token in
     await (repo_findOne (refreshTokenRepo E) (\<lambda>t. rt_tokenHash t = tokenHash \<and> rt_revokedAt t = None)) (\<lambda>found.
     case found of
       None \<Rightarrow> return ()
     | Some storedToken \<Rightarrow>
         await (authNow E) (\<lambda>now.
         repo_save (refreshTokenRepo E) [storedToken\<lparr>rt_revokedAt := Some now\<rparr>])))"

section \<open>Verifying an address and resetting a password\<close>

definition resendVerification :: "'w auth_env \<Rightarrow> string \<Rightarrow> ('w, string) act" where
  "resendVerification E userId =
     await (user_findById E userId) (\<lambda>found.
     case found of
       None \<Rightarrow> throw (Unauthorized ''User not found'')
     | Some user \<Rightarrow>
         if us_emailVerified user then return ''Email already verified''
         else
         await (send_verification E userId (us_email user) (us_fullName user)) (\<lambda>_.
         return ''Email verification email resent''))"

definition requestEmailVerification :: "'w auth_env \<Rightarrow> string \<Rightarrow> ('w, string) act" where
  "requestEmailVerification E userId =
     await (user_findById E userId) (\<lambda>found.
     case found of
       None \<Rightarrow> throw (Unauthorized ''User not found'')
     | Some user \<Rightarrow>
         await (send_verification E userId (us_email user) (us_fullName user)) (\<lambda>_.
         return ''Email verification email sent''))"

text \<open>\<^verbatim>\<open>user.xExpires && user.xExpires < new Date()\<close>: a missing time never expires.\<close>

definition expired :: "int option \<Rightarrow> int \<Rightarrow> bool" where
  "expired x now = (case x of None \<Rightarrow> False | Some t \<Rightarrow> t < now)"

definition verifyEmail :: "'w auth_env \<Rightarrow> string \<Rightarrow> ('w, string) act" where
  "verifyEmail E token =
     (let tokenHash = hashToken E token in
     await (findByEmailVerificationToken E tokenHash) (\<lambda>found.
     await (authNow E) (\<lambda>now.
     case found of
       None \<Rightarrow> throw (Unauthorized ''Invalid or expired token'')
     | Some user \<Rightarrow>
         if expired (us_emailVerificationExpires user) now
         then throw (Unauthorized ''Invalid or expired token'')
         else
         await (markEmailVerified E (us_id user)) (\<lambda>_.
         return ''Email verified successfully''))))"

definition requestPasswordReset :: "'w auth_env \<Rightarrow> string \<Rightarrow> ('w, string) act" where
  "requestPasswordReset E email =
     await (findByEmail E email) (\<lambda>found.
     case found of
       None \<Rightarrow> return ''If themail exists, a reset link has been sent''
     | Some user \<Rightarrow>
         await (authUUID E) (\<lambda>token.
         let tokenHash = hashToken E token in
         await (authNow E) (\<lambda>now.
         let expires = in_hours 1 now in
         await (setPasswordResetToken E (us_id user) tokenHash expires) (\<lambda>_.
         await (kafka_emit (authKafka E) ''auth.password_reset'' (us_id user)
           (mail_payload (us_id user) (us_email user) (us_fullName user) ''resetUrl'' (reset_url E token) expires)) (\<lambda>_.
         return ''If the email exists, a reset link has been sent'')))))"

definition resetPassword :: "'w auth_env \<Rightarrow> string \<Rightarrow> string \<Rightarrow> ('w, string) act" where
  "resetPassword E token newPassword =
     (let tokenHash = hashToken E token in
     await (findByPasswordResetToken E tokenHash) (\<lambda>found.
     await (authNow E) (\<lambda>now.
     case found of
       None \<Rightarrow> throw (Unauthorized ''Invalid or expired token'')
     | Some user \<Rightarrow>
         if expired (us_passwordResetExpires user) now
         then throw (Unauthorized ''Invalid or expired token'')
         else
         await (updatePassword E (us_id user) newPassword) (\<lambda>_.
         await (authNow E) (\<lambda>now.
         await (repo_update (refreshTokenRepo E) (\<lambda>t. rt_userId t = us_id user \<and> rt_revokedAt t = None)
           (\<lambda>t. t\<lparr>rt_revokedAt := Some now\<rparr>)) (\<lambda>_.
         return ''Password reset successfully''))))))"

section \<open>The controller\<close>

definition auth_register :: "'w auth_env \<Rightarrow> CreateUserDto \<Rightarrow> ('w, UserView) act" where
  "auth_register E dto = register E (cu_email dto) (cu_password dto) (cu_fullName dto)"

definition auth_login :: "'w auth_env \<Rightarrow> LoginDto \<Rightarrow> ('w, LoginUser \<times> Tokens) act" where
  "auth_login E dto = login E (ld_email dto) (ld_password dto)"

definition auth_refresh :: "'w auth_env \<Rightarrow> RefreshTokenDto \<Rightarrow> ('w, Tokens) act" where
  "auth_refresh E dto = refresh E (rd_refreshToken dto)"

definition auth_logout :: "'w auth_env \<Rightarrow> RefreshTokenDto \<Rightarrow> ('w, unit) act" where
  "auth_logout E dto = logout E (rd_refreshToken dto)"

definition auth_verifyEmail :: "'w auth_env \<Rightarrow> string \<Rightarrow> ('w, string) act" where
  "auth_verifyEmail E token = verifyEmail E token"

definition auth_forgotPassword :: "'w auth_env \<Rightarrow> ForgotPasswordDto \<Rightarrow> ('w, string) act" where
  "auth_forgotPassword E body = requestPasswordReset E (fd_email body)"

definition auth_resetPassword :: "'w auth_env \<Rightarrow> ResetPasswordDto \<Rightarrow> ('w, string) act" where
  "auth_resetPassword E body = resetPassword E (pd_token body) (pd_newPassword body)"

end
