(* ===== verification/Auth_Laws.thy ===== *)
theory Auth_Laws
  imports Auth_Service
begin

text \<open>The contracts of the operations of the auth service, and its invariant.\<close>

section \<open>What the operations do\<close>

definition with_verification :: "string \<Rightarrow> string \<Rightarrow> int \<Rightarrow> User \<Rightarrow> User" where
  "with_verification i h t u = (if us_id u = i
     then u\<lparr>us_emailVerificationToken := Some h, us_emailVerificationExpires := Some t\<rparr> else u)"

definition verified :: "string \<Rightarrow> User \<Rightarrow> User" where
  "verified i u = (if us_id u = i
     then u\<lparr>us_emailVerified := True, us_emailVerificationToken := None, us_emailVerificationExpires := None\<rparr> else u)"

definition with_reset :: "string \<Rightarrow> string \<Rightarrow> int \<Rightarrow> User \<Rightarrow> User" where
  "with_reset i h t u = (if us_id u = i
     then u\<lparr>us_passwordResetToken := Some h, us_passwordResetExpires := Some t\<rparr> else u)"

definition with_password :: "string \<Rightarrow> string \<Rightarrow> User \<Rightarrow> User" where
  "with_password i h u = (if us_id u = i
     then u\<lparr>us_passwordHash := h, us_passwordResetToken := None, us_passwordResetExpires := None\<rparr> else u)"

definition revoked_all :: "string \<Rightarrow> int \<Rightarrow> RefreshToken \<Rightarrow> RefreshToken" where
  "revoked_all i now t = (if rt_userId t = i \<and> rt_revokedAt t = None then t\<lparr>rt_revokedAt := Some now\<rparr> else t)"

definition mailed :: "string \<Rightarrow> string \<Rightarrow> json \<Rightarrow> 'z auth_store_scheme \<Rightarrow> 'z auth_store_scheme" where
  "mailed topic i x = auth_sent_update (\<lambda>l. l @ [(topic, i, x)])"

text \<open>The verification of the address of user \<open>i\<close> was started with the token \<open>token\<close>.\<close>

definition verification_sent ::
  "'w auth_env \<Rightarrow> string \<Rightarrow> string \<Rightarrow> string \<Rightarrow> string \<Rightarrow> 'z auth_store_scheme \<Rightarrow> 'z auth_store_scheme" where
  "verification_sent E token i email name v =
     mailed ''auth.email_verification'' i
       (mail_payload i email name ''verificationUrl'' (verification_url E token) (in_hours 24 (auth_clock v)))
       (users_update (map (with_verification i (sha256 E token) (in_hours 24 (auth_clock v)))) v)"

definition reset_sent :: "'w auth_env \<Rightarrow> string \<Rightarrow> User \<Rightarrow> 'z auth_store_scheme \<Rightarrow> 'z auth_store_scheme" where
  "reset_sent E token u v =
     mailed ''auth.password_reset'' (us_id u)
       (mail_payload (us_id u) (us_email u) (us_fullName u) ''resetUrl'' (reset_url E token) (in_hours 1 (auth_clock v)))
       (users_update (map (with_reset (us_id u) (sha256 E token) (in_hours 1 (auth_clock v)))) v)"

text \<open>A row for the refresh token of \<open>i\<close>, with the expiry the configuration gives.\<close>

definition token_issued ::
  "'w auth_env \<Rightarrow> string \<Rightarrow> string \<Rightarrow> 'z auth_store_scheme \<Rightarrow> RefreshToken \<Rightarrow> bool" where
  "token_issued E i token v t \<longleftrightarrow> (\<exists>day. plus_days (getDate (auth_clock v)) (refreshTokenExpiryDays E) = Some day \<and>
     t = new_refresh_token i (sha256 E token) (setDate (auth_clock v) day) (rt_id t) (auth_clock v) \<and>
     rt_id t \<notin> rt_id ` set (refresh_tokens v))"

definition user_added :: "'z auth_store_scheme \<Rightarrow> User \<Rightarrow> bool" where
  "user_added v u \<longleftrightarrow> us_id u \<notin> us_id ` set (users v) \<and> unique_emails (users v @ [u])"

definition generate_tokens_spec ::
  "'w auth_env \<Rightarrow> string \<Rightarrow> 'z auth_store_scheme \<Rightarrow> exn + Tokens \<Rightarrow> 'z auth_store_scheme \<Rightarrow> bool" where
  "generate_tokens_spec E i v r v' \<longleftrightarrow> (case r of
      Inl e \<Rightarrow> v' = v \<and> (\<exists>m. e = JsError m) \<and>
        (\<not> auth_calm v \<or> plus_days (getDate (auth_clock v)) (refreshTokenExpiryDays E) = None)
    | Inr tk \<Rightarrow> \<exists>t. token_issued E i (refreshToken tk) v t \<and> v' = refresh_tokens_update (\<lambda>l. l @ [t]) v)"

text \<open>Registering: the user was added; and the mail was sent, or that failed.\<close>

definition registered :: "(string \<Rightarrow> string \<Rightarrow> bool) \<Rightarrow> string \<Rightarrow> string \<Rightarrow> 'z auth_store_scheme \<Rightarrow> User \<Rightarrow> bool" where
  "registered opens email password v u \<longleftrightarrow> user_added v u \<and> us_email u = email \<and> opens password (us_passwordHash u)"

definition register_spec ::
  "'w auth_env \<Rightarrow> (string \<Rightarrow> string \<Rightarrow> bool) \<Rightarrow> string \<Rightarrow> string \<Rightarrow> string \<Rightarrow>
   'z auth_store_scheme \<Rightarrow> exn + UserView \<Rightarrow> 'z auth_store_scheme \<Rightarrow> bool" where
  "register_spec E opens email password name v r v' \<longleftrightarrow> (case r of
      Inl e \<Rightarrow> v' = v \<and> (\<not> auth_calm v \<and> (\<exists>m. e = JsError m) \<or> (\<exists>m. e = Conflict m) \<and> (\<exists>u\<in>set (users v). us_email u = email)) \<or>
        \<not> auth_calm v \<and> (\<exists>u. registered opens email password v u \<and> v' = users_update (\<lambda>l. l @ [u]) v)
    | Inr x \<Rightarrow> \<exists>u token. registered opens email password v u \<and> x = userWithoutPassword u \<and>
        v' = verification_sent E token (us_id u) (us_email u) (us_fullName u) (users_update (\<lambda>l. l @ [u]) v))"

definition login_spec ::
  "'w auth_env \<Rightarrow> (string \<Rightarrow> string \<Rightarrow> bool) \<Rightarrow> string \<Rightarrow> string \<Rightarrow>
   'z auth_store_scheme \<Rightarrow> exn + LoginUser \<times> Tokens \<Rightarrow> 'z auth_store_scheme \<Rightarrow> bool" where
  "login_spec E opens email password v r v' \<longleftrightarrow> (case r of
      Inl e \<Rightarrow> v' = v \<and>
        ((\<exists>m. e = JsError m) \<and> (\<not> auth_calm v \<or> plus_days (getDate (auth_clock v)) (refreshTokenExpiryDays E) = None) \<or>
         e = Unauthorized ''Invalid credentials'' \<and> ((\<forall>u\<in>set (users v). us_email u \<noteq> email) \<or>
           (\<exists>u\<in>set (users v). us_email u = email \<and> \<not> opens password (us_passwordHash u))))
    | Inr x \<Rightarrow> \<exists>u\<in>set (users v). \<exists>t. us_email u = email \<and> opens password (us_passwordHash u) \<and>
        lu_id (fst x) = us_id u \<and> lu_email (fst x) = email \<and> lu_role (fst x) = us_role u \<and>
        token_issued E (us_id u) (refreshToken (snd x)) v t \<and> v' = refresh_tokens_update (\<lambda>l. l @ [t]) v)"

text \<open>The user \<open>i\<close> was sent a new mail.\<close>

definition notified :: "'w auth_env \<Rightarrow> string \<Rightarrow> 'z auth_store_scheme \<Rightarrow> 'z auth_store_scheme \<Rightarrow> bool" where
  "notified E i v v' \<longleftrightarrow> (\<exists>u token. u \<in> set (users v) \<and> us_id u = i \<and>
     v' = verification_sent E token i (us_email u) (us_fullName u) v)"

text \<open>All stored hashes of refresh tokens are digests.\<close>

definition digests :: "'z auth_store_scheme \<Rightarrow> bool" where
  "digests v \<longleftrightarrow> list_all (\<lambda>t. list_all is_hex (rt_tokenHash t)) (refresh_tokens v)"

definition may_reset :: "'w auth_env \<Rightarrow> string \<Rightarrow> 'z auth_store_scheme \<Rightarrow> User \<Rightarrow> bool" where
  "may_reset E token v u \<longleftrightarrow> u \<in> set (users v) \<and> us_passwordResetToken u = Some (sha256 E token) \<and>
     \<not> expired (us_passwordResetExpires u) (auth_clock v)"

definition reset_spec ::
  "'w auth_env \<Rightarrow> (string \<Rightarrow> string \<Rightarrow> bool) \<Rightarrow> string \<Rightarrow> string \<Rightarrow>
   'z auth_store_scheme \<Rightarrow> exn + string \<Rightarrow> 'z auth_store_scheme \<Rightarrow> bool" where
  "reset_spec E opens token newPassword v r v' \<longleftrightarrow> (case r of
      Inl e \<Rightarrow> v' = v \<and> (\<not> auth_calm v \<and> (\<exists>m. e = JsError m) \<or>
          e = Unauthorized ''Invalid or expired token'' \<and> (\<forall>u\<in>set (users v). us_passwordResetToken u \<noteq> Some (sha256 E token)) \<or>
          e = Unauthorized ''Invalid or expired token'' \<and>
            (\<exists>u\<in>set (users v). us_passwordResetToken u = Some (sha256 E token) \<and> expired (us_passwordResetExpires u) (auth_clock v))) \<or>
        \<not> auth_calm v \<and> (\<exists>u h. may_reset E token v u \<and> opens newPassword h \<and> v' = users_update (map (with_password (us_id u) h)) v)
    | Inr x \<Rightarrow> \<exists>u h. may_reset E token v u \<and> opens newPassword h \<and>
        v' = refresh_tokens_update (map (revoked_all (us_id u) (auth_clock v))) (users_update (map (with_password (us_id u) h)) v))"

lemma new_user_id [simp]: "us_id (new_user dto h i n) = i" "us_email (new_user dto h i n) = cu_email dto"
  "us_passwordHash (new_user dto h i n) = h"
  by (simp_all add: new_user_def)

lemma new_refresh_fields [simp]:
  "rt_id (new_refresh_token u h x i n) = i" "rt_userId (new_refresh_token u h x i n) = u"
  "rt_tokenHash (new_refresh_token u h x i n) = h" "rt_expiresAt (new_refresh_token u h x i n) = x"
  "rt_revokedAt (new_refresh_token u h x i n) = None"
  by (simp_all add: new_refresh_token_def)

lemma created_one: "created rid used now [mk] xs \<Longrightarrow> \<exists>x. xs = [x] \<and> x = mk (rid x) now \<and> rid x \<notin> used"
  by (auto simp: created_def length_Suc_conv)

lemma insertable_one: "(\<And>i n. rid (mk i n) = i) \<Longrightarrow> (\<And>x. x = mk (rid x) now \<Longrightarrow> rid x \<notin> used \<Longrightarrow> ok [x]) \<Longrightarrow> insertable rid used now [mk] ok"
  by (auto simp: insertable_def keeps_ids_def dest!: created_one)

context auth_world
begin

lemma send_verification_law:
  "obeys vw (send_verification E i email name)
     (fallible auth_calm (\<lambda>v u v'. \<exists>token. v' = verification_sent E token i email name v))"
proof (rule obeysI)
  fix w
  let ?S = "fallible auth_calm (\<lambda>v u v'. \<exists>token. v' = verification_sent E token i email name v) (vw w)"
  show "wp (send_verification E i email name) (\<lambda>r w'. ?S r (vw w')) w"
    unfolding send_verification_def wp_await
  proof (rule wp_obeys [OF uuid_law], goal_cases)
    case (1 r w1)
    then obtain token where r: "r = Inr token" "vw w1 = vw w" by auto
    have sent: "?S (Inr u) (verification_sent E token i email name (vw w))" for u
      unfolding fallible_Inr by blast
    show ?case
      unfolding r(1) sum.case Let_def wp_await setEmailVerificationToken_def hashToken_def
      by (rule wp_obeys [OF now_law])
        (use sent in \<open>auto simp: r(2) verification_sent_def mailed_def with_verification_def [abs_def] simp del: fallible_Inr
          intro!: wp_fallible [OF usr.update_law] wp_obeys [OF emit_law]\<close>)
  qed
qed

lemma user_create_wp:
  assumes uniq: "unique_emails (users (vw w))"
    and "\<And>m w'. vw w' = vw w \<Longrightarrow> \<not> auth_calm (vw w) \<Longrightarrow> Q (Inl (JsError m)) w'"
    and "\<And>m w' u. vw w' = vw w \<Longrightarrow> u \<in> set (users (vw w)) \<Longrightarrow> us_email u = cu_email dto \<Longrightarrow> Q (Inl (Conflict m)) w'"
    and "\<And>u w'. vw w' = users_update (\<lambda>l. l @ [u]) (vw w) \<Longrightarrow> user_added (vw w) u \<Longrightarrow> us_email u = cu_email dto \<Longrightarrow>
      opens (cu_password dto) (us_passwordHash u) \<Longrightarrow> Q (Inr (userWithoutPassword u)) w'"
  shows "wp (user_create E dto) Q w"
  unfolding user_create_def findByEmail_def wp_await
proof (rule wp_fallible [OF usr.findOne_law], goal_cases)
  case (1 m w1)
  then show ?case using assms(2) by simp
next
  case (2 found w1)
  show ?case
  proof (cases found)
    case None
    then have w1: "vw w1 = vw w" "\<forall>u\<in>set (users (vw w)). us_email u \<noteq> cu_email dto" using 2 by auto
    show ?thesis
      unfolding None sum.case wp_await if_False simp_thms
    proof (rule wp_fallible [OF hash_law], goal_cases)
      case (1 m w2)
      then show ?case using assms(2) w1 by simp
    next
      case (2 h w2)
      then have w2: "vw w2 = vw w" "opens (cu_password dto) h" using w1 by auto
      show ?case
        unfolding sum.case wp_await
      proof (rule wp_fallible [OF usr.insert_law], goal_cases)
        case (1 m w3)
        have "unique_emails (users (vw w) @ [x])" if "x = new_user dto h (us_id x) (auth_clock (vw w))" for x
        proof -
          have "us_email x = cu_email dto" by (subst that) simp
          then show ?thesis using uniq w1(2) by (auto simp: unique_emails_def)
        qed
        then have "insertable us_id (us_id ` set (users (vw w))) (auth_clock (vw w)) [new_user dto h]
            (\<lambda>xs. unique_emails (users (vw w) @ xs))"
          by (intro insertable_one) simp_all
        then show ?case using 1 w2 unfolding sum.case by (intro assms(2)) auto
      next
        case (2 xs w3)
        then obtain u where u: "xs = [u]" "u = new_user dto h (us_id u) (auth_clock (vw w))" "us_id u \<notin> us_id ` set (users (vw w))"
          using w2 created_one by fastforce
        have "us_email u = cu_email dto" "us_passwordHash u = h" by (subst u(2), simp)+
        then show ?case
          using 2 u(1,3) w2 by (auto simp: wp_simps user_added_def intro!: assms(4))
      qed
    qed
  next
    case (Some u)
    then show ?thesis using 2 by (auto simp: wp_simps intro: assms(3))
  qed
qed

lemma generateTokens_law: "obeys vw (generateTokens E i email role ver) (generate_tokens_spec E i)"
proof (rule obeysI)
  fix w
  show "wp (generateTokens E i email role ver) (\<lambda>r w'. generate_tokens_spec E i (vw w) r (vw w')) w"
    unfolding generateTokens_def Let_def wp_await
  proof (rule wp_fallible [OF sign_law], goal_cases)
    case (1 m w1)
    then show ?case by (simp add: generate_tokens_spec_def)
  next
    case (2 access w1)
    show ?case
      unfolding sum.case wp_await
    proof (rule wp_obeys [OF uuid_law], goal_cases)
      case (1 r w2)
      then obtain token where r: "r = Inr token" "vw w2 = vw w" using 2 by auto
      show ?case
        unfolding r(1) sum.case wp_await
      proof (rule wp_obeys [OF now_law], goal_cases)
        case (1 r w3)
        then have r3: "r = Inr (auth_clock (vw w))" "vw w3 = vw w" using r by auto
        show ?case
        proof (cases "plus_days (getDate (auth_clock (vw w))) (refreshTokenExpiryDays E)")
          case None
          then show ?thesis using r3 by (simp add: wp_simps generate_tokens_spec_def)
        next
          case (Some day)
          show ?thesis
            unfolding r3(1) sum.case Some option.case wp_await
          proof (rule wp_fallible [OF rts.insert_law], goal_cases)
            case (1 m w4)
            then show ?case using r3 by (auto simp: generate_tokens_spec_def intro!: insertable_one)
          next
            case (2 xs w4)
            then obtain t where "xs = [t]" "t = new_refresh_token i (hashToken E token) (setDate (auth_clock (vw w)) day) (rt_id t) (auth_clock (vw w))"
                "rt_id t \<notin> rt_id ` set (refresh_tokens (vw w))"
              using r3 created_one by fastforce
            then show ?case
              using 2 r3 Some by (auto simp: wp_simps generate_tokens_spec_def token_issued_def hashToken_def)
          qed
        qed
      qed
    qed
  qed
qed

text \<open>What a run of an operation that may throw has done.\<close>

lemma register_law:
  "obeys vw (register E email password name) (\<lambda>v r v'. unique_emails (users v) \<longrightarrow> register_spec E opens email password name v r v')"
proof (rule obeys_pre)
  fix w
  assume uniq: "unique_emails (users (vw w))"
  let ?S = "register_spec E opens email password name (vw w)"
  show "wp (register E email password name) (\<lambda>r w'. ?S r (vw w')) w"
    unfolding register_def wp_await
  proof (rule user_create_wp [OF uniq], goal_cases)
    case (3 u w1)
    have added: "registered opens email password (vw w) u"
      using 3 by (simp add: registered_def)
    show ?case
      unfolding sum.case wp_await
    proof (rule wp_fallible [OF send_verification_law], goal_cases)
      case (1 m w2)
      then show ?case
        using 3(1) added unfolding sum.case register_spec_def by auto
    next
      case (2 x w2)
      then show ?case
        using 3(1) added unfolding sum.case wp_return register_spec_def
        by (auto simp: userWithoutPassword_def)
    qed
  qed (auto simp: register_spec_def)
qed

lemma login_law: "obeys vw (login E email password) (login_spec E opens email password)"
proof (rule obeysI)
  fix w
  show "wp (login E email password) (\<lambda>r w'. login_spec E opens email password (vw w) r (vw w')) w"
    unfolding login_def findByEmail_def validatePassword_def wp_await
  proof (rule wp_fallible [OF usr.findOne_law], goal_cases)
    case (1 m w1)
    then show ?case by (simp add: login_spec_def)
  next
    case (2 found w1)
    show ?case
    proof (cases found)
      case None
      then show ?thesis using 2 by (simp add: wp_simps login_spec_def)
    next
      case (Some u)
      then have u: "u \<in> set (users (vw w))" "us_email u = email" "vw w1 = vw w" using 2 by auto
      show ?thesis
        unfolding Some sum.case option.case wp_await
      proof (rule wp_fallible [OF compare_law], goal_cases)
        case (1 m w2)
        then show ?case using u by (simp add: login_spec_def)
      next
        case (2 ok w2)
        show ?case
        proof (cases ok)
          case False
          then show ?thesis using 2 u by (auto simp: wp_simps login_spec_def)
        next
          case True
          then have ok: "opens password (us_passwordHash u)" "vw w2 = vw w" using 2 u by auto
          show ?thesis
            using True unfolding sum.case wp_await simp_thms if_False
          proof (simp only: simp_thms if_False wp_await, intro wp_obeys [OF generateTokens_law], goal_cases)
            case (1 r w3)
            then show ?case
              using ok u by (cases r) (auto simp: wp_simps login_spec_def generate_tokens_spec_def)
          qed
        qed
      qed
    qed
  qed
qed

text \<open>A bcrypt hash is never the digest of a token.\<close>

lemma refresh_law:
  "obeys vw (refresh E token) (\<lambda>v r v'. digests v \<longrightarrow> v' = v \<and> (\<exists>e. r = Inl e \<and>
     (e = Unauthorized ''Invalid refresh token'' \<or> (\<exists>m. e = JsError m) \<and> \<not> auth_calm v)))"
proof (rule obeys_pre)
  fix w
  assume d: "digests (vw w)"
  show "wp (refresh E token) (\<lambda>r w'. vw w' = vw w \<and> (\<exists>e. r = Inl e \<and>
     (e = Unauthorized ''Invalid refresh token'' \<or> (\<exists>m. e = JsError m) \<and> \<not> auth_calm (vw w)))) w"
    unfolding refresh_def wp_await
  proof (rule wp_fallible [OF hash_law], goal_cases)
    case (2 h w1)
    then obtain s where h: "h = CHR ''$'' # s" and w1: "vw w1 = vw w" by blast
    show ?case
      unfolding sum.case wp_await
    proof (rule wp_fallible [OF rts.findOne_law], goal_cases)
      case (2 found w2)
      have "found = None"
        using 2 d digest_not_hash [of s] w1 by (cases found) (auto simp: digests_def h list_all_iff)
      then show ?case using 2 w1 by (simp add: wp_simps)
    qed (use w1 in auto)
  qed auto
qed

lemma logout_law:
  "obeys vw (logout E token) (fallible auth_calm (\<lambda>v u v'.
     v' = v \<and> (\<forall>t\<in>set (refresh_tokens v). rt_tokenHash t = sha256 E token \<longrightarrow> rt_revokedAt t \<noteq> None) \<or>
     (\<exists>t\<in>set (refresh_tokens v). rt_tokenHash t = sha256 E token \<and> rt_revokedAt t = None \<and>
        v' = refresh_tokens_update (upserts rt_id [t\<lparr>rt_revokedAt := Some (auth_clock v)\<rparr>]) v)))"
  (is "obeys vw _ (fallible auth_calm ?S)")
proof (rule obeysI)
  fix w
  show "wp (logout E token) (\<lambda>r w'. fallible auth_calm ?S (vw w) r (vw w')) w"
    unfolding logout_def hashToken_def Let_def wp_await
  proof (rule wp_fallible [OF rts.findOne_law], goal_cases)
    case (2 found w1)
    show ?case
    proof (cases found)
      case None
      then show ?thesis using 2 by (auto simp: wp_simps)
    next
      case (Some t)
      then have t: "t \<in> set (refresh_tokens (vw w))" "rt_tokenHash t = sha256 E token" "rt_revokedAt t = None" "vw w1 = vw w"
        using 2 by auto
      show ?thesis
        unfolding Some sum.case option.case wp_await
      proof (rule wp_obeys [OF now_law], goal_cases)
        case (1 r w2)
        then have r: "r = Inr (auth_clock (vw w))" "vw w2 = vw w" using t by auto
        show ?case
          unfolding r(1) sum.case
          by (rule wp_fallible [OF rts.save_law]) (use r t in auto)
      qed
    qed
  qed auto
qed

lemma notify_law:
  assumes "m = resendVerification \<or> m = requestEmailVerification"
  shows "obeys vw (m E i) (\<lambda>v r v'. v' = v \<or> notified E i v v')"
proof (rule obeysI)
  fix w
  have n: "notified E (us_id u) (vw w) (verification_sent E token (us_id u) (us_email u) (us_fullName u) (vw w))"
    if "u \<in> set (users (vw w))" for u token using that unfolding notified_def by blast
  show "wp (m E i) (\<lambda>r w'. vw w' = vw w \<or> notified E i (vw w) (vw w')) w"
    using assms unfolding resendVerification_def requestEmailVerification_def user_findById_def
    by (elim disjE; simp add: wp_await, intro wp_fallible [OF usr.findOne_law];
      auto simp: wp_simps n split: option.splits intro!: wp_fallible [OF send_verification_law])
qed

lemma verifyEmail_law:
  "obeys vw (verifyEmail E token) (\<lambda>v r v'. case r of
      Inl e \<Rightarrow> v' = v \<and> (\<not> auth_calm v \<and> (\<exists>m. e = JsError m) \<or> e = Unauthorized ''Invalid or expired token'')
    | Inr x \<Rightarrow> \<exists>u\<in>set (users v). us_emailVerificationToken u = Some (sha256 E token) \<and>
        \<not> expired (us_emailVerificationExpires u) (auth_clock v) \<and> v' = users_update (map (verified (us_id u))) v)"
  (is "obeys vw _ ?S")
proof (rule obeysI)
  fix w
  show "wp (verifyEmail E token) (\<lambda>r w'. ?S (vw w) r (vw w')) w"
    unfolding verifyEmail_def findByEmailVerificationToken_def hashToken_def Let_def wp_await
  proof (rule wp_fallible [OF usr.findOne_law], goal_cases)
    case (2 found w1)
    then have w1: "vw w1 = vw w" by simp
    show ?case
      unfolding sum.case wp_await
    proof (rule wp_obeys [OF now_law], goal_cases)
      case (1 r w2)
      then have r: "r = Inr (auth_clock (vw w))" "vw w2 = vw w" using w1 by auto
      show ?case
      proof (cases found)
        case None
        then show ?thesis using r by (simp add: wp_simps)
      next
        case (Some u)
        then have u: "u \<in> set (users (vw w))" "us_emailVerificationToken u = Some (sha256 E token)" using 2 by auto
        show ?thesis
          using u r unfolding r(1) Some sum.case option.case markEmailVerified_def wp_if wp_await wp_throw
          by (auto simp: wp_simps verified_def [abs_def] intro!: wp_fallible [OF usr.update_law] bexI [of _ u])
      qed
    qed
  qed auto
qed

lemma requestPasswordReset_law:
  "obeys vw (requestPasswordReset E email) (fallible auth_calm (\<lambda>v x v'.
     v' = v \<and> (\<forall>u\<in>set (users v). us_email u \<noteq> email) \<or>
     (\<exists>u token. u \<in> set (users v) \<and> us_email u = email \<and> v' = reset_sent E token u v)))"
  (is "obeys vw _ (fallible auth_calm ?S)")
proof (rule obeysI)
  fix w
  show "wp (requestPasswordReset E email) (\<lambda>r w'. fallible auth_calm ?S (vw w) r (vw w')) w"
    unfolding requestPasswordReset_def findByEmail_def wp_await
  proof (rule wp_fallible [OF usr.findOne_law], goal_cases)
    case (2 found w1)
    show ?case
    proof (cases found)
      case None
      then show ?thesis using 2 by (auto simp: wp_simps)
    next
      case (Some u)
      then have u: "u \<in> set (users (vw w))" "us_email u = email" "vw w1 = vw w" using 2 by auto
      show ?thesis
        unfolding Some sum.case option.case wp_await
      proof (rule wp_obeys [OF uuid_law], goal_cases)
        case (1 r w2)
        then obtain token where r: "r = Inr token" "vw w2 = vw w" using u by auto
        have sent: "fallible auth_calm ?S (vw w) (Inr x) (reset_sent E token u (vw w))" for x
          using u unfolding fallible_Inr by blast
        show ?case
          unfolding r(1) sum.case Let_def wp_await setPasswordResetToken_def hashToken_def
          by (rule wp_obeys [OF now_law])
            (use sent in \<open>auto simp: wp_simps r(2) reset_sent_def mailed_def with_reset_def [abs_def] simp del: fallible_Inr
              intro!: wp_fallible [OF usr.update_law] wp_obeys [OF emit_law]\<close>)
      qed
    qed
  qed auto
qed

lemma resetPassword_law: "obeys vw (resetPassword E token newPassword) (reset_spec E opens token newPassword)"
proof (rule obeysI)
  fix w
  let ?v = "vw w"
  show "wp (resetPassword E token newPassword) (\<lambda>r w'. reset_spec E opens token newPassword ?v r (vw w')) w"
    unfolding resetPassword_def findByPasswordResetToken_def hashToken_def Let_def wp_await
  proof (rule wp_fallible [OF usr.findOne_law], goal_cases)
    case (1 m w1)
    then show ?case by (simp add: reset_spec_def)
  next
    case (2 found w1)
    then have w1: "vw w1 = ?v" by simp
    show ?case
      unfolding sum.case wp_await
    proof (rule wp_obeys [OF now_law], goal_cases)
      case (1 r w2)
      then have r: "r = Inr (auth_clock ?v)" "vw w2 = ?v" using w1 by auto
      show ?case
      proof (cases found)
        case None
        then show ?thesis using r 2 by (auto simp: wp_simps reset_spec_def)
      next
        case (Some u)
        then have u: "u \<in> set (users ?v)" "us_passwordResetToken u = Some (sha256 E token)" using 2 by auto
        show ?thesis
        proof (cases "expired (us_passwordResetExpires u) (auth_clock ?v)")
          case True
          then show ?thesis using r u by (auto simp: Some wp_simps reset_spec_def)
        next
          case False
          then have may: "may_reset E token ?v u" using u by (simp add: may_reset_def)
          show ?thesis
            unfolding r(1) Some sum.case option.case if_not_P [OF False] updatePassword_def wp_await
          proof (rule wp_fallible [OF hash_law], goal_cases)
            case (1 m w3)
            then show ?case using r by (auto simp: reset_spec_def)
          next
            case (2 h w3)
            then have h: "opens newPassword h" "vw w3 = ?v" using r by auto
            show ?case
              unfolding sum.case wp_await
            proof (rule wp_fallible [OF usr.update_law], goal_cases)
              case (1 m w4)
              then show ?case using h by (auto simp: reset_spec_def)
            next
              case (2 x w4)
              then have w4: "vw w4 = users_update (map (with_password (us_id u) h)) ?v"
                using h by (simp add: with_password_def [abs_def])
              show ?case
                unfolding sum.case wp_await
              proof (rule wp_obeys [OF now_law], goal_cases)
                case (1 r w5)
                then have r5: "r = Inr (auth_clock ?v)" "vw w5 = users_update (map (with_password (us_id u) h)) ?v"
                  using w4 by auto
                show ?case
                  unfolding r5(1) sum.case wp_await
                proof (rule wp_fallible [OF rts.update_law], goal_cases)
                  case (1 m w6)
                  then show ?case using h may r5 unfolding sum.case reset_spec_def by auto
                next
                  case (2 x w6)
                  then have "vw w6 = refresh_tokens_update (map (revoked_all (us_id u) (auth_clock ?v)))
                      (users_update (map (with_password (us_id u) h)) ?v)"
                    using r5 by (simp add: revoked_all_def [abs_def])
                  then show ?case using h may unfolding sum.case wp_return reset_spec_def by auto
                qed
              qed
            qed
          qed
        qed
      qed
    qed
  qed
qed

end

end
