(* ===== verification/Auth_Properties.thy ===== *)
theory Auth_Properties
  imports Auth_Laws Table_History Memory
begin

text \<open>
  The auth service over time, on an in-memory instance of its systems, and its properties: who can log in,
  that refreshing never works, what a password reset does, the invariant, and how long a refresh token lives.
\<close>

section \<open>The invariant\<close>

definition auth_ok :: "'z auth_store_scheme \<Rightarrow> bool" where
  "auth_ok v \<longleftrightarrow> distinct (map us_id (users v)) \<and> unique_emails (users v) \<and> distinct (map rt_id (refresh_tokens v)) \<and>
     digests v \<and> list_all (\<lambda>t. rt_userId t \<in> us_id ` set (users v)) (refresh_tokens v)"

text \<open>Users keep their key and address, and stay verified; tokens keep all but the time of their revocation, once.\<close>

definition user_moves :: "User \<Rightarrow> User \<Rightarrow> bool" where
  "user_moves a b \<longleftrightarrow> us_id b = us_id a \<and> us_email b = us_email a \<and> us_fullName b = us_fullName a \<and> us_role b = us_role a \<and>
     (us_emailVerified a \<longrightarrow> us_emailVerified b)"

definition token_moves :: "RefreshToken \<Rightarrow> RefreshToken \<Rightarrow> bool" where
  "token_moves a b \<longleftrightarrow> b = a \<or> rt_revokedAt a = None \<and> (\<exists>now. b = a\<lparr>rt_revokedAt := Some now\<rparr>)"

lemma moves_refl [simp]: "user_moves a a" "token_moves b b"
  by (simp_all add: user_moves_def token_moves_def)

lemma user_moves_trans: "user_moves a b \<Longrightarrow> user_moves b c \<Longrightarrow> user_moves a c"
  by (simp add: user_moves_def)

lemma token_moves_trans: "token_moves a b \<Longrightarrow> token_moves b c \<Longrightarrow> token_moves a c"
  by (auto simp: token_moves_def)

definition auth_kept :: "'z auth_store_scheme \<Rightarrow> 'z auth_store_scheme \<Rightarrow> bool" where
  "auth_kept v v' \<longleftrightarrow> auth_ok v' \<and> grows user_moves (users v) (users v') \<and> grows token_moves (refresh_tokens v) (refresh_tokens v')"

lemma auth_kept_refl [simp]: "auth_kept v v = auth_ok v"
  by (simp add: auth_kept_def grows_refl)

lemma auth_kept_trans:
  assumes "auth_kept v v'" "auth_kept v' v''"
  shows "auth_kept v v''"
  unfolding auth_kept_def
proof (intro conjI)
  show "auth_ok v''" using assms(2) by (simp add: auth_kept_def)
  show "grows user_moves (users v) (users v'')"
    by (rule grows_trans [where t' = "users v'", OF user_moves_trans]) (use assms in \<open>auto simp: auth_kept_def\<close>)
  show "grows token_moves (refresh_tokens v) (refresh_tokens v'')"
    by (rule grows_trans [where t' = "refresh_tokens v'", OF token_moves_trans]) (use assms in \<open>auto simp: auth_kept_def\<close>)
qed

lemma auth_kept_users:
  assumes "auth_ok v" "\<And>u. us_id (f u) = us_id u \<and> us_email (f u) = us_email u" "\<And>u. user_moves u (f u)"
  shows "auth_kept v (users_update (map f) v)"
proof -
  have "map us_id (map f (users v)) = map us_id (users v)" "map us_email (map f (users v)) = map us_email (users v)"
    using assms(2) by simp_all
  then have "us_id ` f ` set (users v) = us_id ` set (users v)" by (metis list.set_map)
  then show ?thesis
    using assms by (simp add: auth_kept_def auth_ok_def unique_emails_def digests_def grows_refl grows_map comp_def)
qed

lemma auth_kept_added:
  assumes "auth_ok v" "user_added v u"
  shows "auth_kept v (users_update (\<lambda>l. l @ [u]) v)"
  using assms by (auto simp: auth_kept_def auth_ok_def user_added_def digests_def grows_refl grows_add list_all_iff)

lemma auth_kept_mailed [simp]: "auth_kept v (mailed topic i x v') = auth_kept v v'"
  by (simp add: auth_kept_def auth_ok_def mailed_def digests_def)

lemma auth_kept_tokens:
  assumes "auth_ok v"
  shows "auth_kept v (refresh_tokens_update (map (revoked_all i now)) v)"
proof -
  have k: "rt_id (revoked_all i now t) = rt_id t" "rt_tokenHash (revoked_all i now t) = rt_tokenHash t"
    "rt_userId (revoked_all i now t) = rt_userId t" "token_moves t (revoked_all i now t)" for t
    by (auto simp: revoked_all_def token_moves_def)
  then show ?thesis
    using assms by (simp add: auth_kept_def auth_ok_def digests_def grows_refl grows_map comp_def list.pred_map)
qed

lemma auth_kept_revoked:
  assumes "auth_ok v" "t \<in> set (refresh_tokens v)" "rt_revokedAt t = None"
  shows "auth_kept v (refresh_tokens_update (upserts rt_id [t\<lparr>rt_revokedAt := Some now\<rparr>]) v)"
proof -
  let ?x = "t\<lparr>rt_revokedAt := Some now\<rparr>"
  have ids: "distinct (map rt_id (refresh_tokens v))" using assms(1) by (simp add: auth_ok_def)
  have u: "upserts rt_id [?x] (refresh_tokens v) = map (\<lambda>r. if rt_id r = rt_id t then ?x else r) (refresh_tokens v)"
    by (rule upsert_row [OF assms(2)]) simp
  have eq: "r = t" if "r \<in> set (refresh_tokens v)" "rt_id r = rt_id t" for r
    by (rule row_by_id [where rid = rt_id, OF ids assms(2) that])
  have m: "map rt_id (map (\<lambda>r. if rt_id r = rt_id t then ?x else r) (refresh_tokens v)) = map rt_id (refresh_tokens v)"
    using eq by auto
  have "grows token_moves (refresh_tokens v) (map (\<lambda>r. if rt_id r = rt_id t then ?x else r) (refresh_tokens v))"
    using eq assms(3) by (intro grows_map) (auto simp: token_moves_def)
  then show ?thesis
    using assms(1,2) m by (auto simp: auth_kept_def auth_ok_def digests_def grows_refl u list_all_iff simp del: upserts_Cons map_map)
qed

lemma auth_kept_issued:
  assumes "auth_ok v" "token_issued E i token v t" "i \<in> us_id ` set (users v)" "list_all is_hex (sha256 E token)"
  shows "auth_kept v (refresh_tokens_update (\<lambda>l. l @ [t]) v)"
proof -
  have t: "rt_userId t = i" "rt_tokenHash t = sha256 E token" "rt_id t \<notin> rt_id ` set (refresh_tokens v)"
    using assms(2) unfolding token_issued_def by (metis new_refresh_fields)+
  then show ?thesis
    using assms(1,3,4) by (auto simp: auth_kept_def auth_ok_def digests_def grows_refl grows_add)
qed

lemma user_fields_kept:
  "us_id (with_verification i h t u) = us_id u \<and> us_email (with_verification i h t u) = us_email u"
  "us_id (with_reset i h t u) = us_id u \<and> us_email (with_reset i h t u) = us_email u"
  "us_id (with_password i h u) = us_id u \<and> us_email (with_password i h u) = us_email u"
  "us_id (verified i u) = us_id u \<and> us_email (verified i u) = us_email u"
  "user_moves u (with_verification i h t u)" "user_moves u (with_reset i h t u)" "user_moves u (with_password i h u)"
  "user_moves u (verified i u)"
  by (simp_all add: with_verification_def with_reset_def with_password_def verified_def user_moves_def)

section \<open>Any sequence of operations\<close>

text \<open>One call of the service: of its controller, or of the methods that are exported for other modules.\<close>

inductive auth_step :: "'w auth_env \<Rightarrow> 'w \<Rightarrow> 'w \<Rightarrow> bool" for E where
  "auth_register E dto w = (r1, w') \<Longrightarrow> auth_step E w w'"
| "auth_login E ldto w = (r2, w') \<Longrightarrow> auth_step E w w'"
| "auth_refresh E rdto w = (r3, w') \<Longrightarrow> auth_step E w w'"
| "auth_logout E rdto w = (r4, w') \<Longrightarrow> auth_step E w w'"
| "auth_verifyEmail E token w = (r5, w') \<Longrightarrow> auth_step E w w'"
| "auth_forgotPassword E fdto w = (r5, w') \<Longrightarrow> auth_step E w w'"
| "auth_resetPassword E pdto w = (r5, w') \<Longrightarrow> auth_step E w w'"
| "resendVerification E i w = (r5, w') \<Longrightarrow> auth_step E w w'"
| "requestEmailVerification E i w = (r5, w') \<Longrightarrow> auth_step E w w'"

context auth_world
begin

lemma sent_kept: "auth_ok v \<Longrightarrow> auth_kept v (verification_sent E token i email name v)"
  unfolding verification_sent_def auth_kept_mailed by (rule auth_kept_users) (simp_all add: user_fields_kept)

lemma step_kept:
  assumes "auth_step E w w'" "auth_ok (vw w)"
  shows "auth_kept (vw w) (vw w')"
  using assms(1)
proof cases
  case (1 dto r)
  then have run: "register E (cu_email dto) (cu_password dto) (cu_fullName dto) w = (r, w')" by (simp add: auth_register_def)
  have uniq: "unique_emails (users (vw w))" using assms(2) by (simp add: auth_ok_def)
  have k: "auth_kept (vw w) (users_update (\<lambda>l. l @ [u]) (vw w))" if "registered opens em pw (vw w) u" for u em pw
    using that assms(2) by (intro auth_kept_added) (simp_all add: registered_def)
  have "auth_kept (vw w) (verification_sent E token i em' name (users_update (\<lambda>l. l @ [u]) (vw w)))"
    if "registered opens em pw (vw w) u" for u em pw token i em' name
    using auth_kept_trans [OF k [OF that] sent_kept] k [OF that] by (simp add: auth_kept_def)
  then show ?thesis
    using obeysD [OF register_law run] uniq assms(2) k
    by (cases r) (auto simp: register_spec_def)
next
  case (2 dto r)
  then have run: "login E (ld_email dto) (ld_password dto) w = (r, w')" by (simp add: auth_login_def)
  show ?thesis
    using obeysD [OF login_law run] assms(2) auth_kept_issued [OF assms(2) _ _ digest_law]
    by (cases r) (auto simp: login_spec_def)
next
  case (3 dto r)
  then have run: "refresh E (rd_refreshToken dto) w = (r, w')" by (simp add: auth_refresh_def)
  have "digests (vw w)" using assms(2) by (simp add: auth_ok_def)
  then show ?thesis using obeysD [OF refresh_law run] assms(2) by simp
next
  case (4 dto r)
  then have run: "logout E (rd_refreshToken dto) w = (r, w')" by (simp add: auth_logout_def)
  show ?thesis
    using obeysD [OF logout_law run] assms(2) auth_kept_revoked [OF assms(2)]
    by (cases r) auto
next
  case (5 token r)
  then have run: "verifyEmail E token w = (r, w')" by (simp add: auth_verifyEmail_def)
  have "auth_kept (vw w) (users_update (map (verified i)) (vw w))" for i
    by (rule auth_kept_users [OF assms(2)]) (simp_all add: user_fields_kept)
  then show ?thesis using obeysD [OF verifyEmail_law run] assms(2) by (cases r) auto
next
  case (6 dto r)
  then have run: "requestPasswordReset E (fd_email dto) w = (r, w')" by (simp add: auth_forgotPassword_def)
  have "auth_kept (vw w) (reset_sent E token u (vw w))" for token u
    unfolding reset_sent_def auth_kept_mailed by (rule auth_kept_users [OF assms(2)]) (simp_all add: user_fields_kept)
  then show ?thesis using obeysD [OF requestPasswordReset_law run] assms(2) by (cases r) auto
next
  case (7 dto r)
  then have run: "resetPassword E (pd_token dto) (pd_newPassword dto) w = (r, w')" by (simp add: auth_resetPassword_def)
  have k: "auth_kept (vw w) (users_update (map (with_password i h)) (vw w))" for i h
    by (rule auth_kept_users [OF assms(2)]) (simp_all add: user_fields_kept)
  then have "auth_kept (vw w) (refresh_tokens_update (map (revoked_all j n)) (users_update (map (with_password i h)) (vw w)))" for i h j n
    using auth_kept_trans [OF k auth_kept_tokens] by (auto simp: auth_kept_def)
  then show ?thesis using obeysD [OF resetPassword_law run] assms(2) k by (cases r) (auto simp: reset_spec_def)
next
  case (8 i r)
  then show ?thesis
    using obeysD [OF notify_law [of resendVerification] 8] assms(2) sent_kept by (auto simp: notified_def)
next
  case (9 i r)
  then show ?thesis
    using obeysD [OF notify_law [of requestEmailVerification] 9] assms(2) sent_kept by (auto simp: notified_def)
qed

lemma run_kept: "(auth_step E)\<^sup>*\<^sup>* w w' \<Longrightarrow> auth_ok (vw w) \<Longrightarrow> auth_kept (vw w) (vw w')"
proof (induction rule: rtranclp_induct)
  case (step w1 w2)
  then have "auth_kept (vw w1) (vw w2)" using step_kept by (simp add: auth_kept_def)
  then show ?case using step auth_kept_trans by blast
qed simp

end

section \<open>An in-memory instance\<close>

text \<open>
  A digest that writes out the bytes, a password hash that shows the password, and tokens that are numbered:
  enough to satisfy the laws.
\<close>

definition hex_digit :: "nat \<Rightarrow> char" where
  "hex_digit n = ''0123456789abcdef'' ! n"

definition hex_text :: "string \<Rightarrow> string" where
  "hex_text s = concat (map (\<lambda>c. let k = of_char c :: nat in [hex_digit (k div 16), hex_digit (k mod 16)]) s)"

lemma hex_digits: "list_all is_hex (map hex_digit [0..<16])"
  by code_simp

lemma hex_text_hex: "list_all is_hex (hex_text s)"
proof -
  have d: "is_hex (hex_digit n)" if "n < 16" for n
    using hex_digits that by (auto simp: list_all_iff)
  have "(of_char c :: nat) div 16 < 16" for c
    using nat_of_char_less_256 [of c] by (simp add: less_mult_imp_div_less)
  then show ?thesis by (simp add: hex_text_def list_all_iff Let_def d)
qed

record auth_mem = mem_base +
  m_users :: "User list"
  m_refresh_tokens :: "RefreshToken list"
  m_auth_sent :: "kafka_message list"
  m_tokens_made :: int

definition auth_view :: "'z auth_mem_scheme \<Rightarrow> 'z auth_store_scheme" where
  "auth_view w = \<lparr>users = m_users w, refresh_tokens = m_refresh_tokens w, auth_sent = m_auth_sent w,
     auth_clock = mem_clock w, auth_calm = steady w, \<dots> = auth_mem.more w\<rparr>"

definition mem_token :: "('z auth_mem_scheme, string) act" where
  "mem_token w = (Inr (''token'' @ toString 10 (m_tokens_made w)), w\<lparr>m_tokens_made := m_tokens_made w + 1\<rparr>)"

definition mem_opens :: "string \<Rightarrow> string \<Rightarrow> bool" where
  "mem_opens p h \<longleftrightarrow> h = CHR ''$'' # p"

definition mem_auth_env :: "setting \<Rightarrow> 'z auth_mem_scheme auth_env" where
  "mem_auth_env days = \<lparr>
     userRepo = mem_repo us_id m_users m_users_update unique_emails,
     refreshTokenRepo = mem_repo rt_id m_refresh_tokens m_refresh_tokens_update (\<lambda>_. True),
     authKafka = mem_kafka m_auth_sent_update,
     authNow = mem_now,
     authUUID = mem_token,
     bcrypt_hash = (\<lambda>p n. mem_step (\<lambda>w. (Inr (CHR ''$'' # p), w))),
     bcrypt_compare = (\<lambda>p h. mem_step (\<lambda>w. (Inr (mem_opens p h), w))),
     sha256 = hex_text,
     jwt_sign = (\<lambda>payload t. mem_step (\<lambda>w. (Inr (jp_sub payload), w))),
     refreshTokenExpiryDays = days,
     jwtAccessExpiry = ''15m'',
     appUrl = ''http://localhost:8080''\<rparr>"

lemma auth_view_blind: "blind auth_view auth_calm"
  by (simp add: blind_def auth_view_def)

interpretation mem_usr: mem_table auth_view us_id m_users m_users_update users users_update auth_clock unique_emails auth_calm
  by unfold_locales (simp_all add: auth_view_blind, simp_all add: auth_view_def)

interpretation mem_rts: mem_table auth_view rt_id m_refresh_tokens m_refresh_tokens_update
  refresh_tokens refresh_tokens_update auth_clock "\<lambda>_. True" auth_calm
  by unfold_locales (simp_all add: auth_view_blind, simp_all add: auth_view_def)

interpretation mem_auth_kafka: mem_producer auth_view m_auth_sent_update auth_sent_update
  by unfold_locales (simp add: auth_view_def)

interpretation mem_auth_clock: mem_time auth_view auth_clock
  by unfold_locales (simp add: auth_view_def)

lemma mem_token_law: "obeys auth_view mem_token (\<lambda>v r v'. v' = v \<and> (\<exists>s. r = Inr s))"
  by (rule obeysI) (simp add: wp_def mem_token_def auth_view_def)

interpretation mem_auth: auth_world "mem_auth_env days" auth_view mem_opens for days
  by (simp add: auth_world_def auth_world_axioms_def mem_auth_env_def mem_usr.table_api_axioms mem_rts.table_api_axioms
      mem_auth_kafka.kafka_api_axioms mem_auth_clock.clock_api_axioms mem_token_law hex_text_hex mem_opens_def
      obeys_mem_step [OF auth_view_blind])

text \<open>A user \<^verbatim>\<open>ada\<close> with a password, on the 15th of a month.\<close>

definition demo_user :: User where
  "demo_user = \<lparr>us_id = ''u1'', us_email = ''ada@example.com'', us_passwordHash = ''$secret'', us_fullName = ''Ada'',
     us_phone = None, us_role = USER, us_emailVerified = False, us_emailVerificationToken = None,
     us_emailVerificationExpires = None, us_passwordResetToken = Some (hex_text ''r1''),
     us_passwordResetExpires = Some 1700100000000, us_createdAt = 0\<rparr>"

definition demo_auth :: auth_mem where
  "demo_auth = \<lparr>steady = True, faults = [], mem_clock = 1700000000000, m_users = [demo_user], m_refresh_tokens = [],
     m_auth_sent = [], m_tokens_made = 0\<rparr>"

definition days30 :: "auth_mem auth_env" where
  "days30 = mem_auth_env (Variable ''30'')"

lemma days30_world: "auth_world days30 auth_view mem_opens"
  unfolding days30_def by (rule mem_auth.auth_world_axioms)

lemma demo_auth_ok: "auth_ok (auth_view demo_auth)"
  by code_simp

lemma demo_auth_facts:
  "returns (login days30 ''ada@example.com'' ''secret'') demo_auth"
  "returns (resetPassword days30 ''r1'' ''new'') demo_auth"
  "auth_calm (auth_view demo_auth)"
  by code_simp+

section \<open>Logging in\<close>

text \<open>
  Who can log in.  A login that returns was made with the password of the user with the given address;
  it has added one refresh token of this user, for the digest of the token it returns, not revoked, and
  changed nothing else.  A login that throws has changed nothing; while the database is up and the lifetime
  of tokens is configured as a number it throws only for a wrong address or password, with one message.
\<close>

theorem login_outcome:
  assumes "auth_world E vw opens" "login E email password w = (r, w')"
  shows "case r of
      Inr (user, tokens) \<Rightarrow> \<exists>u\<in>set (users (vw w)). \<exists>t. us_email u = email \<and> opens password (us_passwordHash u) \<and>
        lu_id user = us_id u \<and> rt_userId t = us_id u \<and> rt_tokenHash t = sha256 E (refreshToken tokens) \<and> rt_revokedAt t = None \<and>
        vw w' = refresh_tokens_update (\<lambda>l. l @ [t]) (vw w)
    | Inl e \<Rightarrow> vw w' = vw w \<and> (auth_calm (vw w) \<longrightarrow> plus_days (getDate (auth_clock (vw w))) (refreshTokenExpiryDays E) \<noteq> None \<longrightarrow>
        e = Unauthorized ''Invalid credentials'' \<and> ((\<forall>u\<in>set (users (vw w)). us_email u \<noteq> email) \<or>
          (\<exists>u\<in>set (users (vw w)). us_email u = email \<and> \<not> opens password (us_passwordHash u))))"
proof -
  note spec = obeysD [OF auth_world.login_law [OF assms(1)] assms(2), unfolded login_spec_def]
  show ?thesis
  proof (cases r)
    case (Inl e)
    then show ?thesis using spec by auto
  next
    case (Inr x)
    then obtain u t where u: "u \<in> set (users (vw w))" "us_email u = email" "opens password (us_passwordHash u)" "lu_id (fst x) = us_id u"
        and t: "token_issued E (us_id u) (refreshToken (snd x)) (vw w) t" "vw w' = refresh_tokens_update (\<lambda>l. l @ [t]) (vw w)"
      using spec by auto
    have "rt_userId t = us_id u" "rt_tokenHash t = sha256 E (refreshToken (snd x))" "rt_revokedAt t = None"
      using t(1) unfolding token_issued_def by (metis new_refresh_fields)+
    then show ?thesis using u t(2) unfolding Inr sum.case by (cases x) auto
  qed
qed

theorem login_outcome_witness:
  "\<exists>x w'. login days30 ''ada@example.com'' ''secret'' demo_auth = (Inr x, w') \<and> length (refresh_tokens (auth_view w')) = 1"
proof -
  obtain x w' where run: "login days30 ''ada@example.com'' ''secret'' demo_auth = (Inr x, w')"
    using demo_auth_facts(1) by (rule returnsE)
  have "refresh_tokens (auth_view demo_auth) = []" by code_simp
  then have "length (refresh_tokens (auth_view w')) = 1"
    using login_outcome [OF days30_world run] by (cases x) auto
  then show ?thesis using run by blast
qed

text \<open>
  C24.  Refreshing never works.  \<^verbatim>\<open>refresh\<close> looks for a bcrypt hash among the SHA-256 digests that are stored:
  whatever the token is, a valid one included, it throws and changes nothing, and while the database is up
  it says that the token is invalid.
\<close>

theorem refresh_never_succeeds:
  assumes "auth_world E vw opens" "auth_ok (vw w)" "refresh E token w = (r, w')"
  shows "vw w' = vw w \<and> (\<exists>e. r = Inl e \<and> (auth_calm (vw w) \<longrightarrow> e = Unauthorized ''Invalid refresh token''))"
  using obeysD [OF auth_world.refresh_law [OF assms(1)] assms(3)] assms(2) by (auto simp: auth_ok_def)

theorem refresh_never_succeeds_witness:
  "\<forall>token. \<exists>e w'. refresh days30 token demo_auth = (Inl e, w')"
proof
  fix token
  obtain r w' where "refresh days30 token demo_auth = (r, w')" by fastforce
  then show "\<exists>e w'. refresh days30 token demo_auth = (Inl e, w')"
    using refresh_never_succeeds [OF days30_world demo_auth_ok] by blast
qed

text \<open>The day of the month is between 1 and 31.\<close>

lemma getDate_range: "1 \<le> getDate now \<and> getDate now \<le> 31"
proof -
  have "1 \<le> doy - (153 * mp + 2) div 5 + 1 \<and> doy - (153 * mp + 2) div 5 + 1 \<le> 31" if "mp = (5 * doy + 2) div 153" for doy mp :: int
  proof -
    have "5 * doy + 2 = 153 * mp + (5 * doy + 2) mod 153" "0 \<le> (5 * doy + 2) mod 153" "(5 * doy + 2) mod 153 < 153"
      using that by simp_all
    moreover have "153 * mp + 2 = 5 * ((153 * mp + 2) div 5) + (153 * mp + 2) mod 5"
        "0 \<le> (153 * mp + 2) mod 5" "(153 * mp + 2) mod 5 < 5" by simp_all
    ultimately show ?thesis by linarith
  qed
  then show ?thesis unfolding getDate_def civil_def Let_def prod.case by blast
qed

lemma plus_30: "list_all (\<lambda>d. plus_days d (Variable ''30'') = Some (100 * d + 30)) [1..31]"
  by code_simp

text \<open>
  C38.  How long a refresh token lives.  With the lifetime of 30 days that the deployment sets in the
  environment, a token that is issued on day \<open>d\<close> of a month lives for \<open>99 d + 30\<close> days, because the text is
  appended to the day of the month: from 129 days to more than eight years.
\<close>

theorem refresh_token_lifetime:
  assumes "auth_world E vw opens" "refreshTokenExpiryDays E = Variable ''30''" "login E email password w = (Inr x, w')"
  shows "\<exists>t. refresh_tokens (vw w') = refresh_tokens (vw w) @ [t] \<and>
    rt_expiresAt t = auth_clock (vw w) + (99 * getDate (auth_clock (vw w)) + 30) * 86400000 \<and>
    rt_expiresAt t \<ge> auth_clock (vw w) + 129 * 86400000"
proof -
  let ?d = "getDate (auth_clock (vw w))"
  obtain u t day where p: "plus_days ?d (refreshTokenExpiryDays E) = Some day"
      and t: "t = new_refresh_token u (sha256 E (refreshToken (snd x))) (setDate (auth_clock (vw w)) day) (rt_id t) (auth_clock (vw w))"
      and v: "vw w' = refresh_tokens_update (\<lambda>l. l @ [t]) (vw w)"
    using obeysD [OF auth_world.login_law [OF assms(1)] assms(3)] by (auto simp: login_spec_def token_issued_def)
  have d: "1 \<le> ?d" "?d \<le> 31" using getDate_range by blast+
  then have "day = 100 * ?d + 30" using plus_30 p assms(2) by (simp add: list_all_iff)
  then have "rt_expiresAt t = auth_clock (vw w) + (99 * ?d + 30) * 86400000"
    by (subst t) (simp add: setDate_def)
  then show ?thesis using v d(1) by auto
qed

theorem refresh_token_lifetime_witness:
  "\<exists>x w'. login days30 ''ada@example.com'' ''secret'' demo_auth = (Inr x, w') \<and>
     list_ex (\<lambda>t. rt_expiresAt t \<ge> 1700000000000 + 129 * 86400000) (refresh_tokens (auth_view w'))"
proof -
  obtain x w' where run: "login days30 ''ada@example.com'' ''secret'' demo_auth = (Inr x, w')"
    using demo_auth_facts(1) by (rule returnsE)
  have "refreshTokenExpiryDays days30 = Variable ''30''" "auth_clock (auth_view demo_auth) = 1700000000000"
    by code_simp+
  then show ?thesis using refresh_token_lifetime [OF days30_world _ run] run by (auto simp: list_ex_iff)
qed

section \<open>Resetting a password\<close>

text \<open>
  C23.  A password reset.  When \<^verbatim>\<open>resetPassword\<close> returns, the token was the unexpired reset token of a user,
  whose password is now the new one; the token is used up, and every refresh token of the user is revoked;
  no other row has changed.  While the database is up it throws only for an unknown or expired token, and
  then nothing has changed.
\<close>

theorem resetPassword_outcome:
  assumes "auth_world E vw opens" "resetPassword E token newPassword w = (r, w')"
  shows "case r of
      Inr x \<Rightarrow> \<exists>u h. u \<in> set (users (vw w)) \<and> us_passwordResetToken u = Some (sha256 E token) \<and>
        \<not> expired (us_passwordResetExpires u) (auth_clock (vw w)) \<and> opens newPassword h \<and>
        users (vw w') = map (\<lambda>x. if us_id x = us_id u
          then x\<lparr>us_passwordHash := h, us_passwordResetToken := None, us_passwordResetExpires := None\<rparr> else x) (users (vw w)) \<and>
        refresh_tokens (vw w') = map (revoked_all (us_id u) (auth_clock (vw w))) (refresh_tokens (vw w)) \<and>
        (\<forall>t\<in>set (refresh_tokens (vw w')). rt_userId t = us_id u \<longrightarrow> rt_revokedAt t \<noteq> None)
    | Inl e \<Rightarrow> auth_calm (vw w) \<longrightarrow> vw w' = vw w \<and> e = Unauthorized ''Invalid or expired token'' \<and>
        ((\<forall>u\<in>set (users (vw w)). us_passwordResetToken u \<noteq> Some (sha256 E token)) \<or>
         (\<exists>u\<in>set (users (vw w)). us_passwordResetToken u = Some (sha256 E token) \<and> expired (us_passwordResetExpires u) (auth_clock (vw w))))"
proof -
  note spec = obeysD [OF auth_world.resetPassword_law [OF assms(1)] assms(2), unfolded reset_spec_def]
  show ?thesis
  proof (cases r)
    case (Inl e)
    then show ?thesis using spec by auto
  next
    case (Inr x)
    then obtain u h where u: "may_reset E token (vw w) u" "opens newPassword h" and
      v: "vw w' = refresh_tokens_update (map (revoked_all (us_id u) (auth_clock (vw w))))
        (users_update (map (with_password (us_id u) h)) (vw w))"
      using spec by auto
    have m: "with_password (us_id u) h = (\<lambda>x. if us_id x = us_id u
        then x\<lparr>us_passwordHash := h, us_passwordResetToken := None, us_passwordResetExpires := None\<rparr> else x)"
      by (simp add: with_password_def fun_eq_iff)
    have "rt_revokedAt (revoked_all (us_id u) n t) \<noteq> None" if "rt_userId (revoked_all (us_id u) n t) = us_id u" for n t
      using that by (auto simp: revoked_all_def split: if_splits)
    then have "\<forall>t\<in>set (refresh_tokens (vw w')). rt_userId t = us_id u \<longrightarrow> rt_revokedAt t \<noteq> None"
      using v by (simp add: ball_simps)
    then show ?thesis
      unfolding Inr sum.case using u v
      by (intro exI [of _ u] exI [of _ h]) (simp add: may_reset_def m)
  qed
qed

theorem resetPassword_outcome_witness:
  "\<exists>x w'. resetPassword days30 ''r1'' ''new'' demo_auth = (Inr x, w') \<and>
     list_ex (\<lambda>u. us_passwordResetToken u = None \<and> mem_opens ''new'' (us_passwordHash u)) (users (auth_view w'))"
proof -
  obtain x w' where run: "resetPassword days30 ''r1'' ''new'' demo_auth = (Inr x, w')"
    using demo_auth_facts(2) by (rule returnsE)
  obtain u h where u: "u \<in> set (users (auth_view demo_auth))" "mem_opens ''new'' h" and
    v: "users (auth_view w') = map (\<lambda>x. if us_id x = us_id u
      then x\<lparr>us_passwordHash := h, us_passwordResetToken := None, us_passwordResetExpires := None\<rparr> else x) (users (auth_view demo_auth))"
    using resetPassword_outcome [OF days30_world run] by fastforce
  have "u\<lparr>us_passwordHash := h, us_passwordResetToken := None, us_passwordResetExpires := None\<rparr> \<in> set (users (auth_view w'))"
    unfolding v using u(1) by (auto intro: image_eqI [where x = u])
  then have "list_ex (\<lambda>u. us_passwordResetToken u = None \<and> mem_opens ''new'' (us_passwordHash u)) (users (auth_view w'))"
    using u(2) by (auto simp: list_ex_iff intro: bexI [rotated])
  then show ?thesis using run by blast
qed

section \<open>The service over time\<close>

text \<open>
  C21.  The invariant of the auth service.  Any sequence of its operations, whatever fails, keeps keys and
  addresses unique, every refresh token with its user and stored as a digest; no row is removed; a user
  keeps key, address, name and role, and stays verified; and a refresh token only changes by being
  revoked, once.
\<close>

theorem auth_service_invariant:
  assumes "auth_world E vw opens" "(auth_step E)\<^sup>*\<^sup>* w w'" "auth_ok (vw w)"
  shows "auth_ok (vw w') \<and> grows user_moves (users (vw w)) (users (vw w')) \<and>
    grows token_moves (refresh_tokens (vw w)) (refresh_tokens (vw w'))"
  using auth_world.run_kept [OF assms] by (simp add: auth_kept_def)

theorem auth_service_invariant_witness:
  "\<exists>w'. (auth_step days30)\<^sup>*\<^sup>* demo_auth w' \<and> auth_ok (auth_view w')"
proof -
  obtain r w' where "auth_login days30 \<lparr>ld_email = ''ada@example.com'', ld_password = ''secret''\<rparr> demo_auth = (r, w')" by fastforce
  then have "(auth_step days30)\<^sup>*\<^sup>* demo_auth w'" by (intro r_into_rtranclp auth_step.intros)
  then show ?thesis using auth_service_invariant [OF days30_world _ demo_auth_ok] by blast
qed

end
