(* ===== verification/Event_Service.thy ===== *)
theory Event_Service
  imports Inventory_Service JS_Text
begin

text \<open>
  The event service: venues (venue/venue.service.ts) and events (event/event.service.ts) in MongoDB through
  Mongoose, and the message \<^verbatim>\<open>event.create\<close> from which the seat-inventory service makes its rows.

  A Mongoose model is a table: \<^verbatim>\<open>save\<close> of a new document validates it against its schema and inserts it.  The
  object ids of the subdocuments are drawn when the document is constructed (\<open>objectIds\<close>), and \<open>castId\<close> is
  how Mongoose reads an id that comes from a request: a text that is not an id is refused.  Dates are
  times in milliseconds.
\<close>

section \<open>Venues\<close>

datatype SeatType = STANDARD | VIP | WHEELCHAIR | RESTRICTED_VIEW

fun seat_type_text :: "SeatType \<Rightarrow> string" where
  "seat_type_text STANDARD = ''standard''"
| "seat_type_text VIP = ''vip''"
| "seat_type_text WHEELCHAIR = ''wheelchair''"
| "seat_type_text RESTRICTED_VIEW = ''restricted_view''"

record SeatDefinition =
  sd_number :: string
  sd_type :: SeatType
  sd_x :: js_number
  sd_y :: js_number

record Row =
  row_label :: string
  row_seats :: "SeatDefinition list"

record Section =
  sec_id :: string
  sec_name :: string
  sec_capacity :: nat
  sec_sortOrder :: js_number
  sec_rows :: "Row list"

record Venue =
  ven_id :: string
  ven_name :: string
  ven_address :: "string option"
  ven_city :: "string option"
  ven_country :: "string option"
  ven_latitude :: "js_number option"
  ven_longitude :: "js_number option"
  ven_totalCapacity :: nat
  ven_venueMapUrl :: "string option"
  ven_sections :: "Section list"
  ven_createdAt :: int

record CreateSeatDto =
  cse_number :: string
  cse_type :: SeatType
  cse_x :: js_number
  cse_y :: js_number

record CreateRowDto =
  cr_label :: string
  cr_seats :: "CreateSeatDto list"

record CreateSectionDto =
  cs_name :: string
  cs_capacity :: "js_number option"
  cs_sortOrder :: "js_number option"
  cs_rows :: "CreateRowDto list"

record CreateVenueDto =
  cv_name :: string
  cv_address :: "string option"
  cv_city :: "string option"
  cv_country :: "string option"
  cv_latitude :: "js_number option"
  cv_longitude :: "js_number option"
  cv_venueMapUrl :: "string option"
  cv_sections :: "CreateSectionDto list"

section \<open>Events\<close>

datatype EventStatus = DRAFT | PUBLISHED | CANCELLED | COMPLETED

record TicketType =
  tt_id :: string
  tt_sectionId :: string
  tt_name :: string
  tt_price :: js_number
  tt_currency :: string
  tt_maxPerOrder :: js_number
  tt_salesStartAt :: "int option"
  tt_salesEndAt :: "int option"

record Event =
  ev_id :: string
  ev_organizerId :: string
  ev_venueId :: string
  ev_title :: string
  ev_description :: "string option"
  ev_status :: EventStatus
  ev_startsAt :: int
  ev_endsAt :: "int option"
  ev_doorsOpenAt :: "int option"
  ev_saleStartsAt :: "int option"
  ev_saleEndsAt :: "int option"
  ev_ticketTypes :: "TicketType list"
  ev_metadata :: "json option"
  ev_createdAt :: int

record CreateTicketTypeDto =
  ct_sectionId :: string
  ct_name :: string
  ct_price :: js_number
  ct_currency :: "string option"
  ct_maxPerOrder :: "js_number option"
  ct_salesStartAt :: "int option"
  ct_salesEndAt :: "int option"

record CreateEventDto =
  ce_organizerId :: string
  ce_venueId :: string
  ce_title :: string
  ce_description :: "string option"
  ce_category :: "string option"
  ce_status :: "EventStatus option"
  ce_startsAt :: int
  ce_endsAt :: "int option"
  ce_doorsOpenAt :: "int option"
  ce_saleStartsAt :: "int option"
  ce_saleEndsAt :: "int option"
  ce_ticketTypes :: "CreateTicketTypeDto list"
  ce_metadata :: "json option"

section \<open>The environment\<close>

record 'w event_env =
  venueModel :: "('w, Venue) repo"
  eventModel :: "('w, Event) repo"
  eventKafka :: "'w kafka"
  objectIds :: "nat \<Rightarrow> ('w, string list) act"
  castId :: "string \<Rightarrow> string option"

record event_store =
  venues :: "Venue list"
  events :: "Event list"
  event_sent :: "kafka_message list"
  event_clock :: int
  event_calm :: bool

locale event_world =
  ven: table_api "venueModel E" vw ven_id venues venues_update event_clock "\<lambda>_. True" event_calm +
  evt: table_api "eventModel E" vw ev_id events events_update event_clock "\<lambda>_. True" event_calm +
  kafka_api "eventKafka E" vw event_sent_update
  for E :: "'w event_env" and vw :: "'w \<Rightarrow> 'z event_store_scheme" +
  assumes ids_law: "obeys vw (objectIds E n) (\<lambda>v r v'. v' = v \<and>
    (\<exists>xs. r = Inr xs \<and> length xs = n \<and> distinct xs \<and> list_all (list_all is_hex) xs))"

section \<open>VenueService\<close>

definition section_seats :: "CreateSectionDto \<Rightarrow> nat" where
  "section_seats section = foldl (\<lambda>total row. total + length (cr_seats row)) 0 (cs_rows section)"

definition total_capacity :: "CreateVenueDto \<Rightarrow> nat" where
  "total_capacity dto = foldl (\<lambda>total section. total + section_seats section) 0 (cv_sections dto)"

definition seat_definition :: "CreateSeatDto \<Rightarrow> SeatDefinition" where
  "seat_definition s = \<lparr>sd_number = cse_number s, sd_type = cse_type s, sd_x = cse_x s, sd_y = cse_y s\<rparr>"

definition venue_row :: "CreateRowDto \<Rightarrow> Row" where
  "venue_row r = \<lparr>row_label = cr_label r, row_seats = map seat_definition (cr_seats r)\<rparr>"

definition venue_section :: "string \<Rightarrow> nat \<Rightarrow> CreateSectionDto \<Rightarrow> Section" where
  "venue_section i index section =
     \<lparr>sec_id = i, sec_name = cs_name section, sec_capacity = section_seats section,
      sec_sortOrder = (case cs_sortOrder section of None \<Rightarrow> Fin (of_nat index) | Some k \<Rightarrow> k),
      sec_rows = map venue_row (cs_rows section)\<rparr>"

definition venue_sections :: "string list \<Rightarrow> CreateSectionDto list \<Rightarrow> Section list" where
  "venue_sections ids sections = map (\<lambda>(i, index, section). venue_section i index section)
     (zip ids (zip [0..<length sections] sections))"

definition new_venue :: "CreateVenueDto \<Rightarrow> string list \<Rightarrow> string \<Rightarrow> int \<Rightarrow> Venue" where
  "new_venue dto ids = (\<lambda>id now.
     \<lparr>ven_id = id, ven_name = cv_name dto, ven_address = cv_address dto, ven_city = cv_city dto,
      ven_country = cv_country dto, ven_latitude = cv_latitude dto, ven_longitude = cv_longitude dto,
      ven_totalCapacity = total_capacity dto, ven_venueMapUrl = cv_venueMapUrl dto,
      ven_sections = venue_sections ids (cv_sections dto), ven_createdAt = now\<rparr>)"

text \<open>\<^verbatim>\<open>required: true\<close> on a text refuses the empty text, too.\<close>

definition valid_venue :: "CreateVenueDto \<Rightarrow> bool" where
  "valid_venue dto \<longleftrightarrow> cv_name dto \<noteq> [] \<and> list_all (\<lambda>s. cs_name s \<noteq> [] \<and>
     list_all (\<lambda>r. cr_label r \<noteq> [] \<and> list_all (\<lambda>t. cse_number t \<noteq> []) (cr_seats r)) (cs_rows s)) (cv_sections dto)"

definition venue_create :: "'w event_env \<Rightarrow> CreateVenueDto \<Rightarrow> ('w, Venue) act" where
  "venue_create E dto =
     await (objectIds E (length (cv_sections dto))) (\<lambda>ids.
     if \<not> valid_venue dto then throw (JsError ''Venue validation failed'')
     else await (repo_insert (venueModel E) [new_venue dto ids]) (\<lambda>saved. return (hd saved)))"

definition venue_findAll :: "'w event_env \<Rightarrow> ('w, Venue list) act" where
  "venue_findAll E = repo_find (venueModel E) (\<lambda>_. True)"

definition venue_findById :: "'w event_env \<Rightarrow> string \<Rightarrow> ('w, Venue) act" where
  "venue_findById E i = (case castId E i of
      None \<Rightarrow> throw (JsError ''Cast to ObjectId failed'')
    | Some oid \<Rightarrow>
        await (repo_findOne (venueModel E) (\<lambda>v. ven_id v = oid)) (\<lambda>venue.
        case venue of None \<Rightarrow> throw (NotFound ''Venue not found'') | Some venue \<Rightarrow> return venue))"

definition getLayout :: "'w event_env \<Rightarrow> string \<Rightarrow> ('w, Venue) act" where
  "getLayout E i = venue_findById E i"

section \<open>EventService\<close>

definition section_missing :: "string \<Rightarrow> string \<Rightarrow> string" where
  "section_missing sectionId venueName = ''Section '' @ sectionId @ '' not found in venue '' @ venueName"

text \<open>The schema requires a currency, which the request may leave out.\<close>

definition valid_ticket_type :: "CreateTicketTypeDto \<Rightarrow> bool" where
  "valid_ticket_type t \<longleftrightarrow> ct_sectionId t \<noteq> [] \<and> ct_name t \<noteq> [] \<and>
     (case ct_currency t of None \<Rightarrow> False | Some c \<Rightarrow> c \<noteq> [])"

definition valid_event :: "CreateEventDto \<Rightarrow> bool" where
  "valid_event dto \<longleftrightarrow> ce_organizerId dto \<noteq> [] \<and> ce_venueId dto \<noteq> [] \<and> ce_title dto \<noteq> [] \<and>
     list_all valid_ticket_type (ce_ticketTypes dto)"

definition ticket_type :: "string \<times> CreateTicketTypeDto \<Rightarrow> TicketType" where
  "ticket_type = (\<lambda>(i, t).
     \<lparr>tt_id = i, tt_sectionId = ct_sectionId t, tt_name = ct_name t, tt_price = ct_price t,
      tt_currency = (case ct_currency t of None \<Rightarrow> [] | Some c \<Rightarrow> c),
      tt_maxPerOrder = (case ct_maxPerOrder t of None \<Rightarrow> Fin 10 | Some k \<Rightarrow> k),
      tt_salesStartAt = ct_salesStartAt t, tt_salesEndAt = ct_salesEndAt t\<rparr>)"

text \<open>The schema has no category, so Mongoose drops it.\<close>

definition new_event :: "CreateEventDto \<Rightarrow> string list \<Rightarrow> string \<Rightarrow> int \<Rightarrow> Event" where
  "new_event dto ids = (\<lambda>id now.
     \<lparr>ev_id = id, ev_organizerId = ce_organizerId dto, ev_venueId = ce_venueId dto, ev_title = ce_title dto,
      ev_description = ce_description dto,
      ev_status = (case ce_status dto of None \<Rightarrow> DRAFT | Some s \<Rightarrow> s),
      ev_startsAt = ce_startsAt dto, ev_endsAt = ce_endsAt dto, ev_doorsOpenAt = ce_doorsOpenAt dto,
      ev_saleStartsAt = ce_saleStartsAt dto, ev_saleEndsAt = ce_saleEndsAt dto,
      ev_ticketTypes = map ticket_type (zip ids (ce_ticketTypes dto)), ev_metadata = ce_metadata dto,
      ev_createdAt = now\<rparr>)"

definition seat_id :: "string \<Rightarrow> string \<Rightarrow> string \<Rightarrow> string" where
  "seat_id sectionId label number = sectionId @ ''_'' @ label @ ''_'' @ number"

definition event_seat :: "Section \<Rightarrow> TicketType \<Rightarrow> Row \<Rightarrow> SeatDefinition \<Rightarrow> EventSeat" where
  "event_seat section ticketType row seat =
     \<lparr>es_seatId = seat_id (sec_id section) (row_label row) (sd_number seat), es_sectionId = sec_id section,
      es_sectionName = sec_name section, es_ticketTypeId = tt_id ticketType, es_ticketTypeName = tt_name ticketType,
      es_price = tt_price ticketType, es_currency = tt_currency ticketType, es_row = row_label row,
      es_number = sd_number seat, es_type = seat_type_text (sd_type seat)\<rparr>"

definition section_ticket :: "TicketType list \<Rightarrow> Section \<Rightarrow> TicketType option" where
  "section_ticket ticketTypes section = List.find (\<lambda>ticket. tt_sectionId ticket = sec_id section) ticketTypes"

definition event_seats :: "Section list \<Rightarrow> TicketType list \<Rightarrow> EventSeat list" where
  "event_seats sections ticketTypes = concat (map (\<lambda>section.
     case section_ticket ticketTypes section of
       None \<Rightarrow> []
     | Some ticketType \<Rightarrow>
         concat (map (\<lambda>row. map (event_seat section ticketType row) (row_seats row)) (sec_rows section))) sections)"

definition event_message :: "Event \<Rightarrow> Venue \<Rightarrow> EventCreateMessage" where
  "event_message savedEvent venue =
     \<lparr>ecm_eventId = ev_id savedEvent, ecm_venueId = Some (ven_id venue), ecm_venueName = Some (ven_name venue),
      ecm_title = Some (ev_title savedEvent), ecm_startsAt = Some (ev_startsAt savedEvent),
      ecm_seats = event_seats (ven_sections venue) (ev_ticketTypes savedEvent)\<rparr>"

text \<open>The text of the message: \<^verbatim>\<open>undefined\<close> properties are left out.\<close>

definition seat_json :: "EventSeat \<Rightarrow> json" where
  "seat_json s = JObj
     [(''seatId'', JStr (es_seatId s)), (''sectionId'', JStr (es_sectionId s)),
      (''sectionName'', JStr (es_sectionName s)), (''ticketTypeId'', JStr (es_ticketTypeId s)),
      (''ticketTypeName'', JStr (es_ticketTypeName s)), (''price'', JNum (es_price s)),
      (''currency'', JStr (es_currency s)), (''row'', JStr (es_row s)), (''number'', JStr (es_number s)),
      (''type'', JStr (es_type s))]"

definition opt_field :: "string \<Rightarrow> string option \<Rightarrow> (string \<times> json) list" where
  "opt_field k x = (case x of None \<Rightarrow> [] | Some s \<Rightarrow> [(k, JStr s)])"

definition message_json :: "EventCreateMessage \<Rightarrow> json" where
  "message_json m = JObj ((''eventId'', JStr (ecm_eventId m)) # opt_field ''venueId'' (ecm_venueId m) @
     opt_field ''venueName'' (ecm_venueName m) @ opt_field ''title'' (ecm_title m) @
     opt_field ''startsAt'' (map_option toISOString (ecm_startsAt m)) @
     [(''seats'', JArr (map seat_json (ecm_seats m)))])"

definition event_create :: "'w event_env \<Rightarrow> CreateEventDto \<Rightarrow> ('w, Event) act" where
  "event_create E dto =
     await (venue_findById E (ce_venueId dto)) (\<lambda>venue.
     let venueSectionIds = map sec_id (ven_sections venue) in
     await (for_each (ce_ticketTypes dto) (\<lambda>ticketType.
       if ct_sectionId ticketType \<notin> set venueSectionIds
       then throw (NotFound (section_missing (ct_sectionId ticketType) (ven_name venue)))
       else return ())) (\<lambda>_.
     await (objectIds E (length (ce_ticketTypes dto))) (\<lambda>ids.
     if \<not> valid_event dto then throw (JsError ''Event validation failed'')
     else
     await (repo_insert (eventModel E) [new_event dto ids]) (\<lambda>saved.
     let savedEvent = hd saved; message = event_message savedEvent venue in
     await (kafka_emit (eventKafka E) ''event.create'' (ev_id savedEvent) (message_json message)) (\<lambda>_.
     return savedEvent)))))"

definition event_findAll :: "'w event_env \<Rightarrow> ('w, Event list) act" where
  "event_findAll E = repo_find (eventModel E) (\<lambda>_. True)"

definition event_findById :: "'w event_env \<Rightarrow> string \<Rightarrow> ('w, Event) act" where
  "event_findById E i = (case castId E i of
      None \<Rightarrow> throw (JsError ''Cast to ObjectId failed'')
    | Some oid \<Rightarrow>
        await (repo_findOne (eventModel E) (\<lambda>e. ev_id e = oid)) (\<lambda>event.
        case event of None \<Rightarrow> throw (NotFound ''Event not found'') | Some event \<Rightarrow> return event))"

section \<open>The controllers\<close>

definition events_create :: "'w event_env \<Rightarrow> CreateEventDto \<Rightarrow> ('w, Event) act" where
  "events_create E dto = event_create E dto"

definition events_findAll :: "'w event_env \<Rightarrow> ('w, Event list) act" where
  "events_findAll E = event_findAll E"

definition events_findById :: "'w event_env \<Rightarrow> string \<Rightarrow> ('w, Event) act" where
  "events_findById E i = event_findById E i"

definition venues_create :: "'w event_env \<Rightarrow> CreateVenueDto \<Rightarrow> ('w, Venue) act" where
  "venues_create E dto = venue_create E dto"

definition venues_findAll :: "'w event_env \<Rightarrow> ('w, Venue list) act" where
  "venues_findAll E = venue_findAll E"

definition venues_findById :: "'w event_env \<Rightarrow> string \<Rightarrow> ('w, Venue) act" where
  "venues_findById E i = venue_findById E i"

definition venues_getLayout :: "'w event_env \<Rightarrow> string \<Rightarrow> ('w, Venue) act" where
  "venues_getLayout E i = getLayout E i"

end
