(* ===== verification/Event_Properties.thy ===== *)
theory Event_Properties
  imports Event_Service Seat_Memory
begin

text \<open>
  The contracts of the event service, its invariant, and what an event that is created becomes in the
  seat-inventory service.
\<close>

section \<open>Capacities and seat ids\<close>

lemma foldl_sum: "foldl (\<lambda>total x. total + f x) a xs = a + sum_list (map f xs)" for a :: nat
  by (induction xs arbitrary: a) auto

definition seat_count :: "Section \<Rightarrow> nat" where
  "seat_count s = sum_list (map (\<lambda>r. length (row_seats r)) (sec_rows s))"

text \<open>The numbers of a venue agree with its rows, and its sections have ids of their own.\<close>

definition venue_ok :: "Venue \<Rightarrow> bool" where
  "venue_ok v \<longleftrightarrow> distinct (map sec_id (ven_sections v)) \<and> list_all (\<lambda>s. list_all is_hex (sec_id s)) (ven_sections v) \<and>
     list_all (\<lambda>s. sec_capacity s = seat_count s) (ven_sections v) \<and>
     ven_totalCapacity v = sum_list (map sec_capacity (ven_sections v))"

lemma venue_sections_map:
  assumes "length ids = length ss"
  shows "map sec_id (venue_sections ids ss) = ids"
    and "map sec_capacity (venue_sections ids ss) = map section_seats ss"
    and "map seat_count (venue_sections ids ss) = map section_seats ss"
proof -
  have n: "length (zip ids (zip [0..<length ss] ss)) = length ss" using assms by simp
  show "map sec_id (venue_sections ids ss) = ids"
    and "map sec_capacity (venue_sections ids ss) = map section_seats ss"
    and "map seat_count (venue_sections ids ss) = map section_seats ss"
    using assms
    by (auto simp: venue_sections_def venue_section_def seat_count_def section_seats_def foldl_sum comp_def venue_row_def
        intro!: nth_equalityI)
qed

lemma new_venue_ok:
  assumes "length ids = length (cv_sections dto)" "distinct ids" "list_all (list_all is_hex) ids"
  shows "venue_ok (new_venue dto ids i now)"
proof -
  let ?ss = "venue_sections ids (cv_sections dto)"
  note m = venue_sections_map [OF assms(1)]
  have "list_all (list_all is_hex) (map sec_id ?ss)" using m(1) assms(3) by simp
  then have "list_all (\<lambda>s. list_all is_hex (sec_id s)) ?ss" by (simp add: list.pred_map comp_def)
  moreover have "list_all (\<lambda>s. sec_capacity s = seat_count s) ?ss"
    using m(2,3) by (simp add: list_all_iff flip: map_eq_conv)
  ultimately show ?thesis
    using assms(2) m by (simp add: venue_ok_def new_venue_def total_capacity_def foldl_sum)
qed

text \<open>Section ids are hexadecimal, so a seat id is read back when the label of the row has no underscore.\<close>

lemma hex_no_underscore: "list_all is_hex s \<Longrightarrow> CHR ''_'' \<notin> set s"
  by (auto simp: list_all_iff is_hex_def)

lemma seat_id_inj:
  assumes "list_all is_hex s" "list_all is_hex s'" "CHR ''_'' \<notin> set l" "CHR ''_'' \<notin> set l'"
    and "seat_id s l n = seat_id s' l' n'"
  shows "s = s' \<and> l = l' \<and> n = n'"
proof -
  have sep: "s = s' \<and> l @ CHR ''_'' # n = l' @ CHR ''_'' # n'"
    using assms(5) hex_no_underscore [OF assms(1)] hex_no_underscore [OF assms(2)]
    by (intro append_separator_inj [where c = "CHR ''_''"]) (simp_all add: seat_id_def)
  moreover have "l = l' \<and> n = n'"
    by (rule append_separator_inj [where c = "CHR ''_''", OF assms(3,4)]) (use sep in blast)
  ultimately show ?thesis by blast
qed

lemma distinct_concat_map:
  assumes "distinct (map k xs)" "\<And>x. x \<in> set xs \<Longrightarrow> distinct (f x)"
    and "\<And>x y z. x \<in> set xs \<Longrightarrow> y \<in> set xs \<Longrightarrow> z \<in> set (f x) \<Longrightarrow> z \<in> set (f y) \<Longrightarrow> k x = k y"
  shows "distinct (concat (map f xs))"
  using assms
proof (induction xs)
  case (Cons x xs)
  have "k x \<noteq> k y" if "y \<in> set xs" for y using Cons.prems(1) that by auto
  then have "set (f x) \<inter> set (concat (map f xs)) = {}"
    using Cons.prems(3) [of x] by fastforce
  moreover have "distinct (concat (map f xs))"
    by (rule Cons.IH) (use Cons.prems in auto)
  ultimately show ?case using Cons.prems(2) by simp
qed simp

text \<open>The seats of a venue that can be told apart: labels without underscores, nothing twice.\<close>

definition plain_section :: "Section \<Rightarrow> bool" where
  "plain_section s \<longleftrightarrow> distinct (map row_label (sec_rows s)) \<and>
     list_all (\<lambda>r. CHR ''_'' \<notin> set (row_label r) \<and> distinct (map sd_number (row_seats r))) (sec_rows s)"

lemma event_seats_ids:
  "map es_seatId (event_seats ss tts) = concat (map (\<lambda>s. case section_ticket tts s of None \<Rightarrow> []
     | Some t \<Rightarrow> concat (map (\<lambda>r. map (\<lambda>n. seat_id (sec_id s) (row_label r) n) (map sd_number (row_seats r))) (sec_rows s))) ss)"
  by (simp add: event_seats_def map_concat comp_def event_seat_def cong: option.case_cong) (auto intro!: arg_cong [where f = concat] split: option.splits simp: map_concat comp_def event_seat_def)

lemma event_seats_distinct:
  assumes "distinct (map sec_id ss)" "list_all (\<lambda>s. list_all is_hex (sec_id s)) ss" "list_all plain_section ss"
  shows "distinct (map es_seatId (event_seats ss tts))"
  unfolding event_seats_ids
proof (rule distinct_concat_map [OF assms(1)], goal_cases)
  case (1 s)
  then have hex: "list_all is_hex (sec_id s)" and plain: "plain_section s" using assms by (auto simp: list_all_iff)
  have "distinct (concat (map (\<lambda>r. map (\<lambda>n. seat_id (sec_id s) (row_label r) n) (map sd_number (row_seats r))) (sec_rows s)))"
  proof (rule distinct_concat_map [where k = row_label], goal_cases)
    case 1
    then show ?case using plain by (simp add: plain_section_def)
  next
    case (2 r)
    then show ?case
      using plain by (auto simp: plain_section_def list_all_iff distinct_map inj_on_def seat_id_def)
  next
    case (3 r r' z)
    then show ?case
      using plain seat_id_inj [OF hex hex] by (fastforce simp: plain_section_def list_all_iff)
  qed
  then show ?case by (auto split: option.splits)
next
  case (2 s s' z)
  then have hex: "list_all is_hex (sec_id s)" "list_all is_hex (sec_id s')" using assms(2) by (auto simp: list_all_iff)
  have "\<exists>l n. z = seat_id (sec_id s) l n" "\<exists>l n. z = seat_id (sec_id s') l n"
    using 2(3,4) by (auto split: option.splits)
  then obtain l n l' n' where "z = seat_id (sec_id s) l n" "z = seat_id (sec_id s') l' n'" by blast
  then have "sec_id s @ CHR ''_'' # (l @ ''_'' @ n) = sec_id s' @ CHR ''_'' # (l' @ ''_'' @ n')" by (simp add: seat_id_def)
  from append_separator_inj [OF hex_no_underscore [OF hex(1)] hex_no_underscore [OF hex(2)] this] show ?case by simp
qed

lemma event_seats_length:
  "length (event_seats ss tts) = sum_list (map seat_count (filter (\<lambda>s. section_ticket tts s \<noteq> None) ss))"
  by (induction ss) (auto simp: event_seats_def seat_count_def length_concat comp_def split: option.splits)

lemma event_seats_sold:
  "event_seats (filter (\<lambda>s. section_ticket tts s \<noteq> None) ss) tts = event_seats ss tts"
  by (induction ss) (auto simp: event_seats_def split: option.splits)

section \<open>Contracts\<close>

definition new_event_of :: "'w event_env \<Rightarrow> CreateEventDto \<Rightarrow> 'z event_store_scheme \<Rightarrow> Venue \<Rightarrow> Event \<Rightarrow> 'z event_store_scheme \<Rightarrow> bool" where
  "new_event_of E dto v venue x v' \<longleftrightarrow> venue \<in> set (venues v) \<and> castId E (ce_venueId dto) = Some (ven_id venue) \<and>
     valid_event dto \<and> (\<forall>t\<in>set (ce_ticketTypes dto). ct_sectionId t \<in> sec_id ` set (ven_sections venue)) \<and>
     (\<exists>ids. length ids = length (ce_ticketTypes dto) \<and> distinct ids \<and> x = new_event dto ids (ev_id x) (event_clock v)) \<and>
     ev_id x \<notin> ev_id ` set (events v) \<and>
     v' = event_sent_update (\<lambda>l. l @ [(''event.create'', ev_id x, message_json (event_message x venue))])
       (events_update (\<lambda>t. t @ [x]) v)"

text \<open>Why a request is refused while the database is up.\<close>

definition event_refused :: "'w event_env \<Rightarrow> CreateEventDto \<Rightarrow> 'z event_store_scheme \<Rightarrow> exn \<Rightarrow> bool" where
  "event_refused E dto v e \<longleftrightarrow>
     castId E (ce_venueId dto) = None \<or>
     (e = NotFound ''Venue not found'' \<and> (\<forall>x\<in>set (venues v). castId E (ce_venueId dto) \<noteq> Some (ven_id x))) \<or>
     (\<exists>venue\<in>set (venues v). \<exists>t\<in>set (ce_ticketTypes dto). castId E (ce_venueId dto) = Some (ven_id venue) \<and>
        ct_sectionId t \<notin> sec_id ` set (ven_sections venue) \<and> e = NotFound (section_missing (ct_sectionId t) (ven_name venue))) \<or>
     (\<not> valid_event dto \<and> e = JsError ''Event validation failed'')"

definition new_venue_of :: "CreateVenueDto \<Rightarrow> 'z event_store_scheme \<Rightarrow> Venue \<Rightarrow> 'z event_store_scheme \<Rightarrow> bool" where
  "new_venue_of dto v x v' \<longleftrightarrow> valid_venue dto \<and>
     (\<exists>ids. length ids = length (cv_sections dto) \<and> distinct ids \<and> list_all (list_all is_hex) ids \<and>
        x = new_venue dto ids (ven_id x) (event_clock v)) \<and>
     ven_id x \<notin> ven_id ` set (venues v) \<and> v' = venues_update (\<lambda>t. t @ [x]) v"

lemma created_one_row:
  "created rid U now [mk] xs \<Longrightarrow> \<exists>i. i \<notin> U \<and> xs = [mk i now] \<and> rid (mk i now) = i"
  by (auto simp: created_def length_Suc_conv)

context event_world
begin

lemma venue_findById_law:
  "obeys vw (venue_findById E i) (\<lambda>v r v'. v' = v \<and> (case r of
      Inr x \<Rightarrow> x \<in> set (venues v) \<and> castId E i = Some (ven_id x)
    | Inl e \<Rightarrow> event_calm v \<longrightarrow> castId E i = None \<or>
        (e = NotFound ''Venue not found'' \<and> (\<forall>x\<in>set (venues v). castId E i \<noteq> Some (ven_id x)))))"
  by (rule obeysI)
    (auto simp: venue_findById_def wp_simps split: option.splits intro!: wp_fallible [OF ven.findOne_law])

lemma venue_create_law:
  "obeys vw (venue_create E dto) (\<lambda>v r v'. case r of
      Inr x \<Rightarrow> new_venue_of dto v x v'
    | Inl e \<Rightarrow> v' = v \<and> (event_calm v \<longrightarrow> \<not> valid_venue dto))"
proof (rule obeysI)
  fix w
  have ins: "insertable ven_id U now [new_venue dto ids] (\<lambda>xs. True)" for U now ids
    by (simp add: insertable_def keeps_ids_def new_venue_def)
  have one: "new_venue_of dto v (hd xs) (venues_update (\<lambda>t. t @ xs) v)"
    if "created ven_id (ven_id ` set (venues v)) (event_clock v) [new_venue dto ids] xs" "valid_venue dto"
      "length ids = length (cv_sections dto)" "distinct ids" "list_all (list_all is_hex) ids" for v ids xs
    using created_one_row [OF that(1)] that(2-) by (fastforce simp: new_venue_of_def)
  show "wp (venue_create E dto) (\<lambda>r w'. case r of
      Inr x \<Rightarrow> new_venue_of dto (vw w) x (vw w')
    | Inl e \<Rightarrow> vw w' = vw w \<and> (event_calm (vw w) \<longrightarrow> \<not> valid_venue dto)) w"
    unfolding venue_create_def
    by (auto simp: wp_simps ins intro!: wp_obeys [OF ids_law] wp_fallible [OF ven.insert_law] one)
qed

lemma event_create_law:
  "obeys vw (event_create E dto) (\<lambda>v r v'. case r of
      Inr x \<Rightarrow> \<exists>venue. new_event_of E dto v venue x v'
    | Inl e \<Rightarrow> v' = v \<and> (event_calm v \<longrightarrow> event_refused E dto v e))"
proof (rule obeysI)
  fix w
  let ?S = "\<lambda>r w'. case r of
      Inr x \<Rightarrow> \<exists>venue. new_event_of E dto (vw w) venue x (vw w')
    | Inl e \<Rightarrow> vw w' = vw w \<and> (event_calm (vw w) \<longrightarrow> event_refused E dto (vw w) e)"
  let ?missing = "\<lambda>venue t. ct_sectionId t \<notin> set (map sec_id (ven_sections venue))"
  have ins: "insertable ev_id U now [new_event dto ids] (\<lambda>xs. True)" for U now ids
    by (simp add: insertable_def keeps_ids_def new_event_def)
  have one: "new_event_of E dto v venue (hd xs) (event_sent_update (\<lambda>l. l @ [(''event.create'', ev_id (hd xs),
        message_json (event_message (hd xs) venue))]) (events_update (\<lambda>t. t @ xs) v))"
    if "created ev_id (ev_id ` set (events v)) (event_clock v) [new_event dto ids] xs" "valid_event dto"
      "venue \<in> set (venues v)" "castId E (ce_venueId dto) = Some (ven_id venue)"
      "\<forall>t\<in>set (ce_ticketTypes dto). \<not> ?missing venue t"
      "length ids = length (ce_ticketTypes dto)" "distinct ids" for v ids xs venue
    using created_one_row [OF that(1)] that(2-) by (fastforce simp: new_event_of_def)
  have loop: "wp (for_each (ce_ticketTypes dto) (\<lambda>t. if ?missing venue t
        then throw (NotFound (section_missing (ct_sectionId t) (ven_name venue))) else return ()))
      (\<lambda>r w2. vw w2 = vw w1 \<and> (case r of
          Inl e \<Rightarrow> \<exists>t\<in>set (ce_ticketTypes dto). ?missing venue t \<and> e = NotFound (section_missing (ct_sectionId t) (ven_name venue))
        | Inr _ \<Rightarrow> \<forall>t\<in>set (ce_ticketTypes dto). \<not> ?missing venue t)) w1" for venue w1
    by (rule wp_for_each [where I = "\<lambda>ys w2. vw w2 = vw w1 \<and> (\<forall>t\<in>set ys. \<not> ?missing venue t)"
          and X = "\<lambda>e w2. vw w2 = vw w1 \<and>
            (\<exists>t\<in>set (ce_ticketTypes dto). ?missing venue t \<and> e = NotFound (section_missing (ct_sectionId t) (ven_name venue)))"])
      (auto simp: wp_simps)
  show "wp (event_create E dto) ?S w"
    unfolding event_create_def wp_await
  proof (rule wp_obeys [OF venue_findById_law], goal_cases)
    case (1 r w1)
    then have w1: "vw w1 = vw w" by simp
    show ?case
    proof (cases r)
      case (Inl e)
      then show ?thesis using 1 by (auto simp: event_refused_def)
    next
      case (Inr venue)
      then have venue: "venue \<in> set (venues (vw w))" "castId E (ce_venueId dto) = Some (ven_id venue)" using 1 by simp_all
      show ?thesis
        unfolding Inr sum.case Let_def wp_await
      proof (rule wp_mono [OF loop], goal_cases)
        case (1 r2 w2)
        show ?case
        proof (cases r2)
          case (Inl e)
          then have "event_refused E dto (vw w) e" using 1(2) venue by (auto simp: event_refused_def)
          then show ?thesis using 1(2) w1 by (simp add: Inl)
        next
          case (Inr u)
          then have all: "\<forall>t\<in>set (ce_ticketTypes dto). \<not> ?missing venue t" "vw w2 = vw w" using 1(2) w1 by simp_all
          have "event_refused E dto (vw w) (JsError ''Event validation failed'')" if "\<not> valid_event dto"
            using that by (simp add: event_refused_def)
          then show ?thesis
            unfolding Inr sum.case using ins one [OF _ _ venue all(1)] all(2)
            by (auto simp: wp_simps Let_def intro!: wp_obeys [OF ids_law] wp_fallible [OF evt.insert_law] wp_obeys [OF emit_law] exI [of _ venue])
        qed
      qed
    qed
  qed
qed

end

section \<open>Properties\<close>

definition event_store_ok :: "'w event_env \<Rightarrow> 'z event_store_scheme \<Rightarrow> bool" where
  "event_store_ok E v \<longleftrightarrow> distinct (map ven_id (venues v)) \<and> distinct (map ev_id (events v)) \<and>
     list_all venue_ok (venues v) \<and>
     list_all (\<lambda>e. \<exists>venue\<in>set (venues v). castId E (ev_venueId e) = Some (ven_id venue) \<and>
       (\<forall>t\<in>set (ev_ticketTypes e). tt_sectionId t \<in> sec_id ` set (ven_sections venue))) (events v)"

lemma new_event_tickets:
  "\<lbrakk>new_event_of E dto v venue x v'; t \<in> set (ev_ticketTypes x)\<rbrakk> \<Longrightarrow> tt_sectionId t \<in> sec_id ` set (ven_sections venue)"
proof -
  assume "new_event_of E dto v venue x v'" and t: "t \<in> set (ev_ticketTypes x)"
  then obtain ids where "ev_ticketTypes x = map ticket_type (zip ids (ce_ticketTypes dto))"
    and all: "\<forall>t\<in>set (ce_ticketTypes dto). ct_sectionId t \<in> sec_id ` set (ven_sections venue)"
    unfolding new_event_of_def new_event_def by (metis Event.select_convs(12))
  then obtain i d where "(i, d) \<in> set (zip ids (ce_ticketTypes dto))" "t = ticket_type (i, d)" using t by auto
  then show ?thesis using all by (auto simp: ticket_type_def dest: set_zip_rightD)
qed

lemma event_kept:
  assumes "event_store_ok E v" "new_event_of E dto v venue x v'"
  shows "event_store_ok E v'"
proof -
  have v': "v' = event_sent_update (\<lambda>l. l @ [(''event.create'', ev_id x, message_json (event_message x venue))]) (events_update (\<lambda>t. t @ [x]) v)"
    and "ev_id x \<notin> ev_id ` set (events v)" "venue \<in> set (venues v)" "castId E (ce_venueId dto) = Some (ven_id venue)"
    using assms(2) by (simp_all add: new_event_of_def)
  moreover have "ev_venueId x = ce_venueId dto"
    using assms(2) unfolding new_event_of_def new_event_def by (metis Event.select_convs(3))
  ultimately show ?thesis
    using assms(1) new_event_tickets [OF assms(2)] by (auto simp: event_store_ok_def list_all_iff)
qed

lemma venue_kept:
  assumes "event_store_ok E v" "new_venue_of dto v x v'"
  shows "event_store_ok E v'"
proof -
  have "venue_ok x" using assms(2) by (auto simp: new_venue_of_def) (metis new_venue_ok)
  then show ?thesis using assms by (auto simp: event_store_ok_def new_venue_of_def list_all_iff)
qed

text \<open>Sequences of the operations that write.\<close>

inductive event_step :: "'w event_env \<Rightarrow> 'w \<Rightarrow> 'w \<Rightarrow> bool" for E where
  step_venue: "venues_create E dto w = (r, w') \<Longrightarrow> event_step E w w'"
| step_event: "events_create E dto w = (r, w') \<Longrightarrow> event_step E w w'"

context event_world
begin

lemma event_step_kept:
  assumes "event_step E w w'" "event_store_ok E (vw w)"
  shows "event_store_ok E (vw w')"
  using assms(1)
proof cases
  case (step_venue dto r)
  then show ?thesis
    using obeysD [OF venue_create_law, of dto w r w'] assms(2) venue_kept
    by (cases r) (auto simp: venues_create_def)
next
  case (step_event dto r)
  then show ?thesis
    using obeysD [OF event_create_law, of dto w r w'] assms(2) event_kept
    by (cases r) (auto simp: events_create_def)
qed

lemma event_run_kept: "(event_step E)\<^sup>*\<^sup>* w w' \<Longrightarrow> event_store_ok E (vw w) \<Longrightarrow> event_store_ok E (vw w')"
  by (induction rule: rtranclp_induct) (auto intro: event_step_kept)

end

section \<open>An in-memory instance\<close>

record event_mem = mem_base +
  m_venues :: "Venue list"
  m_events :: "Event list"
  m_event_sent :: "kafka_message list"

definition event_view :: "'z event_mem_scheme \<Rightarrow> 'z event_store_scheme" where
  "event_view w = \<lparr>venues = m_venues w, events = m_events w, event_sent = m_event_sent w,
     event_clock = mem_clock w, event_calm = steady w, \<dots> = event_mem.more w\<rparr>"

definition mem_ids :: "nat \<Rightarrow> string list" where
  "mem_ids n = map (\<lambda>k. replicate (Suc k) CHR ''a'') [0..<n]"

definition mem_event_env :: "'z event_mem_scheme event_env" where
  "mem_event_env = \<lparr>
     venueModel = mem_repo ven_id m_venues m_venues_update (\<lambda>_. True),
     eventModel = mem_repo ev_id m_events m_events_update (\<lambda>_. True),
     eventKafka = mem_kafka m_event_sent_update,
     objectIds = (\<lambda>n. return (mem_ids n)),
     castId = Some\<rparr>"

lemma event_view_blind: "blind event_view event_calm"
  by (simp add: blind_def event_view_def)

interpretation mem_ven: mem_table event_view ven_id m_venues m_venues_update venues venues_update event_clock "\<lambda>_. True" event_calm
  by unfold_locales (simp_all add: event_view_blind, simp_all add: event_view_def)

interpretation mem_evt: mem_table event_view ev_id m_events m_events_update events events_update event_clock "\<lambda>_. True" event_calm
  by unfold_locales (simp_all add: event_view_blind, simp_all add: event_view_def)

interpretation mem_event_kafka: mem_producer event_view m_event_sent_update event_sent_update
  by unfold_locales (simp add: event_view_def)

lemma mem_ids_law: "length (mem_ids n) = n \<and> distinct (mem_ids n) \<and> list_all (list_all is_hex) (mem_ids n)"
  by (auto simp: mem_ids_def distinct_map inj_on_def list_all_iff is_hex_def)

interpretation mem_event: event_world mem_event_env event_view
  by (simp add: event_world_def event_world_axioms_def mem_event_env_def mem_ven.table_api_axioms mem_evt.table_api_axioms
      mem_event_kafka.kafka_api_axioms obeys_return mem_ids_law)

text \<open>A venue with two sections, and an event that sells one of them.\<close>

definition two_sections :: "string \<Rightarrow> string \<Rightarrow> CreateVenueDto" where
  "two_sections label number = \<lparr>cv_name = ''Hall'', cv_address = None, cv_city = None, cv_country = None, cv_latitude = None,
     cv_longitude = None, cv_venueMapUrl = None, cv_sections =
       [\<lparr>cs_name = ''Stalls'', cs_capacity = None, cs_sortOrder = None, cs_rows =
          [\<lparr>cr_label = ''A'', cr_seats = [\<lparr>cse_number = ''1'', cse_type = STANDARD, cse_x = Fin 0, cse_y = Fin 0\<rparr>,
             \<lparr>cse_number = number, cse_type = VIP, cse_x = Fin 1, cse_y = Fin 0\<rparr>]\<rparr>,
           \<lparr>cr_label = label, cr_seats = [\<lparr>cse_number = ''2'', cse_type = STANDARD, cse_x = Fin 0, cse_y = Fin 1\<rparr>]\<rparr>]\<rparr>,
        \<lparr>cs_name = ''Balcony'', cs_capacity = None, cs_sortOrder = None, cs_rows =
          [\<lparr>cr_label = ''A'', cr_seats = [\<lparr>cse_number = ''1'', cse_type = STANDARD, cse_x = Fin 0, cse_y = Fin 0\<rparr>]\<rparr>]\<rparr>]\<rparr>"

definition hall :: "string \<Rightarrow> string \<Rightarrow> event_mem" where
  "hall label number = \<lparr>steady = True, faults = [], mem_clock = 1000,
     m_venues = [new_venue (two_sections label number) (mem_ids 2) ''v1'' 0], m_events = [], m_event_sent = []\<rparr>"

definition concert :: CreateEventDto where
  "concert = \<lparr>ce_organizerId = ''o1'', ce_venueId = ''v1'', ce_title = ''Concert'', ce_description = None, ce_category = None,
     ce_status = None, ce_startsAt = 5000, ce_endsAt = None, ce_doorsOpenAt = None, ce_saleStartsAt = None,
     ce_saleEndsAt = None, ce_ticketTypes = [\<lparr>ct_sectionId = ''a'', ct_name = ''Standard'', ct_price = Fin 100,
       ct_currency = Some ''TRY'', ct_maxPerOrder = None, ct_salesStartAt = None, ct_salesEndAt = None\<rparr>],
     ce_metadata = None\<rparr>"

lemma hall_ok: "event_store_ok (mem_event_env :: event_mem event_env) (event_view (hall label number))"
proof -
  have "venue_ok (new_venue (two_sections label number) (mem_ids 2) ''v1'' 0)"
    by (rule new_venue_ok) (simp_all add: two_sections_def mem_ids_law)
  then show ?thesis by (simp add: event_store_ok_def event_view_def hall_def)
qed

lemma hall_sells: "returns (event_create mem_event_env concert) (hall ''B'' ''2'')" "returns (event_create mem_event_env concert) (hall ''A_1'' ''1_2'')"
  by code_simp+

section \<open>Creating an event\<close>

text \<open>
  C22.  Creating an event.  When \<^verbatim>\<open>POST /events\<close> returns, the venue exists, every ticket type names a section of
  it, one event has been added, and one message announces it with the seats of the sections that are sold.
  When it throws, nothing has changed; while the database is up it throws only for an unknown venue, a
  section of another venue, or a missing field.
\<close>

theorem event_create_outcome:
  assumes "event_world E vw" "events_create E dto w = (r, w')"
  shows "case r of
      Inr x \<Rightarrow> \<exists>venue\<in>set (venues (vw w)). castId E (ce_venueId dto) = Some (ven_id venue) \<and>
        (\<forall>t\<in>set (ev_ticketTypes x). tt_sectionId t \<in> sec_id ` set (ven_sections venue)) \<and>
        map (\<lambda>t. (tt_sectionId t, tt_name t, tt_price t)) (ev_ticketTypes x) =
          map (\<lambda>t. (ct_sectionId t, ct_name t, ct_price t)) (ce_ticketTypes dto) \<and>
        events (vw w') = events (vw w) @ [x] \<and> venues (vw w') = venues (vw w) \<and>
        event_sent (vw w') = event_sent (vw w) @ [(''event.create'', ev_id x, message_json (event_message x venue))]
    | Inl e \<Rightarrow> vw w' = vw w \<and> (event_calm (vw w) \<longrightarrow> event_refused E dto (vw w) e)"
proof (cases r)
  case (Inl e)
  then show ?thesis
    using obeysD [OF event_world.event_create_law [OF assms(1)], of dto w r w'] assms(2) by (simp add: events_create_def)
next
  case (Inr x)
  then obtain venue where n: "new_event_of E dto (vw w) venue x (vw w')"
    using obeysD [OF event_world.event_create_law [OF assms(1)], of dto w r w'] assms(2) by (auto simp: events_create_def)
  then obtain ids where ids: "length ids = length (ce_ticketTypes dto)" "ev_ticketTypes x = map ticket_type (zip ids (ce_ticketTypes dto))"
    unfolding new_event_of_def new_event_def by (metis Event.select_convs(12))
  then have "map (\<lambda>t. (tt_sectionId t, tt_name t, tt_price t)) (ev_ticketTypes x) =
      map (\<lambda>t. (ct_sectionId t, ct_name t, ct_price t)) (ce_ticketTypes dto)"
    by (auto simp: ticket_type_def intro!: nth_equalityI)
  then show ?thesis
    using n new_event_tickets [OF n] by (auto simp: Inr new_event_of_def)
qed

theorem event_create_outcome_witness:
  "\<exists>x w'. events_create mem_event_env concert (hall ''B'' ''2'') = (Inr x, w') \<and>
     events (event_view w') = [x] \<and> length (event_sent (event_view w')) = 1"
proof -
  obtain x w' where run: "events_create mem_event_env concert (hall ''B'' ''2'') = (Inr x, w')"
    using hall_sells(1) unfolding events_create_def by (rule returnsE)
  have "events (event_view (hall ''B'' ''2'')) = []" "event_sent (event_view (hall ''B'' ''2'')) = []"
    by (simp_all add: event_view_def hall_def)
  then show ?thesis
    using event_create_outcome [OF mem_event.event_world_axioms run] run by auto
qed

text \<open>What a row of the inventory has from the section, the ticket type, the row and the seat it was made for.\<close>

definition row_of_seat :: "'w seat_env \<Rightarrow> Section \<Rightarrow> TicketType \<Rightarrow> Row \<Rightarrow> SeatDefinition \<Rightarrow> SeatInventory \<Rightarrow> bool" where
  "row_of_seat S section t row seat r \<longleftrightarrow>
     inv_seatId r = seat_id (sec_id section) (row_label row) (sd_number seat) \<and>
     inv_sectionId r = sec_id section \<and> inv_sectionName r = sec_name section \<and>
     inv_ticketTypeId r = tt_id t \<and> inv_ticketTypeName r = tt_name t \<and>
     inv_price r = to_numeric S (tt_price t) \<and> inv_currency r = tt_currency t \<and>
     inv_row r = row_label row \<and> inv_seatNumber r = sd_number seat \<and> inv_seatType r = seat_type_text (sd_type seat)"

lemma event_seats_sources:
  assumes "s \<in> set (event_seats secs ts)"
  shows "\<exists>section\<in>set secs. \<exists>t\<in>set ts. \<exists>row\<in>set (sec_rows section). \<exists>seat\<in>set (row_seats row).
    tt_sectionId t = sec_id section \<and> s = event_seat section t row seat"
proof -
  obtain sec where sec: "sec \<in> set secs" "s \<in> set (case section_ticket ts sec of None \<Rightarrow> []
      | Some t \<Rightarrow> concat (map (\<lambda>row. map (event_seat sec t row) (row_seats row)) (sec_rows sec)))"
    using assms by (auto simp: event_seats_def)
  then obtain t where t: "section_ticket ts sec = Some t" by (cases "section_ticket ts sec") auto
  then have "t \<in> set ts" "tt_sectionId t = sec_id sec" by (auto simp: section_ticket_def find_Some_iff)
  then show ?thesis using sec by (auto simp: t)
qed

text \<open>
  C9.  An event that is created goes on sale.  When \<^verbatim>\<open>POST /events\<close> has returned and the inventory service
  consumes the message that was sent, it adds one \<open>AVAILABLE\<close> seat for every seat of the sections that are sold,
  as many as their capacities add up to, and changes nothing else.  Each seat carries the id and name of its section and
  of its ticket type, the price and currency of that ticket type, and the row, number and type that the venue gives
  it.  Every further delivery of the message, at any time, changes nothing.  This needs sections whose row labels have no
  underscore and appear once, with no seat number twice in a row (C35 is about the others).
\<close>

theorem event_goes_on_sale:
  assumes "event_world E vw" "event_store_ok E (vw w)" "event_create E dto w = (Inr x, w')" "ev_id x \<noteq> []"
    and "list_all (\<lambda>venue. list_all plain_section (ven_sections venue)) (venues (vw w))"
    and "seat_world S vs" "seat_wf (vs u)" "calm (vs u)" "event_rows (vs u) (ev_id x) = []"
  shows "\<exists>m secs rows u'. event_sent (vw w') = event_sent (vw w) @ [(''event.create'', ev_id x, message_json m)] \<and>
    handleEventCreate S (Bare m) u = (Inr (), u') \<and> seat_wf (vs u') \<and> vs u' = inventory_update (\<lambda>t. t @ rows) (vs u) \<and>
    event_rows (vs u') (ev_id x) = rows \<and>
    (\<exists>venue\<in>set (venues (vw w)). castId E (ce_venueId dto) = Some (ven_id venue) \<and>
       secs = filter (\<lambda>s. \<exists>t\<in>set (ev_ticketTypes x). tt_sectionId t = sec_id s) (ven_sections venue)) \<and>
    map (\<lambda>r. (inv_seatId r, inv_price r, inv_status r)) rows =
      map (\<lambda>s. (es_seatId s, to_numeric S (es_price s), AVAILABLE)) (event_seats secs (ev_ticketTypes x)) \<and>
    (\<forall>r\<in>set rows. \<exists>section\<in>set secs. \<exists>t\<in>set (ev_ticketTypes x). \<exists>row\<in>set (sec_rows section). \<exists>seat\<in>set (row_seats row).
       tt_sectionId t = sec_id section \<and> row_of_seat S section t row seat r) \<and>
    length rows = sum_list (map sec_capacity secs) \<and>
    (\<forall>u2 r2 u3. event_rows (vs u2) (ev_id x) \<noteq> [] \<or> rows = [] \<longrightarrow> handleEventCreate S (Bare m) u2 = (r2, u3) \<longrightarrow> vs u3 = vs u2)"
proof -
  obtain venue where n: "new_event_of E dto (vw w) venue x (vw w')"
    using obeysD [OF event_world.event_create_law [OF assms(1)] assms(3)] by auto
  define m where "m = event_message x venue"
  define secs where "secs = filter (\<lambda>s. \<exists>t\<in>set (ev_ticketTypes x). tt_sectionId t = sec_id s) (ven_sections venue)"
  have sold: "section_ticket (ev_ticketTypes x) s \<noteq> None \<longleftrightarrow> (\<exists>t\<in>set (ev_ticketTypes x). tt_sectionId t = sec_id s)" for s
    by (auto simp: section_ticket_def find_None_iff)
  have seats: "ecm_seats m = event_seats secs (ev_ticketTypes x)" "ecm_eventId m = ev_id x"
  proof -
    have "secs = filter (\<lambda>s. section_ticket (ev_ticketTypes x) s \<noteq> None) (ven_sections venue)" by (simp only: secs_def sold)
    then show "ecm_seats m = event_seats secs (ev_ticketTypes x)" by (simp only: event_seats_sold) (simp add: m_def event_message_def)
  qed (simp add: m_def event_message_def)
  have venue: "venue_ok venue" "list_all plain_section (ven_sections venue)"
    using n assms(2,5) by (auto simp: new_event_of_def event_store_ok_def list_all_iff)
  have d: "distinct (map es_seatId (ecm_seats m))"
    unfolding m_def event_message_def EventCreateMessage.select_convs
    by (rule event_seats_distinct) (use venue in \<open>simp_all add: venue_ok_def\<close>)
  obtain r u' where run: "handleEventCreate S (Bare m) u = (r, u')" by fastforce
  then have "createFromEvent S m u = (r, u')" using assms(4) seats(2) by (simp add: handleEventCreate_def)
  then have law: "r = Inr () \<and> (\<exists>xs. created inv_id (inv_id ` set (inventory (vs u))) (clock (vs u))
        (map (new_seat S (ev_id x)) (ecm_seats m)) xs \<and> vs u' = inventory_update (\<lambda>t. t @ xs) (vs u) \<and>
      unique_seats (inventory (vs u) @ xs))"
    using obeysD [OF seat_world.createFromEvent_law [OF assms(6)], of m u r u'] assms(7-9) d seats(2)
    by (cases r) (auto simp: seat_wf_def)
  then obtain xs where xs: "created inv_id (inv_id ` set (inventory (vs u))) (clock (vs u)) (map (new_seat S (ev_id x)) (ecm_seats m)) xs"
    "vs u' = inventory_update (\<lambda>t. t @ xs) (vs u)" "unique_seats (inventory (vs u) @ xs)" by blast
  have rows: "event_rows (vs u') (ev_id x) = xs"
    using assms(9) xs(2) created_rows(1) [OF xs(1)] by (simp add: event_rows_def)
  have "length (event_seats secs (ev_ticketTypes x)) = sum_list (map sec_capacity secs)"
  proof -
    have "map seat_count secs = map sec_capacity secs" "filter (\<lambda>s. section_ticket (ev_ticketTypes x) s \<noteq> None) secs = secs"
      using venue(1) by (auto simp: secs_def venue_ok_def list_all_iff sold simp del: not_None_eq)
    then show ?thesis by (simp only: event_seats_length)
  qed
  moreover have "map (\<lambda>r. (inv_seatId r, inv_price r, inv_status r)) xs =
      map (\<lambda>s. (es_seatId s, to_numeric S (es_price s), AVAILABLE)) (ecm_seats m)"
    by (rule created_map [OF xs(1)]) (simp add: new_seat_def)
  moreover have "seat_wf (vs u')"
    using assms(7) xs created_distinct [OF xs(1)] created_fresh [OF xs(1)] by (auto simp: seat_wf_def)
  ultimately have "map (\<lambda>r. (inv_seatId r, inv_price r, inv_status r)) xs =
      map (\<lambda>s. (es_seatId s, to_numeric S (es_price s), AVAILABLE)) (event_seats secs (ev_ticketTypes x))"
    and len: "length xs = sum_list (map sec_capacity secs)" "seat_wf (vs u')"
    using created_length [OF xs(1)] by (simp_all add: seats)
  moreover have "\<exists>section\<in>set secs. \<exists>t\<in>set (ev_ticketTypes x). \<exists>row\<in>set (sec_rows section). \<exists>seat\<in>set (row_seats row).
      tt_sectionId t = sec_id section \<and> row_of_seat S section t row seat r" if r: "r \<in> set xs" for r
  proof -
    obtain s i where s: "s \<in> set (ecm_seats m)" "r = new_seat S (ev_id x) s i (clock (vs u))"
      using created_set [OF xs(1)] r by fastforce
    from event_seats_sources [OF s(1) [unfolded seats(1)]] show ?thesis
      by (elim bexE conjE, intro bexI conjI) (auto simp: s(2) new_seat_def event_seat_def row_of_seat_def)
  qed
  moreover have "vs u3 = vs u2"
    if "event_rows (vs u2) (ev_id x) \<noteq> [] \<or> xs = []" "handleEventCreate S (Bare m) u2 = (r2, u3)" for u2 r2 u3
  proof -
    have "createFromEvent S m u2 = (r2, u3)" using that(2) assms(4) seats(2) by (simp add: handleEventCreate_def)
    from obeysD [OF seat_world.createFromEvent_law [OF assms(6)] this]
    show ?thesis
    proof (cases r2)
      case (Inr z)
      have none: "ecm_seats m = []" if "xs = []" using created_length [OF xs(1)] that by simp
      show ?thesis
      proof (cases "event_rows (vs u2) (ev_id x) = []")
        case False
        then show ?thesis
          using obeysD [OF seat_world.createFromEvent_law [OF assms(6)] \<open>createFromEvent S m u2 = (r2, u3)\<close>] Inr seats(2) by simp
      next
        case True
        then have "ecm_seats m = []" using that(1) none by blast
        then obtain ys where "created inv_id (inv_id ` set (inventory (vs u2))) (clock (vs u2)) [] ys"
            "vs u3 = inventory_update (\<lambda>t. t @ ys) (vs u2)"
          using obeysD [OF seat_world.createFromEvent_law [OF assms(6)] \<open>createFromEvent S m u2 = (r2, u3)\<close>] Inr seats(2) True by auto
        then show ?thesis using created_length [of inv_id _ _ "[]" ys] by simp
      qed
    qed simp
  qed
  moreover have "event_sent (vw w') = event_sent (vw w) @ [(''event.create'', ev_id x, message_json m)]"
    "venue \<in> set (venues (vw w))" "castId E (ce_venueId dto) = Some (ven_id venue)"
    using n by (simp_all add: new_event_of_def m_def)
  ultimately show ?thesis
    using run law secs_def rows xs(2)
    by (intro exI [of _ m] exI [of _ secs] exI [of _ xs] exI [of _ u']) blast
qed

theorem event_goes_on_sale_witness:
  "\<exists>x w' m u'. event_create mem_event_env concert (hall ''B'' ''2'') = (Inr x, w') \<and>
     event_sent (event_view w') = [(''event.create'', ev_id x, message_json m)] \<and>
     handleEventCreate mem_seat_env (Bare m) demo_seats = (Inr (), u')"
proof -
  obtain x w' where run: "event_create mem_event_env concert (hall ''B'' ''2'') = (Inr x, w')"
    using hall_sells(1) by (rule returnsE)
  have x: "ev_id x \<noteq> [] \<and> ev_id x \<noteq> ''e1''"
  proof -
    have "case fst (event_create mem_event_env concert (hall ''B'' ''2'')) of Inr x \<Rightarrow> ev_id x \<noteq> [] \<and> ev_id x \<noteq> ''e1'' | Inl e \<Rightarrow> False"
      by code_simp
    then show ?thesis by (simp add: run)
  qed
  have plain: "list_all (\<lambda>venue. list_all plain_section (ven_sections venue)) (venues (event_view (hall ''B'' ''2'')))"
    by code_simp
  have "calm (seat_view demo_seats)" "event_rows (seat_view demo_seats) (ev_id x) = []"
    using x by (auto simp: seat_view_def demo_seats_def event_rows_def demo_seat_def)
  note free = this
  have n: "ev_id x \<noteq> []" using x by simp
  from event_goes_on_sale [OF mem_event.event_world_axioms hall_ok run n plain mem_seats.seat_world_axioms demo_seat_wf free]
  obtain m u' where "event_sent (event_view w') = event_sent (event_view (hall ''B'' ''2'')) @ [(''event.create'', ev_id x, message_json m)]"
    "handleEventCreate mem_seat_env (Bare m) demo_seats = (Inr (), u')" by (elim exE conjE) (rule that)
  moreover have "event_sent (event_view (hall ''B'' ''2'')) = []" by (simp add: event_view_def hall_def)
  ultimately show ?thesis using run by auto
qed

text \<open>Two seats in different rows of a section whose labels and numbers, joined by an underscore, are the same text.\<close>

definition ambiguous_section :: "Section \<Rightarrow> bool" where
  "ambiguous_section section \<longleftrightarrow> (\<exists>i j k l. i < j \<and> j < length (sec_rows section) \<and>
     k < length (row_seats (sec_rows section ! i)) \<and> l < length (row_seats (sec_rows section ! j)) \<and>
     row_label (sec_rows section ! i) @ ''_'' @ sd_number (row_seats (sec_rows section ! i) ! k) =
     row_label (sec_rows section ! j) @ ''_'' @ sd_number (row_seats (sec_rows section ! j) ! l))"

lemma distinct_concat_parts: "distinct (concat xss) \<Longrightarrow> xs \<in> set xss \<Longrightarrow> distinct xs"
  by (induction xss) auto

lemma distinct_concat_apart:
  "distinct (concat xss) \<Longrightarrow> i < j \<Longrightarrow> j < length xss \<Longrightarrow> x \<in> set (xss ! i) \<Longrightarrow> x \<notin> set (xss ! j)"
proof (induction xss arbitrary: i j)
  case (Cons xs xss)
  then obtain j' where j: "j = Suc j'" by (cases j) auto
  show ?case
  proof (cases i)
    case 0
    then show ?thesis using Cons.prems j by (auto dest: nth_mem)
  next
    case (Suc i')
    then show ?thesis using Cons.prems j Cons.IH [of i' j'] by simp
  qed
qed simp

lemma ambiguous_ids:
  assumes "section \<in> set sections" "section_ticket ts section \<noteq> None" "ambiguous_section section"
  shows "\<not> distinct (map es_seatId (event_seats sections ts))"
proof
  obtain t where t: "section_ticket ts section = Some t" using assms(2) by blast
  let ?ids = "\<lambda>section. case section_ticket ts section of None \<Rightarrow> [] | Some t \<Rightarrow>
    concat (map (\<lambda>row. map (\<lambda>seat. seat_id (sec_id section) (row_label row) (sd_number seat)) (row_seats row)) (sec_rows section))"
  have "map es_seatId (event_seats sections ts) = concat (map ?ids sections)"
    unfolding event_seats_def map_concat map_map
    by (intro arg_cong [where f = concat] map_cong refl) (simp add: comp_def map_concat event_seat_def split: option.splits)
  moreover assume "distinct (map es_seatId (event_seats sections ts))"
  ultimately have "distinct (concat (map ?ids sections))" by simp
  then have "distinct (?ids section)" by (rule distinct_concat_parts) (use assms(1) in simp)
  then have d: "distinct (concat (map (\<lambda>row. map (\<lambda>seat. seat_id (sec_id section) (row_label row) (sd_number seat)) (row_seats row))
      (sec_rows section)))" by (simp add: t)
  obtain i j k l where ij: "i < j" "j < length (sec_rows section)" and
    kl: "k < length (row_seats (sec_rows section ! i))" "l < length (row_seats (sec_rows section ! j))" and
    same: "row_label (sec_rows section ! i) @ ''_'' @ sd_number (row_seats (sec_rows section ! i) ! k) =
      row_label (sec_rows section ! j) @ ''_'' @ sd_number (row_seats (sec_rows section ! j) ! l)"
    using assms(3) unfolding ambiguous_section_def by blast
  let ?id = "\<lambda>i k. seat_id (sec_id section) (row_label (sec_rows section ! i)) (sd_number (row_seats (sec_rows section ! i) ! k))"
  have "?id i k = ?id j l" unfolding seat_id_def same ..
  moreover have "?id i k \<in> (\<lambda>seat. seat_id (sec_id section) (row_label (sec_rows section ! i)) (sd_number seat)) ` set (row_seats (sec_rows section ! i))"
    "?id j l \<in> (\<lambda>seat. seat_id (sec_id section) (row_label (sec_rows section ! j)) (sd_number seat)) ` set (row_seats (sec_rows section ! j))"
    using kl by (auto intro: imageI nth_mem)
  ultimately show False
    using distinct_concat_apart [OF d ij(1), of "?id i k"] ij by auto
qed

text \<open>
  C35.  Two seats with one id take the whole event off sale.  The id of a seat joins the section, the label of the row and
  the number of the seat by underscores.  When a section that is sold has two seats in different rows whose labels and
  numbers join to the same text, as row \<^verbatim>\<open>A\<close> seat \<^verbatim>\<open>1_2\<close> and row \<^verbatim>\<open>A_1\<close> seat \<^verbatim>\<open>2\<close> do, the event is still created and
  announced; but the inventory service refuses its message every time, in any state in which the event has no seats, and
  changes nothing: the event never has any seat.
\<close>

theorem equal_seat_ids_block_sale:
  assumes "event_world E vw" "event_create E dto w = (Inr x, w')" "ev_id x \<noteq> []"
    and "\<forall>venue\<in>set (venues (vw w)). castId E (ce_venueId dto) = Some (ven_id venue) \<longrightarrow>
      (\<exists>section\<in>set (ven_sections venue). ambiguous_section section \<and> (\<exists>t\<in>set (ev_ticketTypes x). tt_sectionId t = sec_id section))"
    and "seat_world S vs"
  shows "\<exists>m. event_sent (vw w') = event_sent (vw w) @ [(''event.create'', ev_id x, message_json m)] \<and> ecm_eventId m = ev_id x \<and>
    (\<forall>u r u'. event_rows (vs u) (ev_id x) = [] \<longrightarrow> handleEventCreate S (Bare m) u = (r, u') \<longrightarrow> (\<exists>e. r = Inl e) \<and> vs u' = vs u)"
proof -
  obtain venue where n: "new_event_of E dto (vw w) venue x (vw w')"
    using obeysD [OF event_world.event_create_law [OF assms(1)] assms(2)] by auto
  let ?m = "event_message x venue"
  obtain sec where "sec \<in> set (ven_sections venue)" "ambiguous_section sec"
      "\<exists>t\<in>set (ev_ticketTypes x). tt_sectionId t = sec_id sec"
    using bspec [OF assms(4), of venue] n unfolding new_event_of_def by blast
  then have twice: "\<not> distinct (map es_seatId (ecm_seats ?m))"
    unfolding event_message_def EventCreateMessage.select_convs
    by (intro ambiguous_ids [of sec]) (auto simp: section_ticket_def find_None_iff)
  have never: "(\<exists>e. r = Inl e) \<and> vs u' = vs u"
    if "event_rows (vs u) (ev_id x) = []" "handleEventCreate S (Bare ?m) u = (r, u')" for u r u'
  proof -
    have e: "ecm_eventId ?m = ev_id x" by (simp add: event_message_def)
    have run: "createFromEvent S ?m u = (r, u')" using that(2) assms(3) e by (simp add: handleEventCreate_def)
    have "\<not> unique_seats (inventory (vs u) @ xs)"
      if "created inv_id U now (map (new_seat S (ev_id x)) (ecm_seats ?m)) xs" for U now xs
    proof -
      have k: "map seat_key xs = map (\<lambda>s. (ev_id x, es_seatId s)) (ecm_seats ?m)"
        using that by (rule created_map) (simp add: new_seat_def seat_key_def)
      have "\<not> distinct (map seat_key xs)"
        unfolding k using twice by (auto simp: distinct_map inj_on_def)
      then show ?thesis by (simp add: unique_seats_def)
    qed
    then show ?thesis
      using obeysD [OF seat_world.createFromEvent_law [OF assms(5)] run] that(1) e by (cases r) auto
  qed
  moreover have "event_sent (vw w') = event_sent (vw w) @ [(''event.create'', ev_id x, message_json ?m)]"
    using n by (simp add: new_event_of_def)
  ultimately show ?thesis by (intro exI [of _ ?m]) (simp add: event_message_def)
qed

theorem equal_seat_ids_block_sale_witness:
  "\<exists>x w' m. event_create mem_event_env concert (hall ''A_1'' ''1_2'') = (Inr x, w') \<and>
     event_sent (event_view w') = [(''event.create'', ev_id x, message_json m)] \<and>
     (\<exists>e. fst (handleEventCreate mem_seat_env (Bare m) demo_seats) = Inl e)"
proof -
  let ?run = "event_create mem_event_env concert (hall ''A_1'' ''1_2'')"
  have "case fst ?run of Inr x \<Rightarrow> ev_id x \<noteq> [] \<and> ev_id x \<noteq> ''e1'' \<and> map tt_sectionId (ev_ticketTypes x) = [''a''] | Inl e \<Rightarrow> False"
    by code_simp
  moreover obtain x w' where run: "?run = (Inr x, w')" using hall_sells(2) by (rule returnsE)
  ultimately have x: "ev_id x \<noteq> []" "ev_id x \<noteq> ''e1''" "map tt_sectionId (ev_ticketTypes x) = [''a'']" by simp_all
  define stalls where "stalls = hd (ven_sections (hd (venues (event_view (hall ''A_1'' ''1_2'')))))"
  have stalls: "map (\<lambda>r. (row_label r, map sd_number (row_seats r))) (sec_rows stalls) = [(''A'', [''1'', ''1_2'']), (''A_1'', [''2''])]"
    "sec_id stalls = ''a''" "length (venues (event_view (hall ''A_1'' ''1_2''))) = 1"
    "ven_sections (hd (venues (event_view (hall ''A_1'' ''1_2'')))) \<noteq> []"
    unfolding stalls_def by code_simp+
  obtain r0 r1 where r: "sec_rows stalls = [r0, r1]" "row_label r0 = ''A''" "row_label r1 = ''A_1''"
      "map sd_number (row_seats r0) = [''1'', ''1_2'']" "map sd_number (row_seats r1) = [''2'']"
    using stalls(1) by (auto simp: map_eq_Cons_conv)
  obtain p q where "row_seats r0 = [p, q]" "sd_number q = ''1_2''" using r(4) by (auto simp: map_eq_Cons_conv)
  moreover obtain s where "row_seats r1 = [s]" "sd_number s = ''2''" using r(5) by (auto simp: map_eq_Cons_conv)
  ultimately have amb: "ambiguous_section stalls"
    unfolding ambiguous_section_def using r(1-3) by (intro exI [of _ 0] exI [of _ 1]) (auto intro!: exI [of _ 1] exI [of _ 0])
  have "\<exists>t\<in>set (ev_ticketTypes x). tt_sectionId t = sec_id stalls" using x(3) stalls(2) by (auto simp: map_eq_Cons_conv)
  moreover have "stalls \<in> set (ven_sections (hd (venues (event_view (hall ''A_1'' ''1_2'')))))"
    unfolding stalls_def using stalls(4) by simp
  ultimately have all: "\<forall>venue\<in>set (venues (event_view (hall ''A_1'' ''1_2''))). castId (mem_event_env :: event_mem event_env) (ce_venueId concert) = Some (ven_id venue) \<longrightarrow>
      (\<exists>section\<in>set (ven_sections venue). ambiguous_section section \<and> (\<exists>t\<in>set (ev_ticketTypes x). tt_sectionId t = sec_id section))"
    using amb stalls(3) by (auto simp: length_Suc_conv)
  have free: "event_rows (seat_view demo_seats) (ev_id x) = []"
    using x(2) by (auto simp: seat_view_def demo_seats_def event_rows_def demo_seat_def)
  obtain m where m: "event_sent (event_view w') = event_sent (event_view (hall ''A_1'' ''1_2'')) @ [(''event.create'', ev_id x, message_json m)]"
    "\<forall>(u :: seat_mem) r u'. event_rows (seat_view u) (ev_id x) = [] \<longrightarrow> handleEventCreate mem_seat_env (Bare m) u = (r, u') \<longrightarrow> (\<exists>e. r = Inl e) \<and> seat_view u' = seat_view u"
    using equal_seat_ids_block_sale [OF mem_event.event_world_axioms run x(1) all mem_seats.seat_world_axioms]
    by (elim exE conjE) (rule that)
  obtain r u' where c: "handleEventCreate mem_seat_env (Bare m) demo_seats = (r, u')" by fastforce
  then have "\<exists>e. r = Inl e" using m(2) [THEN spec, THEN spec, THEN spec, THEN mp, OF free] by simp
  moreover have "event_sent (event_view (hall ''A_1'' ''1_2'')) = []" by (simp add: event_view_def hall_def)
  ultimately show ?thesis using run m(1) c by (cases r) auto
qed

text \<open>
  C20.  The invariant of the event service.  Any sequence of its operations, whatever fails, keeps ids unique,
  the capacity of every section equal to the seats in its rows and the capacity of a venue equal to their sum,
  the ids of sections distinct, and every event in a venue of the table, with ticket types for its sections only.
\<close>

theorem event_service_invariant:
  assumes "event_world E vw" "(event_step E)\<^sup>*\<^sup>* w w'" "event_store_ok E (vw w)"
  shows "event_store_ok E (vw w')"
  by (rule event_world.event_run_kept [OF assms])

theorem event_service_invariant_witness:
  "\<exists>w'. (event_step mem_event_env)\<^sup>*\<^sup>* (hall ''B'' ''2'') w' \<and> event_store_ok (mem_event_env :: event_mem event_env) (event_view w')"
proof -
  obtain r w' where "events_create mem_event_env concert (hall ''B'' ''2'') = (r, w')" by fastforce
  then have "(event_step mem_event_env)\<^sup>*\<^sup>* (hall ''B'' ''2'') w'" by (intro r_into_rtranclp event_step.intros)
  then show ?thesis
    using event_service_invariant [OF mem_event.event_world_axioms _ hall_ok] by blast
qed

end
