(* ===== verification/Auth_Guard.thy ===== *)
theory Auth_Guard
  imports Storage JS_Text Auth_Entities
begin

text \<open>
  The guards that every service shares (libs/auth-guard): \<^verbatim>\<open>JwtAuthGuard\<close>, \<^verbatim>\<open>RolesGuard\<close>, the decorators
  \<^verbatim>\<open>Public\<close>, \<^verbatim>\<open>Roles\<close> and \<^verbatim>\<open>CurrentUser\<close>.  Their code reads and mutates the request, so it acts on a world and
  an exchange: a request and the response to it.  The verification of a token is library code (\<open>verifyToken\<close>).
\<close>

section \<open>Requests and responses\<close>

text \<open>Header names are in lower case, as Node gives them; \<open>rq_user\<close> is the property that the guard sets.\<close>

record http_request =
  rq_method :: string
  rq_url :: string
  rq_originalUrl :: string
  rq_ip :: "string option"
  rq_headers :: "(string \<times> string) list"
  rq_body :: json
  rq_user :: "json option"

record http_response =
  rs_status :: nat
  rs_headers :: "(string \<times> string) list"
  rs_body :: "json option"

record exchange =
  ex_request :: http_request
  ex_response :: http_response

abbreviation the_request :: "('w \<times> exchange, http_request) act" where
  "the_request \<equiv> await get_object (\<lambda>x. return (ex_request x))"

section \<open>Decorators\<close>

text \<open>\<^verbatim>\<open>reflector.getAllAndOverride(KEY, [handler, class])\<close>: what the handler declares, or else its class.\<close>

definition getAllAndOverride :: "'a option \<Rightarrow> 'a option \<Rightarrow> 'a option" where
  "getAllAndOverride handler class = (case handler of Some x \<Rightarrow> Some x | None \<Rightarrow> class)"

text \<open>What \<^verbatim>\<open>@Public()\<close> and \<^verbatim>\<open>@Roles(...)\<close> attach.\<close>

definition Public :: "bool option" where
  "Public = Some True"

definition Roles :: "string list \<Rightarrow> string list option" where
  "Roles roles = Some roles"

definition currentUser :: "string option \<Rightarrow> http_request \<Rightarrow> json option" where
  "currentUser data request = (case data of
      None \<Rightarrow> rq_user request
    | Some k \<Rightarrow> if k = [] then rq_user request
        else (case rq_user request of None \<Rightarrow> None | Some user \<Rightarrow> json_get user k))"

section \<open>Guards\<close>

text \<open>\<^verbatim>\<open>String.prototype.split\<close> with a separator of one character.\<close>

fun split_at :: "char \<Rightarrow> string \<Rightarrow> string list" where
  "split_at c [] = [[]]"
| "split_at c (x # xs) = (if x = c then [] # split_at c xs
     else (case split_at c xs of [] \<Rightarrow> [[x]] | y # ys \<Rightarrow> (x # y) # ys))"

definition AUTHORIZATION_HEADER :: string where
  "AUTHORIZATION_HEADER = ''authorization''"

definition AUTHORIZATION_TYPE_BEARER :: string where
  "AUTHORIZATION_TYPE_BEARER = ''bearer''"

text \<open>
  The handler of a token that was not accepted assigns to \<^verbatim>\<open>error.name\<close> in its conditions, where it means to
  compare; an assignment has the value of its right-hand side, and a text that is not empty counts as true.
\<close>

definition token_refused :: "exn \<Rightarrow> ('s, 'a) act" where
  "token_refused error =
     (let name = ''TokenExpiredError'' in
      if name \<noteq> [] then throw (Unauthorized ''Token has expired'')
      else let name = ''JsonWebTokenError'' in
      if name \<noteq> [] then throw (Unauthorized ''Invalid token'')
      else throw (Unauthorized ''Token verification failed''))"

definition jwt_canActivate ::
  "(string \<Rightarrow> ('w, json) act) \<Rightarrow> bool option \<Rightarrow> bool option \<Rightarrow> ('w \<times> exchange, bool) act" where
  "jwt_canActivate verifyToken handlerPublic classPublic =
     (if getAllAndOverride handlerPublic classPublic = Some True then return True
      else
      await the_request (\<lambda>request.
      case map_of (rq_headers request) AUTHORIZATION_HEADER of
        None \<Rightarrow> throw (Unauthorized ''Authorization header is not provided'')
      | Some authorizationHeader \<Rightarrow>
          if authorizationHeader = [] then throw (Unauthorized ''Authorization header is not provided'')
          else
          let fields = split_at (CHR '' '') authorizationHeader in
          if length fields < 2 then throw (Unauthorized ''Invalid authorization header format'')
          else if toLowerCase (fields ! 0) \<noteq> AUTHORIZATION_TYPE_BEARER then throw (Unauthorized ''Invalid authorization type'')
          else
          let accessToken = fields ! 1 in
          try_catch
            (await (on_world (verifyToken accessToken)) (\<lambda>payload.
             await (assign (\<lambda>x. x\<lparr>ex_request := (ex_request x)\<lparr>rq_user := Some payload\<rparr>\<rparr>)) (\<lambda>_.
             return True)))
            token_refused))"

definition roles_canActivate :: "string list option \<Rightarrow> string list option \<Rightarrow> ('w \<times> exchange, bool) act" where
  "roles_canActivate handlerRoles classRoles = (case getAllAndOverride handlerRoles classRoles of
      None \<Rightarrow> return True
    | Some requiredRoles \<Rightarrow>
        await the_request (\<lambda>request.
        case rq_user request of
          None \<Rightarrow> throw (JsError ''Cannot read properties of undefined'')
        | Some user \<Rightarrow> await (js_prop user ''role'') (\<lambda>role.
            return (case json_str role of None \<Rightarrow> False | Some r \<Rightarrow> r \<in> set requiredRoles))))"

text \<open>A handler behind a guard: Nest answers 403 when the guard says no.\<close>

definition guarded :: "('s, bool) act \<Rightarrow> ('s, 'a) act \<Rightarrow> ('s, 'a) act" where
  "guarded guard handler = await guard (\<lambda>ok. if ok then handler else throw (HttpException 403 ''Forbidden resource''))"

section \<open>The claims of an access token\<close>

text \<open>
  What verification gives back for a token that the auth service has signed: its payload, with the times that
  the library adds.
\<close>

definition token_claims :: "JwtPayload \<Rightarrow> int \<Rightarrow> int \<Rightarrow> json" where
  "token_claims p iat until = JObj
     [(''sub'', JStr (jp_sub p)), (''email'', JStr (jp_email p)), (''role'', JStr (jp_role p)),
      (''emailVerified'', JBool (jp_emailVerified p)), (''iat'', JNum (Fin (of_int iat))), (''exp'', JNum (Fin (of_int until)))]"

lemma token_claims_get:
  "json_get (token_claims p iat until) ''id'' = None" "json_get (token_claims p iat until) ''sub'' = Some (JStr (jp_sub p))"
  "json_get (token_claims p iat until) ''role'' = Some (JStr (jp_role p))"
  "json_get (token_claims p iat until) ''email'' = Some (JStr (jp_email p))"
  "json_get (token_claims p iat until) ''emailVerified'' = Some (JBool (jp_emailVerified p))"
  by (simp_all add: token_claims_def)

section \<open>What the guards decide\<close>

text \<open>\<open>bearer request\<close>: the token that the request carries.\<close>

definition bearer :: "http_request \<Rightarrow> string option" where
  "bearer request = (case map_of (rq_headers request) AUTHORIZATION_HEADER of
      None \<Rightarrow> None
    | Some h \<Rightarrow> (case split_at (CHR '' '') h of
        kind # token # _ \<Rightarrow> if toLowerCase kind = AUTHORIZATION_TYPE_BEARER then Some token else None
      | _ \<Rightarrow> None))"

lemma split_at_nonempty: "split_at c s \<noteq> []"
  by (cases s) (auto split: list.splits)

lemma on_world_run: "on_world m (w, b) = (case m w of (r, w') \<Rightarrow> (r, (w', b)))"
  by (simp add: on_world_def)

lemma jwt_guard_run:
  assumes "getAllAndOverride h c \<noteq> Some True" "jwt_canActivate verify h c (w, x) = (r, (w', x'))"
  shows "case bearer (ex_request x) of
      None \<Rightarrow> (\<exists>m. r = Inl (Unauthorized m)) \<and> w' = w \<and> x' = x
    | Some token \<Rightarrow> w' = snd (verify token w) \<and> (case fst (verify token w) of
        Inl e \<Rightarrow> r = Inl (Unauthorized ''Token has expired'') \<and> x' = x
      | Inr payload \<Rightarrow> r = Inr True \<and> x' = x\<lparr>ex_request := (ex_request x)\<lparr>rq_user := Some payload\<rparr>\<rparr>)"
proof (cases "map_of (rq_headers (ex_request x)) AUTHORIZATION_HEADER")
  case None
  then show ?thesis
    using assms by (auto simp: jwt_canActivate_def bearer_def await_def get_object_def return_def throw_def)
next
  case (Some hd)
  show ?thesis
  proof (cases "split_at (CHR '' '') hd" rule: remdups_adj.cases)
    case 1
    then show ?thesis using split_at_nonempty by blast
  next
    case (2 kind)
    then show ?thesis
      using assms Some by (auto simp: jwt_canActivate_def bearer_def await_def get_object_def return_def throw_def split: if_splits)
  next
    case (3 kind token rest)
    then have "hd \<noteq> []" by auto
    then show ?thesis
      using assms Some 3
      by (auto simp: jwt_canActivate_def bearer_def await_def get_object_def return_def throw_def try_catch_def on_world_run
          assign_def token_refused_def Let_def split: if_splits prod.splits sum.splits)
  qed
qed

lemma public_guard_run: "getAllAndOverride h c = Some True \<Longrightarrow> jwt_canActivate verify h c x = (Inr True, x)"
  by (simp add: jwt_canActivate_def return_def)

end
