(* ===== verification/JS_Json.thy ===== *)
theory JS_Json
  imports Storage JS_Text
begin

text \<open>The text of a JSON value: \<^verbatim>\<open>String(x)\<close>, with \<^verbatim>\<open>null\<close> as it is written inside an array.\<close>

fun js_text :: "json \<Rightarrow> string" where
  "js_text JNull = []"
| "js_text (JBool b) = (if b then ''true'' else ''false'')"
| "js_text (JNum n) = number_text n"
| "js_text (JStr s) = s"
| "js_text (JArr js) = join '','' (map js_text js)"
| "js_text (JObj fs) = ''[object Object]''"

text \<open>The properties that are not \<^verbatim>\<open>undefined\<close>, which is how an object is written as JSON.\<close>

definition defined :: "(string \<times> json option) list \<Rightarrow> json" where
  "defined fs = JObj (concat (map (\<lambda>(k, x). case x of None \<Rightarrow> [] | Some j \<Rightarrow> [(k, j)]) fs))"

lemma map_of_defined_None:
  "k \<notin> fst ` set fs \<Longrightarrow> map_of (concat (map (\<lambda>(k, x). case x of None \<Rightarrow> [] | Some j \<Rightarrow> [(k, j)]) fs)) k = None"
  by (induction fs) (auto simp: map_add_def split: option.splits)

lemma defined_get:
  "distinct (map fst fs) \<Longrightarrow> json_get (defined fs) k = (case map_of fs k of None \<Rightarrow> None | Some x \<Rightarrow> x)"
  unfolding defined_def
proof (induction fs)
  case (Cons f fs)
  obtain k' x where f: "f = (k', x)" by (cases f)
  show ?case
  proof (cases "k = k'")
    case True
    then show ?thesis using Cons.prems map_of_defined_None [of k fs] by (auto simp: f map_add_def split: option.splits)
  next
    case False
    then show ?thesis using Cons by (auto simp: f map_add_def split: option.splits)
  qed
qed simp

end
