(* ===== verification/Gateway.thy ===== *)
theory Gateway
  imports Auth_Guard JS_Json "HOL-Library.AList"
begin

text \<open>
  The API gateway (apps/api-gateway): the sliding-window rate limit (rate-limit/rate-limit.interceptor.ts), the
  forwarding of requests to the services (proxy/proxy.service.ts), and the proxy controllers with the guards
  and limits that their decorators attach, in the order in which Nest runs them: guards, interceptors, handler.

  Redis sorted sets, the HTTP client, the verification of tokens and \<^verbatim>\<open>Math.random\<close> are parameters.
\<close>

section \<open>The environment\<close>

text \<open>A request to a service; the value of a header may be \<^verbatim>\<open>undefined\<close>.\<close>

record proxy_request =
  pr_method :: string
  pr_url :: string
  pr_headers :: "(string \<times> json option) list"
  pr_data :: json

record proxy_response =
  ps_status :: nat
  ps_headers :: "(string \<times> string) list"
  ps_data :: json

record 'w gateway_env =
  zremrangebyscore :: "string \<Rightarrow> int \<Rightarrow> int \<Rightarrow> ('w, unit) act"
  zcard :: "string \<Rightarrow> ('w, nat) act"
  zrange :: "string \<Rightarrow> int \<Rightarrow> int \<Rightarrow> ('w, string list) act"
  zadd :: "string \<Rightarrow> int \<Rightarrow> string \<Rightarrow> ('w, unit) act"
  pexpire :: "string \<Rightarrow> int \<Rightarrow> ('w, unit) act"
  gatewayNow :: "('w, int) act"
  Math_random :: "('w, string) act"
  http_request :: "proxy_request \<Rightarrow> ('w, proxy_response) act"
  verifyToken :: "string \<Rightarrow> ('w, json) act"
  configUrl :: "string \<Rightarrow> string"

text \<open>
  What is observed: the members of every sorted set with their scores, the time at which a key expires, the
  requests that were sent to the services with their times, and the random texts that were drawn.
\<close>

record gate_store =
  zsets :: "string \<Rightarrow> (string \<times> int) list"
  zttl :: "string \<Rightarrow> int option"
  gate_clock :: int
  forwarded :: "(int \<times> proxy_request) list"
  drawn :: "string list"
  gate_calm :: bool

text \<open>An expired key is empty, and an empty key is no key and has no time to live.\<close>

definition zlive :: "'z gate_store_scheme \<Rightarrow> string \<Rightarrow> (string \<times> int) list" where
  "zlive v k = (case zttl v k of None \<Rightarrow> zsets v k | Some t \<Rightarrow> if t \<le> gate_clock v then [] else zsets v k)"

definition zput :: "string \<Rightarrow> (string \<times> int) list \<Rightarrow> 'z gate_store_scheme \<Rightarrow> 'z gate_store_scheme" where
  "zput k xs v = v\<lparr>zsets := (zsets v)(k := xs), zttl := (if zlive v k = [] then (zttl v)(k := None) else zttl v)\<rparr>"

definition zlease :: "string \<Rightarrow> int \<Rightarrow> 'z gate_store_scheme \<Rightarrow> 'z gate_store_scheme" where
  "zlease k ms v = (if zlive v k = [] then v else v\<lparr>zttl := (zttl v)(k := Some (gate_clock v + ms))\<rparr>)"

locale gate_world =
  clock_api "gatewayNow E" vw gate_clock
  for E :: "'w gateway_env" and vw :: "'w \<Rightarrow> 'z gate_store_scheme" +
  assumes zrem_law: "obeys vw (zremrangebyscore E k lo hi) (fallible gate_calm (\<lambda>v u v'.
      v' = zput k (filter (\<lambda>(m, s). \<not> (lo \<le> s \<and> s \<le> hi)) (zlive v k)) v))"
    and zcard_law: "obeys vw (zcard E k) (fallible gate_calm (\<lambda>v n v'. v' = v \<and> n = length (zlive v k)))"
    and zrange_law: "obeys vw (zrange E k 0 0) (fallible gate_calm (\<lambda>v xs v'. v' = v \<and>
      (if zlive v k = [] then xs = [] else \<exists>m s. xs = [m] \<and> (m, s) \<in> set (zlive v k) \<and> (\<forall>(m', s')\<in>set (zlive v k). s \<le> s'))))"
    and zadd_law: "obeys vw (zadd E k s m) (fallible gate_calm (\<lambda>v u v'. v' = zput k (AList.update m s (zlive v k)) v))"
    and pexpire_law: "obeys vw (pexpire E k ms) (fallible gate_calm (\<lambda>v u v'. v' = zlease k ms v))"
    and random_law: "obeys vw (Math_random E) (\<lambda>v r v'. \<exists>s. r = Inr s \<and> v' = drawn_update (\<lambda>l. l @ [s]) v)"
    and http_law: "obeys vw (http_request E q) (\<lambda>v r v'. v' = forwarded_update (\<lambda>l. l @ [(gate_clock v, q)]) v \<and>
      (case r of Inl e \<Rightarrow> \<exists>m. e = JsError m | Inr p \<Rightarrow> True))"
    and verify_law: "obeys vw (verifyToken E token) (\<lambda>v r v'. v' = v)"

section \<open>The rate limit\<close>

record RateLimitConfig =
  windowMs :: int
  maxRequests :: int

text \<open>\<^verbatim>\<open>RateLimit(config)\<close> attaches the configuration to a handler or a class.\<close>

definition RateLimit :: "int \<Rightarrow> int \<Rightarrow> RateLimitConfig option" where
  "RateLimit ms n = Some \<lparr>windowMs = ms, maxRequests = n\<rparr>"

text \<open>\<^verbatim>\<open>a || b\<close> for texts that may be missing.\<close>

definition or_else :: "string option \<Rightarrow> string \<Rightarrow> string" where
  "or_else a b = (case a of None \<Rightarrow> b | Some s \<Rightarrow> if s = [] then b else s)"

definition client_ip :: "http_request \<Rightarrow> string" where
  "client_ip request = or_else (rq_ip request) (or_else (map_of (rq_headers request) ''x-forwarded-for'') ''unknown'')"

definition rate_key :: "http_request \<Rightarrow> string" where
  "rate_key request = ''rate-limit:'' @ client_ip request @ '':'' @ rq_method request @ '':'' @ rq_url request"

text \<open>\<^verbatim>\<open>response.setHeader(name, value)\<close>; a number is written in decimals, \<open>None\<close> is \<^verbatim>\<open>NaN\<close>.\<close>

definition setHeader :: "string \<Rightarrow> string \<Rightarrow> ('w \<times> exchange, unit) act" where
  "setHeader name v = assign (\<lambda>x. x\<lparr>ex_response := (ex_response x)\<lparr>rs_headers := AList.update name v (rs_headers (ex_response x))\<rparr>\<rparr>)"

definition int_or_nan :: "int option \<Rightarrow> string" where
  "int_or_nan x = (case x of None \<Rightarrow> ''NaN'' | Some n \<Rightarrow> toString 10 n)"

text \<open>\<^verbatim>\<open>parseInt\<close>: the digits at the start, after a sign.\<close>

definition parseInt :: "string \<Rightarrow> int option" where
  "parseInt s =
     (let neg = (case s of [] \<Rightarrow> False | c # _ \<Rightarrow> c = CHR ''-'');
          ds = takeWhile (\<lambda>c. c \<in> set ''0123456789'') (if neg then tl s else s)
      in if ds = [] then None else Some (if neg then - digits_val ds else digits_val ds))"

text \<open>\<^verbatim>\<open>Math.ceil(n / d)\<close>.\<close>

definition ceil_div :: "int \<Rightarrow> int \<Rightarrow> int" where
  "ceil_div n d = - ((- n) div d)"

fun is_HttpException :: "exn \<Rightarrow> bool" where
  "is_HttpException (JsError m) = False"
| "is_HttpException (StripeError t c m) = False"
| "is_HttpException e = True"

text \<open>The \<^verbatim>\<open>try\<close> block, up to \<^verbatim>\<open>next.handle()\<close>.\<close>

definition check_rate :: "'w gateway_env \<Rightarrow> RateLimitConfig \<Rightarrow> string \<Rightarrow> ('w \<times> exchange, unit) act" where
  "check_rate E config key =
     await (on_world (gatewayNow E)) (\<lambda>now.
     let windowStart = now - windowMs config in
     await (on_world (zremrangebyscore E key 0 windowStart)) (\<lambda>_.
     await (on_world (zcard E key)) (\<lambda>count.
     await (setHeader ''X-RateLimit-Limit'' (toString 10 (maxRequests config))) (\<lambda>_.
     await (setHeader ''X-RateLimit-Remaining'' (toString 10 (max 0 (maxRequests config - int count - 1)))) (\<lambda>_.
     if int count \<ge> maxRequests config then
       await (on_world (zrange E key 0 0)) (\<lambda>oldestEntry.
       let resetTime = (if length oldestEntry > 1
             then map_option (\<lambda>n. n + windowMs config) (parseInt (oldestEntry ! 1))
             else Some (now + windowMs config)) in
       await (setHeader ''X-RateLimit-Reset'' (int_or_nan resetTime)) (\<lambda>_.
       let retryAfter = map_option (\<lambda>r. ceil_div (r - now) 1000) resetTime in
       throw (TooManyRequests ''Too many requests, please try again later'' retryAfter)))
     else
       await (on_world (Math_random E)) (\<lambda>random.
       await (on_world (zadd E key now (toString 10 now @ '':'' @ random))) (\<lambda>_.
       on_world (pexpire E key (windowMs config)))))))))"

text \<open>
  \<open>next\<close> is \<^verbatim>\<open>next.handle()\<close>: the handler runs after the interceptor has returned, outside its \<^verbatim>\<open>try\<close>.  When Redis
  fails the request goes through.
\<close>

definition rate_intercept ::
  "'w gateway_env \<Rightarrow> RateLimitConfig option \<Rightarrow> RateLimitConfig option \<Rightarrow> ('w \<times> exchange, unit) act \<Rightarrow> ('w \<times> exchange, unit) act" where
  "rate_intercept E handlerConfig classConfig next = (case getAllAndOverride handlerConfig classConfig of
      None \<Rightarrow> next
    | Some config \<Rightarrow>
        await the_request (\<lambda>request.
        await (try_catch (check_rate E config (rate_key request))
          (\<lambda>error. if is_HttpException error then throw error else return ())) (\<lambda>_.
        next)))"

section \<open>Forwarding\<close>

definition skipHeaders :: "string list" where
  "skipHeaders = [''host'', ''connection'', ''content-length'']"

text \<open>\<^verbatim>\<open>x.toString()\<close>.\<close>

definition js_toString :: "json option \<Rightarrow> ('w, string) act" where
  "js_toString x = (case x of
      None \<Rightarrow> throw (JsError ''Cannot read properties of undefined'')
    | Some j \<Rightarrow> if j = JNull then throw (JsError ''Cannot read properties of null'') else return (js_text j))"

definition copied_headers :: "(string \<times> string) list \<Rightarrow> (string \<times> json option) list" where
  "copied_headers hs = foldl (\<lambda>headers (k, v). if k \<notin> set skipHeaders then AList.update k (Some (JStr v)) headers else headers) [] hs"

definition user_headers :: "json \<Rightarrow> string \<Rightarrow> (string \<times> json option) list \<Rightarrow> (string \<times> json option) list" where
  "user_headers user verified headers =
     AList.update ''x-user-email-verified'' (Some (JStr verified))
       (AList.update ''x-user-role'' (json_get user ''role'')
         (AList.update ''x-user-email'' (json_get user ''email'')
           (AList.update ''x-user-id'' (json_get user ''id'') headers)))"

definition identity_headers :: "json option \<Rightarrow> (string \<times> json option) list \<Rightarrow> ('s, (string \<times> json option) list) act" where
  "identity_headers reqUser headers = (case reqUser of
      None \<Rightarrow> return headers
    | Some user \<Rightarrow> if \<not> truthy user then return headers
        else await (js_toString (json_get user ''emailVerified'')) (\<lambda>verified. return (user_headers user verified headers)))"

definition response_headers :: "(string \<times> string) list \<Rightarrow> (string \<times> string) list \<Rightarrow> (string \<times> string) list" where
  "response_headers hs own = foldl (\<lambda>headers (k, v). if v \<noteq> [] \<and> k \<noteq> ''transfer-encoding'' then AList.update k v headers else headers) own hs"

definition send_response :: "nat \<Rightarrow> json \<Rightarrow> (string \<times> string) list \<Rightarrow> ('w \<times> exchange, unit) act" where
  "send_response status data hs = assign (\<lambda>x. x\<lparr>ex_response := (ex_response x)\<lparr>rs_status := status,
     rs_headers := response_headers hs (rs_headers (ex_response x)), rs_body := Some data\<rparr>\<rparr>)"

definition bad_gateway :: "string \<Rightarrow> json" where
  "bad_gateway target = JObj [(''statusCode'', JNum (Fin 502)), (''message'', JStr (''Service '' @ target @ '' is not available''))]"

definition forward :: "'w gateway_env \<Rightarrow> string \<Rightarrow> ('w \<times> exchange, unit) act" where
  "forward E target =
     await the_request (\<lambda>req.
     let url = target @ rq_originalUrl req in
     await (identity_headers (rq_user req) (copied_headers (rq_headers req))) (\<lambda>headers.
     try_catch
       (await (on_world (http_request E \<lparr>pr_method = rq_method req, pr_url = url, pr_headers = headers, pr_data = rq_body req\<rparr>)) (\<lambda>response.
        send_response (ps_status response) (ps_data response) (ps_headers response)))
       (\<lambda>error. send_response 502 (bad_gateway target) [])))"

section \<open>The proxy controllers\<close>

text \<open>A constructor throws when the address of its service is not configured.\<close>

definition service_url :: "'w gateway_env \<Rightarrow> string \<Rightarrow> exn + string" where
  "service_url E key = (if configUrl E key = [] then Inl (InternalServerError (key @ '' is not configured'')) else Inr (configUrl E key))"

definition construct :: "exn + string \<Rightarrow> (string \<Rightarrow> 'c) \<Rightarrow> exn + 'c" where
  "construct u f = (case u of Inl e \<Rightarrow> Inl e | Inr url \<Rightarrow> Inr (f url))"

text \<open>The guard of the application is \<^verbatim>\<open>JwtAuthGuard\<close>, for every handler.\<close>

definition gate :: "'w gateway_env \<Rightarrow> bool option \<Rightarrow> bool option \<Rightarrow> ('w \<times> exchange, unit) act \<Rightarrow> ('w \<times> exchange, unit) act" where
  "gate E handlerPublic classPublic handler = guarded (jwt_canActivate (verifyToken E) handlerPublic classPublic) handler"

definition authProxyController :: "'w gateway_env \<Rightarrow> exn + ('w \<times> exchange, unit) act" where
  "authProxyController E = construct (service_url E ''AUTH_SERVICE_URL'') (\<lambda>authServiceUrl.
     gate E None Public (rate_intercept E None (RateLimit (15 * 60 * 1000) 20) (forward E authServiceUrl)))"

text \<open>The handlers of a controller with routes of its own.\<close>

record 'w catalogue_proxy =
  cp_findAll :: "('w \<times> exchange, unit) act"
  cp_findOne :: "('w \<times> exchange, unit) act"
  cp_create :: "('w \<times> exchange, unit) act"

definition eventProxyController :: "'w gateway_env \<Rightarrow> exn + 'w catalogue_proxy" where
  "eventProxyController E = construct (service_url E ''EVENT_SERVICE_URL'') (\<lambda>eventServiceUrl.
     \<lparr>cp_findAll = gate E Public None (forward E eventServiceUrl),
      cp_findOne = gate E Public None (forward E eventServiceUrl),
      cp_create = gate E None None (guarded (roles_canActivate (Roles [''admin'', ''organizer'']) None) (forward E eventServiceUrl))\<rparr>)"

definition venueProxyController :: "'w gateway_env \<Rightarrow> exn + 'w catalogue_proxy" where
  "venueProxyController E = construct (service_url E ''VENUES_SERVICE_URL'') (\<lambda>venuesServiceUrl.
     \<lparr>cp_findAll = gate E Public None (forward E venuesServiceUrl),
      cp_findOne = gate E Public None (forward E venuesServiceUrl),
      cp_create = gate E None None (guarded (roles_canActivate (Roles [''admin'', ''organizer'']) None) (forward E venuesServiceUrl))\<rparr>)"

definition inventoryProxyController :: "'w gateway_env \<Rightarrow> exn + ('w \<times> exchange, unit) act" where
  "inventoryProxyController E = construct (service_url E ''INVENTORY_SERVICE_URL'') (\<lambda>inventoryServiceUrl.
     gate E None Public (forward E inventoryServiceUrl))"

definition holdsProxyController :: "'w gateway_env \<Rightarrow> exn + ('w \<times> exchange, unit) act" where
  "holdsProxyController E = construct (service_url E ''HOLDS_SERVICE_URL'') (\<lambda>holdsServiceUrl.
     gate E None Public (rate_intercept E None (RateLimit (60 * 1000) 10) (forward E holdsServiceUrl)))"

definition bookingProxyController :: "'w gateway_env \<Rightarrow> exn + ('w \<times> exchange, unit) act" where
  "bookingProxyController E = construct (service_url E ''BOOKING_SERVICE_URL'') (\<lambda>bookingServiceUrl.
     gate E None None (rate_intercept E None (RateLimit (60 * 1000) 5) (forward E bookingServiceUrl)))"

definition ticketProxyController :: "'w gateway_env \<Rightarrow> exn + ('w \<times> exchange, unit) act" where
  "ticketProxyController E = construct (service_url E ''BOOKING_SERVICE_URL'') (\<lambda>bookingServiceUrl.
     gate E None None (forward E bookingServiceUrl))"

definition paymentProxyController :: "'w gateway_env \<Rightarrow> exn + ('w \<times> exchange, unit) act" where
  "paymentProxyController E = construct (service_url E ''PAYMENT_SERVICE_URL'') (\<lambda>paymentServiceUrl.
     gate E None None (rate_intercept E None (RateLimit (60 * 1000) 10) (forward E paymentServiceUrl)))"

end
