(* ===== verification/Gateway_Limits.thy ===== *)
theory Gateway_Limits
  imports Gateway "HOL-Library.Multiset"
begin

text \<open>
  The contracts of the rate limit and of forwarding, and the invariant of the sorted sets: the requests that went
  through in the last window are among the members of their set, and never more than the maximum.
\<close>

section \<open>Sorted sets\<close>

lemma zlive_zput: "zlive (zput k xs v) k' = (if k' = k then xs else zlive v k')"
  by (auto simp: zlive_def zput_def split: option.splits)

lemma zput_same [simp]:
  "gate_clock (zput k xs v) = gate_clock v" "forwarded (zput k xs v) = forwarded v" "drawn (zput k xs v) = drawn v"
  "gate_calm (zput k xs v) = gate_calm v"
  by (simp_all add: zput_def)

lemma zlease_same [simp]:
  "gate_clock (zlease k ms v) = gate_clock v" "forwarded (zlease k ms v) = forwarded v" "drawn (zlease k ms v) = drawn v"
  "gate_calm (zlease k ms v) = gate_calm v"
  by (simp_all add: zlease_def)

lemma zlive_zlease: "0 < ms \<Longrightarrow> zlive (zlease k ms v) k' = zlive v k'"
  by (auto simp: zlive_def zlease_def split: option.splits)

lemma zlive_same [simp]: "zlive (drawn_update f v) k = zlive v k" "zlive (forwarded_update g v) k = zlive v k"
  by (simp_all add: zlive_def split: option.split)

lemma alist_update_new: "k \<notin> fst ` set xs \<Longrightarrow> AList.update k x xs = xs @ [(k, x)]"
  by (induction xs) auto

text \<open>The decimals of a number have no colon, so a member tells its time from its random part.\<close>

lemma radix_upto_digits:
  assumes "0 \<le> n" "n < 2 ^ k" "c \<in> set (radix_upto k 10 n)"
  shows "\<exists>d. 0 \<le> d \<and> d < 10 \<and> c = digit d"
  using assms
proof (induction k arbitrary: n)
  case (Suc k)
  show ?case
  proof (cases "n < 10")
    case False
    have "n div 10 < 2 ^ k" "0 \<le> n div 10" using Suc.prems by simp_all
    then show ?thesis
      using False Suc.IH [of "n div 10"] Suc.prems(3)
      by (cases "c = digit (n mod 10)") (auto intro: exI [of _ "n mod 10"])
  qed (use Suc.prems in auto)
qed auto

lemma digit_no_colon: "0 \<le> d \<Longrightarrow> d < 10 \<Longrightarrow> digit d \<noteq> CHR '':''"
proof
  assume d: "0 \<le> d" "d < 10" and eq: "digit d = CHR '':''"
  have "(of_char (digit d) :: nat) = 58" unfolding eq by simp
  with d show False by (simp add: digit_def)
qed

lemma toString_no_colon: "CHR '':'' \<notin> set (toString 10 n)"
proof -
  have "CHR '':'' \<notin> set (radix 10 n)" if "0 \<le> n" for n
    using radix_upto_digits [OF that int_bits_bound [OF that]] digit_no_colon unfolding radix_def by metis
  then show ?thesis by (simp add: toString_def)
qed

lemma member_inj: "toString 10 s @ '':'' @ r = toString 10 s' @ '':'' @ r' \<Longrightarrow> r = r'"
  using append_separator_inj [OF toString_no_colon toString_no_colon, of s r s' r'] by simp

section \<open>Contracts\<close>

definition recent :: "RateLimitConfig \<Rightarrow> string \<Rightarrow> 'z gate_store_scheme \<Rightarrow> (string \<times> int) list" where
  "recent C k v = filter (\<lambda>(m, s). \<not> (0 \<le> s \<and> s \<le> gate_clock v - windowMs C)) (zlive v k)"

definition too_many :: "RateLimitConfig \<Rightarrow> exn" where
  "too_many C = TooManyRequests ''Too many requests, please try again later'' (Some (ceil_div (windowMs C) 1000))"

text \<open>The state after a request has been let through.\<close>

definition admitted :: "RateLimitConfig \<Rightarrow> string \<Rightarrow> string \<Rightarrow> 'z gate_store_scheme \<Rightarrow> 'z gate_store_scheme" where
  "admitted C k rnd v = zlease k (windowMs C)
     (zput k (AList.update (toString 10 (gate_clock v) @ '':'' @ rnd) (gate_clock v) (recent C k v))
       (drawn_update (\<lambda>l. l @ [rnd]) (zput k (recent C k v) v)))"

definition refused :: "RateLimitConfig \<Rightarrow> string \<Rightarrow> 'z gate_store_scheme \<Rightarrow> 'z gate_store_scheme" where
  "refused C k v = zput k (recent C k v) v"

lemma admitted_same [simp]:
  "gate_clock (admitted C k rnd v) = gate_clock v" "forwarded (admitted C k rnd v) = forwarded v"
  "gate_calm (admitted C k rnd v) = gate_calm v" "drawn (admitted C k rnd v) = drawn v @ [rnd]"
  by (simp_all add: admitted_def)

lemma refused_same [simp]:
  "gate_clock (refused C k v) = gate_clock v" "forwarded (refused C k v) = forwarded v"
  "gate_calm (refused C k v) = gate_calm v" "drawn (refused C k v) = drawn v"
  by (simp_all add: refused_def)

text \<open>What \<^verbatim>\<open>forward\<close> sends for a request.\<close>

definition sends :: "string \<Rightarrow> http_request \<Rightarrow> proxy_request \<Rightarrow> bool" where
  "sends target request q \<longleftrightarrow> (\<exists>hs. fst (identity_headers (rq_user request) (copied_headers (rq_headers request)) ()) = Inr hs \<and>
     q = \<lparr>pr_method = rq_method request, pr_url = target @ rq_originalUrl request, pr_headers = hs, pr_data = rq_body request\<rparr>)"

lemma identity_headers_run: "identity_headers u hs s = (fst (identity_headers u hs ()), s)"
  by (auto simp: identity_headers_def return_def throw_def await_def js_toString_def split: option.splits)

lemma wp_setHeader [wp_simps]: "wp (setHeader n t) Q (w, x) =
    Q (Inr ()) (w, x\<lparr>ex_response := (ex_response x)\<lparr>rs_headers := AList.update n t (rs_headers (ex_response x))\<rparr>\<rparr>)"
  by (simp add: setHeader_def wp_simps)

context gate_world
begin

lemma check_rate_wp:
  assumes "gate_calm (vw w)"
    and "\<And>w' x'. vw w' = refused C k (vw w) \<Longrightarrow> ex_request x' = ex_request x \<Longrightarrow>
      maxRequests C \<le> int (length (recent C k (vw w))) \<Longrightarrow> Q (Inl (too_many C)) (w', x')"
    and "\<And>w' x' rnd. vw w' = admitted C k rnd (vw w) \<Longrightarrow> ex_request x' = ex_request x \<Longrightarrow>
      int (length (recent C k (vw w))) < maxRequests C \<Longrightarrow> Q (Inr ()) (w', x')"
  shows "wp (check_rate E C k) Q (w, x)"
  unfolding check_rate_def wp_simps Let_def
proof (rule wp_obeys [OF now_law], goal_cases)
  case (1 r w1)
  then have now: "r = Inr (gate_clock (vw w))" and w1: "vw w1 = vw w" by simp_all
  show ?case
    unfolding now sum.case wp_simps
  proof (rule wp_fallible [OF zrem_law], goal_cases)
    case (2 u w2)
    then have w2: "vw w2 = refused C k (vw w)" using w1 by (simp add: refused_def recent_def)
    show ?case
      unfolding sum.case wp_simps
    proof (rule wp_fallible [OF zcard_law], goal_cases)
      case (2 n w3)
      then have w3: "vw w3 = refused C k (vw w)" and n: "n = length (recent C k (vw w))"
        using w2 by (simp_all add: refused_def zlive_zput)
      show ?case
      proof (cases "maxRequests C \<le> int n")
        case True
        then show ?thesis
          unfolding sum.case wp_simps if_P [OF True]
          using w3 assms(1)
          by (auto simp: wp_simps Let_def refused_def too_many_def split: if_splits
              intro!: wp_fallible [OF zrange_law] assms(2) [unfolded too_many_def] simp: n)
      next
        case False
        have ok: "Q (Inr ()) (w', x')" if "ex_request x' = ex_request x" "vw w' = zlease k (windowMs C)
            (zput k (AList.update (toString 10 (gate_clock (vw w)) @ CHR '':'' # rnd) (gate_clock (vw w)) (recent C k (vw w)))
              (drawn_update (\<lambda>l. l @ [rnd]) (zput k (recent C k (vw w)) (vw w))))" for w' x' rnd
          using assms(3) [of w' rnd x'] that False n by (simp add: admitted_def)
        show ?thesis
          unfolding sum.case wp_simps if_not_P [OF False]
        proof (rule wp_obeys [OF random_law], goal_cases)
          case (1 r w4)
          then obtain rnd where r: "r = Inr rnd" and
            w4: "vw w4 = drawn_update (\<lambda>l. l @ [rnd]) (zput k (recent C k (vw w)) (vw w))" using w3 by (auto simp: refused_def)
          show ?case
            unfolding r sum.case wp_simps
            by (rule wp_fallible [OF zadd_law])
              (use w4 assms(1) in \<open>auto simp: wp_simps zlive_zput intro!: wp_fallible [OF pexpire_law] ok [where rnd = rnd]\<close>)
        qed
      qed
    qed (use assms(1) w2 in \<open>simp add: refused_def\<close>)
  qed (use assms(1) w1 in simp)
qed

text \<open>Whatever fails, the check sends nothing, and throws only the refusal or an error of Redis.\<close>

lemma check_rate_keeps:
  "wp (check_rate E C k) (\<lambda>r (w', x'). forwarded (vw w') = forwarded (vw w) \<and> gate_clock (vw w') = gate_clock (vw w) \<and>
     ex_request x' = ex_request x \<and> (\<exists>rs. drawn (vw w') = drawn (vw w) @ rs)) (w, x)"
  unfolding check_rate_def wp_simps Let_def
  by (auto simp: wp_simps intro!: wp_obeys [OF now_law] wp_fallible [OF zrem_law] wp_fallible [OF zcard_law]
      wp_fallible [OF zrange_law] wp_obeys [OF random_law] wp_fallible [OF zadd_law] wp_fallible [OF pexpire_law])

lemma forward_wp:
  "wp (forward E target) (\<lambda>r (w', x'). ex_request x' = ex_request x \<and>
     (vw w' = vw w \<and> (\<exists>e. r = Inl e) \<or>
      r = Inr () \<and> (\<exists>q. sends target (ex_request x) q \<and> vw w' = forwarded_update (\<lambda>l. l @ [(gate_clock (vw w), q)]) (vw w)))) (w, x)"
proof -
  have ids: "wp (identity_headers u hs) Q s = Q (fst (identity_headers u hs ())) s" for u hs Q and s :: "'w \<times> exchange"
    unfolding wp_def by (subst identity_headers_run) simp
  show ?thesis
    unfolding forward_def wp_simps Let_def ids
    by (auto simp: wp_simps ids sends_def send_response_def split: sum.splits intro!: wp_obeys [OF http_law])
qed

end

section \<open>The invariant of the sorted sets\<close>

definition window_ok :: "RateLimitConfig \<Rightarrow> (string \<times> int) list \<Rightarrow> 'z gate_store_scheme \<Rightarrow> bool" where
  "window_ok C passed v \<longleftrightarrow> gate_calm v \<and> 0 \<le> gate_clock v \<and> (\<forall>k.
     distinct (map fst (zlive v k)) \<and>
     (\<forall>(m, s)\<in>set (zlive v k). 0 \<le> s \<and> s \<le> gate_clock v \<and> (\<exists>r\<in>set (drawn v). m = toString 10 s @ '':'' @ r)) \<and>
     (zlive v k \<noteq> [] \<longrightarrow> (\<exists>t. zttl v k = Some t \<and> (\<forall>(m, s)\<in>set (zlive v k). s + windowMs C \<le> t))) \<and>
     mset (filter (\<lambda>t. gate_clock v - windowMs C < t) (map snd (filter (\<lambda>e. fst e = k) passed))) \<subseteq># mset (map snd (zlive v k)) \<and>
     int (length (filter (\<lambda>s. gate_clock v - windowMs C < s) (map snd (zlive v k)))) \<le> maxRequests C)"

lemma filter_subset: "mset (filter P xs) \<subseteq># M \<Longrightarrow> (\<And>x. Q x \<Longrightarrow> P x) \<Longrightarrow> mset (filter Q xs) \<subseteq># filter_mset Q M"
proof -
  assume a: "mset (filter P xs) \<subseteq># M" and q: "\<And>x. Q x \<Longrightarrow> P x"
  have "filter Q xs = filter Q (filter P xs)" using q by (induction xs) auto
  then show ?thesis using multiset_filter_mono [OF a, of Q] by (simp add: filter_filter conj_commute flip: mset_filter)
qed

lemma zttl_zput_other [simp]: "k' \<noteq> k \<Longrightarrow> zttl (zput k xs v) k' = zttl v k'"
  by (simp add: zput_def)

lemma zttl_zlease: "zttl (zlease k ms v) k' = (if k' = k \<and> zlive v k \<noteq> [] then Some (gate_clock v + ms) else zttl v k')"
  by (simp add: zlease_def)

lemma window_tick:
  assumes "window_ok C passed v" "gate_clock v \<le> t"
  shows "window_ok C passed (v\<lparr>gate_clock := t\<rparr>)"
proof -
  let ?v = "v\<lparr>gate_clock := t\<rparr>"
  have live: "zlive ?v k = [] \<or> zlive ?v k = zlive v k" for k
    using assms(2) by (auto simp: zlive_def split: option.splits)
  have sub': "mset (filter (\<lambda>s. t - windowMs C < s) (map snd (filter (\<lambda>e. fst e = k) passed))) \<subseteq># mset (map snd (zlive ?v k))" for k
  proof -
    have sub: "mset (filter (\<lambda>s. t - windowMs C < s) (map snd (filter (\<lambda>e. fst e = k) passed))) \<subseteq>#
        filter_mset (\<lambda>s. t - windowMs C < s) (mset (map snd (zlive v k)))"
      by (rule filter_subset [where P = "\<lambda>s. gate_clock v - windowMs C < s"]) (use assms in \<open>auto simp: window_ok_def\<close>)
    show ?thesis
    proof (cases "zlive ?v k = zlive v k")
      case True
      then show ?thesis using sub multiset_filter_subset subset_mset.order_trans by metis
    next
      case False
      then have e: "zlive ?v k = []" "zlive v k \<noteq> []" using live [of k] by simp_all
      then obtain d where d: "zttl v k = Some d" "\<forall>(m, s)\<in>set (zlive v k). s + windowMs C \<le> d"
        using assms(1) by (auto simp: window_ok_def)
      have "d \<le> t" using e d(1) assms(2) by (auto simp: zlive_def split: if_splits)
      then have "filter_mset (\<lambda>s. t - windowMs C < s) (mset (map snd (zlive v k))) = {#}"
        using d(2) by force
      from sub [unfolded this]
      have "filter (\<lambda>s. t - windowMs C < s) (map snd (filter (\<lambda>e. fst e = k) passed)) = []"
        by (simp only: subset_mset.le_zero_eq mset_zero_iff)
      then show ?thesis by (simp only: mset.simps subset_mset.zero_le)
    qed
  qed
  have count: "int (length (filter (\<lambda>s. t - windowMs C < s) (map snd (zlive v k)))) \<le> maxRequests C" for k
  proof -
    have "length (filter (\<lambda>s. t - windowMs C < s) xs) \<le> length (filter (\<lambda>s. gate_clock v - windowMs C < s) xs)" for xs
      using assms(2) by (induction xs) auto
    then show ?thesis using assms(1) unfolding window_ok_def by (meson le_trans of_nat_le_iff order_trans)
  qed
  show ?thesis
    unfolding window_ok_def
  proof (intro conjI allI)
    show "gate_calm ?v" "0 \<le> gate_clock ?v" using assms by (simp_all add: window_ok_def)
  next
    fix k
    note old = assms(1) [unfolded window_ok_def, THEN conjunct2, THEN conjunct2, rule_format, of k]
    show "distinct (map fst (zlive ?v k))" using old live [of k] by auto
    show "\<forall>(m, s)\<in>set (zlive ?v k). 0 \<le> s \<and> s \<le> gate_clock ?v \<and> (\<exists>r\<in>set (drawn ?v). m = toString 10 s @ '':'' @ r)"
      using old live [of k] assms(2) by fastforce
    show "zlive ?v k \<noteq> [] \<longrightarrow> (\<exists>d. zttl ?v k = Some d \<and> (\<forall>(m, s)\<in>set (zlive ?v k). s + windowMs C \<le> d))"
      using old live [of k] by auto
    show "mset (filter (\<lambda>s. gate_clock ?v - windowMs C < s) (map snd (filter (\<lambda>e. fst e = k) passed))) \<subseteq># mset (map snd (zlive ?v k))"
      using sub' by simp
    have "0 \<le> maxRequests C" using old by linarith
    then show "int (length (filter (\<lambda>s. gate_clock ?v - windowMs C < s) (map snd (zlive ?v k)))) \<le> maxRequests C"
      using count [of k] live [of k] by auto
  qed
qed

lemma recent_filter:
  assumes "window_ok C passed v"
  shows "map snd (recent C k v) = filter (\<lambda>s. gate_clock v - windowMs C < s) (map snd (zlive v k))"
    and "set (recent C k v) \<subseteq> set (zlive v k)" "distinct (map fst (recent C k v))"
    and "mset (filter (\<lambda>t. gate_clock v - windowMs C < t) (map snd (filter (\<lambda>e. fst e = k) passed))) \<subseteq># mset (map snd (recent C k v))"
proof -
  have "\<forall>(m, s)\<in>set (zlive v k). 0 \<le> s" using assms by (auto simp: window_ok_def)
  then have r: "recent C k v = filter (\<lambda>(m, s). gate_clock v - windowMs C < s) (zlive v k)"
    unfolding recent_def by (intro filter_cong) auto
  show snd: "map snd (recent C k v) = filter (\<lambda>s. gate_clock v - windowMs C < s) (map snd (zlive v k))"
    unfolding r by (simp add: filter_map comp_def case_prod_unfold)
  show "set (recent C k v) \<subseteq> set (zlive v k)" by (auto simp: r)
  show "distinct (map fst (recent C k v))" using assms by (simp add: window_ok_def r distinct_map_filter)
  show "mset (filter (\<lambda>t. gate_clock v - windowMs C < t) (map snd (filter (\<lambda>e. fst e = k) passed))) \<subseteq># mset (map snd (recent C k v))"
    unfolding snd mset_filter
    by (subst mset_filter [symmetric], rule filter_subset [where P = "\<lambda>t. gate_clock v - windowMs C < t"])
      (use assms in \<open>auto simp: window_ok_def\<close>)
qed

text \<open>An operation on one key: what has to be shown for the key, and that the others only see more draws.\<close>

lemma window_at:
  assumes "window_ok C passed v" "gate_clock v' = gate_clock v" "gate_calm v'" "set (drawn v) \<subseteq> set (drawn v')"
    and "\<And>k'. k' \<noteq> k \<Longrightarrow> zlive v' k' = zlive v k' \<and> zttl v' k' = zttl v k'"
    and "\<And>k'. k' \<noteq> k \<Longrightarrow> filter (\<lambda>e. fst e = k') passed' = filter (\<lambda>e. fst e = k') passed"
    and "distinct (map fst (zlive v' k))"
    and "\<forall>(m, s)\<in>set (zlive v' k). 0 \<le> s \<and> s \<le> gate_clock v \<and> (\<exists>r\<in>set (drawn v'). m = toString 10 s @ '':'' @ r)"
    and "zlive v' k \<noteq> [] \<Longrightarrow> \<exists>t. zttl v' k = Some t \<and> (\<forall>(m, s)\<in>set (zlive v' k). s + windowMs C \<le> t)"
    and "mset (filter (\<lambda>t. gate_clock v - windowMs C < t) (map snd (filter (\<lambda>e. fst e = k) passed'))) \<subseteq># mset (map snd (zlive v' k))"
    and "int (length (filter (\<lambda>s. gate_clock v - windowMs C < s) (map snd (zlive v' k)))) \<le> maxRequests C"
  shows "window_ok C passed' v'"
  unfolding window_ok_def
proof (intro conjI allI)
  show "gate_calm v'" "0 \<le> gate_clock v'" using assms(1-3) by (simp_all add: window_ok_def)
next
  fix k'
  note old = assms(1) [unfolded window_ok_def, THEN conjunct2, THEN conjunct2, rule_format, of k']
  note new = assms(2,4) assms(5,6) [of k'] assms(7-11)
  show "distinct (map fst (zlive v' k'))" using old new by (cases "k' = k") simp_all
  show "\<forall>(m, s)\<in>set (zlive v' k'). 0 \<le> s \<and> s \<le> gate_clock v' \<and> (\<exists>r\<in>set (drawn v'). m = toString 10 s @ '':'' @ r)"
    using old new by (cases "k' = k") (simp_all, fastforce)
  show "zlive v' k' \<noteq> [] \<longrightarrow> (\<exists>t. zttl v' k' = Some t \<and> (\<forall>(m, s)\<in>set (zlive v' k'). s + windowMs C \<le> t))"
    using old new by (cases "k' = k") simp_all
  show "mset (filter (\<lambda>t. gate_clock v' - windowMs C < t) (map snd (filter (\<lambda>e. fst e = k') passed'))) \<subseteq># mset (map snd (zlive v' k'))"
    using old new by (cases "k' = k") simp_all
  show "int (length (filter (\<lambda>s. gate_clock v' - windowMs C < s) (map snd (zlive v' k')))) \<le> maxRequests C"
    using old new by (cases "k' = k") simp_all
qed

lemma ttl_recent:
  assumes "window_ok C passed v" "recent C k v \<noteq> []"
  shows "\<exists>t. zttl (zput k xs v) k = Some t \<and> (\<forall>(m, s)\<in>set (recent C k v). s + windowMs C \<le> t)"
proof -
  have "zlive v k \<noteq> []" using assms(2) recent_filter(2) [OF assms(1), of k] by auto
  then obtain t where "zttl v k = Some t" "\<forall>(m, s)\<in>set (zlive v k). s + windowMs C \<le> t"
    using assms(1) by (auto simp: window_ok_def)
  then show ?thesis
    using \<open>zlive v k \<noteq> []\<close> recent_filter(2) [OF assms(1), of k] by (auto simp: zput_def)
qed

lemma window_refused:
  assumes "window_ok C passed v"
  shows "window_ok C passed (refused C k v)"
proof (rule window_at [OF assms, of _ k], goal_cases)
  case 6
  then show ?case using recent_filter(3) [OF assms] by (simp add: refused_def zlive_zput)
next
  case 7
  have "\<forall>(m, s)\<in>set (zlive v k). 0 \<le> s \<and> s \<le> gate_clock v \<and> (\<exists>r\<in>set (drawn v). m = toString 10 s @ '':'' @ r)"
    using assms by (simp add: window_ok_def)
  then show ?case using recent_filter(2) [OF assms, of k] by (auto simp: refused_def zlive_zput)
next
  case 8
  then show ?case using ttl_recent [OF assms, of k] by (simp add: refused_def zlive_zput)
next
  case 9
  then show ?case using recent_filter(4) [OF assms] by (simp add: refused_def zlive_zput)
next
  case 10
  have "int (length (filter (\<lambda>s. gate_clock v - windowMs C < s) (map snd (zlive v k)))) \<le> maxRequests C"
    using assms by (simp add: window_ok_def)
  then show ?case using recent_filter(1) [OF assms, of k] by (simp add: refused_def zlive_zput)
qed (use assms in \<open>simp_all add: refused_def zlive_zput window_ok_def\<close>)

lemma zlive_admitted:
  assumes "0 < windowMs C"
  shows "zlive (admitted C k rnd v) k' = (if k' = k then AList.update (toString 10 (gate_clock v) @ '':'' @ rnd) (gate_clock v) (recent C k v)
    else zlive v k')"
  using assms by (simp add: admitted_def zlive_zlease zlive_zput)

lemma window_admitted:
  assumes "window_ok C passed v" "0 < windowMs C" "distinct (drawn v @ [rnd])" "int (length (recent C k v)) < maxRequests C"
  shows "window_ok C (passed @ [(k, gate_clock v)]) (admitted C k rnd v)"
proof -
  let ?now = "gate_clock v"
  let ?m = "toString 10 ?now @ '':'' @ rnd"
  have z: "\<forall>(m, s)\<in>set (zlive v k). 0 \<le> s \<and> s \<le> ?now \<and> (\<exists>r\<in>set (drawn v). m = toString 10 s @ '':'' @ r)"
    using assms(1) by (simp add: window_ok_def)
  have fresh: "?m \<notin> fst ` set (recent C k v)"
  proof
    assume "?m \<in> fst ` set (recent C k v)"
    then obtain s where "(?m, s) \<in> set (zlive v k)" using recent_filter(2) [OF assms(1), of k] by force
    then obtain r where "r \<in> set (drawn v)" "?m = toString 10 s @ '':'' @ r" using z by fastforce
    then show False using member_inj assms(3) by fastforce
  qed
  then have live: "zlive (admitted C k rnd v) k = recent C k v @ [(?m, ?now)]"
    unfolding zlive_admitted [OF assms(2)] using alist_update_new [OF fresh] by simp
  have rest: "zlive (admitted C k rnd v) k' = zlive v k'" if "k' \<noteq> k" for k'
    using that by (simp add: zlive_admitted [OF assms(2), of k rnd v])
  show ?thesis
  proof (rule window_at [OF assms(1), of _ k], goal_cases)
    case (4 k')
    then show ?case using rest by (simp add: admitted_def zttl_zlease)
  next
    case 6
    then show ?case using live recent_filter(3) [OF assms(1)] fresh by simp
  next
    case 7
    have "0 \<le> ?now" using assms(1) by (simp add: window_ok_def)
    then show ?case
      unfolding live using z recent_filter(2) [OF assms(1), of k] by (fastforce simp: admitted_def)
  next
    case 8
    have "zttl (admitted C k rnd v) k = Some (?now + windowMs C)"
      using fresh by (simp add: admitted_def zttl_zlease zlive_zput alist_update_new)
    then show ?case
      unfolding live using z recent_filter(2) [OF assms(1), of k] by fastforce
  next
    case 9
    then show ?case using recent_filter(4) [OF assms(1), of k] assms(2) by (simp add: live)
  next
    case 10
    have "length (filter (\<lambda>s. ?now - windowMs C < s) (map snd (recent C k v))) \<le> length (map snd (recent C k v))"
      by (rule length_filter_le)
    moreover have "length (filter (\<lambda>s. ?now - windowMs C < s) (map snd [(?m, ?now)])) \<le> 1" by simp
    ultimately show ?case using assms(4) unfolding live map_append filter_append length_append length_map by linarith
  qed (use assms(1) in \<open>simp_all add: admitted_def window_ok_def subset_insertI\<close>)
qed

lemma window_forwarded: "window_ok C passed (forwarded_update f v) = window_ok C passed v"
  by (simp add: window_ok_def)

end
