(* ===== verification/Gateway_Properties.thy ===== *)
theory Gateway_Properties
  imports Gateway_Limits
begin

text \<open>
  What the gateway and the guards promise: which requests reach a service, as whom, and how many.
\<close>

section \<open>An instance\<close>

text \<open>The observed state is the world; every call to Redis fails unless the world is calm.\<close>

definition up :: "(gate_store \<Rightarrow> (exn + 'a) \<times> gate_store) \<Rightarrow> (gate_store, 'a) act" where
  "up f v = (if gate_calm v then f v else (Inl (JsError ''connection lost''), v))"

definition ada_claims :: json where
  "ada_claims = token_claims \<lparr>jp_sub = ''u1'', jp_email = ''ada@example.com'', jp_role = ''organizer'', jp_emailVerified = True\<rparr> 0 900"

definition mem_gateway_env :: "gate_store gateway_env" where
  "mem_gateway_env = \<lparr>
     zremrangebyscore = (\<lambda>k lo hi. up (\<lambda>v. (Inr (), zput k (filter (\<lambda>(m, s). \<not> (lo \<le> s \<and> s \<le> hi)) (zlive v k)) v))),
     zcard = (\<lambda>k. up (\<lambda>v. (Inr (length (zlive v k)), v))),
     zrange = (\<lambda>k i j. up (\<lambda>v. (Inr (map fst (take 1 (sort_key snd (zlive v k)))), v))),
     zadd = (\<lambda>k s m. up (\<lambda>v. (Inr (), zput k (AList.update m s (zlive v k)) v))),
     pexpire = (\<lambda>k ms. up (\<lambda>v. (Inr (), zlease k ms v))),
     gatewayNow = (\<lambda>v. (Inr (gate_clock v), v)),
     Math_random = (\<lambda>v. let s = ''0.'' @ toString 10 (int (length (drawn v))) in (Inr s, v\<lparr>drawn := drawn v @ [s]\<rparr>)),
     http_request = (\<lambda>q v. (Inr \<lparr>ps_status = 200, ps_headers = [], ps_data = JNull\<rparr>, v\<lparr>forwarded := forwarded v @ [(gate_clock v, q)]\<rparr>)),
     verifyToken = (\<lambda>token v. (if token = ''t1'' then Inr ada_claims else Inl (JsError ''jwt malformed''), v)),
     configUrl = (\<lambda>key. ''http://service'')\<rparr>"

lemma obeys_up: "(\<And>v. case f v of (r, v') \<Rightarrow> fallible gate_calm S v r v') \<Longrightarrow> obeys (\<lambda>v. v) (up f) (fallible gate_calm S)"
  by (rule obeysI) (simp add: wp_def up_def split: prod.splits)

lemma first_of_sorted:
  "zs \<noteq> [] \<Longrightarrow> \<exists>m s. map fst (take 1 (sort_key snd zs)) = [m] \<and> (m, s) \<in> set zs \<and> (\<forall>(m', s')\<in>set zs. s \<le> s')"
  for zs :: "(string \<times> int) list"
proof -
  assume "zs \<noteq> []"
  then have "sort_key snd zs \<noteq> []" by (metis set_empty set_sort)
  then obtain m s ys where ys: "sort_key snd zs = (m, s) # ys"
    by (metis list.exhaust surj_pair)
  have "sorted (map snd (sort_key snd zs))" by simp
  then have "\<forall>y\<in>set ys. s \<le> snd y" by (simp add: ys)
  moreover have "set zs = insert (m, s) (set ys)" using ys by (metis list.simps(15) set_sort)
  ultimately show ?thesis by (intro exI [of _ m] exI [of _ s]) (auto simp: ys)
qed

interpretation mem_gate: gate_world mem_gateway_env "\<lambda>v. v"
proof
  fix k m token :: string and lo hi s ms :: int and q
  show "obeys (\<lambda>v. v) (gatewayNow mem_gateway_env) (\<lambda>v r v'. r = Inr (gate_clock v) \<and> v' = v)"
    "obeys (\<lambda>v. v) (Math_random mem_gateway_env) (\<lambda>v r v'. \<exists>s. r = Inr s \<and> v' = drawn_update (\<lambda>l. l @ [s]) v)"
    "obeys (\<lambda>v. v) (http_request mem_gateway_env q) (\<lambda>v r v'. v' = forwarded_update (\<lambda>l. l @ [(gate_clock v, q)]) v \<and>
      (case r of Inl e \<Rightarrow> \<exists>m. e = JsError m | Inr p \<Rightarrow> True))"
    "obeys (\<lambda>v. v) (verifyToken mem_gateway_env token) (\<lambda>v r v'. v' = v)"
    by (rule obeysI, simp add: mem_gateway_env_def wp_def Let_def)+
  show "obeys (\<lambda>v. v) (zremrangebyscore mem_gateway_env k lo hi) (fallible gate_calm (\<lambda>v u v'.
      v' = zput k (filter (\<lambda>(m, s). \<not> (lo \<le> s \<and> s \<le> hi)) (zlive v k)) v))"
    "obeys (\<lambda>v. v) (zcard mem_gateway_env k) (fallible gate_calm (\<lambda>v n v'. v' = v \<and> n = length (zlive v k)))"
    "obeys (\<lambda>v. v) (zadd mem_gateway_env k s m) (fallible gate_calm (\<lambda>v u v'. v' = zput k (AList.update m s (zlive v k)) v))"
    "obeys (\<lambda>v. v) (pexpire mem_gateway_env k ms) (fallible gate_calm (\<lambda>v u v'. v' = zlease k ms v))"
    by (simp_all add: mem_gateway_env_def obeys_up)
  show "obeys (\<lambda>v. v) (zrange mem_gateway_env k 0 0) (fallible gate_calm (\<lambda>v xs v'. v' = v \<and>
      (if zlive v k = [] then xs = [] else \<exists>m s. xs = [m] \<and> (m, s) \<in> set (zlive v k) \<and> (\<forall>(m', s')\<in>set (zlive v k). s \<le> s'))))"
    unfolding mem_gateway_env_def gateway_env.select_convs
    by (rule obeys_up) (use first_of_sorted in auto)
qed

definition demo_gate :: gate_store where
  "demo_gate = \<lparr>zsets = (\<lambda>k. []), zttl = (\<lambda>k. None), gate_clock = 100000, forwarded = [], drawn = [], gate_calm = True\<rparr>"

definition demo_exchange :: "string \<Rightarrow> exchange" where
  "demo_exchange token = \<lparr>ex_request = \<lparr>rq_method = ''POST'', rq_url = ''/api/bookings'', rq_originalUrl = ''/api/bookings'',
       rq_ip = Some ''10.0.0.1'', rq_headers = [(''authorization'', ''Bearer '' @ token), (''x-user-role'', ''admin''), (''host'', ''gateway'')],
       rq_body = JNull, rq_user = None\<rparr>,
     ex_response = \<lparr>rs_status = 200, rs_headers = [], rs_body = None\<rparr>\<rparr>"

section \<open>The guard\<close>

text \<open>
  C33.  What the token guard decides.  A handler that is not public is reached exactly with an \<^verbatim>\<open>Authorization\<close>
  header of the kind \<^verbatim>\<open>Bearer\<close> whose token is verified, and then the user of the request is the payload of the
  token.  A token that is not verified is always reported as expired, whatever is wrong with it.
\<close>

theorem jwt_guard_decides:
  assumes "jwt_canActivate verify handlerPublic classPublic (w, x) = (r, (w', x'))"
  shows "if getAllAndOverride handlerPublic classPublic = Some True then r = Inr True \<and> w' = w \<and> x' = x
    else case bearer (ex_request x) of
      None \<Rightarrow> (\<exists>m. r = Inl (Unauthorized m)) \<and> w' = w \<and> x' = x
    | Some token \<Rightarrow> w' = snd (verify token w) \<and> (case fst (verify token w) of
        Inl e \<Rightarrow> r = Inl (Unauthorized ''Token has expired'') \<and> x' = x
      | Inr payload \<Rightarrow> r = Inr True \<and> x' = x\<lparr>ex_request := (ex_request x)\<lparr>rq_user := Some payload\<rparr>\<rparr>)"
  using assms jwt_guard_run [OF _ assms] public_guard_run [of handlerPublic classPublic verify "(w, x)"] by auto

theorem jwt_guard_decides_witness:
  "\<exists>x'. jwt_canActivate (verifyToken mem_gateway_env) None None (demo_gate, demo_exchange ''forged'') =
     (Inl (Unauthorized ''Token has expired''), (demo_gate, x'))"
proof -
  obtain r w' x' where run: "jwt_canActivate (verifyToken mem_gateway_env) None None (demo_gate, demo_exchange ''forged'') = (r, (w', x'))"
    by (metis surj_pair)
  have "bearer (ex_request (demo_exchange ''forged'')) = Some ''forged''" by code_simp
  moreover have "verifyToken mem_gateway_env ''forged'' demo_gate = (Inl (JsError ''jwt malformed''), demo_gate)"
    by (simp add: mem_gateway_env_def)
  ultimately show ?thesis using jwt_guard_decides [OF run] run by (simp add: getAllAndOverride_def)
qed

section \<open>Who reaches a service\<close>

lemma guarded_run:
  "guarded g h s = (case g s of (Inl e, s') \<Rightarrow> (Inl e, s') | (Inr ok, s') \<Rightarrow> if ok then h s' else (Inl (HttpException 403 ''Forbidden resource''), s'))"
  by (simp add: guarded_def await_def throw_def split: prod.splits sum.splits)

text \<open>What a handler behind the guards may send: the request with the headers of its user.\<close>

definition relays :: "string \<Rightarrow> http_request \<Rightarrow> 'z gate_store_scheme \<Rightarrow> 'z gate_store_scheme \<Rightarrow> bool" where
  "relays target request v v' \<longleftrightarrow> forwarded v' = forwarded v \<or>
     (\<exists>q. sends target request q \<and> forwarded v' = forwarded v @ [(gate_clock v, q)])"

lemma sends_headers:
  assumes "sends target request q" "rq_user request = Some payload" "truthy payload"
  shows "map_of (pr_headers q) ''x-user-role'' = Some (json_get payload ''role'')"
    and "map_of (pr_headers q) ''x-user-id'' = Some (json_get payload ''id'')"
    and "map_of (pr_headers q) ''x-user-email'' = Some (json_get payload ''email'')"
    and "pr_url q = target @ rq_originalUrl request"
proof -
  obtain verified where "pr_headers q = user_headers payload verified (copied_headers (rq_headers request))"
    and url: "pr_url q = target @ rq_originalUrl request"
    using assms by (auto simp: sends_def identity_headers_def await_def return_def throw_def js_toString_def split: option.splits if_splits)
  then show "map_of (pr_headers q) ''x-user-role'' = Some (json_get payload ''role'')"
    "map_of (pr_headers q) ''x-user-id'' = Some (json_get payload ''id'')"
    "map_of (pr_headers q) ''x-user-email'' = Some (json_get payload ''email'')" "pr_url q = target @ rq_originalUrl request"
    by (simp_all add: user_headers_def update_conv')
qed

context gate_world
begin

lemma forward_relays: "wp (forward E target) (\<lambda>r (w', x'). relays target (ex_request x) (vw w) (vw w')) (w, x)"
  by (rule wp_mono [OF forward_wp]) (auto simp: relays_def)

lemma intercept_relays:
  "wp (rate_intercept E hc cc (forward E target)) (\<lambda>r (w', x'). relays target (ex_request x) (vw w) (vw w')) (w, x)"
proof (cases "getAllAndOverride hc cc")
  case None
  then show ?thesis using forward_relays by (simp add: rate_intercept_def)
next
  case (Some C)
  have fwd: "wp (forward E target) (\<lambda>r (w', x'). relays target (ex_request x) (vw w) (vw w')) (w1, x1)"
    if "forwarded (vw w1) = forwarded (vw w)" "gate_clock (vw w1) = gate_clock (vw w)" "ex_request x1 = ex_request x" for w1 x1
    by (rule wp_mono [OF forward_relays]) (use that in \<open>auto simp: relays_def\<close>)
  have same: "relays target q (vw w) (vw w1)" if "forwarded (vw w1) = forwarded (vw w)" for q w1
    using that by (simp add: relays_def)
  show ?thesis
    unfolding rate_intercept_def Some option.case wp_simps sum.case
    by (rule wp_mono [OF check_rate_keeps]) (auto simp: wp_simps split: sum.splits intro!: fwd same)
qed

text \<open>The guard of the gateway in front of a handler that relays.\<close>

lemma gate_relays:
  assumes "\<And>w x. wp h (\<lambda>r (w', x'). relays target (ex_request x) (vw w) (vw w')) (w, x)"
    and "gate E None None h (w, x) = (r, (w', x'))" "forwarded (vw w') \<noteq> forwarded (vw w)"
  shows "\<exists>token payload q. bearer (ex_request x) = Some token \<and> fst (verifyToken E token w) = Inr payload \<and>
    forwarded (vw w') = forwarded (vw w) @ [(gate_clock (vw w), q)] \<and>
    sends target ((ex_request x)\<lparr>rq_user := Some payload\<rparr>) q"
proof -
  obtain g w1 x1 where g: "jwt_canActivate (verifyToken E) None None (w, x) = (g, (w1, x1))" by (metis surj_pair)
  note d = jwt_guard_run [OF _ g]
  have v: "vw (snd (verifyToken E token w)) = vw w" for token
    using obeysD [OF verify_law, of token w] by (metis surj_pair snd_conv)
  obtain token where t: "bearer (ex_request x) = Some token"
    using assms(2,3) d by (cases "bearer (ex_request x)") (auto simp: gate_def guarded_run g getAllAndOverride_def)
  obtain payload where p: "fst (verifyToken E token w) = Inr payload"
    using assms(2,3) d t v by (cases "fst (verifyToken E token w)") (auto simp: gate_def guarded_run g getAllAndOverride_def)
  have s: "g = Inr True" "w1 = snd (verifyToken E token w)" "x1 = x\<lparr>ex_request := (ex_request x)\<lparr>rq_user := Some payload\<rparr>\<rparr>"
    using d t p by (simp_all add: getAllAndOverride_def)
  then have "h (w1, x1) = (r, (w', x'))" using assms(2) by (simp add: gate_def guarded_run g)
  from wpD [OF assms(1) this] have "relays target (ex_request x1) (vw w1) (vw w')" by simp
  then show ?thesis using t p s v assms(3) by (auto simp: relays_def)
qed

end


lemma demo_booking:
  "case bookingProxyController mem_gateway_env of Inl e \<Rightarrow> False
   | Inr h \<Rightarrow> returns h (demo_gate, demo_exchange ''t1'') \<and> length (forwarded (fst (snd (h (demo_gate, demo_exchange ''t1''))))) = 1"
  by code_simp


text \<open>
  C34.  A signed-in user has no id.  A token that the auth service issues carries the id of the user as \<^verbatim>\<open>sub\<close>;
  the gateway sends the property \<^verbatim>\<open>id\<close>, and \<^verbatim>\<open>CurrentUser('id')\<close> reads it: both are \<^verbatim>\<open>undefined\<close> for every user, so the
  bookings of all users are made for nobody.
\<close>

theorem signed_in_user_has_no_id:
  assumes "gate_world E vw" "bookingProxyController E = Inr h" "h (w, x) = (r, (w', x'))"
    and "bearer (ex_request x) = Some token" "fst (verifyToken E token w) = Inr (token_claims p iat until)"
    and "forwarded (vw w') \<noteq> forwarded (vw w)"
  shows "\<exists>q. forwarded (vw w') = forwarded (vw w) @ [(gate_clock (vw w), q)] \<and>
    map_of (pr_headers q) ''x-user-id'' = Some None \<and> map_of (pr_headers q) ''x-user-email'' = Some (Some (JStr (jp_email p))) \<and>
    currentUser (Some ''id'') ((ex_request x)\<lparr>rq_user := Some (token_claims p iat until)\<rparr>) = None"
proof -
  have h: "h = gate E None None (rate_intercept E None (RateLimit (60 * 1000) 5) (forward E (configUrl E ''BOOKING_SERVICE_URL'')))"
    using assms(2) by (auto simp: bookingProxyController_def construct_def service_url_def split: if_splits)
  obtain q where q: "forwarded (vw w') = forwarded (vw w) @ [(gate_clock (vw w), q)]"
    "sends (configUrl E ''BOOKING_SERVICE_URL'') ((ex_request x)\<lparr>rq_user := Some (token_claims p iat until)\<rparr>) q"
    using gate_world.gate_relays [OF assms(1) gate_world.intercept_relays [OF assms(1)] assms(3) [unfolded h] assms(6)] assms(4,5)
    by auto
  have "truthy (token_claims p iat until)" by (simp add: token_claims_def)
  from sends_headers(2,3) [OF q(2) _ this] have "map_of (pr_headers q) ''x-user-id'' = Some None"
    "map_of (pr_headers q) ''x-user-email'' = Some (Some (JStr (jp_email p)))" by (simp_all add: token_claims_get)
  then show ?thesis using q(1) by (simp add: currentUser_def token_claims_get)
qed

theorem signed_in_user_has_no_id_witness:
  "\<exists>h x' w' q. bookingProxyController mem_gateway_env = Inr h \<and> h (demo_gate, demo_exchange ''t1'') = (Inr (), (w', x')) \<and>
     forwarded w' = [(100000, q)] \<and> map_of (pr_headers q) ''x-user-id'' = Some None"
proof -
  obtain h where h: "bookingProxyController mem_gateway_env = Inr h"
    and f: "returns h (demo_gate, demo_exchange ''t1'')" "length (forwarded (fst (snd (h (demo_gate, demo_exchange ''t1''))))) = 1"
    using demo_booking by (cases "bookingProxyController mem_gateway_env") auto
  obtain w' x' where run: "h (demo_gate, demo_exchange ''t1'') = (Inr (), (w', x'))"
    using f(1) by (elim returnsE) auto
  have d: "forwarded demo_gate = []" "gate_clock demo_gate = 100000" by (simp_all add: demo_gate_def)
  have n: "forwarded w' \<noteq> forwarded demo_gate" using f(2) run d by auto
  have b: "bearer (ex_request (demo_exchange ''t1'')) = Some ''t1''" by code_simp
  have t: "fst (verifyToken mem_gateway_env ''t1'' demo_gate) = Inr (token_claims
      \<lparr>jp_sub = ''u1'', jp_email = ''ada@example.com'', jp_role = ''organizer'', jp_emailVerified = True\<rparr> 0 900)"
    by (simp add: mem_gateway_env_def ada_claims_def)
  from signed_in_user_has_no_id [OF mem_gate.gate_world_axioms h run b t n] show ?thesis using h run d by auto
qed

text \<open>
  Only organisers create events.  \<^verbatim>\<open>POST /api/events\<close> reaches the event service only with a verified token
  whose role is \<^verbatim>\<open>admin\<close> or \<^verbatim>\<open>organizer\<close>.
\<close>

theorem events_need_role:
  assumes "gate_world E vw" "eventProxyController E = Inr c" "cp_create c (w, x) = (r, (w', x'))"
    and "forwarded (vw w') \<noteq> forwarded (vw w)"
  shows "\<exists>token payload role. bearer (ex_request x) = Some token \<and> fst (verifyToken E token w) = Inr payload \<and>
    json_get payload ''role'' = Some (JStr role) \<and> role \<in> {''admin'', ''organizer''}"
proof -
  let ?h = "guarded (roles_canActivate (Roles [''admin'', ''organizer'']) None) (forward E (configUrl E ''EVENT_SERVICE_URL''))"
  have c: "cp_create c = gate E None None ?h"
    using assms(2) by (auto simp: eventProxyController_def construct_def service_url_def split: if_splits)
  obtain g w1 x1 where g: "jwt_canActivate (verifyToken E) None None (w, x) = (g, (w1, x1))" by (metis surj_pair)
  note d = jwt_guard_run [OF _ g]
  have v: "vw (snd (verifyToken E token w)) = vw w" for token
    using obeysD [OF gate_world.verify_law [OF assms(1)], of token w] by (metis surj_pair snd_conv)
  obtain token where t: "bearer (ex_request x) = Some token"
    using assms(3,4) d by (cases "bearer (ex_request x)") (auto simp: c gate_def guarded_run g getAllAndOverride_def)
  obtain payload where p: "fst (verifyToken E token w) = Inr payload"
    using assms(3,4) d t v by (cases "fst (verifyToken E token w)") (auto simp: c gate_def guarded_run g getAllAndOverride_def)
  have s: "g = Inr True" "w1 = snd (verifyToken E token w)" "x1 = x\<lparr>ex_request := (ex_request x)\<lparr>rq_user := Some payload\<rparr>\<rparr>"
    using d t p by (simp_all add: getAllAndOverride_def)
  then have "?h (w1, x1) = (r, (w', x'))" using assms(3) by (simp add: c gate_def guarded_run g)
  then have "\<exists>role. json_str (json_get payload ''role'') = Some role \<and> role \<in> {''admin'', ''organizer''}"
    using assms(4) s v [of token]
    by (auto simp: guarded_run roles_canActivate_def getAllAndOverride_def Roles_def await_def get_object_def return_def
        js_prop_def throw_def split: if_splits option.splits)
  then show ?thesis using t p by auto
qed

theorem events_need_role_witness:
  "\<exists>c w' x'. eventProxyController mem_gateway_env = Inr c \<and> cp_create c (demo_gate, demo_exchange ''t1'') = (Inr (), (w', x')) \<and>
     length (forwarded w') = 1 \<and> json_get ada_claims ''role'' = Some (JStr ''organizer'')"
proof -
  have "case eventProxyController mem_gateway_env of Inl e \<Rightarrow> False
     | Inr c \<Rightarrow> returns (cp_create c) (demo_gate, demo_exchange ''t1'') \<and>
         length (forwarded (fst (snd (cp_create c (demo_gate, demo_exchange ''t1''))))) = 1"
    by code_simp
  then obtain c where c: "eventProxyController mem_gateway_env = Inr c" "returns (cp_create c) (demo_gate, demo_exchange ''t1'')"
      "length (forwarded (fst (snd (cp_create c (demo_gate, demo_exchange ''t1''))))) = 1"
    by (cases "eventProxyController mem_gateway_env") auto
  obtain w' x' where run: "cp_create c (demo_gate, demo_exchange ''t1'') = (Inr (), (w', x'))"
    using c(2) by (elim returnsE) auto
  have "forwarded w' \<noteq> forwarded demo_gate" using c(3) run by (auto simp: demo_gate_def)
  from events_need_role [OF mem_gate.gate_world_axioms c(1) run this]
  obtain token payload role where p: "bearer (ex_request (demo_exchange ''t1'')) = Some token"
    "fst (verifyToken mem_gateway_env token demo_gate) = Inr payload" "json_get payload ''role'' = Some (JStr role)" by auto
  have "json_get ada_claims ''role'' = Some (JStr ''organizer'')" by (simp add: ada_claims_def token_claims_get)
  then show ?thesis using c run by auto
qed

section \<open>How many requests go through\<close>


text \<open>
  Traffic on a route with a rate limit: time passes, and requests of any clients come in.  The list holds the keys
  and times of the requests that were answered by the handler.
\<close>

inductive traffic :: "'w gateway_env \<Rightarrow> ('w \<Rightarrow> 'z gate_store_scheme) \<Rightarrow> int \<Rightarrow> int \<Rightarrow> string \<Rightarrow> 'w \<Rightarrow> (string \<times> int) list \<Rightarrow> 'w \<Rightarrow> bool"
  for E vw ms n target w where
  traffic_start: "traffic E vw ms n target w [] w"
| traffic_tick: "traffic E vw ms n target w passed w1 \<Longrightarrow> gate_clock (vw w1) \<le> t \<Longrightarrow> vw w2 = (vw w1)\<lparr>gate_clock := t\<rparr> \<Longrightarrow>
    traffic E vw ms n target w passed w2"
| traffic_passed: "traffic E vw ms n target w passed w1 \<Longrightarrow>
    rate_intercept E None (RateLimit ms n) (forward E target) (w1, x) = (Inr (), (w2, x')) \<Longrightarrow>
    traffic E vw ms n target w (passed @ [(rate_key (ex_request x), gate_clock (vw w1))]) w2"
| traffic_refused: "traffic E vw ms n target w passed w1 \<Longrightarrow>
    rate_intercept E None (RateLimit ms n) (forward E target) (w1, x) = (Inl e, (w2, x')) \<Longrightarrow>
    traffic E vw ms n target w passed w2"

context gate_world
begin

lemma intercept_window:
  assumes "window_ok C passed (vw w)" "0 < windowMs C" "C = \<lparr>windowMs = ms, maxRequests = n\<rparr>"
    and "rate_intercept E None (RateLimit ms n) (forward E target) (w, x) = (r, (w', x'))"
  shows "distinct (drawn (vw w')) \<longrightarrow> (case r of Inl e \<Rightarrow> window_ok C passed (vw w')
    | Inr _ \<Rightarrow> window_ok C (passed @ [(rate_key (ex_request x), gate_clock (vw w))]) (vw w'))"
proof -
  let ?k = "rate_key (ex_request x)"
  have calm: "gate_calm (vw w)" using assms(1) by (simp add: window_ok_def)
  have fewer: "window_ok C passed v" if "window_ok C (passed @ [e]) v" for v :: "'z gate_store_scheme" and e
    unfolding window_ok_def
  proof (intro conjI allI)
    fix k
    have "mset (filter P (map snd (filter (\<lambda>e. fst e = k) passed))) \<subseteq># mset (filter P (map snd (filter (\<lambda>e. fst e = k) (passed @ [e]))))" for P
      by (simp only: filter_append map_append mset_append) simp
    then show "mset (filter (\<lambda>t. gate_clock v - windowMs C < t) (map snd (filter (\<lambda>e. fst e = k) passed))) \<subseteq># mset (map snd (zlive v k))"
      using that subset_mset.order_trans unfolding window_ok_def by blast
  qed (use that in \<open>simp_all add: window_ok_def\<close>)
  have fwd: "wp (forward E target) (\<lambda>r (w2, x2). drawn (vw w2) = drawn (vw w1) \<and> (window_ok C p (vw w1) \<longrightarrow> window_ok C p (vw w2))) (w1, x1)" for w1 x1 p
    by (rule wp_mono [OF forward_wp]) (auto simp: window_forwarded)
  have "wp (rate_intercept E None (RateLimit ms n) (forward E target)) (\<lambda>r (w', x'). distinct (drawn (vw w')) \<longrightarrow>
      (case r of Inl e \<Rightarrow> window_ok C passed (vw w') | Inr _ \<Rightarrow> window_ok C (passed @ [(?k, gate_clock (vw w))]) (vw w'))) (w, x)"
    unfolding rate_intercept_def getAllAndOverride_def RateLimit_def option.case wp_simps sum.case
  proof (rule check_rate_wp [OF calm], goal_cases)
    case (1 w1 x1)
    then show ?case
      using window_refused [OF assms(1), of ?k] assms(3) by (simp add: too_many_def refused_def)
  next
    case (2 w1 x1 rnd)
    then have w1: "vw w1 = admitted C ?k rnd (vw w)" and few: "int (length (recent C ?k (vw w))) < maxRequests C"
      using assms(3) by simp_all
    have d: "drawn (vw w1) = drawn (vw w) @ [rnd]" by (simp add: w1)
    show ?case
      unfolding sum.case
      by (rule wp_mono [OF fwd [where p = "passed @ [(?k, gate_clock (vw w))]"]])
        (use d window_admitted [OF assms(1,2) _ few, of rnd] w1 in \<open>auto split: sum.splits dest: fewer\<close>)
  qed
  from wpD [OF this assms(4)] show ?thesis by simp
qed

lemma intercept_draws:
  assumes "rate_intercept E hc cc (forward E target) (w, x) = (r, (w', x'))"
  shows "\<exists>rs. drawn (vw w') = drawn (vw w) @ rs"
proof -
  have fwd: "wp (forward E target) (\<lambda>r (w', x'). \<exists>rs. drawn (vw w') = drawn (vw w) @ rs) (w1, x1)"
    if "\<exists>rs. drawn (vw w1) = drawn (vw w) @ rs" for w1 x1
    by (rule wp_mono [OF forward_wp]) (use that in auto)
  have "wp (rate_intercept E hc cc (forward E target)) (\<lambda>r (w', x'). \<exists>rs. drawn (vw w') = drawn (vw w) @ rs) (w, x)"
  proof (cases "getAllAndOverride hc cc")
    case None
    then show ?thesis using fwd by (simp add: rate_intercept_def)
  next
    case (Some C)
    show ?thesis
      unfolding rate_intercept_def Some option.case wp_simps sum.case
      by (rule wp_mono [OF check_rate_keeps]) (auto simp: wp_simps split: sum.splits intro!: fwd)
  qed
  from wpD [OF this assms] show ?thesis by simp
qed

lemma traffic_window:
  assumes "traffic E vw ms n target w passed w'" "0 < ms" "window_ok \<lparr>windowMs = ms, maxRequests = n\<rparr> [] (vw w)"
  shows "distinct (drawn (vw w')) \<longrightarrow> window_ok \<lparr>windowMs = ms, maxRequests = n\<rparr> passed (vw w')"
  using assms(1)
proof induction
  case traffic_start
  then show ?case using assms(3) by simp
next
  case (traffic_tick passed w1 t w2)
  then show ?case using window_tick [of "\<lparr>windowMs = ms, maxRequests = n\<rparr>" passed "vw w1" t] by simp
next
  case (traffic_passed passed w1 x w2 x')
  obtain rs where "drawn (vw w2) = drawn (vw w1) @ rs" using intercept_draws [OF traffic_passed.hyps(2)] by blast
  then show ?case
    using intercept_window [OF _ _ refl traffic_passed.hyps(2), of passed] traffic_passed.IH assms(2) by auto
next
  case (traffic_refused passed w1 x e w2 x')
  obtain rs where "drawn (vw w2) = drawn (vw w1) @ rs" using intercept_draws [OF traffic_refused.hyps(2)] by blast
  then show ?case
    using intercept_window [OF _ _ refl traffic_refused.hyps(2), of passed] traffic_refused.IH assms(2) by auto
qed

end






end
