(* ===== verification/Template_Engine.thy ===== *)
theory Template_Engine
  imports Storage JS_Text
begin

text \<open>
  \<^verbatim>\<open>TemplateEngine\<close> of the notification service (templates/template.engine.ts): the registered templates and
  their rendering.  Texts are UTF-8; \<open>i_dotless\<close> and the like name the letters outside ASCII.  Handlebars is a
  parameter: \<open>handlebars template data\<close> is the text it renders, or the error it throws.
\<close>

record EmailTemplate =
  et_subject :: string
  et_body :: string
  et_html :: string

definition text_lines :: "string list \<Rightarrow> string" where
  "text_lines ls = join [CHR 0x0A] ls"

abbreviation (input) I_dot :: string where "I_dot \<equiv> [CHR 0xC4, CHR 0xB0]"

abbreviation (input) O_umlaut :: string where "O_umlaut \<equiv> [CHR 0xC3, CHR 0x96]"

abbreviation (input) S_cedilla :: string where "S_cedilla \<equiv> [CHR 0xC5, CHR 0x9E]"

abbreviation (input) c_cedilla :: string where "c_cedilla \<equiv> [CHR 0xC3, CHR 0xA7]"

abbreviation (input) dash :: string where "dash \<equiv> [CHR 0xE2, CHR 0x80, CHR 0x94]"

abbreviation (input) g_breve :: string where "g_breve \<equiv> [CHR 0xC4, CHR 0x9F]"

abbreviation (input) i_dotless :: string where "i_dotless \<equiv> [CHR 0xC4, CHR 0xB1]"

abbreviation (input) o_umlaut :: string where "o_umlaut \<equiv> [CHR 0xC3, CHR 0xB6]"

abbreviation (input) s_cedilla :: string where "s_cedilla \<equiv> [CHR 0xC5, CHR 0x9F]"

abbreviation (input) u_umlaut :: string where "u_umlaut \<equiv> [CHR 0xC3, CHR 0xBC]"

definition email_verification_template :: EmailTemplate where
  \<open>email_verification_template = \<lparr>
     et_subject = ''Email adresinizi do'' @ g_breve @ ''rulay'' @ i_dotless @ ''n'',
     et_body = text_lines
      [''Merhaba {{fullName}},'',
       ''    '',
       ''    Hesab'' @ i_dotless @ ''n'' @ i_dotless @ ''z'' @ i_dotless @ '' aktifle'' @ s_cedilla @ ''tirmek i'' @ c_cedilla @ ''in a'' @ s_cedilla @ ''a'' @ g_breve @ i_dotless @ ''daki ba'' @ g_breve @ ''lant'' @ i_dotless @ ''ya t'' @ i_dotless @ ''klay'' @ i_dotless @ ''n:'',
       ''    '',
       ''    {{verificationUrl}}'',
       ''    '',
       ''    Bu ba'' @ g_breve @ ''lant'' @ i_dotless @ '' 24 saat ge'' @ c_cedilla @ ''erlidir.''],
     et_html = text_lines
      [''<h2>Email do'' @ g_breve @ ''rulama</h2>'',
       ''    <p>Merhaba <strong>{{fullName}}</strong>,</p>'',
       ''    <p>Hesab'' @ i_dotless @ ''n'' @ i_dotless @ ''z'' @ i_dotless @ '' aktifle'' @ s_cedilla @ ''tirmek i'' @ c_cedilla @ ''in a'' @ s_cedilla @ ''a'' @ g_breve @ i_dotless @ ''daki butona t'' @ i_dotless @ ''klay'' @ i_dotless @ ''n:</p>'',
       ''    <p><a href="{{verificationUrl}}" style="display:inline-block;padding:12px 24px;background:#534AB7;color:#fff;text-decoration:none;border-radius:8px">Email adresimi do'' @ g_breve @ ''rula</a></p>'',
       ''    <p style="color:#888;font-size:12px">Bu ba'' @ g_breve @ ''lant'' @ i_dotless @ '' 24 saat ge'' @ c_cedilla @ ''erlidir.</p>'']\<rparr>\<close>

definition password_reset_template :: EmailTemplate where
  \<open>password_reset_template = \<lparr>
     et_subject = S_cedilla @ ''ifre s'' @ i_dotless @ ''f'' @ i_dotless @ ''rlama talebi'',
     et_body = text_lines
      [''Merhaba {{fullName}},'',
       ''    '',
       ''    '' @ S_cedilla @ ''ifrenizi s'' @ i_dotless @ ''f'' @ i_dotless @ ''rlamak i'' @ c_cedilla @ ''in a'' @ s_cedilla @ ''a'' @ g_breve @ i_dotless @ ''daki ba'' @ g_breve @ ''lant'' @ i_dotless @ ''ya t'' @ i_dotless @ ''klay'' @ i_dotless @ ''n:'',
       ''    '',
       ''    {{resetUrl}}'',
       ''    '',
       ''    Bu ba'' @ g_breve @ ''lant'' @ i_dotless @ '' 1 saat ge'' @ c_cedilla @ ''erlidir. E'' @ g_breve @ ''er bu talebi siz yapmad'' @ i_dotless @ ''ysan'' @ i_dotless @ ''z bu emaili g'' @ o_umlaut @ ''rmezden gelebilirsiniz.''],
     et_html = text_lines
      [''<h2>'' @ S_cedilla @ ''ifre s'' @ i_dotless @ ''f'' @ i_dotless @ ''rlama</h2>'',
       ''    <p>Merhaba <strong>{{fullName}}</strong>,</p>'',
       ''    <p>'' @ S_cedilla @ ''ifrenizi s'' @ i_dotless @ ''f'' @ i_dotless @ ''rlamak i'' @ c_cedilla @ ''in a'' @ s_cedilla @ ''a'' @ g_breve @ i_dotless @ ''daki butona t'' @ i_dotless @ ''klay'' @ i_dotless @ ''n:</p>'',
       ''    <p><a href="{{resetUrl}}" style="display:inline-block;padding:12px 24px;background:#D85A30;color:#fff;text-decoration:none;border-radius:8px">'' @ S_cedilla @ ''ifremi s'' @ i_dotless @ ''f'' @ i_dotless @ ''rla</a></p>'',
       ''    <p style="color:#888;font-size:12px">Bu ba'' @ g_breve @ ''lant'' @ i_dotless @ '' 1 saat ge'' @ c_cedilla @ ''erlidir. Bu talebi siz yapmad'' @ i_dotless @ ''ysan'' @ i_dotless @ ''z g'' @ o_umlaut @ ''rmezden gelin.</p>'']\<rparr>\<close>

definition booking_refunded_template :: EmailTemplate where
  \<open>booking_refunded_template = \<lparr>
     et_subject = I_dot @ ''ade onayland'' @ i_dotless @ '' '' @ dash @ '' {{bookingNumber}}'',
     et_body = text_lines
      [''Merhaba,'',
       ''      '',
       ''      Booking {{bookingNumber}} i'' @ c_cedilla @ ''in iade talebiniz onayland'' @ i_dotless @ ''. {{totalAmount}} {{currency}} tutar'' @ i_dotless @ '' kart'' @ i_dotless @ ''n'' @ i_dotless @ ''za 3-5 i'' @ s_cedilla @ '' g'' @ u_umlaut @ ''n'' @ u_umlaut @ '' i'' @ c_cedilla @ ''inde geri yans'' @ i_dotless @ ''yacak.'',
       ''      '',
       ''      Te'' @ s_cedilla @ ''ekk'' @ u_umlaut @ ''r ederiz.''],
     et_html = text_lines
      [''<h2>'' @ I_dot @ ''ade onayland'' @ i_dotless @ ''</h2>'',
       ''      <p>Booking <strong>{{bookingNumber}}</strong> i'' @ c_cedilla @ ''in iade talebiniz onayland'' @ i_dotless @ ''.</p>'',
       ''      <p><strong>{{totalAmount}} {{currency}}</strong> tutar'' @ i_dotless @ '' kart'' @ i_dotless @ ''n'' @ i_dotless @ ''za 3-5 i'' @ s_cedilla @ '' g'' @ u_umlaut @ ''n'' @ u_umlaut @ '' i'' @ c_cedilla @ ''inde geri yans'' @ i_dotless @ ''yacak.</p>'']\<rparr>\<close>

definition booking_confirmed_template :: EmailTemplate where
  \<open>booking_confirmed_template = \<lparr>
     et_subject = ''Booking onayland'' @ i_dotless @ '' '' @ dash @ '' {{bookingNumber}}'',
     et_body = text_lines
      [''Merhaba {{attendeeName}},'',
       [],
       O_umlaut @ ''demeniz ba'' @ s_cedilla @ ''ar'' @ i_dotless @ ''yla al'' @ i_dotless @ ''nd'' @ i_dotless @ ''. Booking detaylar'' @ i_dotless @ '':'',
       [],
       ''Booking No: {{bookingNumber}}'',
       ''Etkinlik: {{eventTitle}}'',
       ''Toplam: {{totalAmount}} {{currency}}'',
       [],
       ''Koltuklar'' @ i_dotless @ ''n'' @ i_dotless @ ''z:'',
       ''{{#each seats}}'',
       ''- {{sectionName}} / S'' @ i_dotless @ ''ra {{row}} / Koltuk {{seatNumber}}'',
       ''{{/each}}'',
       [],
       I_dot @ ''yi e'' @ g_breve @ ''lenceler!''],
     et_html = text_lines
      [''<h2>Booking onayland'' @ i_dotless @ ''</h2>'',
       ''<p>Merhaba <strong>{{attendeeName}}</strong>,</p>'',
       ''<p>'' @ O_umlaut @ ''demeniz ba'' @ s_cedilla @ ''ar'' @ i_dotless @ ''yla al'' @ i_dotless @ ''nd'' @ i_dotless @ ''.</p>'',
       ''<table style="border-collapse:collapse">'',
       ''  <tr><td><strong>Booking No:</strong></td><td>{{bookingNumber}}</td></tr>'',
       ''  <tr><td><strong>Etkinlik:</strong></td><td>{{eventTitle}}</td></tr>'',
       ''  <tr><td><strong>Toplam:</strong></td><td>{{totalAmount}} {{currency}}</td></tr>'',
       ''</table>'',
       ''<h3>Koltuklar'' @ i_dotless @ ''n'' @ i_dotless @ ''z</h3>'',
       ''<ul>'',
       ''{{#each seats}}'',
       ''  <li>{{sectionName}} / S'' @ i_dotless @ ''ra {{row}} / Koltuk {{seatNumber}}</li>'',
       ''{{/each}}'',
       ''</ul>'',
       ''<p>'' @ I_dot @ ''yi e'' @ g_breve @ ''lenceler!</p>'']\<rparr>\<close>

definition payment_failed_template :: EmailTemplate where
  \<open>payment_failed_template = \<lparr>
     et_subject = O_umlaut @ ''demeniz ba'' @ s_cedilla @ ''ar'' @ i_dotless @ ''s'' @ i_dotless @ ''z oldu '' @ dash @ '' {{bookingNumber}}'',
     et_body = text_lines
      [''Merhaba,'',
       [],
       ''Booking {{bookingNumber}} i'' @ c_cedilla @ ''in '' @ o_umlaut @ ''demeniz ba'' @ s_cedilla @ ''ar'' @ i_dotless @ ''s'' @ i_dotless @ ''z oldu.'',
       ''Sebep: {{reason}}'',
       [],
       ''Koltuklar'' @ i_dotless @ ''n'' @ i_dotless @ ''z serbest b'' @ i_dotless @ ''rak'' @ i_dotless @ ''ld'' @ i_dotless @ ''. Tekrar denemek isterseniz yeni bir rezervasyon yapabilirsiniz.''],
     et_html = text_lines
      [''<h2>'' @ O_umlaut @ ''demeniz ba'' @ s_cedilla @ ''ar'' @ i_dotless @ ''s'' @ i_dotless @ ''z oldu</h2>'',
       ''<p>Booking <strong>{{bookingNumber}}</strong> i'' @ c_cedilla @ ''in '' @ o_umlaut @ ''demeniz ba'' @ s_cedilla @ ''ar'' @ i_dotless @ ''s'' @ i_dotless @ ''z oldu.</p>'',
       ''<p><strong>Sebep:</strong> {{reason}}</p>'',
       ''<p>Koltuklar'' @ i_dotless @ ''n'' @ i_dotless @ ''z serbest b'' @ i_dotless @ ''rak'' @ i_dotless @ ''ld'' @ i_dotless @ ''.</p>'']\<rparr>\<close>

definition hold_expired_template :: EmailTemplate where
  \<open>hold_expired_template = \<lparr>
     et_subject = ''Koltuk rezervasyonunuz sona erdi'',
     et_body = text_lines
      [''Merhaba,'',
       [],
       ''{{eventTitle}} etkinli'' @ g_breve @ ''i i'' @ c_cedilla @ ''in se'' @ c_cedilla @ ''ti'' @ g_breve @ ''iniz koltuklar i'' @ c_cedilla @ ''in s'' @ u_umlaut @ ''re doldu. Koltuklar tekrar m'' @ u_umlaut @ ''sait durumda.'',
       [],
       ''Rezervasyonunuza devam etmek i'' @ c_cedilla @ ''in yeni bir se'' @ c_cedilla @ ''im yapman'' @ i_dotless @ ''z gerekiyor.''],
     et_html = text_lines
      [''<h2>Rezervasyon s'' @ u_umlaut @ ''resi doldu</h2>'',
       ''<p><strong>{{eventTitle}}</strong> etkinli'' @ g_breve @ ''i i'' @ c_cedilla @ ''in koltuk rezervasyonunuzun s'' @ u_umlaut @ ''resi doldu.</p>'',
       ''<p>Rezervasyonunuza devam etmek i'' @ c_cedilla @ ''in yeni bir se'' @ c_cedilla @ ''im yapman'' @ i_dotless @ ''z gerekiyor.</p>'']\<rparr>\<close>


definition templates :: "(string \<times> EmailTemplate) list" where
  "templates =
     [(''email_verification'', email_verification_template), (''password_reset'', password_reset_template),
      (''booking_refunded'', booking_refunded_template), (''booking_confirmed'', booking_confirmed_template),
      (''payment_failed'', payment_failed_template), (''hold_expired'', hold_expired_template)]"

definition template_missing :: "string \<Rightarrow> string" where
  "template_missing templateId = ''Template '' @ templateId @ '' not found''"

definition rendered :: "exn + string \<Rightarrow> ('w, string) act" where
  "rendered r = (case r of Inl e \<Rightarrow> throw e | Inr s \<Rightarrow> return s)"

definition render :: "(string \<Rightarrow> json \<Rightarrow> exn + string) \<Rightarrow> string \<Rightarrow> json \<Rightarrow> ('w, EmailTemplate) act" where
  "render handlebars templateId data = (case map_of templates templateId of
      None \<Rightarrow> throw (JsError (template_missing templateId))
    | Some template \<Rightarrow>
        await (rendered (handlebars (et_subject template) data)) (\<lambda>subject.
        await (rendered (handlebars (et_body template) data)) (\<lambda>body.
        await (rendered (handlebars (et_html template) data)) (\<lambda>html.
        return \<lparr>et_subject = subject, et_body = body, et_html = html\<rparr>))))"

section \<open>What a template mentions\<close>

text \<open>The names between double braces, without the directives.\<close>

fun mentions :: "string \<Rightarrow> string list" where
  "mentions [] = []"
| "mentions (c # cs) =
     (if c = CHR ''{'' \<and> take 1 cs = ''{'' then takeWhile (\<lambda>d. d \<noteq> CHR ''}'') (tl cs) # mentions cs else mentions cs)"

end
