(* ===== verification/Notification_Service.thy ===== *)
theory Notification_Service
  imports Template_Engine JS_Json
begin

text \<open>
  The notification service: \<^verbatim>\<open>NotificationService\<close> (notification/notification.service.ts) over its table and
  \<^verbatim>\<open>EmailAdapter\<close> (channels/email.adapter.ts), and the consumers that turn the messages of the booking and auth
  services into mails (consumers/booking.consumer.ts, consumers/auth.consumer.ts).

  The SMTP transport, Handlebars and \<^verbatim>\<open>JSON.stringify\<close> (for a value that is stored in a text column) are
  parameters.
\<close>

section \<open>Data\<close>

datatype NotificationChannel = EMAIL | SMS | PUSH

fun channel_text :: "NotificationChannel \<Rightarrow> string" where
  "channel_text EMAIL = ''email''"
| "channel_text SMS = ''sms''"
| "channel_text PUSH = ''push''"

datatype NotificationStatus = QUEUED | SENT | FAILED | DELIVERED | BOUNCED

record Notification =
  nt_id :: string
  nt_userId :: "string option"
  nt_channel :: NotificationChannel
  nt_type :: string
  nt_templateId :: string
  nt_recipient :: string
  nt_payload :: json
  nt_status :: NotificationStatus
  nt_retryCount :: nat
  nt_failureReason :: "string option"
  nt_sentAt :: "int option"
  nt_createdAt :: int

text \<open>The consumers hand on what they find in a message: a user and a recipient may be anything.\<close>

record SendNotificationInput =
  si_userId :: "json option"
  si_channel :: NotificationChannel
  si_type :: string
  si_templateId :: string
  si_recipient :: "json option"
  si_payload :: json

record ChannelMessage =
  cm_to :: "json option"
  cm_subjects :: "string option"
  cm_body :: string
  cm_html :: "string option"

record ChannelResult =
  chr_success :: bool
  chr_providerId :: "string option"
  chr_error :: "string option"

text \<open>The mail that is handed to the transport.\<close>

record mail =
  ml_from :: string
  ml_to :: "json option"
  ml_subject :: string
  ml_text :: string
  ml_html :: "string option"

section \<open>The environment\<close>

record 'w notif_env =
  notificationRepo :: "('w, Notification) repo"
  sendMail :: "mail \<Rightarrow> ('w, string) act"
  handlebarsOf :: "string \<Rightarrow> json \<Rightarrow> exn + string"
  stringify :: "json \<Rightarrow> string"
  EMAIL_FROM :: "string option"
  notifNow :: "('w, int) act"

record notif_store =
  notifications :: "Notification list"
  mails :: "mail list"
  notif_clock :: int
  notif_calm :: bool

text \<open>A mail whose transmission is reported as failed may have been delivered.\<close>

locale notif_world =
  ntf: table_api "notificationRepo N" vw nt_id notifications notifications_update notif_clock "\<lambda>_. True" notif_calm +
  clock_api "notifNow N" vw notif_clock
  for N :: "'w notif_env" and vw :: "'w \<Rightarrow> 'z notif_store_scheme" +
  assumes mail_law: "obeys vw (sendMail N m) (\<lambda>v r v'. case r of
      Inl e \<Rightarrow> (\<exists>n. e = JsError n) \<and> (v' = v \<or> v' = mails_update (\<lambda>l. l @ [m]) v)
    | Inr i \<Rightarrow> v' = mails_update (\<lambda>l. l @ [m]) v)"

section \<open>EmailAdapter\<close>

definition fromAddress :: "'w notif_env \<Rightarrow> string" where
  "fromAddress N = (case EMAIL_FROM N of None \<Rightarrow> ''noreply@example.com'' | Some s \<Rightarrow> s)"

definition channel_mail :: "'w notif_env \<Rightarrow> ChannelMessage \<Rightarrow> mail" where
  "channel_mail N m = \<lparr>ml_from = fromAddress N, ml_to = cm_to m,
     ml_subject = (case cm_subjects m of None \<Rightarrow> [] | Some s \<Rightarrow> s),
     ml_text = cm_body m, ml_html = cm_html m\<rparr>"

definition email_send :: "'w notif_env \<Rightarrow> ChannelMessage \<Rightarrow> ('w, ChannelResult) act" where
  "email_send N m = try_catch
     (await (sendMail N (channel_mail N m)) (\<lambda>messageId.
      return \<lparr>chr_success = True, chr_providerId = Some messageId, chr_error = None\<rparr>))
     (\<lambda>error. return \<lparr>chr_success = False, chr_providerId = None, chr_error = Some (message error)\<rparr>)"

section \<open>NotificationService\<close>

text \<open>
  How a value is stored in a text column: \<^verbatim>\<open>undefined\<close> and \<^verbatim>\<open>null\<close> as NULL, an object or an array as its
  JSON text, anything else as its text.
\<close>

fun column_text :: "(json \<Rightarrow> string) \<Rightarrow> json option \<Rightarrow> string option" where
  "column_text str None = None"
| "column_text str (Some JNull) = None"
| "column_text str (Some (JArr js)) = Some (str (JArr js))"
| "column_text str (Some (JObj fs)) = Some (str (JObj fs))"
| "column_text str (Some j) = Some (js_text j)"

definition new_notification :: "'w notif_env \<Rightarrow> SendNotificationInput \<Rightarrow> string \<Rightarrow> string \<Rightarrow> int \<Rightarrow> Notification" where
  "new_notification N input recipient = (\<lambda>id now.
     \<lparr>nt_id = id, nt_userId = column_text (stringify N) (si_userId input), nt_channel = si_channel input,
      nt_type = si_type input, nt_templateId = si_templateId input, nt_recipient = recipient,
      nt_payload = si_payload input, nt_status = QUEUED, nt_retryCount = 0, nt_failureReason = None,
      nt_sentAt = None, nt_createdAt = now\<rparr>)"

text \<open>The column of the recipient is not nullable.\<close>

definition save_queued :: "'w notif_env \<Rightarrow> SendNotificationInput \<Rightarrow> ('w, Notification) act" where
  "save_queued N input = (case column_text (stringify N) (si_recipient input) of
      None \<Rightarrow> throw (JsError ''null value in column recipient violates not-null constraint'')
    | Some recipient \<Rightarrow>
        await (repo_insert (notificationRepo N) [new_notification N input recipient]) (\<lambda>saved. return (hd saved)))"

definition deliver_mail :: "'w notif_env \<Rightarrow> SendNotificationInput \<Rightarrow> ('w, ChannelResult) act" where
  "deliver_mail N input =
     await (render (handlebarsOf N) (si_templateId input) (si_payload input)) (\<lambda>rendered.
     if si_channel input = EMAIL
     then email_send N \<lparr>cm_to = si_recipient input, cm_subjects = Some (et_subject rendered),
       cm_body = et_body rendered, cm_html = Some (et_html rendered)\<rparr>
     else throw (BadRequest (''Unsupported channel: '' @ channel_text (si_channel input))))"

text \<open>
  \<^verbatim>\<open>return this.notificationRepo.save(saved)\<close> is not awaited inside the \<^verbatim>\<open>try\<close>: its failure is not caught.
\<close>

definition notification_send :: "'w notif_env \<Rightarrow> SendNotificationInput \<Rightarrow> ('w, Notification) act" where
  "notification_send N input =
     await (save_queued N input) (\<lambda>saved.
     await (try_catch
       (await (deliver_mail N input) (\<lambda>result.
        if chr_success result
        then await (notifNow N) (\<lambda>now. return (saved\<lparr>nt_status := SENT, nt_sentAt := Some now\<rparr>))
        else return (saved\<lparr>nt_status := FAILED, nt_failureReason := chr_error result\<rparr>)))
       (\<lambda>error. return (saved\<lparr>nt_status := FAILED, nt_failureReason := Some (message error)\<rparr>))) (\<lambda>saved.
     await (repo_save (notificationRepo N) [saved]) (\<lambda>_.
     return saved)))"

definition notification_findByUser :: "'w notif_env \<Rightarrow> string \<Rightarrow> ('w, Notification list) act" where
  "notification_findByUser N userId = repo_find (notificationRepo N) (\<lambda>n. nt_userId n = Some userId)"

section \<open>Messages\<close>

text \<open>
  A payload is a JSON value or \<^verbatim>\<open>undefined\<close>.  \<open>prop_of\<close> is \<^verbatim>\<open>x.name\<close> on such a value, \<open>value_or_self\<close> is
  \<^verbatim>\<open>payload?.value ?? payload\<close>, \<open>iterate\<close> are the values of \<^verbatim>\<open>for (const item of x)\<close>, and \<open>first_email\<close> is
  \<^verbatim>\<open>data.items?.[0]?.attendeeEmail\<close>, with \<open>x\<close> the value of \<^verbatim>\<open>data.items\<close>.
\<close>

definition prop_of :: "json option \<Rightarrow> string \<Rightarrow> ('w, json option) act" where
  "prop_of x k = (case x of
      None \<Rightarrow> throw (JsError ''Cannot read properties of undefined'')
    | Some j \<Rightarrow> js_prop j k)"

definition value_or_self :: "json option \<Rightarrow> json option" where
  "value_or_self payload = (case payload of
      None \<Rightarrow> None
    | Some p \<Rightarrow> (case json_get p ''value'' of
          None \<Rightarrow> Some p
        | Some x \<Rightarrow> if x = JNull then Some p else Some x))"

fun iterate :: "json option \<Rightarrow> ('w, json list) act" where
  "iterate (Some (JArr js)) = return js"
| "iterate (Some (JStr s)) = return (map (\<lambda>c. JStr [c]) s)"
| "iterate x = throw (JsError ''data.items is not iterable'')"

fun first_email :: "json option \<Rightarrow> json option" where
  "first_email (Some (JArr (x # xs))) = json_get x ''attendeeEmail''"
| "first_email (Some (JObj fs)) = (case map_of fs ''0'' of None \<Rightarrow> None | Some x \<Rightarrow> json_get x ''attendeeEmail'')"
| "first_email x = None"

definition truthy_opt :: "json option \<Rightarrow> bool" where
  "truthy_opt x = (case x of None \<Rightarrow> False | Some j \<Rightarrow> truthy j)"

text \<open>\<^verbatim>\<open>x || s\<close>.\<close>

definition or_text :: "json option \<Rightarrow> string \<Rightarrow> json" where
  "or_text x s = (case x of None \<Rightarrow> JStr s | Some j \<Rightarrow> if truthy j then j else JStr s)"

section \<open>BookingConsumer\<close>

definition confirmed_input :: "json \<Rightarrow> json option \<Rightarrow> json option \<Rightarrow> json option \<Rightarrow> SendNotificationInput" where
  "confirmed_input data items attendeeName attendeeEmail =
     \<lparr>si_userId = json_get data ''userId'', si_channel = EMAIL, si_type = ''booking_confirmed'',
      si_templateId = ''booking_confirmed'', si_recipient = attendeeEmail,
      si_payload = defined
        [(''attendeeName'', Some (or_text attendeeName ''Guest'')),
         (''bookingNumber'', json_get data ''bookingNumber''), (''eventTitle'', json_get data ''eventTitle''),
         (''totalAmount'', json_get data ''totalAmount''), (''currency'', json_get data ''currency''),
         (''seats'', items)]\<rparr>"

definition notif_handleBookingConfirmed :: "'w notif_env \<Rightarrow> json option \<Rightarrow> ('w, unit) act" where
  "notif_handleBookingConfirmed N payload =
     (let data = value_or_self payload in
     await (prop_of data ''items'') (\<lambda>items.
     await (iterate items) (\<lambda>xs.
     for_each xs (\<lambda>item.
       await (prop_of (Some item) ''attendeeEmail'') (\<lambda>attendeeEmail.
       if \<not> truthy_opt attendeeEmail then return ()
       else
       await (notification_send N (confirmed_input (the data) items (json_get item ''attendeeName'') attendeeEmail)) (\<lambda>_.
       return ()))))))"

definition cancelled_input :: "json \<Rightarrow> json option \<Rightarrow> SendNotificationInput" where
  "cancelled_input data primaryEmail =
     \<lparr>si_userId = json_get data ''userId'', si_channel = EMAIL, si_type = ''payment_failed'',
      si_templateId = ''payment_failed'', si_recipient = primaryEmail,
      si_payload = defined
        [(''bookingNumber'', json_get data ''bookingNumber''),
         (''reason'', Some (or_text (json_get data ''cancellationReason'') ''Payment failed''))]\<rparr>"

definition notif_handleBookingCancelled :: "'w notif_env \<Rightarrow> json option \<Rightarrow> ('w, unit) act" where
  "notif_handleBookingCancelled N payload =
     (let data = value_or_self payload in
     await (prop_of data ''items'') (\<lambda>items.
     let primaryEmail = first_email items in
     if \<not> truthy_opt primaryEmail then return ()
     else await (notification_send N (cancelled_input (the data) primaryEmail)) (\<lambda>_. return ())))"

definition refunded_input :: "json \<Rightarrow> json option \<Rightarrow> SendNotificationInput" where
  "refunded_input data primaryEmail =
     \<lparr>si_userId = json_get data ''userId'', si_channel = EMAIL, si_type = ''booking_refunded'',
      si_templateId = ''booking_refunded'', si_recipient = primaryEmail,
      si_payload = defined
        [(''bookingNumber'', json_get data ''bookingNumber''), (''totalAmount'', json_get data ''totalAmount''),
         (''currency'', json_get data ''currency'')]\<rparr>"

definition notif_handleBookingRefunded :: "'w notif_env \<Rightarrow> json option \<Rightarrow> ('w, unit) act" where
  "notif_handleBookingRefunded N payload =
     await (prop_of payload ''value'') (\<lambda>data.
     await (prop_of data ''items'') (\<lambda>items.
     let primaryEmail = first_email items in
     if \<not> truthy_opt primaryEmail then return ()
     else await (notification_send N (refunded_input (the data) primaryEmail)) (\<lambda>_. return ())))"

section \<open>AuthConsumer\<close>

definition auth_input :: "json \<Rightarrow> string \<Rightarrow> string \<Rightarrow> SendNotificationInput" where
  "auth_input data kind urlField =
     \<lparr>si_userId = json_get data ''userId'', si_channel = EMAIL, si_type = kind, si_templateId = kind,
      si_recipient = json_get data ''email'',
      si_payload = defined [(''fullName'', json_get data ''fullName''), (urlField, json_get data urlField)]\<rparr>"

definition handleEmailVerification :: "'w notif_env \<Rightarrow> json option \<Rightarrow> ('w, unit) act" where
  "handleEmailVerification N payload =
     await (prop_of payload ''value'') (\<lambda>data.
     await (prop_of data ''email'') (\<lambda>_.
     await (notification_send N (auth_input (the data) ''email_verification'' ''verificationUrl'')) (\<lambda>_. return ())))"

definition handlePasswordReset :: "'w notif_env \<Rightarrow> json option \<Rightarrow> ('w, unit) act" where
  "handlePasswordReset N payload =
     await (prop_of payload ''value'') (\<lambda>data.
     await (prop_of data ''email'') (\<lambda>_.
     await (notification_send N (auth_input (the data) ''password_reset'' ''resetUrl'')) (\<lambda>_. return ())))"

end
