(* ===== verification/Notification_Properties.thy ===== *)
theory Notification_Properties
  imports Notification_Service Booking_Orchestrator Auth_Service Memory
begin

text \<open>
  What \<^verbatim>\<open>send\<close> records of a notification, and what the messages that the booking and auth services publish
  become when the consumers take them.
\<close>

section \<open>Rendering\<close>

definition rendering :: "(string \<Rightarrow> json \<Rightarrow> exn + string) \<Rightarrow> string \<Rightarrow> json \<Rightarrow> exn + EmailTemplate" where
  "rendering h templateId data = fst (render h templateId data ())"

lemma render_pure: "render h templateId data = (\<lambda>w. (rendering h templateId data, w))"
  by (auto simp: rendering_def render_def rendered_def await_def throw_def return_def fun_eq_iff
      split: option.splits sum.splits)

definition input_mail :: "'w notif_env \<Rightarrow> SendNotificationInput \<Rightarrow> EmailTemplate \<Rightarrow> mail" where
  "input_mail N input t = \<lparr>ml_from = fromAddress N, ml_to = si_recipient input, ml_subject = et_subject t,
     ml_text = et_body t, ml_html = Some (et_html t)\<rparr>"

text \<open>The mails of a delivery: none when there is no text or no channel, one when it succeeds.\<close>

definition may_mail :: "'w notif_env \<Rightarrow> SendNotificationInput \<Rightarrow> mail list \<Rightarrow> bool" where
  "may_mail N input ms \<longleftrightarrow> ms = [] \<or>
     si_channel input = NotificationChannel.EMAIL \<and> (\<exists>t. rendering (handlebarsOf N) (si_templateId input) (si_payload input) = Inr t \<and>
       ms = [input_mail N input t])"

definition completed :: "Notification \<Rightarrow> int \<Rightarrow> mail list \<Rightarrow> Notification \<Rightarrow> bool" where
  "completed q now ms n \<longleftrightarrow>
     ms \<noteq> [] \<and> n = q\<lparr>nt_status := NotificationStatus.SENT, nt_sentAt := Some now\<rparr> \<or>
     (\<exists>reason. n = q\<lparr>nt_status := NotificationStatus.FAILED, nt_failureReason := Some reason\<rparr>)"

definition queued_row :: "'w notif_env \<Rightarrow> SendNotificationInput \<Rightarrow> 'z notif_store_scheme \<Rightarrow> Notification \<Rightarrow> bool" where
  "queued_row N input v q \<longleftrightarrow> (\<exists>recipient i.
     column_text (stringify N) (si_recipient input) = Some recipient \<and> i \<notin> nt_id ` set (notifications v) \<and>
     q = new_notification N input recipient i (notif_clock v))"

definition with_row :: "Notification \<Rightarrow> mail list \<Rightarrow> 'z notif_store_scheme \<Rightarrow> 'z notif_store_scheme" where
  "with_row n ms v = notifications_update (\<lambda>l. l @ [n]) (mails_update (\<lambda>l. l @ ms) v)"

definition send_spec :: "'w notif_env \<Rightarrow> SendNotificationInput \<Rightarrow> 'z notif_store_scheme \<Rightarrow> exn + Notification \<Rightarrow> 'z notif_store_scheme \<Rightarrow> bool" where
  "send_spec N input v r v' \<longleftrightarrow> (case r of
      Inl e \<Rightarrow> (\<exists>m. e = JsError m) \<and> (\<not> notif_calm v \<or> column_text (stringify N) (si_recipient input) = None) \<and>
        (v' = v \<or> (\<exists>q ms. queued_row N input v q \<and> may_mail N input ms \<and> v' = with_row q ms v))
    | Inr n \<Rightarrow> \<exists>q ms. queued_row N input v q \<and> may_mail N input ms \<and> completed q (notif_clock v) ms n \<and>
        v' = with_row n ms v)"

lemma upsert_new_last: "rid x \<notin> rid ` set t \<Longrightarrow> rid y = rid x \<Longrightarrow> upsert rid y (t @ [x]) = t @ [y]"
  by (simp add: upsert_def, intro map_idI) (metis imageI)

context notif_world
begin

lemma email_send_law:
  "obeys vw (email_send N m) (\<lambda>v r v'. \<exists>x ms. r = Inr x \<and> v' = mails_update (\<lambda>l. l @ ms) v \<and>
     ms \<in> {[], [channel_mail N m]} \<and> (if chr_success x then ms \<noteq> [] else \<exists>reason. chr_error x = Some reason))"
proof (rule obeysI)
  fix w
  have keep: "mails_update (\<lambda>l. l @ []) v = v" for v :: "'b notif_store_scheme" by simp
  show "wp (email_send N m) (\<lambda>r w'. \<exists>x ms. r = Inr x \<and> vw w' = mails_update (\<lambda>l. l @ ms) (vw w) \<and>
     ms \<in> {[], [channel_mail N m]} \<and> (if chr_success x then ms \<noteq> [] else \<exists>reason. chr_error x = Some reason)) w"
    unfolding email_send_def wp_simps
  proof (rule wp_obeys [OF mail_law], goal_cases)
    case (1 r w')
    then show ?case
    proof (cases r)
      case (Inl e)
      have "vw w' = vw w \<or> vw w' = mails_update (\<lambda>l. l @ [channel_mail N m]) (vw w)" using 1 Inl by auto
      then obtain ms where ms: "ms \<in> {[], [channel_mail N m]}" "vw w' = mails_update (\<lambda>l. l @ ms) (vw w)"
        using keep [of "vw w"] by (metis insertCI)
      show ?thesis
        unfolding Inl sum.case wp_return
        by (rule exI [of _ "\<lparr>chr_success = False, chr_providerId = None, chr_error = Some (message e)\<rparr>"], rule exI [of _ ms])
          (use ms in simp)
    qed (auto simp: wp_simps intro!: exI [of _ "[channel_mail N m]"])
  qed
qed

lemma deliver_mail_law:
  "obeys vw (deliver_mail N input) (\<lambda>v r v'. \<exists>ms. may_mail N input ms \<and> v' = mails_update (\<lambda>l. l @ ms) v \<and>
     (case r of Inl e \<Rightarrow> True | Inr x \<Rightarrow> if chr_success x then ms \<noteq> [] else \<exists>reason. chr_error x = Some reason))"
proof (rule obeysI)
  fix w :: 'w
  let ?r = "rendering (handlebarsOf N) (si_templateId input) (si_payload input)"
  have none: "may_mail N input []" by (simp add: may_mail_def)
  have wpr: "wp (render (handlebarsOf N) (si_templateId input) (si_payload input)) Q w = Q ?r w" for Q
    by (simp add: wp_def render_pure)
  show "wp (deliver_mail N input) (\<lambda>r w'. \<exists>ms. may_mail N input ms \<and> vw w' = mails_update (\<lambda>l. l @ ms) (vw w) \<and>
     (case r of Inl e \<Rightarrow> True | Inr x \<Rightarrow> if chr_success x then ms \<noteq> [] else \<exists>reason. chr_error x = Some reason)) w"
  proof (cases ?r)
    case (Inl e)
    then show ?thesis using none by (auto simp: deliver_mail_def wp_await wpr intro!: exI [of _ "[]"])
  next
    case (Inr t)
    let ?m = "\<lparr>cm_to = si_recipient input, cm_subjects = Some (et_subject t), cm_body = et_body t, cm_html = Some (et_html t)\<rparr>"
    show ?thesis
    proof (cases "si_channel input = NotificationChannel.EMAIL")
      case True
      then have "may_mail N input ms" if "ms \<in> {[], [channel_mail N ?m]}" for ms
        using that Inr by (auto simp: may_mail_def input_mail_def channel_mail_def)
      then show ?thesis
        unfolding deliver_mail_def wp_await wpr Inr sum.case if_P [OF True]
        by (intro wp_obeys [OF email_send_law]) fastforce
    next
      case False
      then show ?thesis
        using none by (auto simp: deliver_mail_def wp_await wpr Inr wp_throw intro!: exI [of _ "[]"])
    qed
  qed
qed

lemma save_queued_law:
  "obeys vw (save_queued N input) (\<lambda>v r v'. case r of
      Inl e \<Rightarrow> v' = v \<and> (\<exists>m. e = JsError m) \<and> (\<not> notif_calm v \<or> column_text (stringify N) (si_recipient input) = None)
    | Inr q \<Rightarrow> queued_row N input v q \<and> v' = with_row q [] v)"
proof (rule obeysI)
  fix w
  show "wp (save_queued N input) (\<lambda>r w'. case r of
      Inl e \<Rightarrow> vw w' = vw w \<and> (\<exists>m. e = JsError m) \<and> (\<not> notif_calm (vw w) \<or> column_text (stringify N) (si_recipient input) = None)
    | Inr q \<Rightarrow> queued_row N input (vw w) q \<and> vw w' = with_row q [] (vw w)) w"
  proof (cases "column_text (stringify N) (si_recipient input)")
    case (Some recipient)
    let ?mk = "new_notification N input recipient"
    have ins: "insertable nt_id U now [?mk] (\<lambda>_. True)" for U now
      by (simp add: insertable_def keeps_ids_def new_notification_def)
    show ?thesis
      unfolding save_queued_def Some option.case wp_await
    proof (rule wp_fallible [OF ntf.insert_law], goal_cases)
      case (2 xs w')
      then obtain i where xs: "xs = [?mk i (notif_clock (vw w))]" "i \<notin> nt_id ` set (notifications (vw w))"
        by (auto simp: created_def length_Suc_conv)
      then show ?case using 2 Some by (auto simp: wp_simps queued_row_def with_row_def)
    qed (use ins in auto)
  qed (simp add: save_queued_def wp_simps)
qed

lemma send_law: "obeys vw (notification_send N input) (send_spec N input)"
proof (rule obeysI)
  fix w
  let ?v = "vw w"
  show "wp (notification_send N input) (\<lambda>r w'. send_spec N input ?v r (vw w')) w"
    unfolding notification_send_def wp_await wp_try_catch
  proof (rule wp_obeys [OF save_queued_law], goal_cases)
    case (1 r w1)
    show ?case
    proof (cases r)
      case (Inl e)
      then show ?thesis using 1 by (auto simp: send_spec_def)
    next
      case (Inr q)
      then have q: "queued_row N input ?v q" "vw w1 = with_row q [] ?v" using 1 by auto
      have fin: "wp (repo_save (notificationRepo N) [n]) (\<lambda>r w'. case r of Inl e \<Rightarrow> send_spec N input ?v (Inl e) (vw w')
          | Inr a \<Rightarrow> wp (return n) (\<lambda>r w'. send_spec N input ?v r (vw w')) w') w2"
        if n: "completed q (notif_clock ?v) ms n" "may_mail N input ms" "vw w2 = with_row q ms ?v" for n ms w2
      proof (rule wp_fallible [OF ntf.save_law], goal_cases)
        case (1 m w3)
        then have "\<not> notif_calm ?v" "vw w3 = with_row q ms ?v" using n(3) by (auto simp: with_row_def)
        then show ?case using q(1) n(2) by (auto simp: send_spec_def)
      next
        case (2 a w3)
        have new: "nt_id q \<notin> nt_id ` set (notifications ?v)"
          using q(1) by (auto simp: queued_row_def new_notification_def)
        have "nt_id n = nt_id q" using n(1) by (auto simp: completed_def)
        then have "vw w3 = with_row n ms ?v"
          using 2 n(3) upsert_new_last [OF new] by (auto simp: with_row_def)
        then show ?case using q(1) n(1,2) by (auto simp: wp_simps send_spec_def)
      qed
      show ?thesis
        unfolding Inr sum.case wp_await
      proof (rule wp_obeys [OF deliver_mail_law], goal_cases)
        case (1 r w2)
        then obtain ms where ms: "may_mail N input ms" "vw w2 = with_row q ms ?v"
            "case r of Inl e \<Rightarrow> True | Inr x \<Rightarrow> if chr_success x then ms \<noteq> [] else \<exists>reason. chr_error x = Some reason"
          using q(2) by (auto simp: with_row_def)
        show ?case
        proof (cases r)
          case (Inl e)
          then show ?thesis
            using ms(1,2) fin unfolding Inl sum.case wp_return by (auto simp: completed_def)
        next
          case (Inr x)
          show ?thesis
          proof (cases "chr_success x")
            case True
            then have c: "completed q (notif_clock ?v) ms (q\<lparr>nt_status := NotificationStatus.SENT, nt_sentAt := Some (notif_clock ?v)\<rparr>)"
              using ms(3) Inr by (simp add: completed_def)
            show ?thesis
              unfolding Inr sum.case if_P [OF True] wp_await
            proof (rule wp_obeys [OF now_law], goal_cases)
              case (1 r w3)
              then have "r = Inr (notif_clock ?v)" "vw w3 = with_row q ms ?v" using ms(2) by (auto simp: with_row_def)
              then show ?case using fin [OF c ms(1)] by (simp add: wp_return)
            qed
          next
            case False
            then obtain reason where "chr_error x = Some reason" using ms(3) Inr by auto
            then have c: "completed q (notif_clock ?v) ms (q\<lparr>nt_status := NotificationStatus.FAILED, nt_failureReason := chr_error x\<rparr>)"
              by (auto simp: completed_def)
            show ?thesis
              using False fin [OF c ms(1,2)] unfolding Inr by (simp add: wp_return)
          qed
        qed
      qed
    qed
  qed
qed

end

section \<open>A series of notifications\<close>

text \<open>What a send that returns adds: the row, and the mails that went out for it.\<close>

definition answer :: "'w notif_env \<Rightarrow> int \<Rightarrow> SendNotificationInput \<Rightarrow> Notification \<times> mail list \<Rightarrow> bool" where
  "answer N now input = (\<lambda>(n, ms). \<exists>recipient i.
     column_text (stringify N) (si_recipient input) = Some recipient \<and> may_mail N input ms \<and>
     completed (new_notification N input recipient i now) now ms n)"

definition answered :: "(Notification \<times> mail list) list \<Rightarrow> 'z notif_store_scheme \<Rightarrow> 'z notif_store_scheme" where
  "answered xs v = notifications_update (\<lambda>l. l @ map fst xs) (mails_update (\<lambda>l. l @ concat (map snd xs)) v)"

lemma answered_simps [simp]:
  "answered [] v = v" "answered ys (answered xs v) = answered (xs @ ys) v"
  "notif_clock (answered xs v) = notif_clock v" "notif_calm (answered xs v) = notif_calm v"
  "notifications (answered xs v) = notifications v @ map fst xs"
  "mails (answered xs v) = mails v @ concat (map snd xs)"
  by (simp_all add: answered_def comp_def)

lemma send_answer:
  assumes "send_spec N input v (Inr n) v'"
  shows "\<exists>ms. answer N (notif_clock v) input (n, ms) \<and> v' = answered [(n, ms)] v"
  using assms by (fastforce simp: send_spec_def answer_def queued_row_def with_row_def answered_def)

definition send_all :: "'w notif_env \<Rightarrow> SendNotificationInput list \<Rightarrow> ('w, unit) act" where
  "send_all N inputs = for_each inputs (\<lambda>input. await (notification_send N input) (\<lambda>_. return ()))"

context notif_world
begin

lemma send_all_law:
  "obeys vw (send_all N inputs) (\<lambda>v r v'. case r of
      Inl e \<Rightarrow> (\<exists>m. e = JsError m) \<and>
        (\<not> notif_calm v \<or> (\<exists>i\<in>set inputs. column_text (stringify N) (si_recipient i) = None))
    | Inr u \<Rightarrow> \<exists>xs. list_all2 (answer N (notif_clock v)) inputs xs \<and> v' = answered xs v)"
proof (induction inputs)
  case (Cons i js)
  show ?case
  proof (rule obeysI, unfold send_all_def for_each.simps wp_await, rule wp_obeys [OF send_law], goal_cases)
    case (1 w r w1)
    show ?case
    proof (cases r)
      case (Inl e)
      then show ?thesis using 1 by (auto simp: send_spec_def)
    next
      case (Inr n)
      then obtain ms where ms: "answer N (notif_clock (vw w)) i (n, ms)" "vw w1 = answered [(n, ms)] (vw w)"
        using 1 send_answer by blast
      show ?thesis
        unfolding Inr sum.case wp_return
      proof (rule wp_obeys [OF Cons.IH [unfolded send_all_def]], goal_cases)
        case (1 r w2)
        then show ?case
        proof (cases r)
          case (Inr u)
          then obtain xs where "list_all2 (answer N (notif_clock (vw w))) js xs" "vw w2 = answered ((n, ms) # xs) (vw w)"
            using 1 ms by auto
          then show ?thesis using ms(1) unfolding Inr sum.case by (intro exI [of _ "(n, ms) # xs"]) simp
        qed (use ms 1 in auto)
      qed
    qed
  qed
qed (simp add: send_all_def obeys_return)

end

section \<open>What the consumers make of the messages\<close>

text \<open>An email is used when it is there and not empty.\<close>

definition usable :: "BookingItem \<Rightarrow> string list" where
  "usable item = (case bi_attendeeEmail item of None \<Rightarrow> [] | Some e \<Rightarrow> if e = [] then [] else [e])"

definition attendee_emails :: "BookingItem list \<Rightarrow> string list" where
  "attendee_emails items = concat (map usable items)"

definition confirmed_inputs :: "json \<Rightarrow> BookingItem list \<Rightarrow> SendNotificationInput list" where
  "confirmed_inputs data items = map (\<lambda>item. confirmed_input data (json_get data ''items'')
     (Some (opt_json (bi_attendeeName item))) (Some (opt_json (bi_attendeeEmail item)))) (filter (\<lambda>item. usable item \<noteq> []) items)"

text \<open>A message as Kafka hands it over: the value itself, or the value in an envelope.\<close>

definition delivered :: "json \<Rightarrow> json option set" where
  "delivered data = {Some data, Some (JObj [(''value'', data)])}"

lemma item_json_get [simp]:
  "json_get (item_json i) ''attendeeName'' = Some (opt_json (bi_attendeeName i))"
  "json_get (item_json i) ''attendeeEmail'' = Some (opt_json (bi_attendeeEmail i))"
  by (simp_all add: item_json_def attendee_fields_def)

lemma item_json_prop [simp]: "prop_of (Some (item_json i)) k = return (json_get (item_json i) k)"
  by (simp add: prop_of_def js_prop_def item_json_def)

lemma truthy_opt_json [simp]: "truthy_opt (Some (opt_json (bi_attendeeEmail i))) \<longleftrightarrow> usable i \<noteq> []"
  by (simp add: truthy_opt_def opt_json_def usable_def split: option.splits)

lemma await_return_left [simp]: "await (return a) k = k a"
  by (simp add: await_def return_def fun_eq_iff)

lemma await_return_right: "await m return = m"
  by (auto simp: await_def return_def fun_eq_iff split: prod.splits sum.splits)

lemma truthy_opt_None [simp]: "\<not> truthy_opt None"
  by (simp add: truthy_opt_def)

lemma delivered_value: "payload \<in> delivered (JObj fs) \<Longrightarrow> map_of fs ''value'' = None \<Longrightarrow> value_or_self payload = Some (JObj fs)"
  by (auto simp: delivered_def value_or_self_def)

lemma handle_confirmed_sends:
  assumes "payload \<in> delivered (confirmed_payload b eventId items)"
  shows "notif_handleBookingConfirmed N payload = send_all N (confirmed_inputs (confirmed_payload b eventId items) items)"
proof -
  let ?d = "confirmed_payload b eventId items"
  have d: "json_get ?d ''items'' = Some (JArr (map item_json items))" "prop_of (Some ?d) k = return (json_get ?d k)"
      "value_or_self payload = Some ?d" for k
    using assms delivered_value [of payload "booking_fields b eventId @ [(''items'', JArr (map item_json items))]"]
    by (simp_all add: confirmed_payload_def booking_fields_def prop_of_def js_prop_def)
  let ?body = "\<lambda>item. await (prop_of (Some item) ''attendeeEmail'') (\<lambda>attendeeEmail.
       if \<not> truthy_opt attendeeEmail then return ()
       else await (notification_send N (confirmed_input ?d (json_get ?d ''items'') (json_get item ''attendeeName'') attendeeEmail)) (\<lambda>_.
         return ()))"
  have loop: "for_each (map item_json xs) ?body = send_all N (confirmed_inputs ?d xs)" for xs
    by (induction xs) (simp_all add: confirmed_inputs_def send_all_def)
  have it: "iterate (json_get ?d ''items'') = return (map item_json items)" by (simp add: d)
  show ?thesis
    unfolding notif_handleBookingConfirmed_def Let_def d(3) d(2) await_return_left option.sel it by (rule loop)
qed

lemma handle_cancelled_sends:
  assumes "payload \<in> delivered (cancelled_payload b items)"
  shows "notif_handleBookingCancelled N payload = send_all N
    (case items of [] \<Rightarrow> [] | item # _ \<Rightarrow> if usable item = [] then [] else
       [cancelled_input (cancelled_payload b items) (Some (opt_json (bi_attendeeEmail item)))])"
proof -
  let ?d = "cancelled_payload b items"
  have d: "json_get ?d ''items'' = Some (JArr (map item_json items))" "prop_of (Some ?d) k = return (json_get ?d k)"
      "value_or_self payload = Some ?d" for k
    using assms delivered_value [of payload "booking_fields b (bk_eventId b) @
      [(''status'', JStr (booking_status_text (bk_status b))), (''items'', JArr (map item_json items))]"]
    by (simp_all add: cancelled_payload_def booking_fields_def prop_of_def js_prop_def)
  have first: "first_email (json_get ?d ''items'') =
      (case items of [] \<Rightarrow> None | item # _ \<Rightarrow> Some (opt_json (bi_attendeeEmail item)))"
    by (simp add: d split: list.split)
  show ?thesis
    unfolding notif_handleBookingCancelled_def Let_def d(3) d(2) await_return_left option.sel first
    by (cases items) (simp_all add: send_all_def await_return_right)
qed


lemma handle_refunded_sends:
  "notif_handleBookingRefunded N (Some (JObj [(''value'', refunded_payload b items)])) = send_all N
    (case items of [] \<Rightarrow> [] | item # _ \<Rightarrow> if usable item = [] then [] else
       [refunded_input (refunded_payload b items) (Some (opt_json (bi_attendeeEmail item)))])"
proof -
  let ?d = "refunded_payload b items"
  have d: "json_get ?d ''items'' = Some (JArr (map (\<lambda>item. JObj (attendee_fields item)) items))"
      "prop_of (Some ?d) k = return (json_get ?d k)" for k
    by (simp_all add: refunded_payload_def booking_fields_def prop_of_def js_prop_def)
  have e: "prop_of (Some (JObj [(''value'', ?d)])) ''value'' = return (Some ?d)" by (simp add: prop_of_def js_prop_def)
  have first: "first_email (json_get ?d ''items'') =
      (case items of [] \<Rightarrow> None | item # _ \<Rightarrow> Some (opt_json (bi_attendeeEmail item)))"
    by (simp add: d attendee_fields_def split: list.split)
  show ?thesis
    unfolding notif_handleBookingRefunded_def Let_def e d(2) await_return_left option.sel first
    by (cases items) (simp_all add: send_all_def await_return_right)
qed

text \<open>The answer to the message of a confirmed booking, item by item.\<close>

definition told :: "Booking \<Rightarrow> Notification \<Rightarrow> bool" where
  "told b n \<longleftrightarrow> nt_templateId n = ''booking_confirmed'' \<and> nt_userId n = Some (bk_userId b) \<and>
     nt_status n \<in> {NotificationStatus.SENT, NotificationStatus.FAILED} \<and>
     json_get (nt_payload n) ''bookingNumber'' = Some (JStr (bk_bookingNumber b)) \<and>
     json_get (nt_payload n) ''eventTitle'' = None"

definition counted :: "Notification \<times> mail list \<Rightarrow> bool" where
  "counted x \<longleftrightarrow> length (snd x) \<le> 1 \<and> (nt_status (fst x) = NotificationStatus.SENT \<longrightarrow> snd x \<noteq> [])"

lemma answer_counted: "answer N now input x \<Longrightarrow> counted x"
  by (auto simp: answer_def counted_def may_mail_def completed_def new_notification_def)

lemma counted_length:
  "list_all counted xs \<Longrightarrow>
     length (filter (\<lambda>n. nt_status n = NotificationStatus.SENT) (map fst xs)) \<le> length (concat (map snd xs)) \<and>
     length (concat (map snd xs)) \<le> length (map fst xs)"
  by (induction xs) (auto simp: counted_def neq_Nil_conv)

lemma answer_confirmed:
  assumes "answer N now (confirmed_input (confirmed_payload b eventId items) is an
      (Some (opt_json (bi_attendeeEmail item)))) (n, ms)" "usable item = [e]"
  shows "nt_recipient n = e \<and> told b n \<and> (\<forall>m\<in>set ms. ml_to m = Some (JStr e))"
proof -
  let ?i = "confirmed_input (confirmed_payload b eventId items) is an (Some (opt_json (bi_attendeeEmail item)))"
  have e: "bi_attendeeEmail item = Some e" using assms(2) by (auto simp: usable_def split: option.splits if_splits)
  have pay: "json_get (si_payload ?i) ''bookingNumber'' = Some (JStr (bk_bookingNumber b))" "json_get (si_payload ?i) ''eventTitle'' = None"
    by (simp_all add: confirmed_input_def defined_get confirmed_payload_def booking_fields_def)
  have user: "si_userId ?i = Some (JStr (bk_userId b))" "si_recipient ?i = Some (JStr e)" "si_templateId ?i = ''booking_confirmed''"
    by (simp_all add: confirmed_input_def confirmed_payload_def booking_fields_def e opt_json_def)
  obtain i where n: "completed (new_notification N ?i e i now) now ms n" "may_mail N ?i ms"
    using assms(1) by (auto simp: answer_def user)
  have "told b n \<and> nt_recipient n = e"
    using n(1) pay user by (auto simp: completed_def told_def new_notification_def)
  moreover have "\<forall>m\<in>set ms. ml_to m = Some (JStr e)"
    using n(2) by (auto simp: may_mail_def input_mail_def user)
  ultimately show ?thesis by simp
qed

lemma answers_confirmed:
  assumes "list_all2 (answer N now) (confirmed_inputs (confirmed_payload b eventId items) its) xs"
  shows "map nt_recipient (map fst xs) = attendee_emails its \<and> list_all (told b) (map fst xs) \<and> list_all counted xs \<and>
    (\<forall>m\<in>set (concat (map snd xs)). \<exists>e\<in>set (attendee_emails its). ml_to m = Some (JStr e))"
  using assms
proof (induction its arbitrary: xs)
  case Nil
  then show ?case by (simp add: confirmed_inputs_def attendee_emails_def)
next
  case (Cons item its)
  show ?case
  proof (cases "usable item = []")
    case True
    then show ?thesis using Cons by (simp add: confirmed_inputs_def attendee_emails_def)
  next
    case False
    then obtain e where e: "usable item = [e]" by (auto simp: usable_def split: option.splits if_splits)
    have "list_all2 (answer N now) (confirmed_input (confirmed_payload b eventId items)
        (json_get (confirmed_payload b eventId items) ''items'') (Some (opt_json (bi_attendeeName item)))
        (Some (opt_json (bi_attendeeEmail item))) # confirmed_inputs (confirmed_payload b eventId items) its) xs"
      using Cons.prems False by (simp add: confirmed_inputs_def)
    then obtain n ms ys where xs: "xs = (n, ms) # ys" "list_all2 (answer N now) (confirmed_inputs (confirmed_payload b eventId items) its) ys"
        "answer N now (confirmed_input (confirmed_payload b eventId items)
        (json_get (confirmed_payload b eventId items) ''items'') (Some (opt_json (bi_attendeeName item)))
        (Some (opt_json (bi_attendeeEmail item)))) (n, ms)"
      by (auto simp: list_all2_Cons1)
    note a = answer_confirmed [OF xs(3) e] answer_counted [OF xs(3)] Cons.IH [OF xs(2)]
    have em: "attendee_emails (item # its) = e # attendee_emails its" by (simp add: attendee_emails_def e)
    show ?thesis unfolding xs(1) em using a by auto
  qed
qed

lemma confirmed_recipient:
  "i \<in> set (confirmed_inputs data items) \<Longrightarrow> column_text str (si_recipient i) \<noteq> None"
  by (auto simp: confirmed_inputs_def confirmed_input_def usable_def opt_json_def split: option.splits if_splits)

section \<open>The invariant\<close>

text \<open>
  Every row has an id of its own, is in one of three states and says when it was sent or why it was not; no
  notification is ever tried again.
\<close>

definition notification_ok :: "Notification \<Rightarrow> bool" where
  "notification_ok n \<longleftrightarrow> nt_status n \<in> {NotificationStatus.QUEUED, NotificationStatus.SENT, NotificationStatus.FAILED} \<and>
     (nt_status n = NotificationStatus.SENT \<longleftrightarrow> nt_sentAt n \<noteq> None) \<and>
     (nt_status n = NotificationStatus.FAILED \<longleftrightarrow> nt_failureReason n \<noteq> None) \<and> nt_retryCount n = 0"

definition notif_ok :: "'z notif_store_scheme \<Rightarrow> bool" where
  "notif_ok v \<longleftrightarrow> distinct (map nt_id (notifications v)) \<and> list_all notification_ok (notifications v) \<and>
     length (filter (\<lambda>n. nt_status n = NotificationStatus.SENT) (notifications v)) \<le> length (mails v)"

lemma send_spec_ok:
  assumes "send_spec N input v r v'" "notif_ok v"
  shows "notif_ok v'"
proof -
  have q: "nt_id q \<notin> nt_id ` set (notifications v)" "notification_ok q" "nt_status q = NotificationStatus.QUEUED"
      "nt_retryCount q = 0" "nt_sentAt q = None" "nt_failureReason q = None"
    if "queued_row N input v q" for q
    using that by (auto simp: queued_row_def new_notification_def notification_ok_def)
  show ?thesis
    using assms by (auto simp: send_spec_def notif_ok_def with_row_def q completed_def notification_ok_def Suc_le_eq
        dest: q split: sum.splits intro!: le_trans [OF Suc_leI] simp flip: length_greater_0_conv)
qed

inductive notif_step :: "'w notif_env \<Rightarrow> 'w \<Rightarrow> 'w \<Rightarrow> bool" for N where
  confirmed: "notif_handleBookingConfirmed N payload w = (r, w') \<Longrightarrow> notif_step N w w'"
| cancelled: "notif_handleBookingCancelled N payload w = (r, w') \<Longrightarrow> notif_step N w w'"
| refunded: "notif_handleBookingRefunded N payload w = (r, w') \<Longrightarrow> notif_step N w w'"
| verification: "handleEmailVerification N payload w = (r, w') \<Longrightarrow> notif_step N w w'"
| reset: "handlePasswordReset N payload w = (r, w') \<Longrightarrow> notif_step N w w'"
| sent: "notification_send N input w = (r, w') \<Longrightarrow> notif_step N w w'"

lemma obeys_prop_of: "obeys vw (prop_of x k) (\<lambda>v r v'. v' = v)"
  by (auto simp: prop_of_def js_prop_def obeys_def wp_simps split: option.splits)

lemma obeys_iterate: "obeys vw (iterate x) (\<lambda>v r v'. v' = v)"
  by (cases x rule: iterate.cases) (auto simp: obeys_def wp_simps)

text \<open>What every action of a sequence keeps is kept by the sequence.\<close>

definition keeps :: "('w \<Rightarrow> 'v) \<Rightarrow> ('v \<Rightarrow> bool) \<Rightarrow> ('w, 'a) act \<Rightarrow> bool" where
  "keeps vw I m \<longleftrightarrow> obeys vw m (\<lambda>v r v'. I v \<longrightarrow> I v')"

lemma keeps_same: "obeys vw m (\<lambda>v r v'. v' = v) \<Longrightarrow> keeps vw I m"
  unfolding keeps_def by (erule obeys_weaken) simp

lemma keeps_return: "keeps vw I (return a)"
  by (simp add: keeps_def obeys_return)

lemma keeps_await: "keeps vw I m \<Longrightarrow> (\<And>a. keeps vw I (k a)) \<Longrightarrow> keeps vw I (await m k)"
  unfolding keeps_def
proof (rule obeysI, unfold wp_await)
  fix w
  assume m: "obeys vw m (\<lambda>v r v'. I v \<longrightarrow> I v')" and k: "\<And>a. obeys vw (k a) (\<lambda>v r v'. I v \<longrightarrow> I v')"
  show "wp m (\<lambda>r w'. case r of Inl e \<Rightarrow> I (vw w) \<longrightarrow> I (vw w')
      | Inr a \<Rightarrow> wp (k a) (\<lambda>r w'. I (vw w) \<longrightarrow> I (vw w')) w') w"
    by (rule wp_obeys [OF m]) (auto split: sum.split intro!: wp_obeys [OF k])
qed

lemma keeps_for_each: "(\<And>x. keeps vw I (body x)) \<Longrightarrow> keeps vw I (for_each xs body)"
  by (induction xs) (auto intro: keeps_return keeps_await)

context notif_world
begin

lemma send_keeps: "keeps vw notif_ok (notification_send N input)"
  unfolding keeps_def by (rule obeys_weaken [OF send_law]) (auto intro: send_spec_ok)

lemmas notif_keeps = keeps_await keeps_for_each keeps_return send_keeps
  keeps_same [OF obeys_prop_of] keeps_same [OF obeys_iterate]

lemma notif_step_ok: "notif_step N w w' \<Longrightarrow> notif_ok (vw w) \<Longrightarrow> notif_ok (vw w')"
proof (induction rule: notif_step.induct)
  case (confirmed payload w r w')
  have "keeps vw notif_ok (notif_handleBookingConfirmed N payload)"
    by (auto simp: notif_handleBookingConfirmed_def Let_def intro!: notif_keeps)
  then show ?case using confirmed by (auto simp: keeps_def dest: obeysD)
next
  case (cancelled payload w r w')
  have "keeps vw notif_ok (notif_handleBookingCancelled N payload)"
    by (auto simp: notif_handleBookingCancelled_def Let_def intro!: notif_keeps)
  then show ?case using cancelled by (auto simp: keeps_def dest: obeysD)
next
  case (refunded payload w r w')
  have "keeps vw notif_ok (notif_handleBookingRefunded N payload)"
    by (auto simp: notif_handleBookingRefunded_def Let_def intro!: notif_keeps)
  then show ?case using refunded by (auto simp: keeps_def dest: obeysD)
next
  case (verification payload w r w')
  have "keeps vw notif_ok (handleEmailVerification N payload)"
    by (auto simp: handleEmailVerification_def intro!: notif_keeps)
  then show ?case using verification by (auto simp: keeps_def dest: obeysD)
next
  case (reset payload w r w')
  have "keeps vw notif_ok (handlePasswordReset N payload)"
    by (auto simp: handlePasswordReset_def intro!: notif_keeps)
  then show ?case using reset by (auto simp: keeps_def dest: obeysD)
next
  case (sent input w r w')
  then show ?case using send_keeps [of input] by (auto simp: keeps_def dest: obeysD)
qed

end

section \<open>An in-memory instance\<close>

record notif_mem = mem_base +
  m_notifications :: "Notification list"
  m_mails :: "mail list"

definition notif_view :: "'z notif_mem_scheme \<Rightarrow> 'z notif_store_scheme" where
  "notif_view w = \<lparr>notifications = m_notifications w, mails = m_mails w, notif_clock = mem_clock w,
     notif_calm = steady w, \<dots> = notif_mem.more w\<rparr>"

text \<open>A transport that takes every mail it is asked to send, and templates that are rendered as they stand.\<close>

definition mem_notif_env :: "'z notif_mem_scheme notif_env" where
  "mem_notif_env = \<lparr>
     notificationRepo = mem_repo nt_id m_notifications m_notifications_update (\<lambda>_. True),
     sendMail = (\<lambda>m. mem_step (\<lambda>w. (Inr ''m1'', m_mails_update (\<lambda>l. l @ [m]) w))),
     handlebarsOf = (\<lambda>t d. Inr t), stringify = (\<lambda>j. ''{}''), EMAIL_FROM = None, notifNow = mem_now\<rparr>"

lemma notif_view_blind: "blind notif_view notif_calm"
  by (simp add: blind_def notif_view_def)

interpretation mem_ntf: mem_table notif_view nt_id m_notifications m_notifications_update notifications notifications_update
    notif_clock "\<lambda>_. True" notif_calm
  by unfold_locales (simp_all add: notif_view_blind, simp_all add: notif_view_def)

lemma mem_mail_law: "obeys notif_view (mem_step (\<lambda>w. (Inr i, m_mails_update (\<lambda>l. l @ [m]) w))) (\<lambda>v r v'. case r of
      Inl e \<Rightarrow> (\<exists>n. e = JsError n) \<and> (v' = v \<or> v' = mails_update (\<lambda>l. l @ [m]) v)
    | Inr i \<Rightarrow> v' = mails_update (\<lambda>l. l @ [m]) v)"
  by (auto simp: obeys_def wp_def mem_step_def notif_view_def split: list.splits option.splits)

interpretation mem_notif_time: mem_time notif_view notif_clock
  by unfold_locales (simp add: notif_view_def)

interpretation mem_notif: notif_world mem_notif_env notif_view
  by (simp add: notif_world_def notif_world_axioms_def mem_notif_env_def mem_ntf.table_api_axioms mem_mail_law
      mem_notif_time.clock_api_axioms)

definition quiet_desk :: notif_mem where
  "quiet_desk = \<lparr>steady = True, faults = [], mem_clock = 1000, m_notifications = [], m_mails = []\<rparr>"

section \<open>Properties\<close>

text \<open>
  C27.  A notification that is sent is recorded once, and its row tells what became of it: sent, with the time,
  only when the mail went to the transport; failed, with the reason, when there is no template, the text cannot be
  rendered, the channel is not email or the transport refuses.  None of these is an exception for the caller.  Only
  the database is, and then the row is either missing or still queued, whether or not the mail is gone.
\<close>

theorem notification_outcome:
  assumes "notif_world N vw" "notification_send N input w = (r, w')"
  shows "case r of
      Inl e \<Rightarrow> (\<exists>m. e = JsError m) \<and>
        (\<not> notif_calm (vw w) \<or> column_text (stringify N) (si_recipient input) = None) \<and>
        (notifications (vw w') = notifications (vw w) \<and> mails (vw w') = mails (vw w) \<or>
         (\<exists>q ms. queued_row N input (vw w) q \<and> may_mail N input ms \<and>
            notifications (vw w') = notifications (vw w) @ [q] \<and> mails (vw w') = mails (vw w) @ ms))
    | Inr n \<Rightarrow> \<exists>q ms. queued_row N input (vw w) q \<and> may_mail N input ms \<and> completed q (notif_clock (vw w)) ms n \<and>
        notifications (vw w') = notifications (vw w) @ [n] \<and> mails (vw w') = mails (vw w) @ ms"
  using obeysD [OF notif_world.send_law [OF assms(1)] assms(2)]
  by (fastforce simp: send_spec_def with_row_def split: sum.splits)

definition sms_input :: SendNotificationInput where
  "sms_input = \<lparr>si_userId = None, si_channel = NotificationChannel.SMS, si_type = ''code'',
     si_templateId = ''password_reset'', si_recipient = Some (JStr ''+90''), si_payload = JObj []\<rparr>"

theorem notification_outcome_witness:
  "\<exists>n w'. notification_send mem_notif_env sms_input quiet_desk = (Inr n, w') \<and>
     nt_failureReason n = Some ''Unsupported channel: sms'' \<and> (\<exists>q ms. completed q 1000 ms n \<and> m_mails w' = ms)"
proof -
  obtain n w' where run: "notification_send mem_notif_env sms_input quiet_desk = (Inr n, w')"
      "nt_failureReason n = Some ''Unsupported channel: sms''"
  proof -
    have "case notification_send mem_notif_env sms_input quiet_desk of (Inl e, w') \<Rightarrow> False
      | (Inr n, w') \<Rightarrow> nt_failureReason n = Some ''Unsupported channel: sms''"
      by code_simp
    then show ?thesis using that by (auto split: prod.splits sum.splits)
  qed
  with notification_outcome [OF mem_notif.notif_world_axioms run(1)] show ?thesis
    by (auto simp: notif_view_def quiet_desk_def)
qed

text \<open>
  C25.  The consumer of the confirmed bookings sends one notification for each item whose attendee has an email, in
  the order of the items, to that email and for the user of the booking, whether Kafka hands over the value or an
  envelope around it; a mail that fails does not keep the others from being sent, and the consumer fails only when
  the database does.  The message it takes has no title of the event, and the template asks for one.
\<close>

theorem confirmed_mails:
  assumes "notif_world N vw" "payload \<in> delivered (confirmed_payload b eventId items)"
    and "notif_handleBookingConfirmed N payload w = (r, w')"
  shows "(case r of Inl e \<Rightarrow> \<not> notif_calm (vw w) | Inr u \<Rightarrow>
      \<exists>ns ms. notifications (vw w') = notifications (vw w) @ ns \<and> mails (vw w') = mails (vw w) @ ms \<and>
        map nt_recipient ns = attendee_emails items \<and>
        (\<forall>n\<in>set ns. nt_templateId n = ''booking_confirmed'' \<and> nt_userId n = Some (bk_userId b) \<and>
           nt_status n \<in> {NotificationStatus.SENT, NotificationStatus.FAILED} \<and>
           json_get (nt_payload n) ''bookingNumber'' = Some (JStr (bk_bookingNumber b)) \<and>
           json_get (nt_payload n) ''eventTitle'' = None) \<and>
        length (filter (\<lambda>n. nt_status n = NotificationStatus.SENT) ns) \<le> length ms \<and> length ms \<le> length ns \<and>
        (\<forall>m\<in>set ms. \<exists>e\<in>set (attendee_emails items). ml_to m = Some (JStr e))) \<and>
    ''eventTitle'' \<in> set (mentions (et_body booking_confirmed_template))" (is "?main \<and> _")
proof (intro conjI)
  have law: "case r of
      Inl e \<Rightarrow> (\<exists>m. e = JsError m) \<and> (\<not> notif_calm (vw w) \<or> (\<exists>i\<in>set (confirmed_inputs (confirmed_payload b eventId items) items).
        column_text (stringify N) (si_recipient i) = None))
    | Inr u \<Rightarrow> \<exists>xs. list_all2 (answer N (notif_clock (vw w))) (confirmed_inputs (confirmed_payload b eventId items) items) xs \<and>
        vw w' = answered xs (vw w)"
    by (rule obeysD [OF notif_world.send_all_law [OF assms(1)] assms(3) [unfolded handle_confirmed_sends [OF assms(2)]]])
  show ?main
  proof (cases r)
    case (Inl e)
    then show ?thesis using law confirmed_recipient by fastforce
  next
    case (Inr u)
    then obtain xs where xs: "list_all2 (answer N (notif_clock (vw w))) (confirmed_inputs (confirmed_payload b eventId items) items) xs"
        "vw w' = answered xs (vw w)" using law by auto
    note a = answers_confirmed [OF xs(1)]
    show ?thesis
      unfolding Inr sum.case using a counted_length [of xs]
      by (intro exI [of _ "map fst xs"] exI [of _ "concat (map snd xs)"]) (simp add: xs(2) list_all_iff told_def)
  qed
  show "''eventTitle'' \<in> set (mentions (et_body booking_confirmed_template))" by code_simp
qed

definition some_booking :: Booking where
  "some_booking = \<lparr>bk_id = ''b1'', bk_bookingNumber = ''BK-1'', bk_userId = ''u1'', bk_eventId = ''e1'',
     bk_status = BookingStatus.CANCELLED, bk_totalAmount = ''100.00'', bk_currency = ''TRY'', bk_expiresAt = 0,
     bk_confirmedAt = None, bk_cancelledAt = Some 900, bk_cancellationReason = Some ''Payment error: declined'',
     bk_refundState = None, bk_refundIdempotencyKey = None, bk_refundRetryCount = 0, bk_refundLastError = None,
     bk_createdAt = 0\<rparr>"

definition some_item :: "string option \<Rightarrow> BookingItem" where
  "some_item email = \<lparr>bi_id = ''i1'', bi_bookingId = ''b1'', bi_seatInventoryId = ''s1'', bi_seatId = ''A_1'',
     bi_ticketTypeId = ''t1'', bi_ticketTypeName = ''Standard'', bi_sectionName = ''Stalls'', bi_row = ''A'',
     bi_seatNumber = ''1'', bi_unitPrice = ''100.00'', bi_attendeeName = None, bi_attendeeEmail = email\<rparr>"

theorem confirmed_mails_witness:
  "\<exists>w'. notif_handleBookingConfirmed mem_notif_env
        (Some (confirmed_payload some_booking ''e1'' [some_item (Some ''a@x''), some_item None, some_item (Some ''b@x'')])) quiet_desk
      = (Inr (), w') \<and> map nt_recipient (m_notifications w') = [''a@x'', ''b@x'']"
proof -
  let ?p = "confirmed_payload some_booking ''e1'' [some_item (Some ''a@x''), some_item None, some_item (Some ''b@x'')]"
  obtain r w' where run: "notif_handleBookingConfirmed mem_notif_env (Some ?p) quiet_desk = (r, w')" by fastforce
  have "Some ?p \<in> delivered ?p" by (simp add: delivered_def)
  from confirmed_mails [OF mem_notif.notif_world_axioms this run, THEN conjunct1] show ?thesis
    using run by (cases r) (auto simp: notif_view_def quiet_desk_def attendee_emails_def usable_def some_item_def)
qed

text \<open>
  The consumer of the cancelled bookings tells the attendee of the first item, if it has an email, and nobody
  else.  Whatever reason the booking was cancelled for, the mail says \<^verbatim>\<open>Payment failed\<close>: the message that the
  booking service publishes does not carry the reason the consumer reads.
\<close>

theorem cancelled_mail:
  assumes "notif_world N vw" "payload \<in> delivered (cancelled_payload b items)"
    and "notif_handleBookingCancelled N payload w = (r, w')"
  shows "case r of Inl e \<Rightarrow> \<not> notif_calm (vw w) | Inr u \<Rightarrow>
      \<exists>ns. notifications (vw w') = notifications (vw w) @ ns \<and>
        map nt_recipient ns = (case items of [] \<Rightarrow> [] | item # _ \<Rightarrow> usable item) \<and>
        (\<forall>n\<in>set ns. nt_templateId n = ''payment_failed'' \<and>
           nt_payload n = JObj [(''bookingNumber'', JStr (bk_bookingNumber b)), (''reason'', JStr ''Payment failed'')])"
proof -
  let ?is = "case items of [] \<Rightarrow> [] | item # _ \<Rightarrow> if usable item = [] then [] else
       [cancelled_input (cancelled_payload b items) (Some (opt_json (bi_attendeeEmail item)))]"
  have law: "case r of
      Inl e \<Rightarrow> (\<exists>m. e = JsError m) \<and> (\<not> notif_calm (vw w) \<or> (\<exists>i\<in>set ?is. column_text (stringify N) (si_recipient i) = None))
    | Inr u \<Rightarrow> \<exists>xs. list_all2 (answer N (notif_clock (vw w))) ?is xs \<and> vw w' = answered xs (vw w)"
    by (rule obeysD [OF notif_world.send_all_law [OF assms(1)] assms(3) [unfolded handle_cancelled_sends [OF assms(2)]]])
  have "cancelled_input (cancelled_payload b items) x = \<lparr>si_userId = Some (JStr (bk_userId b)), si_channel = NotificationChannel.EMAIL,
      si_type = ''payment_failed'', si_templateId = ''payment_failed'', si_recipient = x,
      si_payload = JObj [(''bookingNumber'', JStr (bk_bookingNumber b)), (''reason'', JStr ''Payment failed'')]\<rparr>" for x
    by (simp add: cancelled_input_def cancelled_payload_def booking_fields_def defined_def or_text_def)
  note input = this
  show ?thesis
  proof (cases "\<exists>item xs e. items = item # xs \<and> usable item = [e]")
    case True
    then obtain item xs e where it: "items = item # xs" "usable item = [e]" "bi_attendeeEmail item = Some e"
      by (fastforce simp: usable_def split: option.splits if_splits)
    let ?i = "\<lparr>si_userId = Some (JStr (bk_userId b)), si_channel = NotificationChannel.EMAIL,
      si_type = ''payment_failed'', si_templateId = ''payment_failed'', si_recipient = Some (JStr e),
      si_payload = JObj [(''bookingNumber'', JStr (bk_bookingNumber b)), (''reason'', JStr ''Payment failed'')]\<rparr>"
    have eq: "?is = [?i]" using it(2,3) by (simp add: it(1) input [unfolded it(1)] opt_json_def)
    show ?thesis
    proof (cases r)
      case (Inl m)
      then show ?thesis using law unfolding eq by simp
    next
      case (Inr u)
      then obtain n ms where n: "answer N (notif_clock (vw w)) ?i (n, ms)" "vw w' = answered [(n, ms)] (vw w)"
        using law unfolding eq by (auto simp: list_all2_Cons1)
      then show ?thesis
        unfolding Inr sum.case
        by (intro exI [of _ "[n]"]) (auto simp: it answer_def completed_def new_notification_def)
    qed
  next
    case False
    then have "?is = []" "(case items of [] \<Rightarrow> [] | item # _ \<Rightarrow> usable item) = []"
      by (auto simp: usable_def split: list.splits option.splits if_splits)
    then show ?thesis using law by (auto split: sum.splits)
  qed
qed

theorem cancelled_mail_witness:
  "\<exists>w'. notif_handleBookingCancelled mem_notif_env
        (Some (cancelled_payload some_booking [some_item (Some ''a@x''), some_item (Some ''b@x'')])) quiet_desk
      = (Inr (), w') \<and> map nt_recipient (m_notifications w') = [''a@x'']"
proof -
  let ?p = "cancelled_payload some_booking [some_item (Some ''a@x''), some_item (Some ''b@x'')]"
  obtain r w' where run: "notif_handleBookingCancelled mem_notif_env (Some ?p) quiet_desk = (r, w')" by fastforce
  have "Some ?p \<in> delivered ?p" by (simp add: delivered_def)
  from cancelled_mail [OF mem_notif.notif_world_axioms this run] show ?thesis
    using run by (cases r) (auto simp: notif_view_def quiet_desk_def usable_def some_item_def)
qed

text \<open>
  C26.  Three consumers expect an envelope.  Kafka's deserializer hands a handler the value of the message, as
  the consumer of the confirmed bookings takes into account; the consumers of refunds, email verifications and
  password resets read its property \<^verbatim>\<open>value\<close>, which none of the published messages has, and throw before anything is
  recorded or sent.  In an envelope, the message of a refund is sent to the attendee of the first item.
\<close>

theorem unwrapped_messages_lost:
  "notif_handleBookingRefunded N (Some (refunded_payload b items)) w =
     (Inl (JsError ''Cannot read properties of undefined''), w) \<and>
   handleEmailVerification N (Some (mail_payload userId email fullName ''verificationUrl'' url expires)) w =
     (Inl (JsError ''Cannot read properties of undefined''), w) \<and>
   handlePasswordReset N (Some (mail_payload userId email fullName ''resetUrl'' url expires)) w =
     (Inl (JsError ''Cannot read properties of undefined''), w) \<and>
   notif_handleBookingRefunded N (Some (JObj [(''value'', refunded_payload b items)])) =
     send_all N (case items of [] \<Rightarrow> [] | item # _ \<Rightarrow> if usable item = [] then [] else
       [refunded_input (refunded_payload b items) (Some (opt_json (bi_attendeeEmail item)))])"
proof (intro conjI handle_refunded_sends)
  have none: "json_get (refunded_payload b items) ''value'' = None" "refunded_payload b items \<noteq> JNull"
    by (simp_all add: refunded_payload_def booking_fields_def)
  then show "notif_handleBookingRefunded N (Some (refunded_payload b items)) w =
      (Inl (JsError ''Cannot read properties of undefined''), w)"
    by (simp add: notif_handleBookingRefunded_def prop_of_def js_prop_def) (simp add: await_def throw_def)
qed (simp_all add: handleEmailVerification_def handlePasswordReset_def prop_of_def js_prop_def mail_payload_def,
     simp_all add: await_def throw_def)

text \<open>
  C28.  The invariant of the notification service.  Whatever messages arrive and whatever fails, every row has an id of
  its own, is queued, sent or failed and accordingly has the time or the reason, and no more rows are marked as
  sent than mails were handed to the transport.  A row that has failed stays so: the retry count is always zero.
\<close>

theorem notification_service_invariant:
  assumes "notif_world N vw" "(notif_step N)\<^sup>*\<^sup>* w w'" "notif_ok (vw w)"
  shows "notif_ok (vw w')"
  using assms(2,3)
  by (induction rule: rtranclp_induct) (auto intro: notif_world.notif_step_ok [OF assms(1)])

theorem notification_service_invariant_witness:
  "\<exists>w'. (notif_step mem_notif_env)\<^sup>*\<^sup>* quiet_desk w' \<and> m_notifications w' \<noteq> [] \<and> notif_ok (notif_view w' :: notif_store)"
proof -
  have sent: "case notification_send mem_notif_env sms_input quiet_desk of (r, w') \<Rightarrow> m_notifications w' \<noteq> []"
    by code_simp
  obtain r w' where run: "notification_send mem_notif_env sms_input quiet_desk = (r, w')" by fastforce
  then have "(notif_step mem_notif_env)\<^sup>*\<^sup>* quiet_desk w'" by (intro r_into_rtranclp notif_step.sent)
  moreover have "notif_ok (notif_view quiet_desk :: notif_store)"
    by (simp add: notif_ok_def notif_view_def quiet_desk_def)
  ultimately show ?thesis
    using notification_service_invariant [OF mem_notif.notif_world_axioms] sent run by fastforce
qed

end
