(* ===== verification/Proto_Wire.thy ===== *)
theory Proto_Wire
  imports Prelude JS_Number
begin

text \<open>
  What the generated gRPC stubs share (libs/grpc/src/generated): the loop of every \<^verbatim>\<open>decode\<close>, the statements of
  every \<^verbatim>\<open>encode\<close>, and when a message survives the wire.

  \<^verbatim>\<open>BinaryWriter\<close> and \<^verbatim>\<open>BinaryReader\<close> of \<^verbatim>\<open>@bufbuild/protobuf\<close> are parameters.  A writer only appends, so
  \<open>put_x v\<close> is what \<^verbatim>\<open>writer.x(v)\<close> appends.  A reader is a buffer and a position; \<open>get_x\<close> takes them to an
  exception, or to the value and the number of bytes it has moved on, one less than that for \<open>get_uint32\<close>, which
  always reads a byte.
\<close>

section \<open>The wire\<close>

record 'b wire =
  put_uint32 :: "nat \<Rightarrow> 'b list"
  put_string :: "string \<Rightarrow> 'b list"
  put_bool :: "bool \<Rightarrow> 'b list"
  put_double :: "js_number \<Rightarrow> 'b list"
  get_uint32 :: "'b list \<Rightarrow> nat \<Rightarrow> exn + nat \<times> nat"
  get_string :: "'b list \<Rightarrow> nat \<Rightarrow> exn + string \<times> nat"
  get_bool :: "'b list \<Rightarrow> nat \<Rightarrow> exn + bool \<times> nat"
  get_double :: "'b list \<Rightarrow> nat \<Rightarrow> exn + js_number \<times> nat"
  skip_field :: "nat \<Rightarrow> 'b list \<Rightarrow> nat \<Rightarrow> exn + nat"

text \<open>What is written is read back, wherever it stands; lengths are written as 32 bits.\<close>

locale wire_format =
  fixes W :: "'b wire"
  assumes uint32_law: "n < 2 ^ 32 \<Longrightarrow> \<exists>k. length (put_uint32 W n) = Suc k \<and>
      get_uint32 W (pre @ put_uint32 W n @ post) (length pre) = Inr (n, k)"
    and string_law: "length (put_string W s) < 2 ^ 32 \<Longrightarrow>
      get_string W (pre @ put_string W s @ post) (length pre) = Inr (s, length (put_string W s))"
    and bool_law: "get_bool W (pre @ put_bool W b @ post) (length pre) = Inr (b, length (put_bool W b))"
    and double_law: "get_double W (pre @ put_double W x @ post) (length pre) = Inr (x, length (put_double W x))"

section \<open>Encoding\<close>

text \<open>\<^verbatim>\<open>if (message.x !== "") writer.uint32(tag).string(message.x)\<close>, and the same for the other defaults.\<close>

definition put_text :: "'b wire \<Rightarrow> nat \<Rightarrow> string \<Rightarrow> 'b list" where
  "put_text W tag s = (if s \<noteq> [] then put_uint32 W tag @ put_string W s else [])"

definition put_flag :: "'b wire \<Rightarrow> nat \<Rightarrow> bool \<Rightarrow> 'b list" where
  "put_flag W tag b = (if b \<noteq> False then put_uint32 W tag @ put_bool W b else [])"

definition put_number :: "'b wire \<Rightarrow> nat \<Rightarrow> js_number \<Rightarrow> 'b list" where
  "put_number W tag x = (if x \<noteq> Fin 0 then put_uint32 W tag @ put_double W x else [])"

text \<open>\<^verbatim>\<open>for (const v of message.xs) writer.uint32(tag).string(v)\<close>.\<close>

definition put_texts :: "'b wire \<Rightarrow> nat \<Rightarrow> string list \<Rightarrow> 'b list" where
  "put_texts W tag vs = concat (map (\<lambda>v. put_uint32 W tag @ put_string W v) vs)"

text \<open>\<^verbatim>\<open>X.encode(v, writer.uint32(tag).fork()).join()\<close>: \<^verbatim>\<open>join\<close> puts the length in front.\<close>

definition put_nested :: "'b wire \<Rightarrow> nat \<Rightarrow> 'b list \<Rightarrow> 'b list" where
  "put_nested W tag bytes = put_uint32 W tag @ put_uint32 W (length bytes) @ bytes"

section \<open>Decoding\<close>

text \<open>
  The cases of the \<^verbatim>\<open>switch\<close> over \<^verbatim>\<open>tag >>> 3\<close>, each with the tag it expects; \<open>None\<close> is what comes out of the
  \<^verbatim>\<open>switch\<close> by \<^verbatim>\<open>break\<close>.
\<close>

definition switch_tag :: "nat \<Rightarrow> (nat \<times> nat \<times> 'a) list \<Rightarrow> 'a option" where
  "switch_tag tag cases = (case map_of cases (tag div 8) of
      None \<Rightarrow> None
    | Some (expected, read) \<Rightarrow> if tag \<noteq> expected then None else Some read)"

text \<open>\<^verbatim>\<open>message.x = reader.get()\<close>, and \<^verbatim>\<open>X.decode(reader, reader.uint32())\<close>.\<close>

definition read_with :: "(nat \<Rightarrow> exn + 'a \<times> nat) \<Rightarrow> ('a \<Rightarrow> 'm) \<Rightarrow> nat \<Rightarrow> exn + 'm \<times> nat" where
  "read_with get f p = (case get p of Inl e \<Rightarrow> Inl e | Inr (x, n) \<Rightarrow> Inr (f x, n))"

definition read_nested ::
  "'b wire \<Rightarrow> 'b list \<Rightarrow> ('b list \<Rightarrow> nat \<Rightarrow> nat option \<Rightarrow> exn + 'a \<times> nat) \<Rightarrow> nat \<Rightarrow> exn + 'a \<times> nat" where
  "read_nested W buf decode p = (case get_uint32 W buf p of
      Inl e \<Rightarrow> Inl e
    | Inr (len, k) \<Rightarrow> (case decode buf (p + Suc k) (Some len) of
          Inl e \<Rightarrow> Inl e
        | Inr (x, pos) \<Rightarrow> Inr (x, pos - p)))"

text \<open>The loop \<^verbatim>\<open>while (reader.pos < end)\<close>.  It ends on every input, as each round reads a tag.\<close>

function read_fields ::
  "'b wire \<Rightarrow> 'b list \<Rightarrow> (nat \<Rightarrow> 'm \<Rightarrow> (nat \<Rightarrow> exn + 'm \<times> nat) option) \<Rightarrow> nat \<Rightarrow> 'm \<Rightarrow> nat \<Rightarrow> exn + 'm \<times> nat" where
  "read_fields W buf cases until msg pos =
     (if pos < until then
        (case get_uint32 W buf pos of
           Inl e \<Rightarrow> Inl e
         | Inr (tag, k) \<Rightarrow>
             (case cases tag msg of
                Some read \<Rightarrow> (case read (pos + Suc k) of
                    Inl e \<Rightarrow> Inl e
                  | Inr (msg', n) \<Rightarrow> read_fields W buf cases until msg' (pos + Suc k + n))
              | None \<Rightarrow>
                  if tag mod 8 = 4 \<or> tag = 0 then Inr (msg, pos + Suc k)
                  else (case skip_field W (tag mod 8) buf (pos + Suc k) of
                      Inl e \<Rightarrow> Inl e
                    | Inr n \<Rightarrow> read_fields W buf cases until msg (pos + Suc k + n))))
      else Inr (msg, pos))"
  by pat_completeness auto
termination
  by (relation "measure (\<lambda>(W, buf, cases, until, msg, pos). until - pos)") auto

declare read_fields.simps [simp del]

text \<open>A \<^verbatim>\<open>decode\<close>: \<open>base\<close> is the message it starts from.\<close>

definition decode_with ::
  "'b wire \<Rightarrow> ('b list \<Rightarrow> nat \<Rightarrow> 'm \<Rightarrow> (nat \<Rightarrow> exn + 'm \<times> nat) option) \<Rightarrow> 'm \<Rightarrow> 'b list \<Rightarrow> nat \<Rightarrow> nat option \<Rightarrow> exn + 'm \<times> nat" where
  "decode_with W cases base buf pos len =
     (let until = (case len of None \<Rightarrow> length buf | Some l \<Rightarrow> pos + l) in read_fields W buf (cases buf) until base pos)"

text \<open>\<^verbatim>\<open>X.decode(value)\<close> of a whole buffer.\<close>

definition decode_all :: "('b list \<Rightarrow> nat \<Rightarrow> nat option \<Rightarrow> exn + 'm \<times> nat) \<Rightarrow> 'b list \<Rightarrow> exn + 'm" where
  "decode_all decode buf = (case decode buf 0 None of Inl e \<Rightarrow> Inl e | Inr (m, pos) \<Rightarrow> Inr m)"

section \<open>What is read back\<close>

text \<open>Reading the bytes \<open>b\<close>, wherever they stand, takes the message from \<open>m\<close> to \<open>m'\<close>.\<close>

definition absorbs ::
  "'b wire \<Rightarrow> ('b list \<Rightarrow> nat \<Rightarrow> 'm \<Rightarrow> (nat \<Rightarrow> exn + 'm \<times> nat) option) \<Rightarrow> 'b list \<Rightarrow> 'm \<Rightarrow> 'm \<Rightarrow> bool" where
  "absorbs W cases b m m' \<longleftrightarrow> length b < 2 ^ 32 \<longrightarrow> (\<forall>pre post until. length pre + length b \<le> until \<longrightarrow>
     read_fields W (pre @ b @ post) (cases (pre @ b @ post)) until m (length pre) =
     read_fields W (pre @ b @ post) (cases (pre @ b @ post)) until m' (length pre + length b))"

lemma absorbs_Nil: "absorbs W cases [] m m"
  by (simp add: absorbs_def)

lemma absorbsD:
  "absorbs W cases b m m' \<Longrightarrow> length b < 2 ^ 32 \<Longrightarrow> length pre + length b \<le> until \<Longrightarrow>
     read_fields W (pre @ b @ post) (cases (pre @ b @ post)) until m (length pre) =
     read_fields W (pre @ b @ post) (cases (pre @ b @ post)) until m' (length pre + length b)"
  unfolding absorbs_def by blast

lemma absorbs_append:
  fixes W :: "'b wire"
  assumes "absorbs W cases b m m'" "absorbs W cases c m' m''"
  shows "absorbs W cases (b @ c) m m''"
  unfolding absorbs_def
proof (intro impI allI)
  fix pre post :: "'b list" and until
  assume len: "length (b @ c) < 2 ^ 32" and u: "length pre + length (b @ c) \<le> until"
  have n: "length b < 2 ^ 32" "length c < 2 ^ 32" "length pre + length b \<le> until" "length (pre @ b) + length c \<le> until"
    using len u by auto
  show "read_fields W (pre @ (b @ c) @ post) (cases (pre @ (b @ c) @ post)) until m (length pre) =
      read_fields W (pre @ (b @ c) @ post) (cases (pre @ (b @ c) @ post)) until m'' (length pre + length (b @ c))"
    using absorbsD [OF assms(1) n(1,3), of "c @ post"] absorbsD [OF assms(2) n(2,4), of post] by (simp add: add.assoc)
qed

lemma absorbs_eq: "absorbs W cases b m m' \<Longrightarrow> m' = m'' \<Longrightarrow> absorbs W cases b m m''"
  by simp

text \<open>A message that is absorbed is decoded, as a part of a buffer and as the whole of one.\<close>

lemma absorbs_decode:
  assumes "absorbs W cases b base m" "length b < 2 ^ 32"
  shows "decode_with W cases base (pre @ b @ post) (length pre) (Some (length b)) = Inr (m, length pre + length b)"
    and "decode_all (decode_with W cases base) b = Inr m"
proof -
  have stop: "read_fields W buf cs u m u = Inr (m, u)" for buf cs u by (simp add: read_fields.simps)
  have a: "length pre + length b \<le> until \<Longrightarrow> read_fields W (pre @ b @ post) (cases (pre @ b @ post)) until base (length pre) =
     read_fields W (pre @ b @ post) (cases (pre @ b @ post)) until m (length pre + length b)" for pre post until
    using assms unfolding absorbs_def by blast
  show "decode_with W cases base (pre @ b @ post) (length pre) (Some (length b)) = Inr (m, length pre + length b)"
    using a [of pre "length pre + length b" post] stop by (simp add: decode_with_def)
  show "decode_all (decode_with W cases base) b = Inr m"
    using a [of "[]" "length b" "[]"] stop by (simp add: decode_all_def decode_with_def)
qed

text \<open>A message inside a message.\<close>

definition nests :: "('a \<Rightarrow> 'b list) \<Rightarrow> ('b list \<Rightarrow> nat \<Rightarrow> nat option \<Rightarrow> exn + 'a \<times> nat) \<Rightarrow> bool" where
  "nests enc dec \<longleftrightarrow> (\<forall>x pre post. length (enc x) < 2 ^ 32 \<longrightarrow>
     dec (pre @ enc x @ post) (length pre) (Some (length (enc x))) = Inr (x, length pre + length (enc x)))"

context wire_format
begin

text \<open>One field: a tag the cases know, and a value.\<close>

lemma absorbs_field:
  assumes "tag < 2 ^ 32" "\<And>buf. cases buf tag m = Some (read_with (get buf) f)" "length v < 2 ^ 32"
    and "\<And>pre post. length (put_uint32 W tag @ v) < 2 ^ 32 \<Longrightarrow> get (pre @ v @ post) (length pre) = Inr (x, length v)"
  shows "absorbs W cases (put_uint32 W tag @ v) m (f x)"
  unfolding absorbs_def
proof (intro impI allI)
  fix pre post :: "'b list" and until
  let ?b = "put_uint32 W tag @ v"
  let ?buf = "pre @ ?b @ post"
  assume len: "length ?b < 2 ^ 32" and u: "length pre + length ?b \<le> until"
  obtain k where k: "length (put_uint32 W tag) = Suc k" "get_uint32 W ?buf (length pre) = Inr (tag, k)"
    using uint32_law [OF assms(1), of pre "v @ post"] by auto
  have "get ?buf (length pre + Suc k) = Inr (x, length v)"
    using assms(4) [of "pre @ put_uint32 W tag" post] len k(1) by simp
  then have v: "read_with (get ?buf) f (length pre + Suc k) = Inr (f x, length v)" by (simp add: read_with_def)
  show "read_fields W ?buf (cases ?buf) until m (length pre) = read_fields W ?buf (cases ?buf) until (f x) (length pre + length ?b)"
    by (subst read_fields.simps) (use u k v assms(2) in \<open>simp add: add.assoc\<close>)
qed

lemma absorbs_text:
  assumes "\<And>buf m. cases buf tag m = Some (read_with (get_string W buf) (\<lambda>s. upd (\<lambda>_. s) m))"
    and "tag < 2 ^ 32" "upd (\<lambda>_. []) m = m"
  shows "absorbs W cases (put_text W tag s) m (upd (\<lambda>_. s) m)"
proof (cases "s = []")
  case False
  have "absorbs W cases (put_uint32 W tag @ put_string W s) m (upd (\<lambda>_. s) m)" if "length (put_string W s) < 2 ^ 32"
    using that by (intro absorbs_field [where get = "get_string W" and f = "\<lambda>s. upd (\<lambda>_. s) m"] assms string_law)
  then show ?thesis using False by (auto simp: put_text_def absorbs_def)
qed (use assms(3) in \<open>simp add: put_text_def absorbs_Nil\<close>)

lemma absorbs_flag:
  assumes "\<And>buf m. cases buf tag m = Some (read_with (get_bool W buf) (\<lambda>s. upd (\<lambda>_. s) m))"
    and "tag < 2 ^ 32" "upd (\<lambda>_. False) m = m"
  shows "absorbs W cases (put_flag W tag b) m (upd (\<lambda>_. b) m)"
proof (cases b)
  case True
  have "absorbs W cases (put_uint32 W tag @ put_bool W b) m (upd (\<lambda>_. b) m)" if "length (put_bool W b) < 2 ^ 32"
    using that by (intro absorbs_field [where get = "get_bool W" and f = "\<lambda>s. upd (\<lambda>_. s) m"] assms bool_law)
  then show ?thesis using True by (auto simp: put_flag_def absorbs_def)
qed (use assms(3) in \<open>simp add: put_flag_def absorbs_Nil\<close>)

lemma absorbs_number:
  assumes "\<And>buf m. cases buf tag m = Some (read_with (get_double W buf) (\<lambda>s. upd (\<lambda>_. s) m))"
    and "tag < 2 ^ 32" "upd (\<lambda>_. Fin 0) m = m"
  shows "absorbs W cases (put_number W tag x) m (upd (\<lambda>_. x) m)"
proof (cases "x = Fin 0")
  case False
  have "absorbs W cases (put_uint32 W tag @ put_double W x) m (upd (\<lambda>_. x) m)" if "length (put_double W x) < 2 ^ 32"
    using that by (intro absorbs_field [where get = "get_double W" and f = "\<lambda>s. upd (\<lambda>_. s) m"] assms double_law)
  then show ?thesis using False by (auto simp: put_number_def absorbs_def)
qed (use assms(3) in \<open>simp add: put_number_def absorbs_Nil\<close>)

text \<open>Repeated fields are pushed in order.\<close>

lemma absorbs_each:
  assumes "\<And>v m. absorbs W cases (put v) m (upd (\<lambda>xs. xs @ [v]) m)"
    and "\<And>f g m. upd g (upd f m) = upd (\<lambda>xs. g (f xs)) m" "upd (\<lambda>xs. xs) m = m"
  shows "absorbs W cases (concat (map put vs)) m (upd (\<lambda>xs. xs @ vs) m)"
  using assms(3)
proof (induction vs arbitrary: m)
  case Nil
  then show ?case by (simp add: absorbs_Nil)
next
  case (Cons v vs)
  have "upd (\<lambda>xs. xs) (upd (\<lambda>xs. xs @ [v]) m) = upd (\<lambda>xs. xs @ [v]) m" by (simp add: assms(2))
  then have "absorbs W cases (put v @ concat (map put vs)) m (upd (\<lambda>xs. xs @ vs) (upd (\<lambda>xs. xs @ [v]) m))"
    by (rule absorbs_append [OF assms(1) Cons.IH])
  then show ?case by (simp add: assms(2))
qed

lemma absorbs_texts:
  assumes "\<And>buf m. cases buf tag m = Some (read_with (get_string W buf) (\<lambda>s. upd (\<lambda>xs. xs @ [s]) m))" "tag < 2 ^ 32"
    and "\<And>f g m. upd g (upd f m) = upd (\<lambda>xs. g (f xs)) m" "upd (\<lambda>xs. xs) m = m"
  shows "absorbs W cases (put_texts W tag vs) m (upd (\<lambda>xs. xs @ vs) m)"
  unfolding put_texts_def
proof (rule absorbs_each [where upd = upd, OF _ assms(3,4)])
  fix v m
  have "absorbs W cases (put_uint32 W tag @ put_string W v) m (upd (\<lambda>xs. xs @ [v]) m)" if "length (put_string W v) < 2 ^ 32"
    using that by (intro absorbs_field [where get = "get_string W" and f = "\<lambda>s. upd (\<lambda>xs. xs @ [s]) m"] assms string_law)
  then show "absorbs W cases (put_uint32 W tag @ put_string W v) m (upd (\<lambda>xs. xs @ [v]) m)" by (auto simp: absorbs_def)
qed

lemma nested_law:
  assumes "nests enc dec" "length (put_uint32 W (length (enc x)) @ enc x) < 2 ^ 32"
  shows "read_nested W (pre @ (put_uint32 W (length (enc x)) @ enc x) @ post) dec (length pre) =
    Inr (x, length (put_uint32 W (length (enc x)) @ enc x))"
proof -
  let ?n = "length (enc x)"
  have n: "?n < 2 ^ 32" using assms(2) by simp
  obtain k where k: "length (put_uint32 W ?n) = Suc k" "get_uint32 W (pre @ put_uint32 W ?n @ (enc x @ post)) (length pre) = Inr (?n, k)"
    using uint32_law [OF n] by blast
  have "dec ((pre @ put_uint32 W ?n) @ enc x @ post) (length (pre @ put_uint32 W ?n)) (Some ?n) =
      Inr (x, length (pre @ put_uint32 W ?n) + ?n)"
    using assms(1) n unfolding nests_def by blast
  then show ?thesis using k by (simp add: read_nested_def)
qed

lemma absorbs_nested:
  assumes "\<And>buf m. cases buf tag m = Some (read_with (read_nested W buf dec) (\<lambda>x. f x m))" "tag < 2 ^ 32" "nests enc dec"
  shows "absorbs W cases (put_nested W tag (enc x)) m (f x m)"
proof -
  let ?v = "put_uint32 W (length (enc x)) @ enc x"
  have "absorbs W cases (put_uint32 W tag @ ?v) m (f x m)" if "length ?v < 2 ^ 32"
    using that by (intro absorbs_field [where get = "\<lambda>buf. read_nested W buf dec" and f = "\<lambda>x. f x m"] assms nested_law)
  then show ?thesis by (auto simp: put_nested_def absorbs_def)
qed

lemma absorbs_messages:
  assumes "\<And>buf m. cases buf tag m = Some (read_with (read_nested W buf dec) (\<lambda>x. upd (\<lambda>xs. xs @ [x]) m))" "tag < 2 ^ 32"
    and "nests enc dec" "\<And>f g m. upd g (upd f m) = upd (\<lambda>xs. g (f xs)) m" "upd (\<lambda>xs. xs) m = m"
  shows "absorbs W cases (concat (map (\<lambda>x. put_nested W tag (enc x)) vs)) m (upd (\<lambda>xs. xs @ vs) m)"
  by (rule absorbs_each [where upd = upd, OF _ assms(4,5)])
    (rule absorbs_nested [where cases = cases and f = "\<lambda>x. upd (\<lambda>xs. xs @ [x])", OF assms(1-3)])

lemma absorbs_message:
  assumes "\<And>buf m. cases buf tag m = Some (read_with (read_nested W buf dec) (\<lambda>x. upd (\<lambda>_. Some x) m))" "tag < 2 ^ 32"
    and "nests enc dec" "upd (\<lambda>_. None) m = m"
  shows "absorbs W cases (case v of None \<Rightarrow> [] | Some x \<Rightarrow> put_nested W tag (enc x)) m (upd (\<lambda>_. v) m)"
  using assms(4) absorbs_nested [where cases = cases and f = "\<lambda>x. upd (\<lambda>_. Some x)", OF assms(1-3)]
  by (cases v) (simp_all add: absorbs_Nil)

end

text \<open>
  A message type survives the wire: what is decoded from its encoding is the message, and so it is inside another
  message.
\<close>

definition survives :: "('m \<Rightarrow> 'b list) \<Rightarrow> ('b list \<Rightarrow> nat \<Rightarrow> nat option \<Rightarrow> exn + 'm \<times> nat) \<Rightarrow> bool" where
  "survives enc dec \<longleftrightarrow> (\<forall>m. length (enc m) < 2 ^ 32 \<longrightarrow> decode_all dec (enc m) = Inr m)"

lemma absorbs_survives:
  assumes "\<And>m. absorbs W cases (enc m) base m"
  shows "survives enc (decode_with W cases base)" and "nests enc (decode_with W cases base)"
  unfolding survives_def nests_def using absorbs_decode [OF assms] by blast+

section \<open>The methods of a service\<close>

text \<open>The description of a method for \<^verbatim>\<open>@grpc/grpc-js\<close>.\<close>

record ('b, 'q, 'r) grpc_method =
  gm_path :: string
  gm_requestStream :: bool
  gm_responseStream :: bool
  gm_requestSerialize :: "'q \<Rightarrow> 'b list"
  gm_requestDeserialize :: "'b list \<Rightarrow> exn + 'q"
  gm_responseSerialize :: "'r \<Rightarrow> 'b list"
  gm_responseDeserialize :: "'b list \<Rightarrow> exn + 'r"

text \<open>A method as its client sees it: the request goes over the wire to the handler, and the answer comes back.\<close>

definition over_wire :: "('b, 'q, 'r) grpc_method \<Rightarrow> ('q \<Rightarrow> ('w, 'r) act) \<Rightarrow> 'q \<Rightarrow> ('w, 'r) act" where
  "over_wire G handler q = (case gm_requestDeserialize G (gm_requestSerialize G q) of
      Inl e \<Rightarrow> throw e
    | Inr q' \<Rightarrow> await (handler q') (\<lambda>r. case gm_responseDeserialize G (gm_responseSerialize G r) of
        Inl e \<Rightarrow> throw e | Inr r' \<Rightarrow> return r'))"

text \<open>The wire is transparent for a method, up to messages of 4 GiB.\<close>

definition transparent :: "('b, 'q, 'r) grpc_method \<Rightarrow> bool" where
  "transparent G \<longleftrightarrow>
     (\<forall>q. length (gm_requestSerialize G q) < 2 ^ 32 \<longrightarrow> gm_requestDeserialize G (gm_requestSerialize G q) = Inr q) \<and>
     (\<forall>r. length (gm_responseSerialize G r) < 2 ^ 32 \<longrightarrow> gm_responseDeserialize G (gm_responseSerialize G r) = Inr r)"

lemma over_wire_transparent:
  assumes "transparent G" "length (gm_requestSerialize G q) < 2 ^ 32"
    and "\<And>r w'. handler q w = (Inr r, w') \<Longrightarrow> length (gm_responseSerialize G r) < 2 ^ 32"
  shows "over_wire G handler q w = handler q w"
  using assms by (auto simp: over_wire_def transparent_def await_def return_def split: prod.splits sum.splits)

end
