(* ===== verification/Proto_Seat.thy ===== *)
theory Proto_Seat
  imports Proto_Wire Seat_Controllers
begin

text \<open>
  The generated stubs of the seat-inventory service (libs/grpc/src/generated/seat-inventory.ts): for each message its
  type, \<^verbatim>\<open>createBase\<close>, \<^verbatim>\<open>encode\<close>, the cases of \<^verbatim>\<open>decode\<close> and \<^verbatim>\<open>decode\<close>, and the descriptions of the methods.
\<close>

section \<open>The messages\<close>

type_synonym SeatInfo = SeatMessage

record GetSeatsByEventRequest =
  gsq_eventId :: string

record GetSeatsByEventResponse =
  gsr_seats :: "SeatInfo list"

record VerifyHoldRequest =
  vhq_eventId :: string
  vhq_seatIds :: "string list"
  vhq_userId :: string

record VerifyHoldResponse =
  vhr_verified :: bool

record HoldSeatsRequest =
  hsq_eventId :: string
  hsq_seatIds :: "string list"
  hsq_userId :: string
  hsq_sessionId :: string

type_synonym HoldSeatsResponse = HoldSeatsReply

record ReleaseSeatsRequest =
  rsq_eventId :: string
  rsq_seatIds :: "string list"
  rsq_userId :: string
  rsq_reason :: string

record ReleaseSeatsResponse =
  rsr_success :: bool

record MarkSeatsAsSoldRequest =
  msq_eventId :: string
  msq_seatIds :: "string list"
  msq_userId :: string

record MarkSeatsAsSoldResponse =
  msr_success :: bool

record ReleaseSoldSeatsRequest =
  rdq_eventId :: string
  rdq_seatIds :: "string list"

record ReleaseSoldSeatsResponse =
  rdr_success :: bool

section \<open>\<^verbatim>\<open>SeatInfo\<close>\<close>

definition createBaseSeatInfo :: SeatInfo where
  "createBaseSeatInfo = \<lparr>sm_id = [], sm_eventId = [], sm_seatId = [], sm_sectionId = [], sm_sectionName = [], sm_ticketTypeId = [],
     sm_ticketTypeName = [], sm_price = [], sm_currency = [], sm_row = [], sm_seatNumber = [], sm_seatType = [],
     sm_status = []\<rparr>"

definition SeatInfo_encode :: "'b wire \<Rightarrow> SeatInfo \<Rightarrow> 'b list" where
  "SeatInfo_encode W m =
     put_text W 10 (sm_id m) @ put_text W 18 (sm_eventId m) @ put_text W 26 (sm_seatId m) @
     put_text W 34 (sm_sectionId m) @ put_text W 42 (sm_sectionName m) @ put_text W 50 (sm_ticketTypeId m) @
     put_text W 58 (sm_ticketTypeName m) @ put_text W 66 (sm_price m) @ put_text W 74 (sm_currency m) @
     put_text W 82 (sm_row m) @ put_text W 90 (sm_seatNumber m) @ put_text W 98 (sm_seatType m) @
     put_text W 106 (sm_status m)"

definition SeatInfo_cases :: "'b wire \<Rightarrow> 'b list \<Rightarrow> nat \<Rightarrow> SeatInfo \<Rightarrow> (nat \<Rightarrow> exn + SeatInfo \<times> nat) option" where
  "SeatInfo_cases W buf tag m = switch_tag tag
     [(1, 10, read_with (get_string W buf) (\<lambda>x. m\<lparr>sm_id := x\<rparr>)),
      (2, 18, read_with (get_string W buf) (\<lambda>x. m\<lparr>sm_eventId := x\<rparr>)),
      (3, 26, read_with (get_string W buf) (\<lambda>x. m\<lparr>sm_seatId := x\<rparr>)),
      (4, 34, read_with (get_string W buf) (\<lambda>x. m\<lparr>sm_sectionId := x\<rparr>)),
      (5, 42, read_with (get_string W buf) (\<lambda>x. m\<lparr>sm_sectionName := x\<rparr>)),
      (6, 50, read_with (get_string W buf) (\<lambda>x. m\<lparr>sm_ticketTypeId := x\<rparr>)),
      (7, 58, read_with (get_string W buf) (\<lambda>x. m\<lparr>sm_ticketTypeName := x\<rparr>)),
      (8, 66, read_with (get_string W buf) (\<lambda>x. m\<lparr>sm_price := x\<rparr>)),
      (9, 74, read_with (get_string W buf) (\<lambda>x. m\<lparr>sm_currency := x\<rparr>)),
      (10, 82, read_with (get_string W buf) (\<lambda>x. m\<lparr>sm_row := x\<rparr>)),
      (11, 90, read_with (get_string W buf) (\<lambda>x. m\<lparr>sm_seatNumber := x\<rparr>)),
      (12, 98, read_with (get_string W buf) (\<lambda>x. m\<lparr>sm_seatType := x\<rparr>)),
      (13, 106, read_with (get_string W buf) (\<lambda>x. m\<lparr>sm_status := x\<rparr>))]"

definition SeatInfo_decode :: "'b wire \<Rightarrow> 'b list \<Rightarrow> nat \<Rightarrow> nat option \<Rightarrow> exn + SeatInfo \<times> nat" where
  "SeatInfo_decode W = decode_with W (SeatInfo_cases W) createBaseSeatInfo"

lemma SeatInfo_case:
  "SeatInfo_cases W buf 10 m = Some (read_with (get_string W buf) (\<lambda>x. sm_id_update (\<lambda>_. x) m))"
  "SeatInfo_cases W buf 18 m = Some (read_with (get_string W buf) (\<lambda>x. sm_eventId_update (\<lambda>_. x) m))"
  "SeatInfo_cases W buf 26 m = Some (read_with (get_string W buf) (\<lambda>x. sm_seatId_update (\<lambda>_. x) m))"
  "SeatInfo_cases W buf 34 m = Some (read_with (get_string W buf) (\<lambda>x. sm_sectionId_update (\<lambda>_. x) m))"
  "SeatInfo_cases W buf 42 m = Some (read_with (get_string W buf) (\<lambda>x. sm_sectionName_update (\<lambda>_. x) m))"
  "SeatInfo_cases W buf 50 m = Some (read_with (get_string W buf) (\<lambda>x. sm_ticketTypeId_update (\<lambda>_. x) m))"
  "SeatInfo_cases W buf 58 m = Some (read_with (get_string W buf) (\<lambda>x. sm_ticketTypeName_update (\<lambda>_. x) m))"
  "SeatInfo_cases W buf 66 m = Some (read_with (get_string W buf) (\<lambda>x. sm_price_update (\<lambda>_. x) m))"
  "SeatInfo_cases W buf 74 m = Some (read_with (get_string W buf) (\<lambda>x. sm_currency_update (\<lambda>_. x) m))"
  "SeatInfo_cases W buf 82 m = Some (read_with (get_string W buf) (\<lambda>x. sm_row_update (\<lambda>_. x) m))"
  "SeatInfo_cases W buf 90 m = Some (read_with (get_string W buf) (\<lambda>x. sm_seatNumber_update (\<lambda>_. x) m))"
  "SeatInfo_cases W buf 98 m = Some (read_with (get_string W buf) (\<lambda>x. sm_seatType_update (\<lambda>_. x) m))"
  "SeatInfo_cases W buf 106 m = Some (read_with (get_string W buf) (\<lambda>x. sm_status_update (\<lambda>_. x) m))"
  by (cases m; simp add: SeatInfo_cases_def switch_tag_def; fail)+

context wire_format
begin

lemmas SeatInfo_steps =
  absorbs_text [where cases = "SeatInfo_cases W" and tag = 10 and upd = sm_id_update, OF SeatInfo_case(1)]
  absorbs_text [where cases = "SeatInfo_cases W" and tag = 18 and upd = sm_eventId_update, OF SeatInfo_case(2)]
  absorbs_text [where cases = "SeatInfo_cases W" and tag = 26 and upd = sm_seatId_update, OF SeatInfo_case(3)]
  absorbs_text [where cases = "SeatInfo_cases W" and tag = 34 and upd = sm_sectionId_update, OF SeatInfo_case(4)]
  absorbs_text [where cases = "SeatInfo_cases W" and tag = 42 and upd = sm_sectionName_update, OF SeatInfo_case(5)]
  absorbs_text [where cases = "SeatInfo_cases W" and tag = 50 and upd = sm_ticketTypeId_update, OF SeatInfo_case(6)]
  absorbs_text [where cases = "SeatInfo_cases W" and tag = 58 and upd = sm_ticketTypeName_update, OF SeatInfo_case(7)]
  absorbs_text [where cases = "SeatInfo_cases W" and tag = 66 and upd = sm_price_update, OF SeatInfo_case(8)]
  absorbs_text [where cases = "SeatInfo_cases W" and tag = 74 and upd = sm_currency_update, OF SeatInfo_case(9)]
  absorbs_text [where cases = "SeatInfo_cases W" and tag = 82 and upd = sm_row_update, OF SeatInfo_case(10)]
  absorbs_text [where cases = "SeatInfo_cases W" and tag = 90 and upd = sm_seatNumber_update, OF SeatInfo_case(11)]
  absorbs_text [where cases = "SeatInfo_cases W" and tag = 98 and upd = sm_seatType_update, OF SeatInfo_case(12)]
  absorbs_text [where cases = "SeatInfo_cases W" and tag = 106 and upd = sm_status_update, OF SeatInfo_case(13)]

lemma SeatInfo_absorbs: "absorbs W (SeatInfo_cases W) (SeatInfo_encode W m) createBaseSeatInfo m"
  by (rule absorbs_eq, unfold SeatInfo_encode_def)
    (rule absorbs_append SeatInfo_steps | (cases m; simp add: createBaseSeatInfo_def; fail))+

lemma SeatInfo_survives: "survives (SeatInfo_encode W) (SeatInfo_decode W)"
  unfolding SeatInfo_decode_def by (rule absorbs_survives(1)) (rule SeatInfo_absorbs)

lemma SeatInfo_nests: "nests (SeatInfo_encode W) (SeatInfo_decode W)"
  unfolding SeatInfo_decode_def by (rule absorbs_survives(2)) (rule SeatInfo_absorbs)

end

section \<open>\<^verbatim>\<open>GetSeatsByEventRequest\<close>\<close>

definition createBaseGetSeatsByEventRequest :: GetSeatsByEventRequest where
  "createBaseGetSeatsByEventRequest = \<lparr>gsq_eventId = []\<rparr>"

definition GetSeatsByEventRequest_encode :: "'b wire \<Rightarrow> GetSeatsByEventRequest \<Rightarrow> 'b list" where
  "GetSeatsByEventRequest_encode W m =
     put_text W 10 (gsq_eventId m)"

definition GetSeatsByEventRequest_cases :: "'b wire \<Rightarrow> 'b list \<Rightarrow> nat \<Rightarrow> GetSeatsByEventRequest \<Rightarrow> (nat \<Rightarrow> exn + GetSeatsByEventRequest \<times> nat) option" where
  "GetSeatsByEventRequest_cases W buf tag m = switch_tag tag
     [(1, 10, read_with (get_string W buf) (\<lambda>x. m\<lparr>gsq_eventId := x\<rparr>))]"

definition GetSeatsByEventRequest_decode :: "'b wire \<Rightarrow> 'b list \<Rightarrow> nat \<Rightarrow> nat option \<Rightarrow> exn + GetSeatsByEventRequest \<times> nat" where
  "GetSeatsByEventRequest_decode W = decode_with W (GetSeatsByEventRequest_cases W) createBaseGetSeatsByEventRequest"

lemma GetSeatsByEventRequest_case:
  "GetSeatsByEventRequest_cases W buf 10 m = Some (read_with (get_string W buf) (\<lambda>x. gsq_eventId_update (\<lambda>_. x) m))"
  by (cases m; simp add: GetSeatsByEventRequest_cases_def switch_tag_def; fail)+

context wire_format
begin

lemmas GetSeatsByEventRequest_steps =
  absorbs_text [where cases = "GetSeatsByEventRequest_cases W" and tag = 10 and upd = gsq_eventId_update, OF GetSeatsByEventRequest_case]

lemma GetSeatsByEventRequest_absorbs: "absorbs W (GetSeatsByEventRequest_cases W) (GetSeatsByEventRequest_encode W m) createBaseGetSeatsByEventRequest m"
  by (rule absorbs_eq, unfold GetSeatsByEventRequest_encode_def)
    (rule absorbs_append GetSeatsByEventRequest_steps | (cases m; simp add: createBaseGetSeatsByEventRequest_def; fail))+

lemma GetSeatsByEventRequest_survives: "survives (GetSeatsByEventRequest_encode W) (GetSeatsByEventRequest_decode W)"
  unfolding GetSeatsByEventRequest_decode_def by (rule absorbs_survives(1)) (rule GetSeatsByEventRequest_absorbs)

lemma GetSeatsByEventRequest_nests: "nests (GetSeatsByEventRequest_encode W) (GetSeatsByEventRequest_decode W)"
  unfolding GetSeatsByEventRequest_decode_def by (rule absorbs_survives(2)) (rule GetSeatsByEventRequest_absorbs)

end

section \<open>\<^verbatim>\<open>GetSeatsByEventResponse\<close>\<close>

definition createBaseGetSeatsByEventResponse :: GetSeatsByEventResponse where
  "createBaseGetSeatsByEventResponse = \<lparr>gsr_seats = []\<rparr>"

definition GetSeatsByEventResponse_encode :: "'b wire \<Rightarrow> GetSeatsByEventResponse \<Rightarrow> 'b list" where
  "GetSeatsByEventResponse_encode W m =
     concat (map (\<lambda>v. put_nested W 10 (SeatInfo_encode W v)) (gsr_seats m))"

definition GetSeatsByEventResponse_cases :: "'b wire \<Rightarrow> 'b list \<Rightarrow> nat \<Rightarrow> GetSeatsByEventResponse \<Rightarrow> (nat \<Rightarrow> exn + GetSeatsByEventResponse \<times> nat) option" where
  "GetSeatsByEventResponse_cases W buf tag m = switch_tag tag
     [(1, 10, read_with (read_nested W buf (SeatInfo_decode W)) (\<lambda>x. m\<lparr>gsr_seats := gsr_seats m @ [x]\<rparr>))]"

definition GetSeatsByEventResponse_decode :: "'b wire \<Rightarrow> 'b list \<Rightarrow> nat \<Rightarrow> nat option \<Rightarrow> exn + GetSeatsByEventResponse \<times> nat" where
  "GetSeatsByEventResponse_decode W = decode_with W (GetSeatsByEventResponse_cases W) createBaseGetSeatsByEventResponse"

lemma GetSeatsByEventResponse_case:
  "GetSeatsByEventResponse_cases W buf 10 m = Some (read_with (read_nested W buf (SeatInfo_decode W)) (\<lambda>x. gsr_seats_update (\<lambda>xs. xs @ [x]) m))"
  by (cases m; simp add: GetSeatsByEventResponse_cases_def switch_tag_def; fail)+

context wire_format
begin

lemmas GetSeatsByEventResponse_steps =
  absorbs_messages [where cases = "GetSeatsByEventResponse_cases W" and tag = 10 and upd = gsr_seats_update and enc = "SeatInfo_encode W", OF GetSeatsByEventResponse_case]

lemma GetSeatsByEventResponse_absorbs: "absorbs W (GetSeatsByEventResponse_cases W) (GetSeatsByEventResponse_encode W m) createBaseGetSeatsByEventResponse m"
  by (rule absorbs_eq, unfold GetSeatsByEventResponse_encode_def)
    (rule absorbs_append GetSeatsByEventResponse_steps | (cases m; simp add: createBaseGetSeatsByEventResponse_def SeatInfo_nests; fail))+

lemma GetSeatsByEventResponse_survives: "survives (GetSeatsByEventResponse_encode W) (GetSeatsByEventResponse_decode W)"
  unfolding GetSeatsByEventResponse_decode_def by (rule absorbs_survives(1)) (rule GetSeatsByEventResponse_absorbs)

lemma GetSeatsByEventResponse_nests: "nests (GetSeatsByEventResponse_encode W) (GetSeatsByEventResponse_decode W)"
  unfolding GetSeatsByEventResponse_decode_def by (rule absorbs_survives(2)) (rule GetSeatsByEventResponse_absorbs)

end

section \<open>\<^verbatim>\<open>VerifyHoldRequest\<close>\<close>

definition createBaseVerifyHoldRequest :: VerifyHoldRequest where
  "createBaseVerifyHoldRequest = \<lparr>vhq_eventId = [], vhq_seatIds = [], vhq_userId = []\<rparr>"

definition VerifyHoldRequest_encode :: "'b wire \<Rightarrow> VerifyHoldRequest \<Rightarrow> 'b list" where
  "VerifyHoldRequest_encode W m =
     put_text W 10 (vhq_eventId m) @ put_texts W 18 (vhq_seatIds m) @ put_text W 26 (vhq_userId m)"

definition VerifyHoldRequest_cases :: "'b wire \<Rightarrow> 'b list \<Rightarrow> nat \<Rightarrow> VerifyHoldRequest \<Rightarrow> (nat \<Rightarrow> exn + VerifyHoldRequest \<times> nat) option" where
  "VerifyHoldRequest_cases W buf tag m = switch_tag tag
     [(1, 10, read_with (get_string W buf) (\<lambda>x. m\<lparr>vhq_eventId := x\<rparr>)),
      (2, 18, read_with (get_string W buf) (\<lambda>x. m\<lparr>vhq_seatIds := vhq_seatIds m @ [x]\<rparr>)),
      (3, 26, read_with (get_string W buf) (\<lambda>x. m\<lparr>vhq_userId := x\<rparr>))]"

definition VerifyHoldRequest_decode :: "'b wire \<Rightarrow> 'b list \<Rightarrow> nat \<Rightarrow> nat option \<Rightarrow> exn + VerifyHoldRequest \<times> nat" where
  "VerifyHoldRequest_decode W = decode_with W (VerifyHoldRequest_cases W) createBaseVerifyHoldRequest"

lemma VerifyHoldRequest_case:
  "VerifyHoldRequest_cases W buf 10 m = Some (read_with (get_string W buf) (\<lambda>x. vhq_eventId_update (\<lambda>_. x) m))"
  "VerifyHoldRequest_cases W buf 18 m = Some (read_with (get_string W buf) (\<lambda>x. vhq_seatIds_update (\<lambda>xs. xs @ [x]) m))"
  "VerifyHoldRequest_cases W buf 26 m = Some (read_with (get_string W buf) (\<lambda>x. vhq_userId_update (\<lambda>_. x) m))"
  by (cases m; simp add: VerifyHoldRequest_cases_def switch_tag_def; fail)+

context wire_format
begin

lemmas VerifyHoldRequest_steps =
  absorbs_text [where cases = "VerifyHoldRequest_cases W" and tag = 10 and upd = vhq_eventId_update, OF VerifyHoldRequest_case(1)]
  absorbs_texts [where cases = "VerifyHoldRequest_cases W" and tag = 18 and upd = vhq_seatIds_update, OF VerifyHoldRequest_case(2)]
  absorbs_text [where cases = "VerifyHoldRequest_cases W" and tag = 26 and upd = vhq_userId_update, OF VerifyHoldRequest_case(3)]

lemma VerifyHoldRequest_absorbs: "absorbs W (VerifyHoldRequest_cases W) (VerifyHoldRequest_encode W m) createBaseVerifyHoldRequest m"
  by (rule absorbs_eq, unfold VerifyHoldRequest_encode_def)
    (rule absorbs_append VerifyHoldRequest_steps | (cases m; simp add: createBaseVerifyHoldRequest_def; fail))+

lemma VerifyHoldRequest_survives: "survives (VerifyHoldRequest_encode W) (VerifyHoldRequest_decode W)"
  unfolding VerifyHoldRequest_decode_def by (rule absorbs_survives(1)) (rule VerifyHoldRequest_absorbs)

lemma VerifyHoldRequest_nests: "nests (VerifyHoldRequest_encode W) (VerifyHoldRequest_decode W)"
  unfolding VerifyHoldRequest_decode_def by (rule absorbs_survives(2)) (rule VerifyHoldRequest_absorbs)

end

section \<open>\<^verbatim>\<open>VerifyHoldResponse\<close>\<close>

definition createBaseVerifyHoldResponse :: VerifyHoldResponse where
  "createBaseVerifyHoldResponse = \<lparr>vhr_verified = False\<rparr>"

definition VerifyHoldResponse_encode :: "'b wire \<Rightarrow> VerifyHoldResponse \<Rightarrow> 'b list" where
  "VerifyHoldResponse_encode W m =
     put_flag W 8 (vhr_verified m)"

definition VerifyHoldResponse_cases :: "'b wire \<Rightarrow> 'b list \<Rightarrow> nat \<Rightarrow> VerifyHoldResponse \<Rightarrow> (nat \<Rightarrow> exn + VerifyHoldResponse \<times> nat) option" where
  "VerifyHoldResponse_cases W buf tag m = switch_tag tag
     [(1, 8, read_with (get_bool W buf) (\<lambda>x. m\<lparr>vhr_verified := x\<rparr>))]"

definition VerifyHoldResponse_decode :: "'b wire \<Rightarrow> 'b list \<Rightarrow> nat \<Rightarrow> nat option \<Rightarrow> exn + VerifyHoldResponse \<times> nat" where
  "VerifyHoldResponse_decode W = decode_with W (VerifyHoldResponse_cases W) createBaseVerifyHoldResponse"

lemma VerifyHoldResponse_case:
  "VerifyHoldResponse_cases W buf 8 m = Some (read_with (get_bool W buf) (\<lambda>x. vhr_verified_update (\<lambda>_. x) m))"
  by (cases m; simp add: VerifyHoldResponse_cases_def switch_tag_def; fail)+

context wire_format
begin

lemmas VerifyHoldResponse_steps =
  absorbs_flag [where cases = "VerifyHoldResponse_cases W" and tag = 8 and upd = vhr_verified_update, OF VerifyHoldResponse_case]

lemma VerifyHoldResponse_absorbs: "absorbs W (VerifyHoldResponse_cases W) (VerifyHoldResponse_encode W m) createBaseVerifyHoldResponse m"
  by (rule absorbs_eq, unfold VerifyHoldResponse_encode_def)
    (rule absorbs_append VerifyHoldResponse_steps | (cases m; simp add: createBaseVerifyHoldResponse_def; fail))+

lemma VerifyHoldResponse_survives: "survives (VerifyHoldResponse_encode W) (VerifyHoldResponse_decode W)"
  unfolding VerifyHoldResponse_decode_def by (rule absorbs_survives(1)) (rule VerifyHoldResponse_absorbs)

lemma VerifyHoldResponse_nests: "nests (VerifyHoldResponse_encode W) (VerifyHoldResponse_decode W)"
  unfolding VerifyHoldResponse_decode_def by (rule absorbs_survives(2)) (rule VerifyHoldResponse_absorbs)

end

section \<open>\<^verbatim>\<open>HoldSeatsRequest\<close>\<close>

definition createBaseHoldSeatsRequest :: HoldSeatsRequest where
  "createBaseHoldSeatsRequest = \<lparr>hsq_eventId = [], hsq_seatIds = [], hsq_userId = [], hsq_sessionId = []\<rparr>"

definition HoldSeatsRequest_encode :: "'b wire \<Rightarrow> HoldSeatsRequest \<Rightarrow> 'b list" where
  "HoldSeatsRequest_encode W m =
     put_text W 10 (hsq_eventId m) @ put_texts W 18 (hsq_seatIds m) @ put_text W 26 (hsq_userId m) @
     put_text W 34 (hsq_sessionId m)"

definition HoldSeatsRequest_cases :: "'b wire \<Rightarrow> 'b list \<Rightarrow> nat \<Rightarrow> HoldSeatsRequest \<Rightarrow> (nat \<Rightarrow> exn + HoldSeatsRequest \<times> nat) option" where
  "HoldSeatsRequest_cases W buf tag m = switch_tag tag
     [(1, 10, read_with (get_string W buf) (\<lambda>x. m\<lparr>hsq_eventId := x\<rparr>)),
      (2, 18, read_with (get_string W buf) (\<lambda>x. m\<lparr>hsq_seatIds := hsq_seatIds m @ [x]\<rparr>)),
      (3, 26, read_with (get_string W buf) (\<lambda>x. m\<lparr>hsq_userId := x\<rparr>)),
      (4, 34, read_with (get_string W buf) (\<lambda>x. m\<lparr>hsq_sessionId := x\<rparr>))]"

definition HoldSeatsRequest_decode :: "'b wire \<Rightarrow> 'b list \<Rightarrow> nat \<Rightarrow> nat option \<Rightarrow> exn + HoldSeatsRequest \<times> nat" where
  "HoldSeatsRequest_decode W = decode_with W (HoldSeatsRequest_cases W) createBaseHoldSeatsRequest"

lemma HoldSeatsRequest_case:
  "HoldSeatsRequest_cases W buf 10 m = Some (read_with (get_string W buf) (\<lambda>x. hsq_eventId_update (\<lambda>_. x) m))"
  "HoldSeatsRequest_cases W buf 18 m = Some (read_with (get_string W buf) (\<lambda>x. hsq_seatIds_update (\<lambda>xs. xs @ [x]) m))"
  "HoldSeatsRequest_cases W buf 26 m = Some (read_with (get_string W buf) (\<lambda>x. hsq_userId_update (\<lambda>_. x) m))"
  "HoldSeatsRequest_cases W buf 34 m = Some (read_with (get_string W buf) (\<lambda>x. hsq_sessionId_update (\<lambda>_. x) m))"
  by (cases m; simp add: HoldSeatsRequest_cases_def switch_tag_def; fail)+

context wire_format
begin

lemmas HoldSeatsRequest_steps =
  absorbs_text [where cases = "HoldSeatsRequest_cases W" and tag = 10 and upd = hsq_eventId_update, OF HoldSeatsRequest_case(1)]
  absorbs_texts [where cases = "HoldSeatsRequest_cases W" and tag = 18 and upd = hsq_seatIds_update, OF HoldSeatsRequest_case(2)]
  absorbs_text [where cases = "HoldSeatsRequest_cases W" and tag = 26 and upd = hsq_userId_update, OF HoldSeatsRequest_case(3)]
  absorbs_text [where cases = "HoldSeatsRequest_cases W" and tag = 34 and upd = hsq_sessionId_update, OF HoldSeatsRequest_case(4)]

lemma HoldSeatsRequest_absorbs: "absorbs W (HoldSeatsRequest_cases W) (HoldSeatsRequest_encode W m) createBaseHoldSeatsRequest m"
  by (rule absorbs_eq, unfold HoldSeatsRequest_encode_def)
    (rule absorbs_append HoldSeatsRequest_steps | (cases m; simp add: createBaseHoldSeatsRequest_def; fail))+

lemma HoldSeatsRequest_survives: "survives (HoldSeatsRequest_encode W) (HoldSeatsRequest_decode W)"
  unfolding HoldSeatsRequest_decode_def by (rule absorbs_survives(1)) (rule HoldSeatsRequest_absorbs)

lemma HoldSeatsRequest_nests: "nests (HoldSeatsRequest_encode W) (HoldSeatsRequest_decode W)"
  unfolding HoldSeatsRequest_decode_def by (rule absorbs_survives(2)) (rule HoldSeatsRequest_absorbs)

end

section \<open>\<^verbatim>\<open>HoldSeatsResponse\<close>\<close>

definition createBaseHoldSeatsResponse :: HoldSeatsResponse where
  "createBaseHoldSeatsResponse = \<lparr>hsr_success = False, hsr_holdIds = [], hsr_expiresAt = [], hsr_failedSeatIds = []\<rparr>"

definition HoldSeatsResponse_encode :: "'b wire \<Rightarrow> HoldSeatsResponse \<Rightarrow> 'b list" where
  "HoldSeatsResponse_encode W m =
     put_flag W 8 (hsr_success m) @ put_texts W 18 (hsr_holdIds m) @ put_text W 26 (hsr_expiresAt m) @
     put_texts W 34 (hsr_failedSeatIds m)"

definition HoldSeatsResponse_cases :: "'b wire \<Rightarrow> 'b list \<Rightarrow> nat \<Rightarrow> HoldSeatsResponse \<Rightarrow> (nat \<Rightarrow> exn + HoldSeatsResponse \<times> nat) option" where
  "HoldSeatsResponse_cases W buf tag m = switch_tag tag
     [(1, 8, read_with (get_bool W buf) (\<lambda>x. m\<lparr>hsr_success := x\<rparr>)),
      (2, 18, read_with (get_string W buf) (\<lambda>x. m\<lparr>hsr_holdIds := hsr_holdIds m @ [x]\<rparr>)),
      (3, 26, read_with (get_string W buf) (\<lambda>x. m\<lparr>hsr_expiresAt := x\<rparr>)),
      (4, 34, read_with (get_string W buf) (\<lambda>x. m\<lparr>hsr_failedSeatIds := hsr_failedSeatIds m @ [x]\<rparr>))]"

definition HoldSeatsResponse_decode :: "'b wire \<Rightarrow> 'b list \<Rightarrow> nat \<Rightarrow> nat option \<Rightarrow> exn + HoldSeatsResponse \<times> nat" where
  "HoldSeatsResponse_decode W = decode_with W (HoldSeatsResponse_cases W) createBaseHoldSeatsResponse"

lemma HoldSeatsResponse_case:
  "HoldSeatsResponse_cases W buf 8 m = Some (read_with (get_bool W buf) (\<lambda>x. hsr_success_update (\<lambda>_. x) m))"
  "HoldSeatsResponse_cases W buf 18 m = Some (read_with (get_string W buf) (\<lambda>x. hsr_holdIds_update (\<lambda>xs. xs @ [x]) m))"
  "HoldSeatsResponse_cases W buf 26 m = Some (read_with (get_string W buf) (\<lambda>x. hsr_expiresAt_update (\<lambda>_. x) m))"
  "HoldSeatsResponse_cases W buf 34 m = Some (read_with (get_string W buf) (\<lambda>x. hsr_failedSeatIds_update (\<lambda>xs. xs @ [x]) m))"
  by (cases m; simp add: HoldSeatsResponse_cases_def switch_tag_def; fail)+

context wire_format
begin

lemmas HoldSeatsResponse_steps =
  absorbs_flag [where cases = "HoldSeatsResponse_cases W" and tag = 8 and upd = hsr_success_update, OF HoldSeatsResponse_case(1)]
  absorbs_texts [where cases = "HoldSeatsResponse_cases W" and tag = 18 and upd = hsr_holdIds_update, OF HoldSeatsResponse_case(2)]
  absorbs_text [where cases = "HoldSeatsResponse_cases W" and tag = 26 and upd = hsr_expiresAt_update, OF HoldSeatsResponse_case(3)]
  absorbs_texts [where cases = "HoldSeatsResponse_cases W" and tag = 34 and upd = hsr_failedSeatIds_update, OF HoldSeatsResponse_case(4)]

lemma HoldSeatsResponse_absorbs: "absorbs W (HoldSeatsResponse_cases W) (HoldSeatsResponse_encode W m) createBaseHoldSeatsResponse m"
  by (rule absorbs_eq, unfold HoldSeatsResponse_encode_def)
    (rule absorbs_append HoldSeatsResponse_steps | (cases m; simp add: createBaseHoldSeatsResponse_def; fail))+

lemma HoldSeatsResponse_survives: "survives (HoldSeatsResponse_encode W) (HoldSeatsResponse_decode W)"
  unfolding HoldSeatsResponse_decode_def by (rule absorbs_survives(1)) (rule HoldSeatsResponse_absorbs)

lemma HoldSeatsResponse_nests: "nests (HoldSeatsResponse_encode W) (HoldSeatsResponse_decode W)"
  unfolding HoldSeatsResponse_decode_def by (rule absorbs_survives(2)) (rule HoldSeatsResponse_absorbs)

end

section \<open>\<^verbatim>\<open>ReleaseSeatsRequest\<close>\<close>

definition createBaseReleaseSeatsRequest :: ReleaseSeatsRequest where
  "createBaseReleaseSeatsRequest = \<lparr>rsq_eventId = [], rsq_seatIds = [], rsq_userId = [], rsq_reason = []\<rparr>"

definition ReleaseSeatsRequest_encode :: "'b wire \<Rightarrow> ReleaseSeatsRequest \<Rightarrow> 'b list" where
  "ReleaseSeatsRequest_encode W m =
     put_text W 10 (rsq_eventId m) @ put_texts W 18 (rsq_seatIds m) @ put_text W 26 (rsq_userId m) @
     put_text W 34 (rsq_reason m)"

definition ReleaseSeatsRequest_cases :: "'b wire \<Rightarrow> 'b list \<Rightarrow> nat \<Rightarrow> ReleaseSeatsRequest \<Rightarrow> (nat \<Rightarrow> exn + ReleaseSeatsRequest \<times> nat) option" where
  "ReleaseSeatsRequest_cases W buf tag m = switch_tag tag
     [(1, 10, read_with (get_string W buf) (\<lambda>x. m\<lparr>rsq_eventId := x\<rparr>)),
      (2, 18, read_with (get_string W buf) (\<lambda>x. m\<lparr>rsq_seatIds := rsq_seatIds m @ [x]\<rparr>)),
      (3, 26, read_with (get_string W buf) (\<lambda>x. m\<lparr>rsq_userId := x\<rparr>)),
      (4, 34, read_with (get_string W buf) (\<lambda>x. m\<lparr>rsq_reason := x\<rparr>))]"

definition ReleaseSeatsRequest_decode :: "'b wire \<Rightarrow> 'b list \<Rightarrow> nat \<Rightarrow> nat option \<Rightarrow> exn + ReleaseSeatsRequest \<times> nat" where
  "ReleaseSeatsRequest_decode W = decode_with W (ReleaseSeatsRequest_cases W) createBaseReleaseSeatsRequest"

lemma ReleaseSeatsRequest_case:
  "ReleaseSeatsRequest_cases W buf 10 m = Some (read_with (get_string W buf) (\<lambda>x. rsq_eventId_update (\<lambda>_. x) m))"
  "ReleaseSeatsRequest_cases W buf 18 m = Some (read_with (get_string W buf) (\<lambda>x. rsq_seatIds_update (\<lambda>xs. xs @ [x]) m))"
  "ReleaseSeatsRequest_cases W buf 26 m = Some (read_with (get_string W buf) (\<lambda>x. rsq_userId_update (\<lambda>_. x) m))"
  "ReleaseSeatsRequest_cases W buf 34 m = Some (read_with (get_string W buf) (\<lambda>x. rsq_reason_update (\<lambda>_. x) m))"
  by (cases m; simp add: ReleaseSeatsRequest_cases_def switch_tag_def; fail)+

context wire_format
begin

lemmas ReleaseSeatsRequest_steps =
  absorbs_text [where cases = "ReleaseSeatsRequest_cases W" and tag = 10 and upd = rsq_eventId_update, OF ReleaseSeatsRequest_case(1)]
  absorbs_texts [where cases = "ReleaseSeatsRequest_cases W" and tag = 18 and upd = rsq_seatIds_update, OF ReleaseSeatsRequest_case(2)]
  absorbs_text [where cases = "ReleaseSeatsRequest_cases W" and tag = 26 and upd = rsq_userId_update, OF ReleaseSeatsRequest_case(3)]
  absorbs_text [where cases = "ReleaseSeatsRequest_cases W" and tag = 34 and upd = rsq_reason_update, OF ReleaseSeatsRequest_case(4)]

lemma ReleaseSeatsRequest_absorbs: "absorbs W (ReleaseSeatsRequest_cases W) (ReleaseSeatsRequest_encode W m) createBaseReleaseSeatsRequest m"
  by (rule absorbs_eq, unfold ReleaseSeatsRequest_encode_def)
    (rule absorbs_append ReleaseSeatsRequest_steps | (cases m; simp add: createBaseReleaseSeatsRequest_def; fail))+

lemma ReleaseSeatsRequest_survives: "survives (ReleaseSeatsRequest_encode W) (ReleaseSeatsRequest_decode W)"
  unfolding ReleaseSeatsRequest_decode_def by (rule absorbs_survives(1)) (rule ReleaseSeatsRequest_absorbs)

lemma ReleaseSeatsRequest_nests: "nests (ReleaseSeatsRequest_encode W) (ReleaseSeatsRequest_decode W)"
  unfolding ReleaseSeatsRequest_decode_def by (rule absorbs_survives(2)) (rule ReleaseSeatsRequest_absorbs)

end

section \<open>\<^verbatim>\<open>ReleaseSeatsResponse\<close>\<close>

definition createBaseReleaseSeatsResponse :: ReleaseSeatsResponse where
  "createBaseReleaseSeatsResponse = \<lparr>rsr_success = False\<rparr>"

definition ReleaseSeatsResponse_encode :: "'b wire \<Rightarrow> ReleaseSeatsResponse \<Rightarrow> 'b list" where
  "ReleaseSeatsResponse_encode W m =
     put_flag W 8 (rsr_success m)"

definition ReleaseSeatsResponse_cases :: "'b wire \<Rightarrow> 'b list \<Rightarrow> nat \<Rightarrow> ReleaseSeatsResponse \<Rightarrow> (nat \<Rightarrow> exn + ReleaseSeatsResponse \<times> nat) option" where
  "ReleaseSeatsResponse_cases W buf tag m = switch_tag tag
     [(1, 8, read_with (get_bool W buf) (\<lambda>x. m\<lparr>rsr_success := x\<rparr>))]"

definition ReleaseSeatsResponse_decode :: "'b wire \<Rightarrow> 'b list \<Rightarrow> nat \<Rightarrow> nat option \<Rightarrow> exn + ReleaseSeatsResponse \<times> nat" where
  "ReleaseSeatsResponse_decode W = decode_with W (ReleaseSeatsResponse_cases W) createBaseReleaseSeatsResponse"

lemma ReleaseSeatsResponse_case:
  "ReleaseSeatsResponse_cases W buf 8 m = Some (read_with (get_bool W buf) (\<lambda>x. rsr_success_update (\<lambda>_. x) m))"
  by (cases m; simp add: ReleaseSeatsResponse_cases_def switch_tag_def; fail)+

context wire_format
begin

lemmas ReleaseSeatsResponse_steps =
  absorbs_flag [where cases = "ReleaseSeatsResponse_cases W" and tag = 8 and upd = rsr_success_update, OF ReleaseSeatsResponse_case]

lemma ReleaseSeatsResponse_absorbs: "absorbs W (ReleaseSeatsResponse_cases W) (ReleaseSeatsResponse_encode W m) createBaseReleaseSeatsResponse m"
  by (rule absorbs_eq, unfold ReleaseSeatsResponse_encode_def)
    (rule absorbs_append ReleaseSeatsResponse_steps | (cases m; simp add: createBaseReleaseSeatsResponse_def; fail))+

lemma ReleaseSeatsResponse_survives: "survives (ReleaseSeatsResponse_encode W) (ReleaseSeatsResponse_decode W)"
  unfolding ReleaseSeatsResponse_decode_def by (rule absorbs_survives(1)) (rule ReleaseSeatsResponse_absorbs)

lemma ReleaseSeatsResponse_nests: "nests (ReleaseSeatsResponse_encode W) (ReleaseSeatsResponse_decode W)"
  unfolding ReleaseSeatsResponse_decode_def by (rule absorbs_survives(2)) (rule ReleaseSeatsResponse_absorbs)

end

section \<open>\<^verbatim>\<open>MarkSeatsAsSoldRequest\<close>\<close>

definition createBaseMarkSeatsAsSoldRequest :: MarkSeatsAsSoldRequest where
  "createBaseMarkSeatsAsSoldRequest = \<lparr>msq_eventId = [], msq_seatIds = [], msq_userId = []\<rparr>"

definition MarkSeatsAsSoldRequest_encode :: "'b wire \<Rightarrow> MarkSeatsAsSoldRequest \<Rightarrow> 'b list" where
  "MarkSeatsAsSoldRequest_encode W m =
     put_text W 10 (msq_eventId m) @ put_texts W 18 (msq_seatIds m) @ put_text W 26 (msq_userId m)"

definition MarkSeatsAsSoldRequest_cases :: "'b wire \<Rightarrow> 'b list \<Rightarrow> nat \<Rightarrow> MarkSeatsAsSoldRequest \<Rightarrow> (nat \<Rightarrow> exn + MarkSeatsAsSoldRequest \<times> nat) option" where
  "MarkSeatsAsSoldRequest_cases W buf tag m = switch_tag tag
     [(1, 10, read_with (get_string W buf) (\<lambda>x. m\<lparr>msq_eventId := x\<rparr>)),
      (2, 18, read_with (get_string W buf) (\<lambda>x. m\<lparr>msq_seatIds := msq_seatIds m @ [x]\<rparr>)),
      (3, 26, read_with (get_string W buf) (\<lambda>x. m\<lparr>msq_userId := x\<rparr>))]"

definition MarkSeatsAsSoldRequest_decode :: "'b wire \<Rightarrow> 'b list \<Rightarrow> nat \<Rightarrow> nat option \<Rightarrow> exn + MarkSeatsAsSoldRequest \<times> nat" where
  "MarkSeatsAsSoldRequest_decode W = decode_with W (MarkSeatsAsSoldRequest_cases W) createBaseMarkSeatsAsSoldRequest"

lemma MarkSeatsAsSoldRequest_case:
  "MarkSeatsAsSoldRequest_cases W buf 10 m = Some (read_with (get_string W buf) (\<lambda>x. msq_eventId_update (\<lambda>_. x) m))"
  "MarkSeatsAsSoldRequest_cases W buf 18 m = Some (read_with (get_string W buf) (\<lambda>x. msq_seatIds_update (\<lambda>xs. xs @ [x]) m))"
  "MarkSeatsAsSoldRequest_cases W buf 26 m = Some (read_with (get_string W buf) (\<lambda>x. msq_userId_update (\<lambda>_. x) m))"
  by (cases m; simp add: MarkSeatsAsSoldRequest_cases_def switch_tag_def; fail)+

context wire_format
begin

lemmas MarkSeatsAsSoldRequest_steps =
  absorbs_text [where cases = "MarkSeatsAsSoldRequest_cases W" and tag = 10 and upd = msq_eventId_update, OF MarkSeatsAsSoldRequest_case(1)]
  absorbs_texts [where cases = "MarkSeatsAsSoldRequest_cases W" and tag = 18 and upd = msq_seatIds_update, OF MarkSeatsAsSoldRequest_case(2)]
  absorbs_text [where cases = "MarkSeatsAsSoldRequest_cases W" and tag = 26 and upd = msq_userId_update, OF MarkSeatsAsSoldRequest_case(3)]

lemma MarkSeatsAsSoldRequest_absorbs: "absorbs W (MarkSeatsAsSoldRequest_cases W) (MarkSeatsAsSoldRequest_encode W m) createBaseMarkSeatsAsSoldRequest m"
  by (rule absorbs_eq, unfold MarkSeatsAsSoldRequest_encode_def)
    (rule absorbs_append MarkSeatsAsSoldRequest_steps | (cases m; simp add: createBaseMarkSeatsAsSoldRequest_def; fail))+

lemma MarkSeatsAsSoldRequest_survives: "survives (MarkSeatsAsSoldRequest_encode W) (MarkSeatsAsSoldRequest_decode W)"
  unfolding MarkSeatsAsSoldRequest_decode_def by (rule absorbs_survives(1)) (rule MarkSeatsAsSoldRequest_absorbs)

lemma MarkSeatsAsSoldRequest_nests: "nests (MarkSeatsAsSoldRequest_encode W) (MarkSeatsAsSoldRequest_decode W)"
  unfolding MarkSeatsAsSoldRequest_decode_def by (rule absorbs_survives(2)) (rule MarkSeatsAsSoldRequest_absorbs)

end

section \<open>\<^verbatim>\<open>MarkSeatsAsSoldResponse\<close>\<close>

definition createBaseMarkSeatsAsSoldResponse :: MarkSeatsAsSoldResponse where
  "createBaseMarkSeatsAsSoldResponse = \<lparr>msr_success = False\<rparr>"

definition MarkSeatsAsSoldResponse_encode :: "'b wire \<Rightarrow> MarkSeatsAsSoldResponse \<Rightarrow> 'b list" where
  "MarkSeatsAsSoldResponse_encode W m =
     put_flag W 8 (msr_success m)"

definition MarkSeatsAsSoldResponse_cases :: "'b wire \<Rightarrow> 'b list \<Rightarrow> nat \<Rightarrow> MarkSeatsAsSoldResponse \<Rightarrow> (nat \<Rightarrow> exn + MarkSeatsAsSoldResponse \<times> nat) option" where
  "MarkSeatsAsSoldResponse_cases W buf tag m = switch_tag tag
     [(1, 8, read_with (get_bool W buf) (\<lambda>x. m\<lparr>msr_success := x\<rparr>))]"

definition MarkSeatsAsSoldResponse_decode :: "'b wire \<Rightarrow> 'b list \<Rightarrow> nat \<Rightarrow> nat option \<Rightarrow> exn + MarkSeatsAsSoldResponse \<times> nat" where
  "MarkSeatsAsSoldResponse_decode W = decode_with W (MarkSeatsAsSoldResponse_cases W) createBaseMarkSeatsAsSoldResponse"

lemma MarkSeatsAsSoldResponse_case:
  "MarkSeatsAsSoldResponse_cases W buf 8 m = Some (read_with (get_bool W buf) (\<lambda>x. msr_success_update (\<lambda>_. x) m))"
  by (cases m; simp add: MarkSeatsAsSoldResponse_cases_def switch_tag_def; fail)+

context wire_format
begin

lemmas MarkSeatsAsSoldResponse_steps =
  absorbs_flag [where cases = "MarkSeatsAsSoldResponse_cases W" and tag = 8 and upd = msr_success_update, OF MarkSeatsAsSoldResponse_case]

lemma MarkSeatsAsSoldResponse_absorbs: "absorbs W (MarkSeatsAsSoldResponse_cases W) (MarkSeatsAsSoldResponse_encode W m) createBaseMarkSeatsAsSoldResponse m"
  by (rule absorbs_eq, unfold MarkSeatsAsSoldResponse_encode_def)
    (rule absorbs_append MarkSeatsAsSoldResponse_steps | (cases m; simp add: createBaseMarkSeatsAsSoldResponse_def; fail))+

lemma MarkSeatsAsSoldResponse_survives: "survives (MarkSeatsAsSoldResponse_encode W) (MarkSeatsAsSoldResponse_decode W)"
  unfolding MarkSeatsAsSoldResponse_decode_def by (rule absorbs_survives(1)) (rule MarkSeatsAsSoldResponse_absorbs)

lemma MarkSeatsAsSoldResponse_nests: "nests (MarkSeatsAsSoldResponse_encode W) (MarkSeatsAsSoldResponse_decode W)"
  unfolding MarkSeatsAsSoldResponse_decode_def by (rule absorbs_survives(2)) (rule MarkSeatsAsSoldResponse_absorbs)

end

section \<open>\<^verbatim>\<open>ReleaseSoldSeatsRequest\<close>\<close>

definition createBaseReleaseSoldSeatsRequest :: ReleaseSoldSeatsRequest where
  "createBaseReleaseSoldSeatsRequest = \<lparr>rdq_eventId = [], rdq_seatIds = []\<rparr>"

definition ReleaseSoldSeatsRequest_encode :: "'b wire \<Rightarrow> ReleaseSoldSeatsRequest \<Rightarrow> 'b list" where
  "ReleaseSoldSeatsRequest_encode W m =
     put_text W 10 (rdq_eventId m) @ put_texts W 18 (rdq_seatIds m)"

definition ReleaseSoldSeatsRequest_cases :: "'b wire \<Rightarrow> 'b list \<Rightarrow> nat \<Rightarrow> ReleaseSoldSeatsRequest \<Rightarrow> (nat \<Rightarrow> exn + ReleaseSoldSeatsRequest \<times> nat) option" where
  "ReleaseSoldSeatsRequest_cases W buf tag m = switch_tag tag
     [(1, 10, read_with (get_string W buf) (\<lambda>x. m\<lparr>rdq_eventId := x\<rparr>)),
      (2, 18, read_with (get_string W buf) (\<lambda>x. m\<lparr>rdq_seatIds := rdq_seatIds m @ [x]\<rparr>))]"

definition ReleaseSoldSeatsRequest_decode :: "'b wire \<Rightarrow> 'b list \<Rightarrow> nat \<Rightarrow> nat option \<Rightarrow> exn + ReleaseSoldSeatsRequest \<times> nat" where
  "ReleaseSoldSeatsRequest_decode W = decode_with W (ReleaseSoldSeatsRequest_cases W) createBaseReleaseSoldSeatsRequest"

lemma ReleaseSoldSeatsRequest_case:
  "ReleaseSoldSeatsRequest_cases W buf 10 m = Some (read_with (get_string W buf) (\<lambda>x. rdq_eventId_update (\<lambda>_. x) m))"
  "ReleaseSoldSeatsRequest_cases W buf 18 m = Some (read_with (get_string W buf) (\<lambda>x. rdq_seatIds_update (\<lambda>xs. xs @ [x]) m))"
  by (cases m; simp add: ReleaseSoldSeatsRequest_cases_def switch_tag_def; fail)+

context wire_format
begin

lemmas ReleaseSoldSeatsRequest_steps =
  absorbs_text [where cases = "ReleaseSoldSeatsRequest_cases W" and tag = 10 and upd = rdq_eventId_update, OF ReleaseSoldSeatsRequest_case(1)]
  absorbs_texts [where cases = "ReleaseSoldSeatsRequest_cases W" and tag = 18 and upd = rdq_seatIds_update, OF ReleaseSoldSeatsRequest_case(2)]

lemma ReleaseSoldSeatsRequest_absorbs: "absorbs W (ReleaseSoldSeatsRequest_cases W) (ReleaseSoldSeatsRequest_encode W m) createBaseReleaseSoldSeatsRequest m"
  by (rule absorbs_eq, unfold ReleaseSoldSeatsRequest_encode_def)
    (rule absorbs_append ReleaseSoldSeatsRequest_steps | (cases m; simp add: createBaseReleaseSoldSeatsRequest_def; fail))+

lemma ReleaseSoldSeatsRequest_survives: "survives (ReleaseSoldSeatsRequest_encode W) (ReleaseSoldSeatsRequest_decode W)"
  unfolding ReleaseSoldSeatsRequest_decode_def by (rule absorbs_survives(1)) (rule ReleaseSoldSeatsRequest_absorbs)

lemma ReleaseSoldSeatsRequest_nests: "nests (ReleaseSoldSeatsRequest_encode W) (ReleaseSoldSeatsRequest_decode W)"
  unfolding ReleaseSoldSeatsRequest_decode_def by (rule absorbs_survives(2)) (rule ReleaseSoldSeatsRequest_absorbs)

end

section \<open>\<^verbatim>\<open>ReleaseSoldSeatsResponse\<close>\<close>

definition createBaseReleaseSoldSeatsResponse :: ReleaseSoldSeatsResponse where
  "createBaseReleaseSoldSeatsResponse = \<lparr>rdr_success = False\<rparr>"

definition ReleaseSoldSeatsResponse_encode :: "'b wire \<Rightarrow> ReleaseSoldSeatsResponse \<Rightarrow> 'b list" where
  "ReleaseSoldSeatsResponse_encode W m =
     put_flag W 8 (rdr_success m)"

definition ReleaseSoldSeatsResponse_cases :: "'b wire \<Rightarrow> 'b list \<Rightarrow> nat \<Rightarrow> ReleaseSoldSeatsResponse \<Rightarrow> (nat \<Rightarrow> exn + ReleaseSoldSeatsResponse \<times> nat) option" where
  "ReleaseSoldSeatsResponse_cases W buf tag m = switch_tag tag
     [(1, 8, read_with (get_bool W buf) (\<lambda>x. m\<lparr>rdr_success := x\<rparr>))]"

definition ReleaseSoldSeatsResponse_decode :: "'b wire \<Rightarrow> 'b list \<Rightarrow> nat \<Rightarrow> nat option \<Rightarrow> exn + ReleaseSoldSeatsResponse \<times> nat" where
  "ReleaseSoldSeatsResponse_decode W = decode_with W (ReleaseSoldSeatsResponse_cases W) createBaseReleaseSoldSeatsResponse"

lemma ReleaseSoldSeatsResponse_case:
  "ReleaseSoldSeatsResponse_cases W buf 8 m = Some (read_with (get_bool W buf) (\<lambda>x. rdr_success_update (\<lambda>_. x) m))"
  by (cases m; simp add: ReleaseSoldSeatsResponse_cases_def switch_tag_def; fail)+

context wire_format
begin

lemmas ReleaseSoldSeatsResponse_steps =
  absorbs_flag [where cases = "ReleaseSoldSeatsResponse_cases W" and tag = 8 and upd = rdr_success_update, OF ReleaseSoldSeatsResponse_case]

lemma ReleaseSoldSeatsResponse_absorbs: "absorbs W (ReleaseSoldSeatsResponse_cases W) (ReleaseSoldSeatsResponse_encode W m) createBaseReleaseSoldSeatsResponse m"
  by (rule absorbs_eq, unfold ReleaseSoldSeatsResponse_encode_def)
    (rule absorbs_append ReleaseSoldSeatsResponse_steps | (cases m; simp add: createBaseReleaseSoldSeatsResponse_def; fail))+

lemma ReleaseSoldSeatsResponse_survives: "survives (ReleaseSoldSeatsResponse_encode W) (ReleaseSoldSeatsResponse_decode W)"
  unfolding ReleaseSoldSeatsResponse_decode_def by (rule absorbs_survives(1)) (rule ReleaseSoldSeatsResponse_absorbs)

lemma ReleaseSoldSeatsResponse_nests: "nests (ReleaseSoldSeatsResponse_encode W) (ReleaseSoldSeatsResponse_decode W)"
  unfolding ReleaseSoldSeatsResponse_decode_def by (rule absorbs_survives(2)) (rule ReleaseSoldSeatsResponse_absorbs)

end

section \<open>The methods\<close>

definition getSeatsByEvent_method :: "'b wire \<Rightarrow> ('b, GetSeatsByEventRequest, GetSeatsByEventResponse) grpc_method" where
  "getSeatsByEvent_method W = \<lparr>gm_path = ''/seat_inventory.SeatInventoryService/GetSeatsByEvent'',
     gm_requestStream = False, gm_responseStream = False,
     gm_requestSerialize = GetSeatsByEventRequest_encode W, gm_requestDeserialize = decode_all (GetSeatsByEventRequest_decode W),
     gm_responseSerialize = GetSeatsByEventResponse_encode W, gm_responseDeserialize = decode_all (GetSeatsByEventResponse_decode W)\<rparr>"

definition getAvailableSeats_method :: "'b wire \<Rightarrow> ('b, GetSeatsByEventRequest, GetSeatsByEventResponse) grpc_method" where
  "getAvailableSeats_method W = \<lparr>gm_path = ''/seat_inventory.SeatInventoryService/GetAvailableSeats'',
     gm_requestStream = False, gm_responseStream = False,
     gm_requestSerialize = GetSeatsByEventRequest_encode W, gm_requestDeserialize = decode_all (GetSeatsByEventRequest_decode W),
     gm_responseSerialize = GetSeatsByEventResponse_encode W, gm_responseDeserialize = decode_all (GetSeatsByEventResponse_decode W)\<rparr>"

definition verifyHold_method :: "'b wire \<Rightarrow> ('b, VerifyHoldRequest, VerifyHoldResponse) grpc_method" where
  "verifyHold_method W = \<lparr>gm_path = ''/seat_inventory.SeatInventoryService/VerifyHold'',
     gm_requestStream = False, gm_responseStream = False,
     gm_requestSerialize = VerifyHoldRequest_encode W, gm_requestDeserialize = decode_all (VerifyHoldRequest_decode W),
     gm_responseSerialize = VerifyHoldResponse_encode W, gm_responseDeserialize = decode_all (VerifyHoldResponse_decode W)\<rparr>"

definition holdSeats_method :: "'b wire \<Rightarrow> ('b, HoldSeatsRequest, HoldSeatsResponse) grpc_method" where
  "holdSeats_method W = \<lparr>gm_path = ''/seat_inventory.SeatInventoryService/HoldSeats'',
     gm_requestStream = False, gm_responseStream = False,
     gm_requestSerialize = HoldSeatsRequest_encode W, gm_requestDeserialize = decode_all (HoldSeatsRequest_decode W),
     gm_responseSerialize = HoldSeatsResponse_encode W, gm_responseDeserialize = decode_all (HoldSeatsResponse_decode W)\<rparr>"

definition releaseSeats_method :: "'b wire \<Rightarrow> ('b, ReleaseSeatsRequest, ReleaseSeatsResponse) grpc_method" where
  "releaseSeats_method W = \<lparr>gm_path = ''/seat_inventory.SeatInventoryService/ReleaseSeats'',
     gm_requestStream = False, gm_responseStream = False,
     gm_requestSerialize = ReleaseSeatsRequest_encode W, gm_requestDeserialize = decode_all (ReleaseSeatsRequest_decode W),
     gm_responseSerialize = ReleaseSeatsResponse_encode W, gm_responseDeserialize = decode_all (ReleaseSeatsResponse_decode W)\<rparr>"

definition markSeatsAsSold_method :: "'b wire \<Rightarrow> ('b, MarkSeatsAsSoldRequest, MarkSeatsAsSoldResponse) grpc_method" where
  "markSeatsAsSold_method W = \<lparr>gm_path = ''/seat_inventory.SeatInventoryService/MarkSeatsAsSold'',
     gm_requestStream = False, gm_responseStream = False,
     gm_requestSerialize = MarkSeatsAsSoldRequest_encode W, gm_requestDeserialize = decode_all (MarkSeatsAsSoldRequest_decode W),
     gm_responseSerialize = MarkSeatsAsSoldResponse_encode W, gm_responseDeserialize = decode_all (MarkSeatsAsSoldResponse_decode W)\<rparr>"

definition releaseSoldSeats_method :: "'b wire \<Rightarrow> ('b, ReleaseSoldSeatsRequest, ReleaseSoldSeatsResponse) grpc_method" where
  "releaseSoldSeats_method W = \<lparr>gm_path = ''/seat_inventory.SeatInventoryService/ReleaseSoldSeats'',
     gm_requestStream = False, gm_responseStream = False,
     gm_requestSerialize = ReleaseSoldSeatsRequest_encode W, gm_requestDeserialize = decode_all (ReleaseSoldSeatsRequest_decode W),
     gm_responseSerialize = ReleaseSoldSeatsResponse_encode W, gm_responseDeserialize = decode_all (ReleaseSoldSeatsResponse_decode W)\<rparr>"

context wire_format
begin

lemma Proto_Seat_methods:
  "transparent (getSeatsByEvent_method W)"
  "transparent (getAvailableSeats_method W)"
  "transparent (verifyHold_method W)"
  "transparent (holdSeats_method W)"
  "transparent (releaseSeats_method W)"
  "transparent (markSeatsAsSold_method W)"
  "transparent (releaseSoldSeats_method W)"
  using GetSeatsByEventRequest_survives GetSeatsByEventResponse_survives HoldSeatsRequest_survives HoldSeatsResponse_survives MarkSeatsAsSoldRequest_survives MarkSeatsAsSoldResponse_survives ReleaseSeatsRequest_survives ReleaseSeatsResponse_survives ReleaseSoldSeatsRequest_survives ReleaseSoldSeatsResponse_survives VerifyHoldRequest_survives VerifyHoldResponse_survives
  by (simp_all add: transparent_def survives_def getSeatsByEvent_method_def getAvailableSeats_method_def verifyHold_method_def holdSeats_method_def releaseSeats_method_def markSeatsAsSold_method_def releaseSoldSeats_method_def)

end

end
