(* ===== verification/Proto_Payment.thy ===== *)
theory Proto_Payment
  imports Proto_Wire Refund_Service
begin

text \<open>
  The generated stubs of the payment service (libs/grpc/src/generated/payment.ts), like those of \<open>Proto_Seat\<close>.
\<close>

section \<open>The messages\<close>

record InitiatePaymentRequest =
  ipq_bookingId :: string
  ipq_idempotencyKey :: string
  ipq_amount :: js_number
  ipq_currency :: string
  ipq_method :: string
  ipq_cardToken :: string
  ipq_provider :: string

record InitiatePaymentResponse =
  ipr_payment :: "PaymentInfo option"

record GetPaymentRequest =
  gpq_id :: string

record GetPaymentsByBookingRequest =
  gbq_bookingId :: string

record GetPaymentsByBookingResponse =
  gbr_payments :: "PaymentInfo list"

record RefundPaymentRequest =
  rpq_bookingId :: string
  rpq_idempotencyKey :: string
  rpq_reason :: string

type_synonym RefundPaymentResponse = RefundReply

section \<open>\<^verbatim>\<open>InitiatePaymentRequest\<close>\<close>

definition createBaseInitiatePaymentRequest :: InitiatePaymentRequest where
  "createBaseInitiatePaymentRequest = \<lparr>ipq_bookingId = [], ipq_idempotencyKey = [], ipq_amount = Fin 0, ipq_currency = [], ipq_method = [],
     ipq_cardToken = [], ipq_provider = []\<rparr>"

definition InitiatePaymentRequest_encode :: "'b wire \<Rightarrow> InitiatePaymentRequest \<Rightarrow> 'b list" where
  "InitiatePaymentRequest_encode W m =
     put_text W 10 (ipq_bookingId m) @ put_text W 18 (ipq_idempotencyKey m) @ put_number W 25 (ipq_amount m) @
     put_text W 34 (ipq_currency m) @ put_text W 42 (ipq_method m) @ put_text W 50 (ipq_cardToken m) @
     put_text W 58 (ipq_provider m)"

definition InitiatePaymentRequest_cases :: "'b wire \<Rightarrow> 'b list \<Rightarrow> nat \<Rightarrow> InitiatePaymentRequest \<Rightarrow> (nat \<Rightarrow> exn + InitiatePaymentRequest \<times> nat) option" where
  "InitiatePaymentRequest_cases W buf tag m = switch_tag tag
     [(1, 10, read_with (get_string W buf) (\<lambda>x. m\<lparr>ipq_bookingId := x\<rparr>)),
      (2, 18, read_with (get_string W buf) (\<lambda>x. m\<lparr>ipq_idempotencyKey := x\<rparr>)),
      (3, 25, read_with (get_double W buf) (\<lambda>x. m\<lparr>ipq_amount := x\<rparr>)),
      (4, 34, read_with (get_string W buf) (\<lambda>x. m\<lparr>ipq_currency := x\<rparr>)),
      (5, 42, read_with (get_string W buf) (\<lambda>x. m\<lparr>ipq_method := x\<rparr>)),
      (6, 50, read_with (get_string W buf) (\<lambda>x. m\<lparr>ipq_cardToken := x\<rparr>)),
      (7, 58, read_with (get_string W buf) (\<lambda>x. m\<lparr>ipq_provider := x\<rparr>))]"

definition InitiatePaymentRequest_decode :: "'b wire \<Rightarrow> 'b list \<Rightarrow> nat \<Rightarrow> nat option \<Rightarrow> exn + InitiatePaymentRequest \<times> nat" where
  "InitiatePaymentRequest_decode W = decode_with W (InitiatePaymentRequest_cases W) createBaseInitiatePaymentRequest"

lemma InitiatePaymentRequest_case:
  "InitiatePaymentRequest_cases W buf 10 m = Some (read_with (get_string W buf) (\<lambda>x. ipq_bookingId_update (\<lambda>_. x) m))"
  "InitiatePaymentRequest_cases W buf 18 m = Some (read_with (get_string W buf) (\<lambda>x. ipq_idempotencyKey_update (\<lambda>_. x) m))"
  "InitiatePaymentRequest_cases W buf 25 m = Some (read_with (get_double W buf) (\<lambda>x. ipq_amount_update (\<lambda>_. x) m))"
  "InitiatePaymentRequest_cases W buf 34 m = Some (read_with (get_string W buf) (\<lambda>x. ipq_currency_update (\<lambda>_. x) m))"
  "InitiatePaymentRequest_cases W buf 42 m = Some (read_with (get_string W buf) (\<lambda>x. ipq_method_update (\<lambda>_. x) m))"
  "InitiatePaymentRequest_cases W buf 50 m = Some (read_with (get_string W buf) (\<lambda>x. ipq_cardToken_update (\<lambda>_. x) m))"
  "InitiatePaymentRequest_cases W buf 58 m = Some (read_with (get_string W buf) (\<lambda>x. ipq_provider_update (\<lambda>_. x) m))"
  by (cases m; simp add: InitiatePaymentRequest_cases_def switch_tag_def; fail)+

context wire_format
begin

lemmas InitiatePaymentRequest_steps =
  absorbs_text [where cases = "InitiatePaymentRequest_cases W" and tag = 10 and upd = ipq_bookingId_update, OF InitiatePaymentRequest_case(1)]
  absorbs_text [where cases = "InitiatePaymentRequest_cases W" and tag = 18 and upd = ipq_idempotencyKey_update, OF InitiatePaymentRequest_case(2)]
  absorbs_number [where cases = "InitiatePaymentRequest_cases W" and tag = 25 and upd = ipq_amount_update, OF InitiatePaymentRequest_case(3)]
  absorbs_text [where cases = "InitiatePaymentRequest_cases W" and tag = 34 and upd = ipq_currency_update, OF InitiatePaymentRequest_case(4)]
  absorbs_text [where cases = "InitiatePaymentRequest_cases W" and tag = 42 and upd = ipq_method_update, OF InitiatePaymentRequest_case(5)]
  absorbs_text [where cases = "InitiatePaymentRequest_cases W" and tag = 50 and upd = ipq_cardToken_update, OF InitiatePaymentRequest_case(6)]
  absorbs_text [where cases = "InitiatePaymentRequest_cases W" and tag = 58 and upd = ipq_provider_update, OF InitiatePaymentRequest_case(7)]

lemma InitiatePaymentRequest_absorbs: "absorbs W (InitiatePaymentRequest_cases W) (InitiatePaymentRequest_encode W m) createBaseInitiatePaymentRequest m"
  by (rule absorbs_eq, unfold InitiatePaymentRequest_encode_def)
    (rule absorbs_append InitiatePaymentRequest_steps | (cases m; simp add: createBaseInitiatePaymentRequest_def; fail))+

lemma InitiatePaymentRequest_survives: "survives (InitiatePaymentRequest_encode W) (InitiatePaymentRequest_decode W)"
  unfolding InitiatePaymentRequest_decode_def by (rule absorbs_survives(1)) (rule InitiatePaymentRequest_absorbs)

lemma InitiatePaymentRequest_nests: "nests (InitiatePaymentRequest_encode W) (InitiatePaymentRequest_decode W)"
  unfolding InitiatePaymentRequest_decode_def by (rule absorbs_survives(2)) (rule InitiatePaymentRequest_absorbs)

end

section \<open>\<^verbatim>\<open>PaymentInfo\<close>\<close>

definition createBasePaymentInfo :: PaymentInfo where
  "createBasePaymentInfo = \<lparr>pi_id = [], pi_bookingId = [], pi_idempotencyKey = [], pi_amount = [], pi_currency = [], pi_method = [],
     pi_status = [], pi_provider = [], pi_providerTxId = [], pi_failureReason = [], pi_paidAt = []\<rparr>"

definition PaymentInfo_encode :: "'b wire \<Rightarrow> PaymentInfo \<Rightarrow> 'b list" where
  "PaymentInfo_encode W m =
     put_text W 10 (pi_id m) @ put_text W 18 (pi_bookingId m) @ put_text W 26 (pi_idempotencyKey m) @
     put_text W 34 (pi_amount m) @ put_text W 42 (pi_currency m) @ put_text W 50 (pi_method m) @
     put_text W 58 (pi_status m) @ put_text W 66 (pi_provider m) @ put_text W 74 (pi_providerTxId m) @
     put_text W 82 (pi_failureReason m) @ put_text W 90 (pi_paidAt m)"

definition PaymentInfo_cases :: "'b wire \<Rightarrow> 'b list \<Rightarrow> nat \<Rightarrow> PaymentInfo \<Rightarrow> (nat \<Rightarrow> exn + PaymentInfo \<times> nat) option" where
  "PaymentInfo_cases W buf tag m = switch_tag tag
     [(1, 10, read_with (get_string W buf) (\<lambda>x. m\<lparr>pi_id := x\<rparr>)),
      (2, 18, read_with (get_string W buf) (\<lambda>x. m\<lparr>pi_bookingId := x\<rparr>)),
      (3, 26, read_with (get_string W buf) (\<lambda>x. m\<lparr>pi_idempotencyKey := x\<rparr>)),
      (4, 34, read_with (get_string W buf) (\<lambda>x. m\<lparr>pi_amount := x\<rparr>)),
      (5, 42, read_with (get_string W buf) (\<lambda>x. m\<lparr>pi_currency := x\<rparr>)),
      (6, 50, read_with (get_string W buf) (\<lambda>x. m\<lparr>pi_method := x\<rparr>)),
      (7, 58, read_with (get_string W buf) (\<lambda>x. m\<lparr>pi_status := x\<rparr>)),
      (8, 66, read_with (get_string W buf) (\<lambda>x. m\<lparr>pi_provider := x\<rparr>)),
      (9, 74, read_with (get_string W buf) (\<lambda>x. m\<lparr>pi_providerTxId := x\<rparr>)),
      (10, 82, read_with (get_string W buf) (\<lambda>x. m\<lparr>pi_failureReason := x\<rparr>)),
      (11, 90, read_with (get_string W buf) (\<lambda>x. m\<lparr>pi_paidAt := x\<rparr>))]"

definition PaymentInfo_decode :: "'b wire \<Rightarrow> 'b list \<Rightarrow> nat \<Rightarrow> nat option \<Rightarrow> exn + PaymentInfo \<times> nat" where
  "PaymentInfo_decode W = decode_with W (PaymentInfo_cases W) createBasePaymentInfo"

lemma PaymentInfo_case:
  "PaymentInfo_cases W buf 10 m = Some (read_with (get_string W buf) (\<lambda>x. pi_id_update (\<lambda>_. x) m))"
  "PaymentInfo_cases W buf 18 m = Some (read_with (get_string W buf) (\<lambda>x. pi_bookingId_update (\<lambda>_. x) m))"
  "PaymentInfo_cases W buf 26 m = Some (read_with (get_string W buf) (\<lambda>x. pi_idempotencyKey_update (\<lambda>_. x) m))"
  "PaymentInfo_cases W buf 34 m = Some (read_with (get_string W buf) (\<lambda>x. pi_amount_update (\<lambda>_. x) m))"
  "PaymentInfo_cases W buf 42 m = Some (read_with (get_string W buf) (\<lambda>x. pi_currency_update (\<lambda>_. x) m))"
  "PaymentInfo_cases W buf 50 m = Some (read_with (get_string W buf) (\<lambda>x. pi_method_update (\<lambda>_. x) m))"
  "PaymentInfo_cases W buf 58 m = Some (read_with (get_string W buf) (\<lambda>x. pi_status_update (\<lambda>_. x) m))"
  "PaymentInfo_cases W buf 66 m = Some (read_with (get_string W buf) (\<lambda>x. pi_provider_update (\<lambda>_. x) m))"
  "PaymentInfo_cases W buf 74 m = Some (read_with (get_string W buf) (\<lambda>x. pi_providerTxId_update (\<lambda>_. x) m))"
  "PaymentInfo_cases W buf 82 m = Some (read_with (get_string W buf) (\<lambda>x. pi_failureReason_update (\<lambda>_. x) m))"
  "PaymentInfo_cases W buf 90 m = Some (read_with (get_string W buf) (\<lambda>x. pi_paidAt_update (\<lambda>_. x) m))"
  by (cases m; simp add: PaymentInfo_cases_def switch_tag_def; fail)+

context wire_format
begin

lemmas PaymentInfo_steps =
  absorbs_text [where cases = "PaymentInfo_cases W" and tag = 10 and upd = pi_id_update, OF PaymentInfo_case(1)]
  absorbs_text [where cases = "PaymentInfo_cases W" and tag = 18 and upd = pi_bookingId_update, OF PaymentInfo_case(2)]
  absorbs_text [where cases = "PaymentInfo_cases W" and tag = 26 and upd = pi_idempotencyKey_update, OF PaymentInfo_case(3)]
  absorbs_text [where cases = "PaymentInfo_cases W" and tag = 34 and upd = pi_amount_update, OF PaymentInfo_case(4)]
  absorbs_text [where cases = "PaymentInfo_cases W" and tag = 42 and upd = pi_currency_update, OF PaymentInfo_case(5)]
  absorbs_text [where cases = "PaymentInfo_cases W" and tag = 50 and upd = pi_method_update, OF PaymentInfo_case(6)]
  absorbs_text [where cases = "PaymentInfo_cases W" and tag = 58 and upd = pi_status_update, OF PaymentInfo_case(7)]
  absorbs_text [where cases = "PaymentInfo_cases W" and tag = 66 and upd = pi_provider_update, OF PaymentInfo_case(8)]
  absorbs_text [where cases = "PaymentInfo_cases W" and tag = 74 and upd = pi_providerTxId_update, OF PaymentInfo_case(9)]
  absorbs_text [where cases = "PaymentInfo_cases W" and tag = 82 and upd = pi_failureReason_update, OF PaymentInfo_case(10)]
  absorbs_text [where cases = "PaymentInfo_cases W" and tag = 90 and upd = pi_paidAt_update, OF PaymentInfo_case(11)]

lemma PaymentInfo_absorbs: "absorbs W (PaymentInfo_cases W) (PaymentInfo_encode W m) createBasePaymentInfo m"
  by (rule absorbs_eq, unfold PaymentInfo_encode_def)
    (rule absorbs_append PaymentInfo_steps | (cases m; simp add: createBasePaymentInfo_def; fail))+

lemma PaymentInfo_survives: "survives (PaymentInfo_encode W) (PaymentInfo_decode W)"
  unfolding PaymentInfo_decode_def by (rule absorbs_survives(1)) (rule PaymentInfo_absorbs)

lemma PaymentInfo_nests: "nests (PaymentInfo_encode W) (PaymentInfo_decode W)"
  unfolding PaymentInfo_decode_def by (rule absorbs_survives(2)) (rule PaymentInfo_absorbs)

end

section \<open>\<^verbatim>\<open>InitiatePaymentResponse\<close>\<close>

definition createBaseInitiatePaymentResponse :: InitiatePaymentResponse where
  "createBaseInitiatePaymentResponse = \<lparr>ipr_payment = None\<rparr>"

definition InitiatePaymentResponse_encode :: "'b wire \<Rightarrow> InitiatePaymentResponse \<Rightarrow> 'b list" where
  "InitiatePaymentResponse_encode W m =
     (case ipr_payment m of None \<Rightarrow> [] | Some v \<Rightarrow> put_nested W 10 (PaymentInfo_encode W v))"

definition InitiatePaymentResponse_cases :: "'b wire \<Rightarrow> 'b list \<Rightarrow> nat \<Rightarrow> InitiatePaymentResponse \<Rightarrow> (nat \<Rightarrow> exn + InitiatePaymentResponse \<times> nat) option" where
  "InitiatePaymentResponse_cases W buf tag m = switch_tag tag
     [(1, 10, read_with (read_nested W buf (PaymentInfo_decode W)) (\<lambda>x. m\<lparr>ipr_payment := Some x\<rparr>))]"

definition InitiatePaymentResponse_decode :: "'b wire \<Rightarrow> 'b list \<Rightarrow> nat \<Rightarrow> nat option \<Rightarrow> exn + InitiatePaymentResponse \<times> nat" where
  "InitiatePaymentResponse_decode W = decode_with W (InitiatePaymentResponse_cases W) createBaseInitiatePaymentResponse"

lemma InitiatePaymentResponse_case:
  "InitiatePaymentResponse_cases W buf 10 m = Some (read_with (read_nested W buf (PaymentInfo_decode W)) (\<lambda>x. ipr_payment_update (\<lambda>_. Some x) m))"
  by (cases m; simp add: InitiatePaymentResponse_cases_def switch_tag_def; fail)+

context wire_format
begin

lemmas InitiatePaymentResponse_steps =
  absorbs_message [where cases = "InitiatePaymentResponse_cases W" and tag = 10 and upd = ipr_payment_update and enc = "PaymentInfo_encode W", OF InitiatePaymentResponse_case]

lemma InitiatePaymentResponse_absorbs: "absorbs W (InitiatePaymentResponse_cases W) (InitiatePaymentResponse_encode W m) createBaseInitiatePaymentResponse m"
  by (rule absorbs_eq, unfold InitiatePaymentResponse_encode_def)
    (rule absorbs_append InitiatePaymentResponse_steps | (cases m; simp add: createBaseInitiatePaymentResponse_def PaymentInfo_nests; fail))+

lemma InitiatePaymentResponse_survives: "survives (InitiatePaymentResponse_encode W) (InitiatePaymentResponse_decode W)"
  unfolding InitiatePaymentResponse_decode_def by (rule absorbs_survives(1)) (rule InitiatePaymentResponse_absorbs)

lemma InitiatePaymentResponse_nests: "nests (InitiatePaymentResponse_encode W) (InitiatePaymentResponse_decode W)"
  unfolding InitiatePaymentResponse_decode_def by (rule absorbs_survives(2)) (rule InitiatePaymentResponse_absorbs)

end

section \<open>\<^verbatim>\<open>GetPaymentRequest\<close>\<close>

definition createBaseGetPaymentRequest :: GetPaymentRequest where
  "createBaseGetPaymentRequest = \<lparr>gpq_id = []\<rparr>"

definition GetPaymentRequest_encode :: "'b wire \<Rightarrow> GetPaymentRequest \<Rightarrow> 'b list" where
  "GetPaymentRequest_encode W m =
     put_text W 10 (gpq_id m)"

definition GetPaymentRequest_cases :: "'b wire \<Rightarrow> 'b list \<Rightarrow> nat \<Rightarrow> GetPaymentRequest \<Rightarrow> (nat \<Rightarrow> exn + GetPaymentRequest \<times> nat) option" where
  "GetPaymentRequest_cases W buf tag m = switch_tag tag
     [(1, 10, read_with (get_string W buf) (\<lambda>x. m\<lparr>gpq_id := x\<rparr>))]"

definition GetPaymentRequest_decode :: "'b wire \<Rightarrow> 'b list \<Rightarrow> nat \<Rightarrow> nat option \<Rightarrow> exn + GetPaymentRequest \<times> nat" where
  "GetPaymentRequest_decode W = decode_with W (GetPaymentRequest_cases W) createBaseGetPaymentRequest"

lemma GetPaymentRequest_case:
  "GetPaymentRequest_cases W buf 10 m = Some (read_with (get_string W buf) (\<lambda>x. gpq_id_update (\<lambda>_. x) m))"
  by (cases m; simp add: GetPaymentRequest_cases_def switch_tag_def; fail)+

context wire_format
begin

lemmas GetPaymentRequest_steps =
  absorbs_text [where cases = "GetPaymentRequest_cases W" and tag = 10 and upd = gpq_id_update, OF GetPaymentRequest_case]

lemma GetPaymentRequest_absorbs: "absorbs W (GetPaymentRequest_cases W) (GetPaymentRequest_encode W m) createBaseGetPaymentRequest m"
  by (rule absorbs_eq, unfold GetPaymentRequest_encode_def)
    (rule absorbs_append GetPaymentRequest_steps | (cases m; simp add: createBaseGetPaymentRequest_def; fail))+

lemma GetPaymentRequest_survives: "survives (GetPaymentRequest_encode W) (GetPaymentRequest_decode W)"
  unfolding GetPaymentRequest_decode_def by (rule absorbs_survives(1)) (rule GetPaymentRequest_absorbs)

lemma GetPaymentRequest_nests: "nests (GetPaymentRequest_encode W) (GetPaymentRequest_decode W)"
  unfolding GetPaymentRequest_decode_def by (rule absorbs_survives(2)) (rule GetPaymentRequest_absorbs)

end

section \<open>\<^verbatim>\<open>GetPaymentsByBookingRequest\<close>\<close>

definition createBaseGetPaymentsByBookingRequest :: GetPaymentsByBookingRequest where
  "createBaseGetPaymentsByBookingRequest = \<lparr>gbq_bookingId = []\<rparr>"

definition GetPaymentsByBookingRequest_encode :: "'b wire \<Rightarrow> GetPaymentsByBookingRequest \<Rightarrow> 'b list" where
  "GetPaymentsByBookingRequest_encode W m =
     put_text W 10 (gbq_bookingId m)"

definition GetPaymentsByBookingRequest_cases :: "'b wire \<Rightarrow> 'b list \<Rightarrow> nat \<Rightarrow> GetPaymentsByBookingRequest \<Rightarrow> (nat \<Rightarrow> exn + GetPaymentsByBookingRequest \<times> nat) option" where
  "GetPaymentsByBookingRequest_cases W buf tag m = switch_tag tag
     [(1, 10, read_with (get_string W buf) (\<lambda>x. m\<lparr>gbq_bookingId := x\<rparr>))]"

definition GetPaymentsByBookingRequest_decode :: "'b wire \<Rightarrow> 'b list \<Rightarrow> nat \<Rightarrow> nat option \<Rightarrow> exn + GetPaymentsByBookingRequest \<times> nat" where
  "GetPaymentsByBookingRequest_decode W = decode_with W (GetPaymentsByBookingRequest_cases W) createBaseGetPaymentsByBookingRequest"

lemma GetPaymentsByBookingRequest_case:
  "GetPaymentsByBookingRequest_cases W buf 10 m = Some (read_with (get_string W buf) (\<lambda>x. gbq_bookingId_update (\<lambda>_. x) m))"
  by (cases m; simp add: GetPaymentsByBookingRequest_cases_def switch_tag_def; fail)+

context wire_format
begin

lemmas GetPaymentsByBookingRequest_steps =
  absorbs_text [where cases = "GetPaymentsByBookingRequest_cases W" and tag = 10 and upd = gbq_bookingId_update, OF GetPaymentsByBookingRequest_case]

lemma GetPaymentsByBookingRequest_absorbs: "absorbs W (GetPaymentsByBookingRequest_cases W) (GetPaymentsByBookingRequest_encode W m) createBaseGetPaymentsByBookingRequest m"
  by (rule absorbs_eq, unfold GetPaymentsByBookingRequest_encode_def)
    (rule absorbs_append GetPaymentsByBookingRequest_steps | (cases m; simp add: createBaseGetPaymentsByBookingRequest_def; fail))+

lemma GetPaymentsByBookingRequest_survives: "survives (GetPaymentsByBookingRequest_encode W) (GetPaymentsByBookingRequest_decode W)"
  unfolding GetPaymentsByBookingRequest_decode_def by (rule absorbs_survives(1)) (rule GetPaymentsByBookingRequest_absorbs)

lemma GetPaymentsByBookingRequest_nests: "nests (GetPaymentsByBookingRequest_encode W) (GetPaymentsByBookingRequest_decode W)"
  unfolding GetPaymentsByBookingRequest_decode_def by (rule absorbs_survives(2)) (rule GetPaymentsByBookingRequest_absorbs)

end

section \<open>\<^verbatim>\<open>GetPaymentsByBookingResponse\<close>\<close>

definition createBaseGetPaymentsByBookingResponse :: GetPaymentsByBookingResponse where
  "createBaseGetPaymentsByBookingResponse = \<lparr>gbr_payments = []\<rparr>"

definition GetPaymentsByBookingResponse_encode :: "'b wire \<Rightarrow> GetPaymentsByBookingResponse \<Rightarrow> 'b list" where
  "GetPaymentsByBookingResponse_encode W m =
     concat (map (\<lambda>v. put_nested W 10 (PaymentInfo_encode W v)) (gbr_payments m))"

definition GetPaymentsByBookingResponse_cases :: "'b wire \<Rightarrow> 'b list \<Rightarrow> nat \<Rightarrow> GetPaymentsByBookingResponse \<Rightarrow> (nat \<Rightarrow> exn + GetPaymentsByBookingResponse \<times> nat) option" where
  "GetPaymentsByBookingResponse_cases W buf tag m = switch_tag tag
     [(1, 10, read_with (read_nested W buf (PaymentInfo_decode W)) (\<lambda>x. m\<lparr>gbr_payments := gbr_payments m @ [x]\<rparr>))]"

definition GetPaymentsByBookingResponse_decode :: "'b wire \<Rightarrow> 'b list \<Rightarrow> nat \<Rightarrow> nat option \<Rightarrow> exn + GetPaymentsByBookingResponse \<times> nat" where
  "GetPaymentsByBookingResponse_decode W = decode_with W (GetPaymentsByBookingResponse_cases W) createBaseGetPaymentsByBookingResponse"

lemma GetPaymentsByBookingResponse_case:
  "GetPaymentsByBookingResponse_cases W buf 10 m = Some (read_with (read_nested W buf (PaymentInfo_decode W)) (\<lambda>x. gbr_payments_update (\<lambda>xs. xs @ [x]) m))"
  by (cases m; simp add: GetPaymentsByBookingResponse_cases_def switch_tag_def; fail)+

context wire_format
begin

lemmas GetPaymentsByBookingResponse_steps =
  absorbs_messages [where cases = "GetPaymentsByBookingResponse_cases W" and tag = 10 and upd = gbr_payments_update and enc = "PaymentInfo_encode W", OF GetPaymentsByBookingResponse_case]

lemma GetPaymentsByBookingResponse_absorbs: "absorbs W (GetPaymentsByBookingResponse_cases W) (GetPaymentsByBookingResponse_encode W m) createBaseGetPaymentsByBookingResponse m"
  by (rule absorbs_eq, unfold GetPaymentsByBookingResponse_encode_def)
    (rule absorbs_append GetPaymentsByBookingResponse_steps | (cases m; simp add: createBaseGetPaymentsByBookingResponse_def PaymentInfo_nests; fail))+

lemma GetPaymentsByBookingResponse_survives: "survives (GetPaymentsByBookingResponse_encode W) (GetPaymentsByBookingResponse_decode W)"
  unfolding GetPaymentsByBookingResponse_decode_def by (rule absorbs_survives(1)) (rule GetPaymentsByBookingResponse_absorbs)

lemma GetPaymentsByBookingResponse_nests: "nests (GetPaymentsByBookingResponse_encode W) (GetPaymentsByBookingResponse_decode W)"
  unfolding GetPaymentsByBookingResponse_decode_def by (rule absorbs_survives(2)) (rule GetPaymentsByBookingResponse_absorbs)

end

section \<open>\<^verbatim>\<open>RefundPaymentRequest\<close>\<close>

definition createBaseRefundPaymentRequest :: RefundPaymentRequest where
  "createBaseRefundPaymentRequest = \<lparr>rpq_bookingId = [], rpq_idempotencyKey = [], rpq_reason = []\<rparr>"

definition RefundPaymentRequest_encode :: "'b wire \<Rightarrow> RefundPaymentRequest \<Rightarrow> 'b list" where
  "RefundPaymentRequest_encode W m =
     put_text W 10 (rpq_bookingId m) @ put_text W 18 (rpq_idempotencyKey m) @ put_text W 26 (rpq_reason m)"

definition RefundPaymentRequest_cases :: "'b wire \<Rightarrow> 'b list \<Rightarrow> nat \<Rightarrow> RefundPaymentRequest \<Rightarrow> (nat \<Rightarrow> exn + RefundPaymentRequest \<times> nat) option" where
  "RefundPaymentRequest_cases W buf tag m = switch_tag tag
     [(1, 10, read_with (get_string W buf) (\<lambda>x. m\<lparr>rpq_bookingId := x\<rparr>)),
      (2, 18, read_with (get_string W buf) (\<lambda>x. m\<lparr>rpq_idempotencyKey := x\<rparr>)),
      (3, 26, read_with (get_string W buf) (\<lambda>x. m\<lparr>rpq_reason := x\<rparr>))]"

definition RefundPaymentRequest_decode :: "'b wire \<Rightarrow> 'b list \<Rightarrow> nat \<Rightarrow> nat option \<Rightarrow> exn + RefundPaymentRequest \<times> nat" where
  "RefundPaymentRequest_decode W = decode_with W (RefundPaymentRequest_cases W) createBaseRefundPaymentRequest"

lemma RefundPaymentRequest_case:
  "RefundPaymentRequest_cases W buf 10 m = Some (read_with (get_string W buf) (\<lambda>x. rpq_bookingId_update (\<lambda>_. x) m))"
  "RefundPaymentRequest_cases W buf 18 m = Some (read_with (get_string W buf) (\<lambda>x. rpq_idempotencyKey_update (\<lambda>_. x) m))"
  "RefundPaymentRequest_cases W buf 26 m = Some (read_with (get_string W buf) (\<lambda>x. rpq_reason_update (\<lambda>_. x) m))"
  by (cases m; simp add: RefundPaymentRequest_cases_def switch_tag_def; fail)+

context wire_format
begin

lemmas RefundPaymentRequest_steps =
  absorbs_text [where cases = "RefundPaymentRequest_cases W" and tag = 10 and upd = rpq_bookingId_update, OF RefundPaymentRequest_case(1)]
  absorbs_text [where cases = "RefundPaymentRequest_cases W" and tag = 18 and upd = rpq_idempotencyKey_update, OF RefundPaymentRequest_case(2)]
  absorbs_text [where cases = "RefundPaymentRequest_cases W" and tag = 26 and upd = rpq_reason_update, OF RefundPaymentRequest_case(3)]

lemma RefundPaymentRequest_absorbs: "absorbs W (RefundPaymentRequest_cases W) (RefundPaymentRequest_encode W m) createBaseRefundPaymentRequest m"
  by (rule absorbs_eq, unfold RefundPaymentRequest_encode_def)
    (rule absorbs_append RefundPaymentRequest_steps | (cases m; simp add: createBaseRefundPaymentRequest_def; fail))+

lemma RefundPaymentRequest_survives: "survives (RefundPaymentRequest_encode W) (RefundPaymentRequest_decode W)"
  unfolding RefundPaymentRequest_decode_def by (rule absorbs_survives(1)) (rule RefundPaymentRequest_absorbs)

lemma RefundPaymentRequest_nests: "nests (RefundPaymentRequest_encode W) (RefundPaymentRequest_decode W)"
  unfolding RefundPaymentRequest_decode_def by (rule absorbs_survives(2)) (rule RefundPaymentRequest_absorbs)

end

section \<open>\<^verbatim>\<open>RefundPaymentResponse\<close>\<close>

definition createBaseRefundPaymentResponse :: RefundPaymentResponse where
  "createBaseRefundPaymentResponse = \<lparr>rr_success = False, rr_refundId = [], rr_failureReason = []\<rparr>"

definition RefundPaymentResponse_encode :: "'b wire \<Rightarrow> RefundPaymentResponse \<Rightarrow> 'b list" where
  "RefundPaymentResponse_encode W m =
     put_flag W 8 (rr_success m) @ put_text W 18 (rr_refundId m) @ put_text W 26 (rr_failureReason m)"

definition RefundPaymentResponse_cases :: "'b wire \<Rightarrow> 'b list \<Rightarrow> nat \<Rightarrow> RefundPaymentResponse \<Rightarrow> (nat \<Rightarrow> exn + RefundPaymentResponse \<times> nat) option" where
  "RefundPaymentResponse_cases W buf tag m = switch_tag tag
     [(1, 8, read_with (get_bool W buf) (\<lambda>x. m\<lparr>rr_success := x\<rparr>)),
      (2, 18, read_with (get_string W buf) (\<lambda>x. m\<lparr>rr_refundId := x\<rparr>)),
      (3, 26, read_with (get_string W buf) (\<lambda>x. m\<lparr>rr_failureReason := x\<rparr>))]"

definition RefundPaymentResponse_decode :: "'b wire \<Rightarrow> 'b list \<Rightarrow> nat \<Rightarrow> nat option \<Rightarrow> exn + RefundPaymentResponse \<times> nat" where
  "RefundPaymentResponse_decode W = decode_with W (RefundPaymentResponse_cases W) createBaseRefundPaymentResponse"

lemma RefundPaymentResponse_case:
  "RefundPaymentResponse_cases W buf 8 m = Some (read_with (get_bool W buf) (\<lambda>x. rr_success_update (\<lambda>_. x) m))"
  "RefundPaymentResponse_cases W buf 18 m = Some (read_with (get_string W buf) (\<lambda>x. rr_refundId_update (\<lambda>_. x) m))"
  "RefundPaymentResponse_cases W buf 26 m = Some (read_with (get_string W buf) (\<lambda>x. rr_failureReason_update (\<lambda>_. x) m))"
  by (cases m; simp add: RefundPaymentResponse_cases_def switch_tag_def; fail)+

context wire_format
begin

lemmas RefundPaymentResponse_steps =
  absorbs_flag [where cases = "RefundPaymentResponse_cases W" and tag = 8 and upd = rr_success_update, OF RefundPaymentResponse_case(1)]
  absorbs_text [where cases = "RefundPaymentResponse_cases W" and tag = 18 and upd = rr_refundId_update, OF RefundPaymentResponse_case(2)]
  absorbs_text [where cases = "RefundPaymentResponse_cases W" and tag = 26 and upd = rr_failureReason_update, OF RefundPaymentResponse_case(3)]

lemma RefundPaymentResponse_absorbs: "absorbs W (RefundPaymentResponse_cases W) (RefundPaymentResponse_encode W m) createBaseRefundPaymentResponse m"
  by (rule absorbs_eq, unfold RefundPaymentResponse_encode_def)
    (rule absorbs_append RefundPaymentResponse_steps | (cases m; simp add: createBaseRefundPaymentResponse_def; fail))+

lemma RefundPaymentResponse_survives: "survives (RefundPaymentResponse_encode W) (RefundPaymentResponse_decode W)"
  unfolding RefundPaymentResponse_decode_def by (rule absorbs_survives(1)) (rule RefundPaymentResponse_absorbs)

lemma RefundPaymentResponse_nests: "nests (RefundPaymentResponse_encode W) (RefundPaymentResponse_decode W)"
  unfolding RefundPaymentResponse_decode_def by (rule absorbs_survives(2)) (rule RefundPaymentResponse_absorbs)

end

section \<open>The methods\<close>

definition initiatePayment_method :: "'b wire \<Rightarrow> ('b, InitiatePaymentRequest, InitiatePaymentResponse) grpc_method" where
  "initiatePayment_method W = \<lparr>gm_path = ''/payment.PaymentService/InitiatePayment'',
     gm_requestStream = False, gm_responseStream = False,
     gm_requestSerialize = InitiatePaymentRequest_encode W, gm_requestDeserialize = decode_all (InitiatePaymentRequest_decode W),
     gm_responseSerialize = InitiatePaymentResponse_encode W, gm_responseDeserialize = decode_all (InitiatePaymentResponse_decode W)\<rparr>"

definition getPayment_method :: "'b wire \<Rightarrow> ('b, GetPaymentRequest, PaymentInfo) grpc_method" where
  "getPayment_method W = \<lparr>gm_path = ''/payment.PaymentService/GetPayment'',
     gm_requestStream = False, gm_responseStream = False,
     gm_requestSerialize = GetPaymentRequest_encode W, gm_requestDeserialize = decode_all (GetPaymentRequest_decode W),
     gm_responseSerialize = PaymentInfo_encode W, gm_responseDeserialize = decode_all (PaymentInfo_decode W)\<rparr>"

definition getPaymentsBooking_method :: "'b wire \<Rightarrow> ('b, GetPaymentsByBookingRequest, GetPaymentsByBookingResponse) grpc_method" where
  "getPaymentsBooking_method W = \<lparr>gm_path = ''/payment.PaymentService/GetPaymentsBooking'',
     gm_requestStream = False, gm_responseStream = False,
     gm_requestSerialize = GetPaymentsByBookingRequest_encode W, gm_requestDeserialize = decode_all (GetPaymentsByBookingRequest_decode W),
     gm_responseSerialize = GetPaymentsByBookingResponse_encode W, gm_responseDeserialize = decode_all (GetPaymentsByBookingResponse_decode W)\<rparr>"

definition refundPayment_method :: "'b wire \<Rightarrow> ('b, RefundPaymentRequest, RefundPaymentResponse) grpc_method" where
  "refundPayment_method W = \<lparr>gm_path = ''/payment.PaymentService/RefundPayment'',
     gm_requestStream = False, gm_responseStream = False,
     gm_requestSerialize = RefundPaymentRequest_encode W, gm_requestDeserialize = decode_all (RefundPaymentRequest_decode W),
     gm_responseSerialize = RefundPaymentResponse_encode W, gm_responseDeserialize = decode_all (RefundPaymentResponse_decode W)\<rparr>"

context wire_format
begin

lemma Proto_Payment_methods:
  "transparent (initiatePayment_method W)"
  "transparent (getPayment_method W)"
  "transparent (getPaymentsBooking_method W)"
  "transparent (refundPayment_method W)"
  using GetPaymentRequest_survives GetPaymentsByBookingRequest_survives GetPaymentsByBookingResponse_survives InitiatePaymentRequest_survives InitiatePaymentResponse_survives PaymentInfo_survives RefundPaymentRequest_survives RefundPaymentResponse_survives
  by (simp_all add: transparent_def survives_def initiatePayment_method_def getPayment_method_def getPaymentsBooking_method_def refundPayment_method_def)

end

end
