(* ===== verification/Proto_Properties.thy ===== *)
theory Proto_Properties
  imports Proto_Seat Proto_Payment
begin

text \<open>
  The messages of the services survive the wire, and an instance of the wire: variable-length integers in groups of
  seven bits, texts with their length in front.
\<close>

section \<open>An instance of the wire\<close>

text \<open>A double is one unit of this wire; everything else is bytes.\<close>

datatype wire_unit = Byte nat | Double js_number

fun varint :: "nat \<Rightarrow> nat list" where
  "varint n = (if n < 128 then [n] else (128 + n mod 128) # varint (n div 128))"

declare varint.simps [simp del]

text \<open>The number at the start, and how many bytes follow its first one.\<close>

fun unvarint :: "wire_unit list \<Rightarrow> (nat \<times> nat) option" where
  "unvarint (Byte b # us) = (if b < 128 then Some (b, 0)
     else (case unvarint us of None \<Rightarrow> None | Some (n, k) \<Rightarrow> Some (b - 128 + 128 * n, Suc k)))"
| "unvarint us = None"

lemma varint_roundtrip:
  "\<exists>k. length (varint n) = Suc k \<and> unvarint (map Byte (varint n) @ post) = Some (n, k)"
proof (induction n rule: varint.induct)
  case (1 n)
  show ?case
  proof (cases "n < 128")
    case True
    then show ?thesis by (simp add: varint.simps)
  next
    case False
    then obtain k where "length (varint (n div 128)) = Suc k" "unvarint (map Byte (varint (n div 128)) @ post) = Some (n div 128, k)"
      using 1 by blast
    then show ?thesis using False by (subst (1 2) varint.simps) simp
  qed
qed

definition premature_eof :: exn where
  "premature_eof = JsError ''premature EOF''"

definition plain_uint32 :: "wire_unit list \<Rightarrow> nat \<Rightarrow> exn + nat \<times> nat" where
  "plain_uint32 buf pos = (case unvarint (drop pos buf) of None \<Rightarrow> Inl premature_eof | Some x \<Rightarrow> Inr x)"

fun unit_char :: "wire_unit \<Rightarrow> char" where
  "unit_char (Byte b) = char_of b"
| "unit_char (Double x) = CHR 0x00"

fun plain_skip :: "nat \<Rightarrow> wire_unit list \<Rightarrow> nat \<Rightarrow> exn + nat" where
  "plain_skip t buf pos =
     (if t = 1 then Inr 1
      else (case plain_uint32 buf pos of
          Inl e \<Rightarrow> Inl e
        | Inr (n, k) \<Rightarrow> Inr (if t = 2 then Suc k + n else Suc k)))"

definition plain_wire :: "wire_unit wire" where
  "plain_wire = \<lparr>
     put_uint32 = (\<lambda>n. map Byte (varint n)),
     put_string = (\<lambda>s. map Byte (varint (length s)) @ map (\<lambda>c. Byte (of_char c)) s),
     put_bool = (\<lambda>b. [Byte (if b then 1 else 0)]),
     put_double = (\<lambda>x. [Double x]),
     get_uint32 = plain_uint32,
     get_string = (\<lambda>buf pos. case plain_uint32 buf pos of
         Inl e \<Rightarrow> Inl e
       | Inr (n, k) \<Rightarrow> (let us = take n (drop (pos + Suc k) buf) in
           if length us < n then Inl premature_eof else Inr (map unit_char us, Suc k + n))),
     get_bool = (\<lambda>buf pos. case plain_uint32 buf pos of Inl e \<Rightarrow> Inl e | Inr (n, k) \<Rightarrow> Inr (n \<noteq> 0, Suc k)),
     get_double = (\<lambda>buf pos. case drop pos buf of Double x # _ \<Rightarrow> Inr (x, 1) | _ \<Rightarrow> Inl premature_eof),
     skip_field = plain_skip\<rparr>"

interpretation plain: wire_format plain_wire
proof
  fix n and pre post :: "wire_unit list"
  show "\<exists>k. length (put_uint32 plain_wire n) = Suc k \<and>
      get_uint32 plain_wire (pre @ put_uint32 plain_wire n @ post) (length pre) = Inr (n, k)"
    using varint_roundtrip [of n post] by (auto simp: plain_wire_def plain_uint32_def)
next
  fix s and pre post :: "wire_unit list"
  obtain k where k: "length (varint (length s)) = Suc k"
      "unvarint (map Byte (varint (length s)) @ map (\<lambda>c. Byte (of_char c)) s @ post) = Some (length s, k)"
    using varint_roundtrip by blast
  have "map unit_char (map (\<lambda>c. Byte (of_char c)) s) = s" by (induction s) simp_all
  then show "get_string plain_wire (pre @ put_string plain_wire s @ post) (length pre) = Inr (s, length (put_string plain_wire s))"
    using k by (simp add: plain_wire_def plain_uint32_def)
next
  fix b and pre post :: "wire_unit list"
  show "get_bool plain_wire (pre @ put_bool plain_wire b @ post) (length pre) = Inr (b, length (put_bool plain_wire b))"
    by (simp add: plain_wire_def plain_uint32_def)
next
  fix x and pre post :: "wire_unit list"
  show "get_double plain_wire (pre @ put_double plain_wire x @ post) (length pre) = Inr (x, length (put_double plain_wire x))"
    by (simp add: plain_wire_def)
qed

section \<open>Properties\<close>

text \<open>
  C39.  The wire between the booking service and the seat-inventory service is transparent: for each of the seven
  methods, what the server decodes is the request of the client, and what the client decodes is the answer of the
  server, default values, empty lists and nested seats included.
\<close>

theorem seat_rpc_transparent:
  assumes "wire_format W"
  shows "transparent (getSeatsByEvent_method W) \<and> transparent (getAvailableSeats_method W) \<and>
    transparent (verifyHold_method W) \<and> transparent (holdSeats_method W) \<and> transparent (releaseSeats_method W) \<and>
    transparent (markSeatsAsSold_method W) \<and> transparent (releaseSoldSeats_method W)"
  using wire_format.Proto_Seat_methods [OF assms] by blast

theorem seat_rpc_transparent_witness:
  "gm_responseDeserialize (holdSeats_method plain_wire) (gm_responseSerialize (holdSeats_method plain_wire)
     \<lparr>hsr_success = True, hsr_holdIds = [''h1'', ''h2''], hsr_expiresAt = [], hsr_failedSeatIds = []\<rparr>) =
   Inr \<lparr>hsr_success = True, hsr_holdIds = [''h1'', ''h2''], hsr_expiresAt = [], hsr_failedSeatIds = []\<rparr>"
proof -
  let ?r = "\<lparr>hsr_success = True, hsr_holdIds = [''h1'', ''h2''], hsr_expiresAt = [], hsr_failedSeatIds = []\<rparr>"
  have "length (gm_responseSerialize (holdSeats_method plain_wire) ?r) < 2 ^ 32"
    by (simp add: holdSeats_method_def HoldSeatsResponse_encode_def put_flag_def put_texts_def put_text_def plain_wire_def varint.simps)
  then show ?thesis using seat_rpc_transparent [OF plain.wire_format_axioms] unfolding transparent_def by blast
qed

text \<open>
  C40.  The same for the four methods of the payment service, amounts as doubles and the optional payment included.
\<close>

theorem payment_rpc_transparent:
  assumes "wire_format W"
  shows "transparent (initiatePayment_method W) \<and> transparent (getPayment_method W) \<and>
    transparent (getPaymentsBooking_method W) \<and> transparent (refundPayment_method W)"
  using wire_format.Proto_Payment_methods [OF assms] by blast

theorem payment_rpc_transparent_witness:
  "gm_requestDeserialize (initiatePayment_method plain_wire) (gm_requestSerialize (initiatePayment_method plain_wire)
     \<lparr>ipq_bookingId = ''b1'', ipq_idempotencyKey = ''k'', ipq_amount = Fin 150, ipq_currency = ''TRY'', ipq_method = ''credit_card'',
      ipq_cardToken = ''tok'', ipq_provider = []\<rparr>) =
   Inr \<lparr>ipq_bookingId = ''b1'', ipq_idempotencyKey = ''k'', ipq_amount = Fin 150, ipq_currency = ''TRY'', ipq_method = ''credit_card'',
      ipq_cardToken = ''tok'', ipq_provider = []\<rparr>"
proof -
  let ?q = "\<lparr>ipq_bookingId = ''b1'', ipq_idempotencyKey = ''k'', ipq_amount = Fin 150, ipq_currency = ''TRY'',
    ipq_method = ''credit_card'', ipq_cardToken = ''tok'', ipq_provider = []\<rparr>"
  have "length (gm_requestSerialize (initiatePayment_method plain_wire) ?q) < 2 ^ 32"
    by (simp add: initiatePayment_method_def InitiatePaymentRequest_encode_def put_number_def put_text_def plain_wire_def varint.simps)
  then show ?thesis using payment_rpc_transparent [OF plain.wire_format_axioms] unfolding transparent_def by blast
qed

end
