(* ===== verification/Spec2Isabelle.thy ===== *)
theory Spec2Isabelle
  imports Seat_Controllers Hold_Properties Payment_Properties Payment_Http
    Booking_Properties Cancel_Properties Outbox_Properties Booking_Numbers Auth_Properties Event_Properties
    Gateway_Properties Notification_Properties Proto_Properties
begin

text \<open>
  Verification of an event ticketing platform: a set of NestJS services that sell numbered seats of events.
  A user holds seats for a few minutes (seat-inventory-service), books them (booking-service), pays
  (payment-service), gets tickets, and may cancel for a refund; events and venues come from the event-service,
  accounts from the auth-service, mails from the notification-service, and requests pass the api-gateway.  The
  theories model these services statement by statement from the TypeScript sources under \<^verbatim>\<open>apps/\<close> and
  \<^verbatim>\<open>libs/\<close>, and prove what a hold, a payment, a booking and a refund guarantee in every outcome, failures of
  the database, of Redis and of the peers included, and what the services make of each other's messages.

  \<^bold>\<open>How code is modelled.\<close>  An async method is a state-passing action \<open>('w, 'a) act\<close>: a function from a world
  to an exception or a value and the world after it (\<open>Prelude\<close>: \<open>await\<close>, \<open>throw\<close>, \<open>try_catch\<close>,
  \<open>try_finally\<close>, loops).  Exceptions are values of \<open>exn\<close>, one constructor for each exception class the sources
  throw, and \<open>JsError\<close> for everything else.  Mutated objects are passed along as a second component of the
  world (\<open>on_world\<close>, \<open>assign\<close>, \<open>with_object\<close>).  TypeScript enums are datatypes, entities, DTOs and messages
  records with the fields of the source; \<open>null\<close> and \<open>undefined\<close> of a column are \<open>None\<close>.  Numbers are binary64
  values over exact rationals where amounts are computed (\<open>JS_Number\<close>); texts, base-36 numerals, dates and
  JSON are in \<open>JS_Text\<close>.  A class is a record of its methods, constructed from the records of what is injected
  into it.

  \<^bold>\<open>The systems around the services.\<close>  PostgreSQL through TypeORM, Redis, Kafka, Stripe, the gRPC peers and the
  clock are not part of the repository.  They are records of actions over a polymorphic world (\<open>Storage\<close>),
  the arguments of the definitions that use them, and their laws are the assumptions of locales over an
  observation \<open>vw\<close> of the world: a call either does what is documented or throws and changes nothing; it may
  only throw while the systems are not calm; the writes of a transaction appear with the commit; a unique
  column refuses a second row.  The peers of the booking service are not constrained at all: every call and
  its outcome is recorded in the observation.  \<open>Memory\<close>, \<open>Seat_Memory\<close>, \<open>Payment_Memory\<close>, \<open>Booking_Memory\<close>, and
  the property theories of the other services, give executable worlds with a schedule of faults, interpret every locale on them, and are where the
  witnesses evaluate the definitions.

  \<^bold>\<open>seat-inventory-service.\<close>  \<open>Seat_Entities\<close>: entities and the environment.  \<open>Seat_Lock\<close>: the locks in Redis
  (inventory/seat-lock.service.ts), with a prefix of a loop that may fail undone.  \<open>Availability_Read\<close>: the
  read model (cqrs/availability-read.service.ts) and when it equals the table.  \<open>Inventory_Service\<close>: the rows
  of an event and its consumer.  \<open>Hold_Service\<close>: holding, releasing and selling seats
  (hold/hold.service.ts), \<open>Hold_Expiry\<close>: the expiry worker.  \<open>Seat_Controllers\<close>: the gRPC and HTTP handlers.
  \<open>Hold_Properties\<close> holds the properties: what a hold does in every outcome, that holds exclude each other,
  the invariants of tables, locks and read model.

  \<^bold>\<open>payment-service.\<close>  \<open>Payment_Entities\<close>; \<open>Payment_Gateways\<close>: Stripe, Iyzico, the factory and the retry loop;
  \<open>Payment_Service\<close> and \<open>Refund_Service\<close>; \<open>Payment_Http\<close>: the controllers and the interceptor that keeps
  idempotency keys in Redis; \<open>Payment_Properties\<close>: charging, idempotency, refunds and the money that can be lost.

  \<^bold>\<open>booking-service.\<close>  \<open>Booking_Entities\<close>: entities, peers and the observed state.  \<open>Ticket_Service\<close>: tickets.
  \<open>Booking_Orchestrator\<close>: the whole of booking/booking-orchestrator.service.ts and its controller.
  \<open>Booking_Create\<close> and \<open>Booking_Refund\<close>: the contracts of creating a booking and of the refund machine, an
  inductive step relation that the code refines.  \<open>Outbox_Worker\<close>, \<open>Refund_Recovery\<close>: the two schedules.
  \<open>Booking_Invariant\<close>: the invariant \<open>desk_ok\<close> and its preservation.  \<open>Booking_History\<close>: sequences of operations
  (\<open>desk_run\<close>), the growth of the tables along the life cycles of their rows, and the completeness of tickets.
  \<open>Booking_Properties\<close>, \<open>Cancel_Properties\<close>, \<open>Outbox_Properties\<close>, \<open>Booking_Numbers\<close> hold the properties: nobody
  is confirmed without having paid, refunds that finish have done every step, the outbox is delivered, a
  ticket admits once, the amount charged is exact.

  \<^bold>\<open>auth-service.\<close>  \<open>Auth_Entities\<close>; \<open>Auth_Service\<close>: the users (user/user.service.ts), registration, login,
  refresh tokens, verification of addresses and password reset (auth/auth.service.ts) and the controller;
  bcrypt, SHA-256 and the signing of access tokens are parameters, and the clock runs in UTC.  \<open>Auth_Laws\<close>: a
  contract for each operation; \<open>Auth_Properties\<close>: who can log in, what a reset does, that no refresh token is
  ever accepted, how long it lives, and the invariant over sequences of operations.

  \<^bold>\<open>event-service.\<close>  \<open>Event_Service\<close>: venues and events in MongoDB (venue/venue.service.ts,
  event/event.service.ts), the controllers and the message from which seats are made.  \<open>Event_Properties\<close>: what an
  event becomes when the seat-inventory service takes its message, when it never goes on sale, and the invariant.

  \<^bold>\<open>api-gateway and guards.\<close>  \<open>Auth_Guard\<close>: the guards and decorators of libs/auth-guard.  \<open>Gateway\<close>: the rate limit
  (rate-limit/rate-limit.interceptor.ts), the forwarding (proxy/proxy.service.ts) and the proxy controllers, each
  composed of its guards, its limit and its handler.  \<open>Gateway_Limits\<close>: the contracts of the limit and of forwarding;
  \<open>Gateway_Properties\<close>: who gets through, what the services are told of the user, and how many requests fit in a window.

  \<^bold>\<open>notification-service.\<close>  \<open>Template_Engine\<close>: the templates as UTF-8 texts and their rendering.
  \<open>Notification_Service\<close>: notifications and the email adapter (notification/notification.service.ts,
  channels/email.adapter.ts) and the consumers of the messages of the booking and auth services.
  \<open>Notification_Properties\<close>: what is recorded of a mail, what the published messages become, which of them are lost,
  and the invariant.  Handlebars and the SMTP transport are parameters; values of JSON are in \<open>JS_Json\<close>.

  \<^bold>\<open>gRPC stubs.\<close>  \<open>Proto_Wire\<close>: the loop of every decoder, the statements of every encoder and what survives the wire,
  over a writer and a reader of \<^verbatim>\<open>@bufbuild/protobuf\<close> that are parameters.  \<open>Proto_Seat\<close> and \<open>Proto_Payment\<close>: the
  messages and methods of libs/grpc/src/generated.  \<open>Proto_Properties\<close>: an instance of the wire, and that it is
  transparent for every method, so that the models may call the handlers of a peer directly.  (The services take
  the types from these files; the codec that Nest runs is loaded from the same .proto files.)

  \<^bold>\<open>Lemma groups.\<close>  \<open>wp\<close> and \<open>obeys\<close> (\<open>Prelude\<close>) give each action a weakest precondition and each operation a
  relational contract over the observation; the \<open>_wp\<close> and \<open>_law\<close> lemmas of a component are proved inside the
  locale of its environment and combined by its callers; a sublocale states that a service provides the
  interface its callers assume.  The \<open>_ok\<close> lemmas carry invariants through the contracts.

  \<^bold>\<open>Bounds and loops.\<close>  All loops of the sources are bounded by lists or constants and are folds, so every
  definition is total; a decoder reads a byte in each round, so its loop ends on every input.  The retry loop of
  the payment gateway is a fold over its three attempts, and the loop of the refund machine over its five; \<open>refund_loop_terminates\<close> shows that any bound of at least three is the same.

  \<^bold>\<open>Not modelled.\<close>  Handlers are atomic: interleaving within a handler is not modelled, only sequences of
  whole operations; the clock stands still during a handler.  The \<open>updatedAt\<close> columns, logging, validation
  pipes, module wiring, start-up, configuration, the parsing of routes and health endpoints are left out, as are
  overflows of numeric columns.  The middlewares of the gateway whose files start with two underscores, and the
  service registry only they read, are registered by no module.
\<close>

end
